(* ===== verification/Prelude.thy ===== *)
theory Prelude
  imports Complex_Main "HOL-Library.List_Lexorder" "HOL-Library.Word" "HOL-Library.AList"
begin

text \<open>
  The vocabulary every component shares: Python's strings, floats and JSON values, the
  helpers the sources use on lists and dictionaries, and the interface of a table whose
  rows are written once.

  \<^item> A Python string is the list of its code points (\<open>ustr\<close>), because the ledger tells
    NUL characters and lone surrogates apart from the text it can store. \<open>lit\<close> turns an
    ASCII literal into one. Strings are ordered as Python orders them, by code point.
  \<^item> A finite Python float is the rational number it denotes exactly; Python compares
    ints and floats exactly, so comparison and equality are those of \<open>rat\<close>. The other
    floats occur in unvalidated JSON only and are constructors of \<open>pyfloat\<close>.
  \<^item> An aware datetime is its instant, in microseconds. A UUID is its 128-bit value: the
    order of the canonical hexadecimal text is the order of the value.
  \<^item> A dictionary whose order or serialization matters is an association list.
  \<^item> Human-readable messages are datatypes with one constructor per f-string of the
    source, holding the values it interpolates.
\<close>

named_theorems ledger_simps \<open>equations that unfold a component's small operations\<close>
named_theorems table_laws \<open>what a lookup returns after a write\<close>

section \<open>Python values\<close>

type_synonym ustr = "nat list"
type_synonym uuid = "128 word"
type_synonym instant = int

abbreviation lit :: "string \<Rightarrow> ustr" where
  "lit s \<equiv> map of_char s"

datatype pyfloat = Finite rat | PosInf | NegInf | NaN

datatype scalar = SBool bool | SInt int | SFloat rat | SStr ustr

datatype json =
    JNull
  | JBool bool
  | JInt int
  | JFloat pyfloat
  | JStr ustr
  | JList "json list"
  | JObj "(ustr \<times> json) list"

type_synonym json_obj = "(ustr \<times> json) list"

text \<open>Python's \<open>bool(value)\<close> on a scalar.\<close>

fun truthy :: "scalar \<Rightarrow> bool" where
  "truthy (SBool b) = b"
| "truthy (SInt i) = (i \<noteq> 0)"
| "truthy (SFloat r) = (r \<noteq> 0)"
| "truthy (SStr s) = (s \<noteq> [])"

text \<open>
  The operations of \<open>str\<close> the sources use: \<open>startswith\<close>, \<open>removeprefix\<close>, \<open>in\<close>, and
  \<open>lower\<close> on ASCII letters. (The only other code points whose lower case holds an ASCII
  letter are U+0130 and U+212A; neither can complete one of the words the sources look
  for.)
\<close>

fun starts_with :: "ustr \<Rightarrow> ustr \<Rightarrow> bool" where
  "starts_with [] s = True"
| "starts_with (p # ps) [] = False"
| "starts_with (p # ps) (c # cs) = (p = c \<and> starts_with ps cs)"

definition remove_prefix :: "ustr \<Rightarrow> ustr \<Rightarrow> ustr" where
  "remove_prefix p s = (if starts_with p s then drop (length p) s else s)"

fun contains :: "ustr \<Rightarrow> ustr \<Rightarrow> bool" where
  "contains w [] = (w = [])"
| "contains w (c # cs) = (starts_with w (c # cs) \<or> contains w cs)"

definition lower :: "ustr \<Rightarrow> ustr" where
  "lower = map (\<lambda>c. if 65 \<le> c \<and> c \<le> 90 then c + 32 else c)"

lemma starts_with_append [simp]: "starts_with p (p @ s)"
  by (induction p) auto

lemma starts_with_iff: "starts_with p s \<longleftrightarrow> (\<exists>t. s = p @ t)"
  by (induction p s rule: starts_with.induct) auto

lemma remove_prefix_append [simp]: "remove_prefix p (p @ s) = s"
  by (simp add: remove_prefix_def)

section \<open>Results\<close>

text \<open>A Python call that may raise returns \<open>Inl\<close> the exception or \<open>Inr\<close> the value.\<close>

fun rbind :: "'e + 'a \<Rightarrow> ('a \<Rightarrow> 'e + 'b) \<Rightarrow> 'e + 'b" where
  "rbind (Inl e) f = Inl e"
| "rbind (Inr x) f = f x"

lemma rbind_Inr_iff [simp]: "rbind x f = Inr y \<longleftrightarrow> (\<exists>v. x = Inr v \<and> f v = Inr y)"
  by (cases x) auto

lemma rbind_Inl_iff: "rbind x f = Inl e \<longleftrightarrow> x = Inl e \<or> (\<exists>v. x = Inr v \<and> f v = Inl e)"
  by (cases x) auto

lemma rbind_cong:
  "x = y \<Longrightarrow> (\<And>v. y = Inr v \<Longrightarrow> f v = g v) \<Longrightarrow> rbind x f = rbind y g"
  by (cases y) auto

text \<open>A comprehension or loop whose body may raise: the results in order, or the first exception.\<close>

fun rmap :: "('a \<Rightarrow> 'e + 'b) \<Rightarrow> 'a list \<Rightarrow> 'e + 'b list" where
  "rmap f [] = Inr []"
| "rmap f (x # xs) = rbind (f x) (\<lambda>y. rbind (rmap f xs) (\<lambda>ys. Inr (y # ys)))"

lemma rmap_Inr: "(\<And>x. x \<in> set xs \<Longrightarrow> f x = Inr (g x)) \<Longrightarrow> rmap f xs = Inr (map g xs)"
  by (induction xs) auto

lemma rmap_cong: "(\<And>x. x \<in> set xs \<Longrightarrow> f x = g x) \<Longrightarrow> rmap f xs = rmap g xs"
  by (induction xs) auto

lemma rmap_Inr_nth:
  "rmap f xs = Inr ys \<longleftrightarrow> length xs = length ys \<and> (\<forall>i < length xs. f (xs ! i) = Inr (ys ! i))"
proof (induction xs arbitrary: ys)
  case (Cons x xs)
  show ?case
  proof (cases ys)
    case (Cons y ys')
    then show ?thesis by (auto simp: Cons.IH nth_Cons split: nat.splits)
  qed auto
qed auto

text \<open>A loop that only checks: the first exception, or nothing.\<close>

fun rcheck :: "('a \<Rightarrow> 'e + unit) \<Rightarrow> 'a list \<Rightarrow> 'e + unit" where
  "rcheck f [] = Inr ()"
| "rcheck f (x # xs) = rbind (f x) (\<lambda>_. rcheck f xs)"

lemma rcheck_Inr_iff [simp]: "rcheck f xs = Inr u \<longleftrightarrow> (\<forall>x \<in> set xs. f x = Inr ())"
  by (induction xs) auto

section \<open>Lists and dictionaries as Python uses them\<close>

text \<open>\<open>sorted({x for x in xs if xs.count(x) > 1})\<close>: the values that occur more than once.\<close>

definition repeated :: "'a::linorder list \<Rightarrow> 'a list" where
  "repeated xs = sort (remdups (filter (\<lambda>x. 1 < count_list xs x) xs))"

lemma count_list_le_1_iff: "(\<forall>x \<in> set xs. count_list xs x \<le> 1) \<longleftrightarrow> distinct xs"
proof (induction xs)
  case (Cons a xs)
  have "(\<forall>x \<in> set (a # xs). count_list (a # xs) x \<le> 1)
      \<longleftrightarrow> a \<notin> set xs \<and> (\<forall>x \<in> set xs. count_list xs x \<le> 1)"
    by (auto simp: count_list_0_iff)
  with Cons.IH show ?case by simp
qed simp

lemma repeated_Nil_iff [simp]: "repeated xs = [] \<longleftrightarrow> distinct xs"
proof -
  have "repeated xs = [] \<longleftrightarrow> (\<forall>x \<in> set xs. count_list xs x \<le> 1)"
    by (auto simp: repeated_def filter_empty_conv not_less
        dest: arg_cong [where f = set])
  also have "\<dots> \<longleftrightarrow> distinct xs" by (rule count_list_le_1_iff)
  finally show ?thesis .
qed

text \<open>\<open>max(xs, key=key)\<close>: the first of the elements with the greatest key.\<close>

fun max_by :: "('a \<Rightarrow> 'k::linorder) \<Rightarrow> 'a list \<Rightarrow> 'a option" where
  "max_by key [] = None"
| "max_by key (x # xs) =
     (case max_by key xs of
        None \<Rightarrow> Some x
      | Some m \<Rightarrow> if key x < key m then Some m else Some x)"

lemma max_by_None_iff [simp]: "max_by key xs = None \<longleftrightarrow> xs = []"
  by (cases xs) (auto split: option.splits)

lemma max_by_in: "max_by key xs = Some m \<Longrightarrow> m \<in> set xs"
  by (induction xs arbitrary: m) (auto split: option.splits if_splits)

lemma max_by_ge: "max_by key xs = Some m \<Longrightarrow> x \<in> set xs \<Longrightarrow> key x \<le> key m"
proof (induction xs arbitrary: m)
  case (Cons y ys)
  show ?case
  proof (cases "max_by key ys")
    case None
    with Cons.prems show ?thesis by simp
  next
    case (Some m')
    with Cons.IH [OF Some] Cons.prems show ?thesis by (fastforce split: if_splits)
  qed
qed simp

text \<open>\<open>next((x for x in xs if p(x)), None)\<close> is \<open>find\<close>; with unique keys it finds the element.\<close>

lemma find_unique:
  "distinct (map f xs) \<Longrightarrow> x \<in> set xs \<Longrightarrow> find (\<lambda>y. f y = f x) xs = Some x"
  by (induction xs) (auto dest: image_eqI [where f = f])

lemma find_in_set: "find p xs = Some x \<Longrightarrow> x \<in> set xs \<and> p x"
  by (auto simp: find_Some_iff)

lemma map_of_sort_key:
  assumes "distinct (map fst xs)"
  shows "map_of (sort_key fst xs) = map_of xs"
proof -
  have "distinct (map fst (sort_key fst xs))" using assms by (simp add: distinct_map)
  with assms show ?thesis by (simp add: map_of_inject_set)
qed

section \<open>Tables whose rows are written once\<close>

text \<open>
  The contract of an \<open>INSERT ... ON CONFLICT (key) DO NOTHING\<close> table: a write stores a new
  key's row, leaves a held key's row as it is, and touches no other key. The bundle table,
  the registration snapshots and the evidence escrow all promise it, and every claim that
  the ledger never changes what it recorded rests on the lemmas proved here once.
\<close>

locale write_once =
  fixes look :: "'s \<Rightarrow> 'k \<Rightarrow> 'v option"
    and put :: "'k \<Rightarrow> 'v \<Rightarrow> 's \<Rightarrow> 's"
  assumes put_new: "look s k = None \<Longrightarrow> look (put k v s) k = Some v"
    and put_held: "look s k = Some w \<Longrightarrow> look (put k v s) k = Some w"
    and put_other: "k' \<noteq> k \<Longrightarrow> look (put k v s) k' = look s k'"
begin

lemma look_put:
  "look (put k v s) k' = (if k' = k \<and> look s k = None then Some v else look s k')"
  by (cases "look s k"; cases "k' = k") (simp_all add: put_new put_held put_other)

lemma held_stays: "look s k = Some v \<Longrightarrow> look (put k' v' s) k = Some v"
  by (auto simp: look_put)

lemma put_again: "look (put k v (put k w s)) k' = look (put k w s) k'"
  by (cases "look s k") (auto simp: look_put)

lemma look_puts:
  "look (fold (\<lambda>(k, v). put k v) rows s) k
   = (case look s k of Some v \<Rightarrow> Some v | None \<Rightarrow> map_of rows k)"
proof (induction rows arbitrary: s)
  case (Cons row rows)
  obtain k' v' where "row = (k', v')" by (cases row)
  with Cons.IH [of "put k' v' s"] show ?case
    by (cases "look s k") (auto simp: look_put)
qed (simp split: option.split)

lemma held_stays_puts: "look s k = Some v \<Longrightarrow> look (fold (\<lambda>(k, v). put k v) rows s) k = Some v"
  by (simp add: look_puts)

end

text \<open>The map update that keeps a held row, the model of such an insert.\<close>

definition insert_new :: "'k \<Rightarrow> 'v \<Rightarrow> ('k \<rightharpoonup> 'v) \<Rightarrow> ('k \<rightharpoonup> 'v)" where
  "insert_new k v t = (case t k of None \<Rightarrow> t(k \<mapsto> v) | Some _ \<Rightarrow> t)"

interpretation row_map: write_once "\<lambda>t. t" insert_new
  by unfold_locales (auto simp: insert_new_def split: option.splits)

lemma insert_new_None_iff [table_laws]:
  "insert_new k v t k' = None \<longleftrightarrow> t k' = None \<and> k' \<noteq> k"
  by (auto simp: insert_new_def split: option.splits)

section \<open>Invariants\<close>

text \<open>
  A component with state is a step relation, and a property every step keeps holds along
  every sequence of steps. The registry and the audit ledger interpret this interface.
\<close>

locale kept =
  fixes step :: "'s \<Rightarrow> 's \<Rightarrow> bool"
    and inv :: "'s \<Rightarrow> bool"
  assumes keeps: "step s t \<Longrightarrow> inv s \<Longrightarrow> inv t"
begin

lemma along: "step\<^sup>*\<^sup>* s t \<Longrightarrow> inv s \<Longrightarrow> inv t"
  by (induction rule: rtranclp_induct) (auto intro: keeps)

end

text \<open>The same for a relation between the first state and the present one.\<close>

locale advancing =
  fixes step :: "'s \<Rightarrow> 's \<Rightarrow> bool"
    and rel :: "'s \<Rightarrow> 's \<Rightarrow> bool"
  assumes rel_refl: "rel s s"
    and rel_trans: "rel s t \<Longrightarrow> rel t u \<Longrightarrow> rel s u"
    and advances: "step s t \<Longrightarrow> rel s t"
begin

lemma along: "step\<^sup>*\<^sup>* s t \<Longrightarrow> rel s t"
  by (induction rule: rtranclp_induct) (auto intro: rel_refl rel_trans advances)

end

end
