(* ===== verification/Actions.thy ===== *)
theory Actions
  imports Prelude
begin

text \<open>
  \<open>core/actions.py\<close> and \<open>core/gate/combinator.py\<close>: the four decision actions, their
  severity ranking, and the conjunction combinator that reduces a proposal and the
  enforced actions of a gate set to the most restrictive of them.

  The type class instance orders actions by severity, never by the text of the enum
  member (which the source warns against), so the library's \<open>max\<close> and \<open>Max\<close> speak about
  restrictiveness. The locale \<open>conjunction_combinator\<close> is what enforcement relies on.
\<close>

section \<open>The actions and their severity\<close>

datatype decision_action = ALLOW | CHALLENGE | HOLD | BLOCK

definition SEVERITY_ORDER :: "decision_action list" where
  "SEVERITY_ORDER = [ALLOW, CHALLENGE, HOLD, BLOCK]"

definition RANK :: "decision_action \<rightharpoonup> nat" where
  "RANK = map_of (zip SEVERITY_ORDER [0..<length SEVERITY_ORDER])"

definition severity :: "decision_action \<Rightarrow> nat" where
  "severity action = the (RANK action)"

text \<open>Every action is ranked, so the dictionary lookup of \<open>severity\<close> never raises.\<close>

lemma RANK_total: "dom RANK = UNIV"
proof -
  have "RANK a \<noteq> None" for a
    by (cases a) (simp_all add: RANK_def SEVERITY_ORDER_def)
  then show ?thesis by auto
qed

lemma severity_simps [simp]:
  "severity ALLOW = 0" "severity CHALLENGE = 1" "severity HOLD = 2" "severity BLOCK = 3"
  by (simp_all add: severity_def RANK_def SEVERITY_ORDER_def)

lemma severity_inj [simp]: "severity a = severity b \<longleftrightarrow> a = b"
  by (cases a; cases b) simp_all

instantiation decision_action :: linorder
begin

definition less_eq_decision_action :: "decision_action \<Rightarrow> decision_action \<Rightarrow> bool" where
  "less_eq_decision_action a b \<longleftrightarrow> severity a \<le> severity b"

definition less_decision_action :: "decision_action \<Rightarrow> decision_action \<Rightarrow> bool" where
  "less_decision_action a b \<longleftrightarrow> severity a < severity b"

instance
  by standard (auto simp: less_eq_decision_action_def less_decision_action_def)

end

instantiation decision_action :: "{order_bot, order_top}"
begin

definition bot_decision_action :: decision_action where
  "bot_decision_action = ALLOW"

definition top_decision_action :: decision_action where
  "top_decision_action = BLOCK"

instance
proof
  fix a :: decision_action
  show "bot \<le> a"
    by (simp add: less_eq_decision_action_def bot_decision_action_def)
  show "a \<le> top"
    by (cases a) (simp_all add: less_eq_decision_action_def top_decision_action_def)
qed

end

lemma action_le_iff: "(a::decision_action) \<le> b \<longleftrightarrow> severity a \<le> severity b"
  by (simp add: less_eq_decision_action_def)

lemma action_less_iff: "(a::decision_action) < b \<longleftrightarrow> severity a < severity b"
  by (simp add: less_decision_action_def)

lemma action_le_BLOCK [simp]: "(a::decision_action) \<le> BLOCK"
  using top_greatest [of a] by (simp add: top_decision_action_def)

lemma ALLOW_le_action [simp]: "ALLOW \<le> (a::decision_action)"
  using bot_least [of a] by (simp add: bot_decision_action_def)

lemma BLOCK_le_iff [simp]: "BLOCK \<le> a \<longleftrightarrow> a = BLOCK"
  by (cases a) (simp_all add: action_le_iff)

lemma HOLD_le_iff: "HOLD \<le> a \<longleftrightarrow> a = HOLD \<or> a = BLOCK"
  by (cases a) (simp_all add: action_le_iff)

section \<open>The combinator\<close>

datatype combinator_error = NothingToCombine

definition most_restrictive ::
    "decision_action option \<Rightarrow> decision_action list \<Rightarrow> combinator_error + decision_action" where
  "most_restrictive proposed enforced =
     (let candidates = (case proposed of None \<Rightarrow> [] | Some p \<Rightarrow> [p]) @ enforced
      in case max_by severity candidates of
           None \<Rightarrow> Inl NothingToCombine
         | Some m \<Rightarrow> Inr m)"

text \<open>
  The combinator's contract, over the actions that enter it (the proposal, when there is
  one, and the enforced actions): it fails only with nothing to combine, and what it
  returns is one of them and at least as restrictive as all of them.
\<close>

locale conjunction_combinator =
  fixes combine :: "'a::linorder option \<Rightarrow> 'a list \<Rightarrow> 'e + 'a"
  assumes combine_total: "p \<noteq> None \<or> es \<noteq> [] \<Longrightarrow> \<exists>m. combine p es = Inr m"
    and combine_none: "\<exists>e. combine None [] = Inl e"
    and combine_member: "combine p es = Inr m \<Longrightarrow> m \<in> set_option p \<union> set es"
    and combine_upper: "combine p es = Inr m \<Longrightarrow> a \<in> set_option p \<union> set es \<Longrightarrow> a \<le> m"
begin

lemma combine_eq_Max:
  assumes "p \<noteq> None \<or> es \<noteq> []"
  shows "combine p es = Inr (Max (set_option p \<union> set es))"
proof -
  obtain m where m: "combine p es = Inr m" using combine_total [OF assms] by blast
  have "Max (set_option p \<union> set es) = m"
    using combine_member [OF m] combine_upper [OF m] by (intro Max_eqI) auto
  with m show ?thesis by simp
qed

lemma combine_returns_iff: "(\<exists>m. combine p es = Inr m) \<longleftrightarrow> p \<noteq> None \<or> es \<noteq> []"
  using combine_total combine_none by (metis Inl_Inr_False)

lemma combine_set_cong:
  assumes "set es = set es'"
  shows "combine p es = combine p es'"
proof (cases "p \<noteq> None \<or> es \<noteq> []")
  case True
  with assms have "p \<noteq> None \<or> es' \<noteq> []" by auto
  with True assms show ?thesis by (simp add: combine_eq_Max)
next
  case False
  with assms show ?thesis by simp
qed

lemma combine_mono:
  assumes "combine p es = Inr m" "combine p' es' = Inr m'"
    and "\<forall>a \<in> set_option p \<union> set es. \<exists>b \<in> set_option p' \<union> set es'. a \<le> b"
  shows "m \<le> m'"
proof -
  obtain b where "b \<in> set_option p' \<union> set es'" "m \<le> b"
    using assms(3) combine_member [OF assms(1)] by blast
  with combine_upper [OF assms(2)] show ?thesis by (blast intro: order.trans)
qed

text \<open>
  A specification may name more contributions than the program combines, as long as each of
  them is dominated by one the program does combine.
\<close>

lemma combine_eq_Max_cover:
  assumes "finite C" "C \<noteq> {}" "set_option p \<union> set es \<subseteq> C"
    and dominated: "\<And>c. c \<in> C \<Longrightarrow> \<exists>d \<in> set_option p \<union> set es. c \<le> d"
  shows "combine p es = Inr (Max C)"
proof -
  let ?D = "set_option p \<union> set es"
  obtain c where "c \<in> C" using assms(2) by auto
  then have "p \<noteq> None \<or> es \<noteq> []" using dominated [of c] by auto
  then have "combine p es = Inr (Max ?D)" by (rule combine_eq_Max)
  moreover have "Max ?D = Max C"
  proof (rule Max_eq_if)
    show "\<forall>m \<in> ?D. \<exists>n \<in> C. m \<le> n" using assms(3) by (meson order_refl subsetD)
    show "\<forall>n \<in> C. \<exists>m \<in> ?D. n \<le> m" using dominated by simp
  qed (use assms(1) in simp_all)
  ultimately show ?thesis by simp
qed

lemma combine_absorbs:
  assumes "combine p es = Inr m" "t \<in> set_option p \<union> set es" "\<And>a. a \<le> t"
  shows "m = t"
  using combine_upper [OF assms(1,2)] assms(3) by (rule antisym[rotated])

lemma combine_drop_dominated:
  assumes "combine p (es @ ds) = Inr m" "t \<in> set_option p \<union> set es" "\<And>a. a \<le> t"
  shows "combine p es = Inr m"
proof -
  have "m = t" using combine_absorbs [OF assms(1) _ assms(3)] assms(2) by auto
  moreover obtain n where n: "combine p es = Inr n"
    using assms(2) combine_returns_iff [of p es] by (cases p; cases es) auto
  moreover have "n = t" using combine_absorbs [OF n assms(2,3)] .
  ultimately show ?thesis by simp
qed

end

lemma most_restrictive_cases:
  "most_restrictive p es =
     (case max_by severity (case_option [] (\<lambda>a. [a]) p @ es) of
        None \<Rightarrow> Inl NothingToCombine | Some m \<Rightarrow> Inr m)"
  by (simp add: most_restrictive_def Let_def)

interpretation cc: conjunction_combinator most_restrictive
proof
  fix p es m and a :: decision_action
  show "p \<noteq> None \<or> es \<noteq> [] \<Longrightarrow> \<exists>m. most_restrictive p es = Inr m"
    by (cases "max_by severity (case_option [] (\<lambda>a. [a]) p @ es)")
      (auto simp: most_restrictive_cases split: option.splits)
  show "\<exists>e. most_restrictive None [] = Inl e"
    by (simp add: most_restrictive_def)
  assume "most_restrictive p es = Inr m"
  then have m: "max_by severity (case_option [] (\<lambda>a. [a]) p @ es) = Some m"
    by (auto simp: most_restrictive_cases split: option.splits)
  show "m \<in> set_option p \<union> set es"
    using max_by_in [OF m] by (auto split: option.splits)
  show "a \<in> set_option p \<union> set es \<Longrightarrow> a \<le> m"
    using max_by_ge [OF m] by (auto simp: action_le_iff split: option.splits)
qed

text \<open>The combinator on the actions of a non-empty list, as the sources also use \<open>max\<close>.\<close>

lemma max_by_severity: "xs \<noteq> [] \<Longrightarrow> max_by severity xs = Some (Max (set xs))"
  using cc.combine_eq_Max [of None xs]
  by (cases "max_by severity xs") (auto simp: most_restrictive_cases)

end
