(* ===== verification/Storable.thy ===== *)
theory Storable
  imports Prelude
begin

text \<open>
  What the ledger can store (\<open>storage_problem\<close> of \<open>core/submission.py\<close>) and the escaping that
  makes a message storable (\<open>_storable_text\<close> of \<open>app/gates.py\<close> and
  \<open>app/identity/resolvers.py\<close>). Bundles are JSON in Postgres \<open>jsonb\<close>, which holds no NUL
  character, no lone surrogate and no non-finite number.
\<close>

section \<open>The check\<close>

datatype storage_issue =
    NulCharacter
  | LoneSurrogate
  | NonFinite pyfloat
  | DoesNotRoundTrip
  | NotSerializable ustr

definition surrogate :: "nat \<Rightarrow> bool" where
  "surrogate c \<longleftrightarrow> 0xD800 \<le> c \<and> c \<le> 0xDFFF"

definition text_problem :: "ustr \<Rightarrow> storage_issue option" where
  "text_problem s =
     (if 0 \<in> set s then Some NulCharacter
      else if list_ex surrogate s then Some LoneSurrogate
      else None)"

fun float_problem :: "pyfloat \<Rightarrow> storage_issue option" where
  "float_problem (Finite r) = None"
| "float_problem x = Some (NonFinite x)"

text \<open>\<open>a or b\<close> on optional problems: the first that is one.\<close>

fun first_problem :: "'a option \<Rightarrow> 'a option \<Rightarrow> 'a option" where
  "first_problem (Some e) y = Some e"
| "first_problem None y = y"

lemma first_problem_None_iff [simp]: "first_problem x y = None \<longleftrightarrow> x = None \<and> y = None"
  by (cases x) auto

fun storage_problem :: "json \<Rightarrow> storage_issue option"
  and items_problem :: "json list \<Rightarrow> storage_issue option"
  and pairs_problem :: "json_obj \<Rightarrow> storage_issue option" where
  "storage_problem (JStr s) = text_problem s"
| "storage_problem (JFloat x) = float_problem x"
| "storage_problem (JObj kvs) = pairs_problem kvs"
| "storage_problem (JList xs) = items_problem xs"
| "storage_problem JNull = None"
| "storage_problem (JBool b) = None"
| "storage_problem (JInt i) = None"
| "items_problem [] = None"
| "items_problem (x # xs) = first_problem (storage_problem x) (items_problem xs)"
| "pairs_problem [] = None"
| "pairs_problem ((k, v) # kvs) =
     first_problem (first_problem (text_problem k) (storage_problem v)) (pairs_problem kvs)"

section \<open>What it accepts\<close>

text \<open>The values a JSON document is made of: its strings (keys included) and its floats.\<close>

fun strings_of :: "json \<Rightarrow> ustr set" where
  "strings_of (JStr s) = {s}"
| "strings_of (JList xs) = (\<Union>x \<in> set xs. strings_of x)"
| "strings_of (JObj kvs) = fst ` set kvs \<union> (\<Union>(k, v) \<in> set kvs. strings_of v)"
| "strings_of _ = {}"

fun floats_of :: "json \<Rightarrow> pyfloat set" where
  "floats_of (JFloat x) = {x}"
| "floats_of (JList xs) = (\<Union>x \<in> set xs. floats_of x)"
| "floats_of (JObj kvs) = (\<Union>(k, v) \<in> set kvs. floats_of v)"
| "floats_of _ = {}"

definition storable_string :: "ustr \<Rightarrow> bool" where
  "storable_string s \<longleftrightarrow> (\<forall>c \<in> set s. c \<noteq> 0 \<and> \<not> surrogate c)"

definition storable :: "json \<Rightarrow> bool" where
  "storable j \<longleftrightarrow> (\<forall>s \<in> strings_of j. storable_string s) \<and> (\<forall>x \<in> floats_of j. \<exists>r. x = Finite r)"

lemma text_problem_None_iff [simp]: "text_problem s = None \<longleftrightarrow> storable_string s"
  by (simp add: text_problem_def storable_string_def list_ex_iff) (metis gr0I)

lemma float_problem_None_iff [simp]: "float_problem x = None \<longleftrightarrow> (\<exists>r. x = Finite r)"
  by (cases x) auto

lemma storable_simps [simp]:
  "storable JNull" "storable (JBool b)" "storable (JInt i)"
  "storable (JStr s) \<longleftrightarrow> storable_string s"
  "storable (JFloat x) \<longleftrightarrow> (\<exists>r. x = Finite r)"
  "storable (JList xs) \<longleftrightarrow> (\<forall>x \<in> set xs. storable x)"
  by (auto simp: storable_def)

lemma storable_JObj [simp]:
  "storable (JObj kvs) \<longleftrightarrow> (\<forall>kv \<in> set kvs. storable_string (fst kv) \<and> storable (snd kv))"
  unfolding storable_def by (simp add: ball_Un ball_UN case_prod_beta) blast

lemma storage_problem_None_iff:
  shows "storage_problem j = None \<longleftrightarrow> storable j"
    and "items_problem xs = None \<longleftrightarrow> (\<forall>x \<in> set xs. storable x)"
    and "pairs_problem kvs = None \<longleftrightarrow>
      (\<forall>kv \<in> set kvs. storable_string (fst kv) \<and> storable (snd kv))"
  by (induction j and xs and kvs rule: storage_problem_items_problem_pairs_problem.induct) auto

section \<open>Escaping a message\<close>

text \<open>\<open>backslashreplace\<close> writes a surrogate as \<open>\uXXXX\<close>; a NUL is then written \<open>\x00\<close>.\<close>

definition hex_digit :: "nat \<Rightarrow> nat" where
  "hex_digit d = (if d < 10 then 48 + d else 87 + d)"

definition hex4 :: "nat \<Rightarrow> ustr" where
  "hex4 c = map (\<lambda>i. hex_digit ((c div 16 ^ i) mod 16)) [3, 2, 1, 0]"

definition backslashreplace :: "ustr \<Rightarrow> ustr" where
  "backslashreplace s = concat (map (\<lambda>c. if surrogate c then [92, 117] @ hex4 c else [c]) s)"

definition replace_nul :: "ustr \<Rightarrow> ustr" where
  "replace_nul s = concat (map (\<lambda>c. if c = 0 then [92, 120, 48, 48] else [c]) s)"

definition storable_text :: "ustr \<Rightarrow> ustr" where
  "storable_text s = replace_nul (backslashreplace s)"

lemma hex_digit_range: "d < 16 \<Longrightarrow> 48 \<le> hex_digit d \<and> hex_digit d < 103"
  by (auto simp: hex_digit_def)

lemma storable_hex4: "storable_string (hex4 c)"
proof -
  have "48 \<le> hex_digit (n mod 16) \<and> hex_digit (n mod 16) < 103" for n
    by (rule hex_digit_range) simp
  then have "x < 103 \<and> 48 \<le> x" if "x \<in> set (hex4 c)" for x
    using that by (auto simp: hex4_def simp del: One_nat_def)
  then show ?thesis by (force simp: storable_string_def surrogate_def)
qed

lemma storable_string_append [simp]:
  "storable_string (s @ t) \<longleftrightarrow> storable_string s \<and> storable_string t"
  by (auto simp: storable_string_def)

lemma storable_string_Nil [simp]: "storable_string []"
  by (simp add: storable_string_def)

lemma storable_string_Cons [simp]:
  "storable_string (c # s) \<longleftrightarrow> c \<noteq> 0 \<and> \<not> surrogate c \<and> storable_string s"
  by (auto simp: storable_string_def)

lemma storable_text_Cons:
  "storable_text (c # s) =
     (if surrogate c then [92, 117] @ replace_nul (hex4 c)
      else if c = 0 then [92, 120, 48, 48] else [c]) @ storable_text s"
  by (auto simp: storable_text_def backslashreplace_def replace_nul_def surrogate_def)

lemma replace_nul_storable: "storable_string s \<Longrightarrow> replace_nul s = s"
  by (induction s) (auto simp: replace_nul_def)

lemma storable_text_storable: "storable_string (storable_text s)"
proof (induction s)
  case Nil
  show ?case by (simp add: storable_text_def backslashreplace_def replace_nul_def)
next
  case (Cons c s)
  then show ?case
    using storable_hex4 [of c]
    by (auto simp: storable_text_Cons replace_nul_storable) (simp_all add: surrogate_def)
qed

lemma storable_text_id: "storable_string s \<Longrightarrow> storable_text s = s"
  by (induction s)
    (auto simp: storable_text_Cons storable_text_def backslashreplace_def replace_nul_def)

lemma storable_text_Nil_iff: "storable_text s = [] \<longleftrightarrow> s = []"
proof (cases s)
  case Nil
  then show ?thesis by (simp add: storable_text_def backslashreplace_def replace_nul_def)
next
  case (Cons c t)
  then show ?thesis by (simp add: storable_text_Cons)
qed

end
