(* ===== verification/Predicate_Language.thy ===== *)
theory Predicate_Language
  imports Prelude
begin

text \<open>
  \<open>core/gate/predicate.py\<close>: the closed predicate language the rules gate and registered
  bypass rules share. A predicate is a tree of comparisons over a subject's prediction
  (\<open>label_value\<close>) and feature snapshot (\<open>feature_set\<close>); evaluation is pure, short-circuits
  left to right, and raises \<open>PredicateError\<close> rather than guess.
\<close>

section \<open>Syntax and validation\<close>

record predicate_subject =
  label_value :: scalar
  feature_set :: "(ustr \<times> scalar) list"

datatype compare_op = Eq | Ne | Lt | Le | Gt | Ge | In | NotIn

datatype compare_value = VScalar scalar | VList "scalar list"

datatype predicate =
    Compare ustr compare_op compare_value
  | AllOf "predicate list"
  | AnyOf "predicate list"
  | NotP predicate

definition LABEL_FIELD :: ustr where
  "LABEL_FIELD = lit ''label_value''"

definition FEATURE_PREFIX :: ustr where
  "FEATURE_PREFIX = lit ''feature_set.''"

definition ORDERING_OPS :: "compare_op set" where
  "ORDERING_OPS = {Lt, Le, Gt, Ge}"

definition MEMBERSHIP_OPS :: "compare_op set" where
  "MEMBERSHIP_OPS = {In, NotIn}"

fun is_number :: "scalar \<Rightarrow> bool" where
  "is_number (SInt i) = True"
| "is_number (SFloat r) = True"
| "is_number (SBool b) = False"
| "is_number (SStr s) = False"

definition field_is_addressable :: "ustr \<Rightarrow> bool" where
  "field_is_addressable field \<longleftrightarrow>
     field = LABEL_FIELD
     \<or> (starts_with FEATURE_PREFIX field \<and> length FEATURE_PREFIX < length field)"

definition value_fits_op :: "compare_op \<Rightarrow> compare_value \<Rightarrow> bool" where
  "value_fits_op op v =
     (if op \<in> MEMBERSHIP_OPS
      then (case v of VList xs \<Rightarrow> xs \<noteq> [] | VScalar _ \<Rightarrow> False)
      else (case v of
              VList _ \<Rightarrow> False
            | VScalar s \<Rightarrow> \<not> (op \<in> ORDERING_OPS \<and> \<not> is_number s)))"

fun predicate_valid :: "predicate \<Rightarrow> bool" where
  "predicate_valid (Compare field op v) = (field_is_addressable field \<and> value_fits_op op v)"
| "predicate_valid (AllOf ps) = (ps \<noteq> [] \<and> list_all predicate_valid ps)"
| "predicate_valid (AnyOf ps) = (ps \<noteq> [] \<and> list_all predicate_valid ps)"
| "predicate_valid (NotP p) = predicate_valid p"

section \<open>Evaluation\<close>

text \<open>
  \<open>PredicateError\<close> is the source's exception, with what it reports. An ordering
  comparison whose constant is not a number is Python's \<open>TypeError\<close>; validation rules it
  out, and it is a branch of the model all the same.
\<close>

datatype predicate_reason = NoSuchFeature ustr | NeedsNumber ustr scalar compare_op

datatype predicate_error = PredicateError predicate_reason | PyTypeError

type_synonym 'a predicate_result = "predicate_error + 'a"

definition resolve_field ::
    "ustr \<Rightarrow> 'a predicate_subject_scheme \<Rightarrow> scalar predicate_result" where
  "resolve_field field subject =
     (if field = LABEL_FIELD then Inr (label_value subject)
      else let key = remove_prefix FEATURE_PREFIX field
           in case map_of (feature_set subject) key of
                Some v \<Rightarrow> Inr v
              | None \<Rightarrow> Inl (PredicateError (NoSuchFeature key)))"

text \<open>The number a comparison operand is to Python, where a boolean is 0 or 1.\<close>

fun as_number :: "scalar \<Rightarrow> rat option" where
  "as_number (SBool b) = Some (if b then 1 else 0)"
| "as_number (SInt i) = Some (of_int i)"
| "as_number (SFloat r) = Some r"
| "as_number (SStr s) = None"

fun is_bool :: "scalar \<Rightarrow> bool" where
  "is_bool (SBool b) = True"
| "is_bool _ = False"

definition scalar_equal :: "scalar \<Rightarrow> scalar \<Rightarrow> bool" where
  "scalar_equal actual expected =
     (if is_bool actual \<or> is_bool expected
      then is_bool actual \<and> is_bool expected \<and> as_number actual = as_number expected
      else if is_number actual \<and> is_number expected
      then as_number actual = as_number expected
      else (case (actual, expected) of (SStr a, SStr b) \<Rightarrow> a = b | _ \<Rightarrow> False))"

definition compare_scalar ::
    "ustr \<Rightarrow> compare_op \<Rightarrow> compare_value \<Rightarrow> scalar \<Rightarrow> bool predicate_result" where
  "compare_scalar field op v actual =
     (case v of
        VList expected \<Rightarrow>
          let found = list_ex (\<lambda>candidate. scalar_equal actual candidate) expected
          in Inr (if op = In then found else \<not> found)
      | VScalar expected \<Rightarrow>
          if op = Eq then Inr (scalar_equal actual expected)
          else if op = Ne then Inr (\<not> scalar_equal actual expected)
          else if \<not> is_number actual then Inl (PredicateError (NeedsNumber field actual op))
          else (case (as_number actual, as_number expected) of
                  (Some left, Some right) \<Rightarrow>
                    Inr (if op = Lt then left < right
                         else if op = Le then left \<le> right
                         else if op = Gt then left > right
                         else left \<ge> right)
                | _ \<Rightarrow> Inl PyTypeError))"

fun evaluate_predicate ::
      "predicate \<Rightarrow> 'a predicate_subject_scheme \<Rightarrow> bool predicate_result"
  and evaluate_all ::
      "predicate list \<Rightarrow> 'a predicate_subject_scheme \<Rightarrow> bool predicate_result"
  and evaluate_any ::
      "predicate list \<Rightarrow> 'a predicate_subject_scheme \<Rightarrow> bool predicate_result" where
  "evaluate_predicate (Compare field op v) subject =
     rbind (resolve_field field subject) (compare_scalar field op v)"
| "evaluate_predicate (AllOf ps) subject = evaluate_all ps subject"
| "evaluate_predicate (AnyOf ps) subject = evaluate_any ps subject"
| "evaluate_predicate (NotP p) subject = rbind (evaluate_predicate p subject) (\<lambda>b. Inr (\<not> b))"
| "evaluate_all [] subject = Inr True"
| "evaluate_all (p # ps) subject =
     rbind (evaluate_predicate p subject) (\<lambda>b. if b then evaluate_all ps subject else Inr False)"
| "evaluate_any [] subject = Inr False"
| "evaluate_any (p # ps) subject =
     rbind (evaluate_predicate p subject) (\<lambda>b. if b then Inr True else evaluate_any ps subject)"

fun referenced_fields :: "predicate \<Rightarrow> ustr list" where
  "referenced_fields (Compare field op v) = [field]"
| "referenced_fields (AllOf ps) = concat (map referenced_fields ps)"
| "referenced_fields (AnyOf ps) = concat (map referenced_fields ps)"
| "referenced_fields (NotP p) = referenced_fields p"

section \<open>What evaluation depends on\<close>

lemma evaluate_cong:
  shows "\<forall>f \<in> set (referenced_fields p). resolve_field f s = resolve_field f t \<Longrightarrow>
      evaluate_predicate p s = evaluate_predicate p t"
    and "\<forall>f \<in> set (concat (map referenced_fields ps)). resolve_field f s = resolve_field f t \<Longrightarrow>
      evaluate_all ps s = evaluate_all ps t"
    and "\<forall>f \<in> set (concat (map referenced_fields ps)). resolve_field f s = resolve_field f t \<Longrightarrow>
      evaluate_any ps s = evaluate_any ps t"
proof (induction p s and ps s and ps s
    rule: evaluate_predicate_evaluate_all_evaluate_any.induct)
qed (auto intro!: rbind_cong)

text \<open>
  So evaluation against a snapshot of just the fields a predicate reads gives what
  evaluation against the whole evidence gave: an observed map that answers every referenced
  field as the subject does is enough to evaluate the rule again.
\<close>

section \<open>The meaning of a validated predicate\<close>

text \<open>
  A reference semantics: the comparisons of a predicate have a meaning on a scalar without
  any notion of failure, and the connectives are the boolean ones. Evaluation agrees with
  it on every subject that carries the compared fields, with numbers where they are
  ordered.
\<close>

fun same_value :: "scalar \<Rightarrow> scalar \<Rightarrow> bool" where
  "same_value (SBool a) (SBool b) = (a = b)"
| "same_value (SStr a) (SStr b) = (a = b)"
| "same_value (SInt a) (SInt b) = (a = b)"
| "same_value (SFloat a) (SFloat b) = (a = b)"
| "same_value (SInt a) (SFloat b) = (of_int a = b)"
| "same_value (SFloat a) (SInt b) = (a = of_int b)"
| "same_value _ _ = False"

fun number_of :: "scalar \<Rightarrow> rat" where
  "number_of (SInt i) = of_int i"
| "number_of (SFloat r) = r"
| "number_of _ = 0"

fun compare_denotes :: "compare_op \<Rightarrow> compare_value \<Rightarrow> scalar \<Rightarrow> bool" where
  "compare_denotes In (VList xs) a = (\<exists>x \<in> set xs. same_value a x)"
| "compare_denotes NotIn (VList xs) a = (\<forall>x \<in> set xs. \<not> same_value a x)"
| "compare_denotes Eq (VScalar x) a = same_value a x"
| "compare_denotes Ne (VScalar x) a = (\<not> same_value a x)"
| "compare_denotes Lt (VScalar x) a = (number_of a < number_of x)"
| "compare_denotes Le (VScalar x) a = (number_of a \<le> number_of x)"
| "compare_denotes Gt (VScalar x) a = (number_of a > number_of x)"
| "compare_denotes Ge (VScalar x) a = (number_of a \<ge> number_of x)"
| "compare_denotes _ _ a = False"

fun denotes :: "(ustr \<Rightarrow> scalar) \<Rightarrow> predicate \<Rightarrow> bool" where
  "denotes val (Compare f op v) = compare_denotes op v (val f)"
| "denotes val (AllOf ps) = list_all (denotes val) ps"
| "denotes val (AnyOf ps) = list_ex (denotes val) ps"
| "denotes val (NotP p) = (\<not> denotes val p)"

fun comparisons :: "predicate \<Rightarrow> (ustr \<times> compare_op \<times> compare_value) list" where
  "comparisons (Compare f op v) = [(f, op, v)]"
| "comparisons (AllOf ps) = concat (map comparisons ps)"
| "comparisons (AnyOf ps) = concat (map comparisons ps)"
| "comparisons (NotP p) = comparisons p"

definition evaluable ::
    "(ustr \<Rightarrow> scalar) \<Rightarrow> 'a predicate_subject_scheme \<Rightarrow> predicate \<Rightarrow> bool" where
  "evaluable val s p \<longleftrightarrow>
     (\<forall>(f, op, v) \<in> set (comparisons p).
        resolve_field f s = Inr (val f) \<and> (op \<in> ORDERING_OPS \<longrightarrow> is_number (val f)))"

lemma scalar_equal_same_value: "scalar_equal a b = same_value a b"
  by (cases a; cases b) (auto simp: scalar_equal_def)

lemma as_number_number_of: "is_number a \<Longrightarrow> as_number a = Some (number_of a)"
  by (cases a) auto

lemma compare_scalar_denotes:
  assumes "value_fits_op op v" "op \<in> ORDERING_OPS \<longrightarrow> is_number a"
  shows "compare_scalar f op v a = Inr (compare_denotes op v a)"
  using assms
  by (cases op; cases v)
    (auto simp: compare_scalar_def value_fits_op_def MEMBERSHIP_OPS_def ORDERING_OPS_def
      scalar_equal_same_value as_number_number_of list_ex_iff)

lemma evaluate_denotes:
  shows "predicate_valid p \<Longrightarrow> evaluable val s p \<Longrightarrow>
      evaluate_predicate p s = Inr (denotes val p)"
    and "list_all predicate_valid ps \<Longrightarrow> \<forall>p \<in> set ps. evaluable val s p \<Longrightarrow>
      evaluate_all ps s = Inr (list_all (denotes val) ps)"
    and "list_all predicate_valid ps \<Longrightarrow> \<forall>p \<in> set ps. evaluable val s p \<Longrightarrow>
      evaluate_any ps s = Inr (list_ex (denotes val) ps)"
proof (induction p s and ps s and ps s
    rule: evaluate_predicate_evaluate_all_evaluate_any.induct)
qed (auto simp: evaluable_def compare_scalar_denotes)

text \<open>A failure of a validated predicate always names a field the subject does not serve.\<close>

definition explained :: "'a predicate_subject_scheme \<Rightarrow> ustr set \<Rightarrow> predicate_error \<Rightarrow> bool" where
  "explained s read e \<longleftrightarrow>
     (case e of
        PyTypeError \<Rightarrow> False
      | PredicateError (NoSuchFeature key) \<Rightarrow>
          map_of (feature_set s) key = None
          \<and> (\<exists>f \<in> read. f \<noteq> LABEL_FIELD \<and> remove_prefix FEATURE_PREFIX f = key)
      | PredicateError (NeedsNumber f a op) \<Rightarrow>
          f \<in> read \<and> resolve_field f s = Inr a \<and> \<not> is_number a \<and> op \<in> ORDERING_OPS)"

lemma explained_mono: "explained s A e \<Longrightarrow> A \<subseteq> B \<Longrightarrow> explained s B e"
  by (auto simp: explained_def split: predicate_error.splits predicate_reason.splits)

lemma resolve_field_explained: "resolve_field f s = Inl e \<Longrightarrow> explained s {f} e"
  by (auto simp: resolve_field_def explained_def Let_def split: if_splits option.splits)

lemma compare_scalar_explained:
  assumes "value_fits_op op v" "resolve_field f s = Inr a" "compare_scalar f op v a = Inl e"
  shows "explained s {f} e"
proof -
  have "op \<in> ORDERING_OPS \<and> \<not> is_number a"
    using compare_scalar_denotes [OF assms(1), of a f] assms(3) by auto
  with assms show ?thesis
    by (cases op)
      (auto simp: compare_scalar_def explained_def ORDERING_OPS_def split: compare_value.splits)
qed

lemma evaluate_explained:
  shows "predicate_valid p \<Longrightarrow> evaluate_predicate p s = Inl e \<Longrightarrow>
      explained s (set (referenced_fields p)) e"
    and "list_all predicate_valid ps \<Longrightarrow> evaluate_all ps s = Inl e \<Longrightarrow>
      \<exists>p \<in> set ps. explained s (set (referenced_fields p)) e"
    and "list_all predicate_valid ps \<Longrightarrow> evaluate_any ps s = Inl e \<Longrightarrow>
      \<exists>p \<in> set ps. explained s (set (referenced_fields p)) e"
proof (induction p s and ps s and ps s
    rule: evaluate_predicate_evaluate_all_evaluate_any.induct)
  case (1 f op v s)
  then show ?case
    by (auto simp: rbind_Inl_iff intro: resolve_field_explained compare_scalar_explained)
next
  case (2 ps s)
  then obtain p where "p \<in> set ps" "explained s (set (referenced_fields p)) e" by auto
  then show ?case by (auto elim: explained_mono)
next
  case (3 ps s)
  then obtain p where "p \<in> set ps" "explained s (set (referenced_fields p)) e" by auto
  then show ?case by (auto elim: explained_mono)
qed (auto simp: rbind_Inl_iff split: if_splits)

section \<open>Short-circuit evaluation and duality\<close>

lemma evaluate_all_prefix:
  "evaluate_all (ps @ qs) s =
     rbind (evaluate_all ps s) (\<lambda>b. if b then evaluate_all qs s else Inr False)"
proof (induction ps)
  case (Cons p ps)
  then show ?case by (cases "evaluate_predicate p s") auto
qed simp

lemma evaluate_any_dual:
  "evaluate_any (map NotP ps) s = rbind (evaluate_all ps s) (\<lambda>b. Inr (\<not> b))"
proof (induction ps)
  case (Cons p ps)
  then show ?case by (cases "evaluate_predicate p s") auto
qed simp

lemma evaluate_all_dual:
  "evaluate_all (map NotP ps) s = rbind (evaluate_any ps s) (\<lambda>b. Inr (\<not> b))"
proof (induction ps)
  case (Cons p ps)
  then show ?case by (cases "evaluate_predicate p s") auto
qed simp

end
