(* ===== verification/Identity.thy ===== *)
theory Identity
  imports Storable
begin

text \<open>
  \<open>core/identity.py\<close>, the identity contract: how a subject's id follows from its enterprise
  key, the native subjects and namespaces a reasoner names, and the identity layer of a
  bundle with the validators that make it consistent. \<open>uuid.uuid5\<close> (SHA-1 under RFC 4122) is
  the parameter \<open>uuid5\<close> of every operation that derives an id.
\<close>

section \<open>Derivation\<close>

type_synonym uuid5 = "uuid \<Rightarrow> ustr \<Rightarrow> uuid"

datatype derive_error = EmptyEnterpriseKey

definition derive_entity_id :: "uuid5 \<Rightarrow> uuid \<Rightarrow> ustr \<Rightarrow> derive_error + uuid" where
  "derive_entity_id uuid5 namespace_uuid enterprise_key =
     (if enterprise_key = [] then Inl EmptyEnterpriseKey
      else Inr (uuid5 namespace_uuid enterprise_key))"

record native_subject =
  subject_namespace :: ustr
  native_subject_id :: ustr

definition native_subject_valid :: "native_subject \<Rightarrow> bool" where
  "native_subject_valid s \<longleftrightarrow> subject_namespace s \<noteq> [] \<and> native_subject_id s \<noteq> []"

record native_namespace =
  namespace_name :: ustr
  namespace_uuid :: uuid
  namespace_entity_type :: ustr

definition native_namespace_valid :: "native_namespace \<Rightarrow> bool" where
  "native_namespace_valid n \<longleftrightarrow> namespace_name n \<noteq> [] \<and> namespace_entity_type n \<noteq> []"

definition entity_id_of :: "uuid5 \<Rightarrow> native_namespace \<Rightarrow> ustr \<Rightarrow> derive_error + uuid" where
  "entity_id_of uuid5 n subject_id = derive_entity_id uuid5 (namespace_uuid n) subject_id"

section \<open>The identity layer\<close>

datatype identity_method = Deterministic | Probabilistic | Unresolved

text \<open>
  Why a subject is unresolved, one constructor per text the framework writes.
  \<open>ResolverText\<close> is the stored text of any other reason.
\<close>

datatype identity_problem =
    NotResolvedIdentity ustr
  | HoldsIssue storage_issue
  | DoesNotSurvive
  | ContractRefuses ustr
  | AnswersUnresolved
  | NamesResolver ustr
  | NamesAnotherSubject
  | UndeclaredTypes "ustr list"

datatype unresolved_reason =
    NoNativeSubject
  | NoResolverActive
  | NoMatch ustr
  | ResolverTimedOut ustr nat
  | ResolverRaised ustr ustr ustr
  | UnusableIdentity ustr identity_problem
  | UndeclaredNamespace unresolved_reason ustr
  | ResolverText ustr

record identity_provenance =
  native_namespace :: "ustr option"
  native_subject_id_of :: "ustr option"
  resolved_by :: ustr
  crosswalk_version :: "ustr option"
  identity_method :: identity_method
  match_confidence :: "rat option"
  resolved_at :: instant
  unresolved_reason :: "unresolved_reason option"

datatype identity_violation =
    NativeSubjectHalfNamed
  | ConfidenceMethodMismatch
  | ReasonMethodMismatch
  | NotDerived uuid uuid
  | NoDerivation
  | UnresolvedRelated
  | RelatedTwice
  | RelatedToItself

definition fields_match_method :: "identity_provenance \<Rightarrow> identity_violation + unit" where
  "fields_match_method p =
     (if (native_namespace p = None) \<noteq> (native_subject_id_of p = None)
      then Inl NativeSubjectHalfNamed
      else if (identity_method p = Probabilistic) \<noteq> (match_confidence p \<noteq> None)
      then Inl ConfidenceMethodMismatch
      else if (identity_method p = Unresolved) \<noteq> (unresolved_reason p \<noteq> None)
      then Inl ReasonMethodMismatch
      else Inr ())"

definition nonempty :: "ustr option \<Rightarrow> bool" where
  "nonempty = pred_option (\<lambda>s. s \<noteq> [])"

definition provenance_valid :: "identity_provenance \<Rightarrow> bool" where
  "provenance_valid p \<longleftrightarrow>
     nonempty (native_namespace p) \<and> nonempty (native_subject_id_of p)
     \<and> resolved_by p \<noteq> [] \<and> nonempty (crosswalk_version p)
     \<and> pred_option (\<lambda>c. 0 \<le> c \<and> c \<le> 1) (match_confidence p)
     \<and> unresolved_reason p \<noteq> Some (ResolverText [])
     \<and> fields_match_method p = Inr ()"

record related_entity =
  relationship_type :: ustr
  related_entity_type :: ustr
  related_id :: uuid

definition related_entity_valid :: "related_entity \<Rightarrow> bool" where
  "related_entity_valid r \<longleftrightarrow> relationship_type r \<noteq> [] \<and> related_entity_type r \<noteq> []"

record entity_derivation =
  derivation_namespace :: uuid
  enterprise_key :: ustr

definition derivation_valid :: "entity_derivation \<Rightarrow> bool" where
  "derivation_valid d \<longleftrightarrow> enterprise_key d \<noteq> []"

definition derived_id :: "uuid5 \<Rightarrow> entity_derivation \<Rightarrow> derive_error + uuid" where
  "derived_id uuid5 d = derive_entity_id uuid5 (derivation_namespace d) (enterprise_key d)"

record resolved_identity =
  entity_id :: uuid
  entity_type :: ustr
  derivation :: "entity_derivation option"
  provenance :: identity_provenance
  related :: "related_entity list"

definition resolved :: "resolved_identity \<Rightarrow> bool" where
  "resolved i \<longleftrightarrow> identity_method (provenance i) \<noteq> Unresolved"

text \<open>
  The model validator. Field validation has run by then, so the derivation's key is not
  empty and its id exists; on an empty key the inner \<open>ValueError\<close> is reported as no match.
\<close>

definition relation_pairs :: "resolved_identity \<Rightarrow> (ustr \<times> uuid) list" where
  "relation_pairs i = map (\<lambda>r. (relationship_type r, related_id r)) (related i)"

definition relationships_hold :: "resolved_identity \<Rightarrow> identity_violation + unit" where
  "relationships_hold i =
     (if related i \<noteq> [] \<and> \<not> resolved i then Inl UnresolvedRelated
      else if length (relation_pairs i) \<noteq> card (set (relation_pairs i)) then Inl RelatedTwice
      else if list_ex (\<lambda>r. related_id r = entity_id i) (related i) then Inl RelatedToItself
      else Inr ())"

definition derivation_and_relationships_hold ::
    "uuid5 \<Rightarrow> resolved_identity \<Rightarrow> identity_violation + unit" where
  "derivation_and_relationships_hold uuid5 i =
     (case derivation i of
        Some d \<Rightarrow>
          (case derived_id uuid5 d of
             Inl e \<Rightarrow> Inl NoDerivation
           | Inr derived \<Rightarrow>
               if derived \<noteq> entity_id i then Inl (NotDerived (entity_id i) derived)
               else relationships_hold i)
      | None \<Rightarrow>
          if resolved i then Inl NoDerivation
          else relationships_hold i)"

definition identity_valid :: "uuid5 \<Rightarrow> resolved_identity \<Rightarrow> bool" where
  "identity_valid uuid5 i \<longleftrightarrow>
     entity_type i \<noteq> [] \<and> pred_option derivation_valid (derivation i)
     \<and> provenance_valid (provenance i) \<and> list_all related_entity_valid (related i)
     \<and> derivation_and_relationships_hold uuid5 i = Inr ()"

section \<open>What validation guarantees\<close>

lemma fields_match_method_iff:
  "fields_match_method p = Inr () \<longleftrightarrow>
     (native_namespace p = None \<longleftrightarrow> native_subject_id_of p = None)
     \<and> (identity_method p = Probabilistic \<longleftrightarrow> match_confidence p \<noteq> None)
     \<and> (identity_method p = Unresolved \<longleftrightarrow> unresolved_reason p \<noteq> None)"
  by (simp add: fields_match_method_def)

lemma card_set_distinct: "length xs = card (set xs) \<longleftrightarrow> distinct xs"
  by (metis card_distinct distinct_card)

lemma relationships_hold_iff:
  "relationships_hold i = Inr () \<longleftrightarrow>
     (resolved i \<or> related i = []) \<and> distinct (relation_pairs i)
     \<and> (\<forall>r \<in> set (related i). related_id r \<noteq> entity_id i)"
  by (auto simp: relationships_hold_def card_set_distinct list_ex_iff)

lemma derivation_and_relationships_hold_iff:
  "derivation_and_relationships_hold uuid5 i = Inr () \<longleftrightarrow>
     (case derivation i of
        Some d \<Rightarrow> derived_id uuid5 d = Inr (entity_id i)
      | None \<Rightarrow> \<not> resolved i)
     \<and> relationships_hold i = Inr ()"
  by (auto simp: derivation_and_relationships_hold_def split: option.split sum.split)

lemma resolved_identity_is_derived:
  assumes "identity_valid uuid5 i" and "resolved i"
  obtains d where "derivation i = Some d"
    and "entity_id i = uuid5 (derivation_namespace d) (enterprise_key d)"
  using assms
  by (auto simp: identity_valid_def derivation_and_relationships_hold_iff derived_id_def
      derive_entity_id_def split: option.splits if_splits)

lemma unresolved_identity_alone:
  "identity_valid uuid5 i \<Longrightarrow> \<not> resolved i \<Longrightarrow> related i = []"
  by (simp add: identity_valid_def derivation_and_relationships_hold_iff relationships_hold_iff)

end
