(* ===== verification/Registration.thy ===== *)
theory Registration
  imports Actions Storable Predicate_Language Identity
begin

text \<open>
  \<open>core/observation/registration.py\<close>: what the ledger knows about a reasoner. A
  registration is data: it is validated when it is built, put in a canonical form with its
  sets sorted, and named by the digest of that form. \<open>json_digest\<close>, the hexadecimal SHA-256
  of a JSON value's compact, key-sorted text, is a parameter.
\<close>

section \<open>The contract\<close>

record gate_binding =
  binding_gate_id :: ustr
  mandatory :: bool
  config :: json_obj

fun holds_non_finite :: "json \<Rightarrow> bool" where
  "holds_non_finite (JFloat x) = (\<forall>r. x \<noteq> Finite r)"
| "holds_non_finite (JObj kvs) = list_ex (\<lambda>kv. holds_non_finite (snd kv)) kvs"
| "holds_non_finite (JList xs) = list_ex holds_non_finite xs"
| "holds_non_finite _ = False"

definition binding_valid :: "gate_binding \<Rightarrow> bool" where
  "binding_valid b \<longleftrightarrow> binding_gate_id b \<noteq> [] \<and> \<not> holds_non_finite (JObj (config b))"

record bypass_rule =
  rule_id :: ustr
  rule_version :: ustr
  rule_description :: ustr
  rule_predicate :: predicate
  rule_action :: decision_action

definition bypass_rule_valid :: "bypass_rule \<Rightarrow> bool" where
  "bypass_rule_valid r \<longleftrightarrow>
     rule_id r \<noteq> [] \<and> rule_version r \<noteq> [] \<and> predicate_valid (rule_predicate r)"

record reasoner_registration =
  registered_reasoner_id :: ustr
  registered_reasoner_name :: ustr
  gates :: "gate_binding list"
  bypass_rules :: "bypass_rule list"
  recordable_actions :: "decision_action set"
  native_namespaces :: "native_namespace list"
  novel_entity_feature :: "ustr option"
  jurisdiction_conflict_groups :: "ustr set list"

datatype registration_violation =
    RepeatedGates "ustr list"
  | RepeatedRules "ustr list"
  | RepeatedNamespaces "ustr list"
  | UnrecordableRules "ustr list"

definition gate_set_and_rules_are_consistent ::
    "reasoner_registration \<Rightarrow> registration_violation + unit" where
  "gate_set_and_rules_are_consistent r =
     (let repeated_gates = repeated (map binding_gate_id (gates r));
          repeated_rules = repeated (map rule_id (bypass_rules r));
          repeated_namespaces = repeated (map namespace_name (native_namespaces r));
          unrecordable = sort (map rule_id
            (filter (\<lambda>rule. rule_action rule \<notin> recordable_actions r) (bypass_rules r)))
      in if repeated_gates \<noteq> [] then Inl (RepeatedGates repeated_gates)
         else if repeated_rules \<noteq> [] then Inl (RepeatedRules repeated_rules)
         else if repeated_namespaces \<noteq> [] then Inl (RepeatedNamespaces repeated_namespaces)
         else if unrecordable \<noteq> [] then Inl (UnrecordableRules unrecordable)
         else Inr ())"

definition registration_valid :: "reasoner_registration \<Rightarrow> bool" where
  "registration_valid r \<longleftrightarrow>
     list_all binding_valid (gates r) \<and> list_all bypass_rule_valid (bypass_rules r)
     \<and> list_all native_namespace_valid (native_namespaces r)
     \<and> gate_set_and_rules_are_consistent r = Inr ()"

definition gate_ids :: "reasoner_registration \<Rightarrow> ustr set" where
  "gate_ids r = set (map binding_gate_id (gates r))"

definition binding :: "reasoner_registration \<Rightarrow> ustr \<Rightarrow> gate_binding option" where
  "binding r gate_id = find (\<lambda>b. binding_gate_id b = gate_id) (gates r)"

definition bypass_rule_of :: "reasoner_registration \<Rightarrow> ustr \<Rightarrow> bypass_rule option" where
  "bypass_rule_of r the_id = find (\<lambda>rule. rule_id rule = the_id) (bypass_rules r)"

definition native_namespace_of :: "reasoner_registration \<Rightarrow> ustr \<Rightarrow> native_namespace option" where
  "native_namespace_of r name = find (\<lambda>n. namespace_name n = name) (native_namespaces r)"

lemma sort_Nil_iff: "sort xs = [] \<longleftrightarrow> xs = []"
  by (metis length_0_conv length_sort)

lemma consistent_iff:
  "gate_set_and_rules_are_consistent r = Inr () \<longleftrightarrow>
     distinct (map binding_gate_id (gates r)) \<and> distinct (map rule_id (bypass_rules r))
     \<and> distinct (map namespace_name (native_namespaces r))
     \<and> (\<forall>rule \<in> set (bypass_rules r). rule_action rule \<in> recordable_actions r)"
  by (simp add: gate_set_and_rules_are_consistent_def Let_def sort_Nil_iff filter_empty_conv)

lemma registration_validD:
  assumes "registration_valid r"
  shows "distinct (map binding_gate_id (gates r))" "distinct (map rule_id (bypass_rules r))"
    "distinct (map namespace_name (native_namespaces r))"
    "rule \<in> set (bypass_rules r) \<Longrightarrow> rule_action rule \<in> recordable_actions r"
    "rule \<in> set (bypass_rules r) \<Longrightarrow> bypass_rule_valid rule"
    "n \<in> set (native_namespaces r) \<Longrightarrow> native_namespace_valid n"
    "b \<in> set (gates r) \<Longrightarrow> binding_valid b"
  using assms by (auto simp: registration_valid_def consistent_iff list_all_iff)

lemma binding_Some: "binding r g = Some b \<Longrightarrow> b \<in> set (gates r) \<and> binding_gate_id b = g"
  using find_in_set by (fastforce simp: binding_def)

lemma bypass_rule_of_Some: "bypass_rule_of r i = Some rule \<Longrightarrow> rule \<in> set (bypass_rules r) \<and> rule_id rule = i"
  using find_in_set by (fastforce simp: bypass_rule_of_def)

lemma native_namespace_of_Some:
  "native_namespace_of r name = Some n \<Longrightarrow> n \<in> set (native_namespaces r) \<and> namespace_name n = name"
  using find_in_set by (fastforce simp: native_namespace_of_def)

end
