(* ===== verification/Gate_Contract.thy ===== *)
theory Gate_Contract
  imports Actions Storable Predicate_Language
begin

text \<open>
  The universal gate contracts: \<open>core/gate/verdict.py\<close>, \<open>core/gate/output.py\<close>,
  \<open>core/gate/input.py\<close>, and enforcement's output contract \<open>core/enforcement.py\<close>. A gate's
  own extension (\<open>evidence_snapshot\<close>, \<open>extra\<close>) is opaque JSON here as it is there.
\<close>

section \<open>Verdicts and outputs\<close>

record gate_verdict =
  verdict_gate_id :: ustr
  permitted_actions :: "decision_action list"
  required_controls :: "ustr list"
  confidence :: rat
  escalate_to_human :: bool
  escalation_reason :: "ustr option"

definition verdict_valid :: "gate_verdict \<Rightarrow> bool" where
  "verdict_valid v \<longleftrightarrow> 0 \<le> confidence v \<and> confidence v \<le> 1"

definition sha256_hex :: "ustr \<Rightarrow> bool" where
  "sha256_hex h \<longleftrightarrow>
     length h = 64 \<and> list_all (\<lambda>c. (48 \<le> c \<and> c \<le> 57) \<or> (97 \<le> c \<and> c \<le> 102)) h"

record evidence_ref =
  source_id :: ustr
  locator :: "ustr option"
  jurisdictions :: "ustr set"
  content_hash :: "ustr option"
  artifact_hash :: "ustr option"

definition evidence_ref_valid :: "evidence_ref \<Rightarrow> bool" where
  "evidence_ref_valid r \<longleftrightarrow>
     pred_option sha256_hex (content_hash r) \<and> pred_option sha256_hex (artifact_hash r)"

datatype evidence_status = Intact | SourceChanged | SourceUnavailable | NotVerifiable

record gate_output =
  output_gate_id :: ustr
  deterministic :: bool
  verdict :: "gate_verdict option"
  evidence :: "evidence_ref list"
  evidence_snapshot :: json
  extra :: json_obj

definition gate_output_valid :: "gate_output \<Rightarrow> bool" where
  "gate_output_valid out \<longleftrightarrow>
     pred_option (\<lambda>v. verdict_gate_id v = output_gate_id out \<and> verdict_valid v) (verdict out)
     \<and> list_all evidence_ref_valid (evidence out)"

definition evidence_jurisdictions :: "gate_output \<Rightarrow> ustr set" where
  "evidence_jurisdictions out = \<Union> (set (map jurisdictions (evidence out)))"

record gate_input =
  input_gate_id :: ustr

datatype gate_status = Ran | Skipped | Failed

section \<open>Why a gate did not run\<close>

text \<open>
  The reasons the framework records, one constructor per f-string; times are in tenths of a
  millisecond, the precision \<open>duration_ms\<close> rounds to. \<open>ReasonText\<close> is any other stored text.
\<close>

datatype output_problem =
    NotGateOutput ustr
  | ForeignVerdict ustr
  | ForeignEvidence "ustr list"
  | OtherGatesOutput ustr
  | WrongDeterminism bool bool
  | Unstorable storage_issue

datatype failure_reason =
    NotComposed ustr
  | TimedOut nat
  | LateAfterCancellation nat nat
  | ExceededBudget nat nat
  | Raised ustr ustr
  | MalformedOutput output_problem

datatype record_reason =
    GateFailure failure_reason
  | SkippedForRecord
  | SkippedForBlock
  | ReasonText ustr

text \<open>Python's truth value of a reason: \<open>None\<close> and the empty text are false.\<close>

definition reason_given :: "record_reason option \<Rightarrow> bool" where
  "reason_given r \<longleftrightarrow> r \<noteq> None \<and> r \<noteq> Some (ReasonText [])"

lemma reason_given_simps [simp]:
  "\<not> reason_given None"
  "reason_given (Some (GateFailure f))"
  "reason_given (Some SkippedForRecord)"
  "reason_given (Some SkippedForBlock)"
  by (simp_all add: reason_given_def)

section \<open>Enforcement decisions\<close>

datatype fired_reason =
    FailedGate record_reason
  | SchemaInvalid
  | AdversarialFlagged
  | LowConfidence rat decision_action
  | ConflictingJurisdictions
  | NovelEntity "ustr option"
  | CitedRuleFails ustr ustr "predicate_note"
  | StricterRuleHolds ustr ustr decision_action decision_action
and predicate_note = NoteError predicate_reason | NoteObserved "(ustr \<times> scalar) list"

datatype check_note =
    OutputPresent
  | DeterministicGate
  | NoFinding
  | ConfidenceWas rat
  | NoJurisdictions
  | NoNovelFeature
  | HistorySufficient
  | RecordedDecision
  | MandatoryBlocks
  | NoStricterRule

datatype log_line =
    Fired ustr fired_reason
  | NotFired ustr check_note
  | SkippedCheck ustr check_note
  | NotApplied ustr check_note
  | RuleHolds ustr ustr "(ustr \<times> scalar) list"
  | AcceptedDefault decision_action
  | Combined "decision_action option" "(ustr \<times> decision_action) list" decision_action

record enforcement_decision =
  decision_action :: decision_action
  enforcement_rule_applied :: "ustr option"
  override_log :: "log_line list"

end
