(* ===== verification/Submission.thy ===== *)
theory Submission
  imports Registration Gate_Contract
begin

text \<open>
  \<open>core/submission.py\<close> with the evidence contracts it is built from
  (\<open>core/observation/reasoner_context.py\<close>, \<open>core/observation/gate_context.py\<close>): the
  submission and its validators, the checks intake makes against a registration, the
  decision's gate set, and the evaluation of bypass rules. \<open>model_dump(mode="json")\<close> is the
  parameter \<open>dump\<close> of the storage validator.
\<close>

section \<open>The evidence\<close>

record contribution =
  feature_name :: ustr
  feature_value :: rat
  contribution_method :: ustr
  contribution_value :: rat

record attribution_summary =
  feature_contributions :: "contribution list option"
  feature_importance :: "(ustr \<times> rat) list option"
  narrative :: "ustr option"

datatype label_type = NUMERICAL | CATEGORICAL

record reasoner_context = predicate_subject +
  context_reasoner_id :: ustr
  context_reasoner_name :: ustr
  model_version :: ustr
  model_artifact_sha256 :: "ustr option"
  inference_latency_ms :: "rat option"
  label_type_of :: label_type
  label_name :: ustr
  attribution :: "attribution_summary option"

record gate_context =
  context_gate_id :: ustr
  gate_config :: "json_obj option"

section \<open>The submission\<close>

datatype submission_mode = Record | Gate

record bypass_citation =
  cited_rule_id :: ustr
  cited_version :: "ustr option"

record submission =
  reasoner_id :: ustr
  event_id :: ustr
  timestamp :: instant
  asserted_entity_id :: uuid
  asserted_entity_type :: ustr
  native_subject :: "native_subject option"
  mode :: submission_mode
  proposed_action :: "decision_action option"
  bypass :: "bypass_citation option"
  reasoner_context :: reasoner_context
  gate_contexts :: "gate_context list"
  raw_event :: json_obj

datatype shape_violation =
    RecordNeedsCitation
  | RecordNeedsAction
  | GateTakesNoCitation
  | ForeignReasonerContext ustr ustr
  | RepeatedContexts "ustr list"
  | HoldsUnstorable storage_issue

definition mode_fields_are_consistent :: "submission \<Rightarrow> shape_violation + unit" where
  "mode_fields_are_consistent s =
     (if mode s = Record then
        if bypass s = None then Inl RecordNeedsCitation
        else if proposed_action s = None then Inl RecordNeedsAction
        else Inr ()
      else if bypass s \<noteq> None then Inl GateTakesNoCitation
      else Inr ())"

definition one_reasoner_and_one_context_per_gate :: "submission \<Rightarrow> shape_violation + unit" where
  "one_reasoner_and_one_context_per_gate s =
     (if context_reasoner_id (reasoner_context s) \<noteq> reasoner_id s
      then Inl (ForeignReasonerContext (context_reasoner_id (reasoner_context s)) (reasoner_id s))
      else let again = repeated (map context_gate_id (gate_contexts s))
           in if again \<noteq> [] then Inl (RepeatedContexts again) else Inr ())"

definition storable_submission :: "(submission \<Rightarrow> json) \<Rightarrow> submission \<Rightarrow> shape_violation + unit" where
  "storable_submission dump s =
     (case storage_problem (dump s) of
        Some problem \<Rightarrow> Inl (HoldsUnstorable problem)
      | None \<Rightarrow> Inr ())"

definition submission_valid :: "(submission \<Rightarrow> json) \<Rightarrow> submission \<Rightarrow> bool" where
  "submission_valid dump s \<longleftrightarrow>
     reasoner_id s \<noteq> [] \<and> event_id s \<noteq> [] \<and> asserted_entity_type s \<noteq> []
     \<and> pred_option native_subject_valid (native_subject s)
     \<and> pred_option (\<lambda>c. cited_rule_id c \<noteq> []) (bypass s)
     \<and> mode_fields_are_consistent s = Inr ()
     \<and> one_reasoner_and_one_context_per_gate s = Inr ()
     \<and> storable_submission dump s = Inr ()"

definition gate_context_of :: "submission \<Rightarrow> ustr \<Rightarrow> gate_context option" where
  "gate_context_of s gate_id = find (\<lambda>c. context_gate_id c = gate_id) (gate_contexts s)"

lemma submission_validD:
  assumes "submission_valid dump s"
  shows "mode s = Record \<longleftrightarrow> bypass s \<noteq> None"
    and "mode s = Record \<Longrightarrow> proposed_action s \<noteq> None"
    and "distinct (map context_gate_id (gate_contexts s))"
    and "context_reasoner_id (reasoner_context s) = reasoner_id s"
    and "storable (dump s)"
    and "native_subject s = Some n \<Longrightarrow> native_subject_valid n"
  using assms
  by (auto simp: submission_valid_def mode_fields_are_consistent_def Let_def
      one_reasoner_and_one_context_per_gate_def storable_submission_def storage_problem_None_iff
      split: if_splits option.splits)

section \<open>Bypass rules\<close>

record bypass_check =
  rule :: bypass_rule
  observed :: "(ustr \<times> scalar) list"
  holds :: bool
  error :: "predicate_reason option"

text \<open>The values a rule reads, field by field in sorted order; absent fields are omitted.\<close>

definition observe :: "ustr list \<Rightarrow> 'a predicate_subject_scheme \<Rightarrow> (ustr \<times> scalar) list" where
  "observe fs context =
     concat (map (\<lambda>field. case resolve_field field context of
                            Inr v \<Rightarrow> [(field, v)] | Inl e \<Rightarrow> []) fs)"

definition evaluate_bypass ::
    "bypass_rule \<Rightarrow> 'a predicate_subject_scheme \<Rightarrow> predicate_error + bypass_check" where
  "evaluate_bypass r context =
     (let seen = observe (sort (remdups (referenced_fields (rule_predicate r)))) context
      in case evaluate_predicate (rule_predicate r) context of
           Inl (PredicateError why) \<Rightarrow>
             Inr \<lparr>rule = r, observed = seen, holds = False, error = Some why\<rparr>
         | Inl PyTypeError \<Rightarrow> Inl PyTypeError
         | Inr b \<Rightarrow> Inr \<lparr>rule = r, observed = seen, holds = b, error = None\<rparr>)"

definition matching_bypass_rule ::
    "reasoner_registration \<Rightarrow> 'a predicate_subject_scheme \<Rightarrow> predicate_error + bypass_rule option" where
  "matching_bypass_rule registration context =
     rbind (rmap (\<lambda>r. evaluate_bypass r context) (bypass_rules registration)) (\<lambda>checks.
       let holding = map rule (filter holds checks)
       in Inr (max_by (\<lambda>r. severity (rule_action r)) holding))"

definition evaluate_competing_rules ::
    "reasoner_registration \<Rightarrow> bypass_rule \<Rightarrow> 'a predicate_subject_scheme
      \<Rightarrow> predicate_error + bypass_check list" where
  "evaluate_competing_rules registration cited context =
     rmap (\<lambda>r. evaluate_bypass r context)
       (filter (\<lambda>r. rule_id r \<noteq> rule_id cited) (bypass_rules registration))"

text \<open>Whether a rule holds on the evidence: its predicate evaluates, to true.\<close>

definition rule_holds :: "bypass_rule \<Rightarrow> 'a predicate_subject_scheme \<Rightarrow> bool" where
  "rule_holds r context \<longleftrightarrow> evaluate_predicate (rule_predicate r) context = Inr True"

text \<open>A validated rule is always evaluated to a check, never to an exception.\<close>

definition check_of :: "'a predicate_subject_scheme \<Rightarrow> bypass_rule \<Rightarrow> bypass_check" where
  "check_of context r =
     \<lparr>rule = r,
      observed = observe (sort (remdups (referenced_fields (rule_predicate r)))) context,
      holds = rule_holds r context,
      error = (case evaluate_predicate (rule_predicate r) context of
                 Inl (PredicateError why) \<Rightarrow> Some why | _ \<Rightarrow> None)\<rparr>"

lemma check_of_simps [simp]:
  "rule (check_of context r) = r" "holds (check_of context r) = rule_holds r context"
  by (simp_all add: check_of_def)

lemma evaluate_bypass_check_of:
  assumes "bypass_rule_valid r"
  shows "evaluate_bypass r context = Inr (check_of context r)"
proof -
  have "evaluate_predicate (rule_predicate r) context \<noteq> Inl PyTypeError"
    using evaluate_explained(1) [of "rule_predicate r" "context" PyTypeError] assms
    by (auto simp: bypass_rule_valid_def explained_def)
  then show ?thesis
    by (auto simp: evaluate_bypass_def check_of_def rule_holds_def Let_def
        split: sum.split predicate_error.split)
qed

lemma evaluate_competing_rules_check_of:
  assumes "registration_valid registration"
  shows "evaluate_competing_rules registration cited context =
    Inr (map (check_of context) (filter (\<lambda>r. rule_id r \<noteq> rule_id cited) (bypass_rules registration)))"
  unfolding evaluate_competing_rules_def
  by (rule rmap_Inr) (auto intro: evaluate_bypass_check_of registration_validD [OF assms])

lemma matching_bypass_rule_max:
  assumes "registration_valid registration"
  shows "matching_bypass_rule registration context =
    Inr (max_by (\<lambda>r. severity (rule_action r))
      (filter (\<lambda>r. rule_holds r context) (bypass_rules registration)))"
proof -
  have "rmap (\<lambda>r. evaluate_bypass r context) (bypass_rules registration)
      = Inr (map (check_of context) (bypass_rules registration))"
    by (rule rmap_Inr) (auto intro: evaluate_bypass_check_of registration_validD [OF assms])
  then show ?thesis by (simp add: matching_bypass_rule_def filter_map comp_def)
qed

section \<open>The gate set of a decision\<close>

definition upgrade :: "ustr set \<Rightarrow> gate_binding \<Rightarrow> gate_binding" where
  "upgrade mandated b =
     (if mandatory b \<or> binding_gate_id b \<notin> mandated then b
      else \<lparr>binding_gate_id = binding_gate_id b, mandatory = True, config = config b\<rparr>)"

definition effective_gate_set :: "reasoner_registration \<Rightarrow> ustr set \<Rightarrow> gate_binding list" where
  "effective_gate_set registration mandated =
     (let bound = map (upgrade mandated) (gates registration);
          extra = map (\<lambda>g. \<lparr>binding_gate_id = g, mandatory = True, config = []\<rparr>)
                      (sorted_list_of_set (mandated - gate_ids registration))
      in bound @ extra)"

lemma upgrade_simps [simp]:
  "binding_gate_id (upgrade mandated b) = binding_gate_id b"
  "config (upgrade mandated b) = config b"
  "mandatory (upgrade mandated b) \<longleftrightarrow> mandatory b \<or> binding_gate_id b \<in> mandated"
  by (simp_all add: upgrade_def)

lemma effective_gate_set_ids:
  "finite mandated \<Longrightarrow>
     set (map binding_gate_id (effective_gate_set registration mandated))
     = gate_ids registration \<union> mandated"
  by (auto simp: effective_gate_set_def gate_ids_def Let_def image_Un image_image)

lemma effective_gate_set_distinct:
  "registration_valid registration \<Longrightarrow> finite mandated \<Longrightarrow>
     distinct (map binding_gate_id (effective_gate_set registration mandated))"
  using registration_validD(1) [of registration]
  by (auto simp: effective_gate_set_def Let_def comp_def gate_ids_def)

lemma effective_gate_set_mandatory:
  "finite mandated \<Longrightarrow> b \<in> set (effective_gate_set registration mandated) \<Longrightarrow>
     binding_gate_id b \<in> mandated \<Longrightarrow> mandatory b"
  by (auto simp: effective_gate_set_def Let_def)

section \<open>Intake validation\<close>

datatype submission_violation =
    RegistrationForAnother ustr ustr
  | BypassRuleUnregistered ustr "ustr list"
  | ActionNotRecordable "decision_action option" "decision_action set"
  | BypassActionMismatch ustr decision_action "decision_action option"
  | BypassRuleVersionMismatch ustr ustr ustr
  | NativeSubjectMismatch ustr uuid ustr uuid ustr
  | GateNotBound "ustr list" "ustr set"
  | GateContextMissing "ustr list"
  | NoGates
  | GateConfigInvalid ustr ustr bool
  | GateConfigUnauthorized ustr ustr

datatype intake_error = SubmissionContractError ustr submission_violation | PyValueError

definition validate_citation ::
    "submission \<Rightarrow> reasoner_registration \<Rightarrow> intake_error + bypass_rule option" where
  "validate_citation s registration =
     (if mode s \<noteq> Record then Inr None
      else case bypass s of
        None \<Rightarrow> Inr None
      | Some citation \<Rightarrow>
          (case bypass_rule_of registration (cited_rule_id citation) of
             None \<Rightarrow>
               Inl (SubmissionContractError (reasoner_id s)
                 (BypassRuleUnregistered (cited_rule_id citation)
                   (sort (map rule_id (bypass_rules registration)))))
           | Some r \<Rightarrow>
               if proposed_action s \<notin> Some ` recordable_actions registration then
                 Inl (SubmissionContractError (reasoner_id s)
                   (ActionNotRecordable (proposed_action s) (recordable_actions registration)))
               else if proposed_action s \<noteq> Some (rule_action r) then
                 Inl (SubmissionContractError (reasoner_id s)
                   (BypassActionMismatch (rule_id r) (rule_action r) (proposed_action s)))
               else (case cited_version citation of
                       Some pinned \<Rightarrow>
                         if pinned \<noteq> rule_version r then
                           Inl (SubmissionContractError (reasoner_id s)
                             (BypassRuleVersionMismatch (rule_id r) pinned (rule_version r)))
                         else Inr (Some r)
                     | None \<Rightarrow> Inr (Some r))))"

definition validate_native_subject ::
    "uuid5 \<Rightarrow> submission \<Rightarrow> reasoner_registration \<Rightarrow> intake_error + unit" where
  "validate_native_subject uuid5 s registration =
     (case native_subject s of
        None \<Rightarrow> Inr ()
      | Some subject \<Rightarrow>
          (case native_namespace_of registration (subject_namespace subject) of
             None \<Rightarrow> Inr ()
           | Some namespace \<Rightarrow>
               (case entity_id_of uuid5 namespace (native_subject_id subject) of
                  Inl e \<Rightarrow> Inl PyValueError
                | Inr expected \<Rightarrow>
                    if (asserted_entity_id s, asserted_entity_type s)
                       \<noteq> (expected, namespace_entity_type namespace)
                    then Inl (SubmissionContractError (reasoner_id s)
                           (NativeSubjectMismatch (subject_namespace subject) expected
                             (namespace_entity_type namespace) (asserted_entity_id s)
                             (asserted_entity_type s)))
                    else Inr ())))"

definition validate_submission ::
    "uuid5 \<Rightarrow> submission \<Rightarrow> reasoner_registration \<Rightarrow> ustr set
      \<Rightarrow> intake_error + bypass_rule option" where
  "validate_submission uuid5 s registration deployment_mandatory =
     (if registered_reasoner_id registration \<noteq> reasoner_id s then
        Inl (SubmissionContractError (reasoner_id s)
          (RegistrationForAnother (registered_reasoner_id registration) (reasoner_id s)))
      else
        rbind (validate_citation s registration) (\<lambda>r.
        rbind (validate_native_subject uuid5 s registration) (\<lambda>_.
          let gate_set = effective_gate_set registration deployment_mandatory;
              addressed = set (map context_gate_id (gate_contexts s));
              unbound = sorted_list_of_set (addressed - gate_ids registration);
              missing = sorted_list_of_set (gate_ids registration - addressed)
          in if unbound \<noteq> [] then
               Inl (SubmissionContractError (reasoner_id s)
                 (GateNotBound unbound (gate_ids registration)))
             else if missing \<noteq> [] then
               Inl (SubmissionContractError (reasoner_id s) (GateContextMissing missing))
             else if mode s = Gate \<and> gate_set = [] then
               Inl (SubmissionContractError (reasoner_id s) NoGates)
             else Inr r)))"

text \<open>The wire code of each violation.\<close>

fun violation_code :: "submission_violation \<Rightarrow> string" where
  "violation_code (RegistrationForAnother _ _) = ''SUBMISSION_INVALID''"
| "violation_code (BypassRuleUnregistered _ _) = ''BYPASS_RULE_UNREGISTERED''"
| "violation_code (ActionNotRecordable _ _) = ''ACTION_NOT_RECORDABLE''"
| "violation_code (BypassActionMismatch _ _ _) = ''BYPASS_ACTION_MISMATCH''"
| "violation_code (BypassRuleVersionMismatch _ _ _) = ''BYPASS_RULE_VERSION_MISMATCH''"
| "violation_code (NativeSubjectMismatch _ _ _ _ _) = ''NATIVE_SUBJECT_MISMATCH''"
| "violation_code (GateNotBound _ _) = ''GATE_NOT_BOUND''"
| "violation_code (GateContextMissing _) = ''GATE_CONTEXT_MISSING''"
| "violation_code NoGates = ''NO_GATES''"
| "violation_code (GateConfigInvalid _ _ _) = ''GATE_CONFIG_INVALID''"
| "violation_code (GateConfigUnauthorized _ _) = ''GATE_CONFIG_UNAUTHORIZED''"

lemma validate_citation_Inr:
  "validate_citation s registration = Inr r \<longleftrightarrow>
     (if mode s \<noteq> Record then r = None
      else case bypass s of
        None \<Rightarrow> r = None
      | Some citation \<Rightarrow>
          \<exists>cited. r = Some cited \<and> bypass_rule_of registration (cited_rule_id citation) = Some cited
            \<and> proposed_action s = Some (rule_action cited)
            \<and> rule_action cited \<in> recordable_actions registration
            \<and> cited_version citation \<in> {None, Some (rule_version cited)})"
  by (auto simp: validate_citation_def split: option.splits if_splits)

lemma validate_submission_Inr:
  assumes "finite deployment_mandatory"
  shows "validate_submission uuid5 s registration deployment_mandatory = Inr r \<longleftrightarrow>
     registered_reasoner_id registration = reasoner_id s
     \<and> validate_citation s registration = Inr r
     \<and> validate_native_subject uuid5 s registration = Inr ()
     \<and> set (map context_gate_id (gate_contexts s)) = gate_ids registration
     \<and> (mode s = Gate \<longrightarrow> effective_gate_set registration deployment_mandatory \<noteq> [])"
proof -
  have "finite (gate_ids registration)" by (simp add: gate_ids_def)
  then show ?thesis by (auto simp: validate_submission_def Let_def)
qed

text \<open>The rule a record cites is registered, and its citation decides the mode.\<close>

lemma validated_rule:
  assumes "validate_citation s registration = Inr r" "submission_valid dump s"
  shows "r \<noteq> None \<longleftrightarrow> mode s = Record"
    and "r = Some cited \<Longrightarrow> cited \<in> set (bypass_rules registration)"
    and "r = Some cited \<Longrightarrow> proposed_action s = Some (rule_action cited)"
  using assms submission_validD(1) [OF assms(2)]
  by (auto simp: validate_citation_Inr dest: bypass_rule_of_Some split: if_splits option.splits)

end
