(* ===== verification/Bundle.thy ===== *)
theory Bundle
  imports Submission
begin

text \<open>
  \<open>core/bundle.py\<close> and \<open>app/audit/bundle.py\<close>: the record of what happened at each gate, the
  decision bundle with its validators, and the function that assembles it. Constructing a
  model whose validator refuses it raises; \<open>gate_record\<close> and \<open>build_bundle\<close> return the
  violation then. Times come in as readings of the clock, durations in tenths of a
  millisecond (the precision the ledger rounds to), and the constant \<open>schema_version\<close> is not
  kept.
\<close>

section \<open>Gate records\<close>

record gate_record =
  record_gate_id :: ustr
  record_mandatory :: bool
  status :: gate_status
  record_reason :: "record_reason option"
  input :: "gate_input option"
  gate_output_of :: "gate_output option"
  enforcement :: "enforcement_decision option"
  duration :: "nat option"

datatype record_problem =
    RanIncomplete
  | RanForeign
  | FailedFields
  | SkippedFields

definition fields_match_status :: "gate_record \<Rightarrow> record_problem + unit" where
  "fields_match_status r =
     (case status r of
        Ran \<Rightarrow>
          (case (input r, gate_output_of r, enforcement r) of
             (Some i, Some out, Some e) \<Rightarrow>
               if {output_gate_id out, input_gate_id i} \<noteq> {record_gate_id r}
               then Inl RanForeign else Inr ()
           | _ \<Rightarrow> Inl RanIncomplete)
      | Failed \<Rightarrow>
          if gate_output_of r \<noteq> None \<or> enforcement r = None \<or> \<not> reason_given (record_reason r)
          then Inl FailedFields else Inr ()
      | Skipped \<Rightarrow>
          if input r \<noteq> None \<or> gate_output_of r \<noteq> None \<or> enforcement r \<noteq> None
             \<or> \<not> reason_given (record_reason r)
          then Inl SkippedFields else Inr ())"

definition construct_gate_record :: "gate_record \<Rightarrow> record_problem + gate_record" where
  "construct_gate_record r = rbind (fields_match_status r) (\<lambda>_. Inr r)"

definition enforced_action :: "gate_record \<Rightarrow> decision_action option" where
  "enforced_action r = map_option decision_action (enforcement r)"

lemma construct_gate_record_Inr [simp]:
  "construct_gate_record r = Inr r' \<longleftrightarrow> r' = r \<and> fields_match_status r = Inr ()"
  by (auto simp: construct_gate_record_def)

lemma fields_match_status_iff:
  "fields_match_status r = Inr () \<longleftrightarrow>
     (case status r of
        Ran \<Rightarrow> (\<exists>i out e. input r = Some i \<and> gate_output_of r = Some out \<and> enforcement r = Some e
                  \<and> output_gate_id out = record_gate_id r \<and> input_gate_id i = record_gate_id r)
      | Failed \<Rightarrow> gate_output_of r = None \<and> enforcement r \<noteq> None \<and> reason_given (record_reason r)
      | Skipped \<Rightarrow> input r = None \<and> gate_output_of r = None \<and> enforcement r = None
                    \<and> reason_given (record_reason r))"
  by (auto simp: fields_match_status_def split: gate_status.split option.split)

lemma enforcement_iff_not_skipped:
  "fields_match_status r = Inr () \<Longrightarrow> enforcement r \<noteq> None \<longleftrightarrow> status r \<noteq> Skipped"
  by (auto simp: fields_match_status_iff split: gate_status.splits)

section \<open>The bundle\<close>

record decision_bundle =
  decision_id :: ustr
  created_at :: instant
  submission :: submission
  identity :: "resolved_identity option"
  idempotency_key :: ustr
  ingestion_timestamp :: instant
  bundle_gates :: "gate_record list"
  bundle_action :: decision_action
  decision_level_rule :: "ustr option"
  bundle_log :: "log_line list"
  bypass_rule_holds :: "bool option"
  bundle_check :: "bypass_check option"
  other_bypass_checks :: "bypass_check list"
  registration_version :: "ustr option"
  latency_breakdown :: "(ustr \<times> rat) list"

datatype bundle_violation =
    CheckMismatchesMode
  | HoldsMismatchesCheck
  | OtherChecksOnGate
  | GateRecordedTwice "ustr list"
  | IdentityOfAnotherSubject

definition record_layer_matches_mode :: "decision_bundle \<Rightarrow> bundle_violation + unit" where
  "record_layer_matches_mode b =
     (let recorded = (mode (submission b) = Record);
          ids = map record_gate_id (bundle_gates b)
      in if recorded \<noteq> (bundle_check b \<noteq> None) then Inl CheckMismatchesMode
         else if bypass_rule_holds b \<noteq> map_option holds (bundle_check b)
         then Inl HoldsMismatchesCheck
         else if other_bypass_checks b \<noteq> [] \<and> \<not> recorded then Inl OtherChecksOnGate
         else if \<not> distinct ids then Inl (GateRecordedTwice ids)
         else Inr ())"

definition identity_resolves_the_submitted_subject ::
    "decision_bundle \<Rightarrow> bundle_violation + unit" where
  "identity_resolves_the_submitted_subject b =
     (case identity b of
        None \<Rightarrow> Inr ()
      | Some i \<Rightarrow>
          if (native_namespace (provenance i), native_subject_id_of (provenance i))
             \<noteq> (case native_subject (submission b) of
                  Some n \<Rightarrow> (Some (subject_namespace n), Some (native_subject_id n))
                | None \<Rightarrow> (None, None))
          then Inl IdentityOfAnotherSubject
          else Inr ())"

definition bundle_valid :: "decision_bundle \<Rightarrow> bool" where
  "bundle_valid b \<longleftrightarrow>
     record_layer_matches_mode b = Inr ()
     \<and> identity_resolves_the_submitted_subject b = Inr ()
     \<and> list_all (\<lambda>r. fields_match_status r = Inr ()) (bundle_gates b)"

definition bundle_entity_id :: "decision_bundle \<Rightarrow> uuid" where
  "bundle_entity_id b =
     (case identity b of Some i \<Rightarrow> entity_id i | None \<Rightarrow> asserted_entity_id (submission b))"

definition bundle_entity_type :: "decision_bundle \<Rightarrow> ustr" where
  "bundle_entity_type b =
     (case identity b of Some i \<Rightarrow> entity_type i | None \<Rightarrow> asserted_entity_type (submission b))"

definition bundle_gate :: "decision_bundle \<Rightarrow> ustr \<Rightarrow> gate_record option" where
  "bundle_gate b gate_id = find (\<lambda>r. record_gate_id r = gate_id) (bundle_gates b)"

definition construct_bundle :: "decision_bundle \<Rightarrow> bundle_violation + decision_bundle" where
  "construct_bundle b =
     rbind (record_layer_matches_mode b) (\<lambda>_.
     rbind (identity_resolves_the_submitted_subject b) (\<lambda>_. Inr b))"

definition build_bundle ::
    "instant \<Rightarrow> ustr \<Rightarrow> submission \<Rightarrow> ustr \<Rightarrow> instant \<Rightarrow> gate_record list \<Rightarrow> enforcement_decision
      \<Rightarrow> bypass_check option \<Rightarrow> bypass_check list \<Rightarrow> (ustr \<times> rat) list \<Rightarrow> ustr option
      \<Rightarrow> resolved_identity option \<Rightarrow> bundle_violation + decision_bundle" where
  "build_bundle now the_id s key received records decision check others latency version subject =
     construct_bundle
       \<lparr>decision_id = the_id, created_at = now, submission = s, identity = subject,
        idempotency_key = key, ingestion_timestamp = received, bundle_gates = records,
        bundle_action = decision_action decision,
        decision_level_rule = enforcement_rule_applied decision,
        bundle_log = override_log decision, bypass_rule_holds = map_option holds check,
        bundle_check = check, other_bypass_checks = others, registration_version = version,
        latency_breakdown = latency\<rparr>"

lemma record_layer_matches_mode_iff:
  "record_layer_matches_mode b = Inr () \<longleftrightarrow>
     (mode (submission b) = Record \<longleftrightarrow> bundle_check b \<noteq> None)
     \<and> bypass_rule_holds b = map_option holds (bundle_check b)
     \<and> (other_bypass_checks b = [] \<or> mode (submission b) = Record)
     \<and> distinct (map record_gate_id (bundle_gates b))"
  by (auto simp: record_layer_matches_mode_def Let_def)

lemma construct_bundle_Inr:
  "construct_bundle b = Inr b' \<longleftrightarrow>
     b' = b \<and> record_layer_matches_mode b = Inr () \<and> identity_resolves_the_submitted_subject b = Inr ()"
  by (auto simp: construct_bundle_def)

end
