(* ===== verification/Enforcement.thy ===== *)
theory Enforcement
  imports Bundle
begin

text \<open>
  \<open>app/enforcement/resolver.py\<close>: the gate-level tiers that turn one gate's output into an
  enforced action, the decision-level rules, and the combinator. The log lists the source
  appends to are returned with the result; \<open>LOW_CONFIDENCE_THRESHOLD\<close> is the double nearest
  to 0.60.
\<close>

section \<open>Constants\<close>

definition LOW_CONFIDENCE_THRESHOLD :: rat where
  "LOW_CONFIDENCE_THRESHOLD = 5404319552844595 / 9007199254740992"

definition ADVERSARIAL_CONTROL :: ustr where
  "ADVERSARIAL_CONTROL = lit ''adversarial_probe_detected''"

definition JURISDICTION_CONFLICT_CTL :: ustr where
  "JURISDICTION_CONFLICT_CTL = lit ''jurisdiction_conflict''"

definition TIER1_SCHEMA_FAILURE :: ustr where
  "TIER1_SCHEMA_FAILURE = lit ''tier1_schema_failure''"

definition TIER2_ADVERSARIAL_PROBE :: ustr where
  "TIER2_ADVERSARIAL_PROBE = lit ''tier2_adversarial_probe''"

definition TIER3_NOVEL_ENTITY :: ustr where
  "TIER3_NOVEL_ENTITY = lit ''tier3_novel_entity''"

definition TIER4_LOW_CONFIDENCE :: ustr where
  "TIER4_LOW_CONFIDENCE = lit ''tier4_low_confidence''"

definition TIER5_JURISDICTION_CONFLICT :: ustr where
  "TIER5_JURISDICTION_CONFLICT = lit ''tier5_jurisdiction_conflict''"

definition BYPASS_RULE_CHECK :: ustr where
  "BYPASS_RULE_CHECK = lit ''bypass_rule''"

definition BYPASS_RULE_NOT_SATISFIED :: ustr where
  "BYPASS_RULE_NOT_SATISFIED = lit ''bypass_rule_not_satisfied''"

definition BYPASS_RULE_SUPERSEDED :: ustr where
  "BYPASS_RULE_SUPERSEDED = lit ''bypass_rule_superseded''"

lemma rule_names [simp]:
  "TIER1_SCHEMA_FAILURE \<noteq> TIER2_ADVERSARIAL_PROBE" "TIER1_SCHEMA_FAILURE \<noteq> TIER3_NOVEL_ENTITY"
  "TIER1_SCHEMA_FAILURE \<noteq> TIER4_LOW_CONFIDENCE" "TIER1_SCHEMA_FAILURE \<noteq> TIER5_JURISDICTION_CONFLICT"
  "TIER2_ADVERSARIAL_PROBE \<noteq> TIER1_SCHEMA_FAILURE" "TIER4_LOW_CONFIDENCE \<noteq> TIER1_SCHEMA_FAILURE"
  "TIER5_JURISDICTION_CONFLICT \<noteq> TIER1_SCHEMA_FAILURE"
  "TIER4_LOW_CONFIDENCE \<noteq> TIER2_ADVERSARIAL_PROBE" "TIER5_JURISDICTION_CONFLICT \<noteq> TIER2_ADVERSARIAL_PROBE"
  "TIER5_JURISDICTION_CONFLICT \<noteq> TIER4_LOW_CONFIDENCE" "TIER4_LOW_CONFIDENCE \<noteq> TIER5_JURISDICTION_CONFLICT"
  "TIER2_ADVERSARIAL_PROBE \<noteq> TIER4_LOW_CONFIDENCE" "TIER2_ADVERSARIAL_PROBE \<noteq> TIER5_JURISDICTION_CONFLICT"
  "BYPASS_RULE_NOT_SATISFIED \<noteq> BYPASS_RULE_SUPERSEDED" "BYPASS_RULE_SUPERSEDED \<noteq> BYPASS_RULE_NOT_SATISFIED"
  "TIER3_NOVEL_ENTITY \<noteq> BYPASS_RULE_SUPERSEDED" "BYPASS_RULE_SUPERSEDED \<noteq> TIER3_NOVEL_ENTITY"
  "TIER3_NOVEL_ENTITY \<noteq> BYPASS_RULE_NOT_SATISFIED" "BYPASS_RULE_NOT_SATISFIED \<noteq> TIER3_NOVEL_ENTITY"
  by (simp_all add: TIER1_SCHEMA_FAILURE_def TIER2_ADVERSARIAL_PROBE_def TIER3_NOVEL_ENTITY_def
      TIER4_LOW_CONFIDENCE_def TIER5_JURISDICTION_CONFLICT_def BYPASS_RULE_NOT_SATISFIED_def
      BYPASS_RULE_SUPERSEDED_def)

section \<open>Gate level\<close>

definition most_conservative :: "decision_action list \<Rightarrow> decision_action" where
  "most_conservative actions =
     (case max_by severity actions of None \<Rightarrow> HOLD | Some action \<Rightarrow> action)"

definition has_jurisdiction_conflict ::
    "gate_verdict \<Rightarrow> ustr set \<Rightarrow> ustr set list \<Rightarrow> bool" where
  "has_jurisdiction_conflict v found conflict_groups =
     (if JURISDICTION_CONFLICT_CTL \<in> set (required_controls v) then True
      else if escalate_to_human v
           \<and> (case escalation_reason v of
                None \<Rightarrow> False
              | Some why \<Rightarrow> why \<noteq> []
                  \<and> (contains (lit ''jurisdiction'') (lower why)
                     \<or> contains (lit ''conflict'') (lower why)))
      then True
      else 2 \<le> card (set (filter (\<lambda>g. found \<inter> g \<noteq> {}) conflict_groups)))"

definition fire :: "log_line list \<Rightarrow> ustr \<Rightarrow> decision_action \<Rightarrow> fired_reason \<Rightarrow> enforcement_decision" where
  "fire lines tier action why =
     \<lparr>decision_action = action, enforcement_rule_applied = Some tier,
      override_log = lines @ [Fired tier why]\<rparr>"

definition resolve_gate_output ::
    "gate_output option \<Rightarrow> reasoner_registration \<Rightarrow> record_reason option \<Rightarrow> enforcement_decision" where
  "resolve_gate_output output registration failure =
     (case output of
        None \<Rightarrow>
          fire [] TIER1_SCHEMA_FAILURE HOLD
            (if reason_given failure then FailedGate (the failure) else SchemaInvalid)
      | Some out \<Rightarrow>
     (case verdict out of
        None \<Rightarrow>
          fire [] TIER1_SCHEMA_FAILURE HOLD
            (if reason_given failure then FailedGate (the failure) else SchemaInvalid)
      | Some v \<Rightarrow>
     (let log1 = [NotFired TIER1_SCHEMA_FAILURE OutputPresent]
      in if \<not> deterministic out \<and> ADVERSARIAL_CONTROL \<in> set (required_controls v)
         then fire log1 TIER2_ADVERSARIAL_PROBE BLOCK AdversarialFlagged
         else
     (let log2 = log1 @ [if deterministic out
                         then SkippedCheck TIER2_ADVERSARIAL_PROBE DeterministicGate
                         else NotFired TIER2_ADVERSARIAL_PROBE NoFinding];
          conservative = most_conservative (permitted_actions v)
      in if \<not> deterministic out \<and> confidence v < LOW_CONFIDENCE_THRESHOLD
            \<and> conservative \<in> {HOLD, BLOCK}
         then fire log2 TIER4_LOW_CONFIDENCE HOLD (LowConfidence (confidence v) conservative)
         else
     (let log4 = log2 @ [if deterministic out
                         then SkippedCheck TIER4_LOW_CONFIDENCE DeterministicGate
                         else NotFired TIER4_LOW_CONFIDENCE (ConfidenceWas (confidence v))];
          found = evidence_jurisdictions out
      in if found \<noteq> {}
            \<and> has_jurisdiction_conflict v found (jurisdiction_conflict_groups registration)
         then fire log4 TIER5_JURISDICTION_CONFLICT HOLD ConflictingJurisdictions
         else
     (let log5 = log4 @ [if found = {}
                         then SkippedCheck TIER5_JURISDICTION_CONFLICT NoJurisdictions
                         else NotFired TIER5_JURISDICTION_CONFLICT NoFinding]
      in \<lparr>decision_action = conservative, enforcement_rule_applied = None,
          override_log = log5 @ [AcceptedDefault conservative]\<rparr>))))))"

section \<open>Decision level\<close>

definition record_action :: "gate_record \<Rightarrow> decision_action" where
  "record_action r = decision_action (the (enforcement r))"

definition observed_note :: "bypass_check \<Rightarrow> (ustr \<times> scalar) list" where
  "observed_note check = sort_key fst (observed check)"

definition check_severity :: "bypass_check \<Rightarrow> nat" where
  "check_severity check = severity (rule_action (rule check))"

definition bypass_rules_applied ::
    "bypass_check \<Rightarrow> bypass_check list
      \<Rightarrow> ustr option \<times> log_line list \<times> (ustr \<times> decision_action) list" where
  "bypass_rules_applied cited competing =
     (let name = rule_id (rule cited);
          version = rule_version (rule cited);
          not_satisfied = (if holds cited then None else Some HOLD);
          cited_line =
            (if holds cited then RuleHolds name version (observed_note cited)
             else Fired BYPASS_RULE_NOT_SATISFIED
                    (CitedRuleFails name version
                      (case error cited of
                         Some why \<Rightarrow> NoteError why
                       | None \<Rightarrow> NoteObserved (observed_note cited))));
          cited_terms = (if holds cited then [] else [(lit ''bypass_floor'', HOLD)]);
          stricter = filter (\<lambda>check. holds check \<and> check_severity cited < check_severity check)
                       competing;
          strictest = max_by check_severity stricter;
          superseded = map_option (\<lambda>check. rule_action (rule check)) strictest;
          other_lines =
            (case strictest of
               Some check \<Rightarrow>
                 [Fired BYPASS_RULE_SUPERSEDED
                    (StricterRuleHolds (rule_id (rule check)) (rule_version (rule check))
                      (rule_action (rule check)) (rule_action (rule cited)))]
             | None \<Rightarrow>
                 if competing \<noteq> [] then [NotFired BYPASS_RULE_SUPERSEDED NoStricterRule] else []);
          other_terms =
            (case superseded of Some action \<Rightarrow> [(lit ''bypass_floor'', action)] | None \<Rightarrow> []);
          fired =
            (case superseded of
               Some action \<Rightarrow>
                 (case not_satisfied of
                    None \<Rightarrow> Some BYPASS_RULE_SUPERSEDED
                  | Some hold_floor \<Rightarrow>
                      if severity hold_floor < severity action then Some BYPASS_RULE_SUPERSEDED
                      else Some BYPASS_RULE_NOT_SATISFIED)
             | None \<Rightarrow>
                 (case not_satisfied of
                    None \<Rightarrow> None
                  | Some _ \<Rightarrow> Some BYPASS_RULE_NOT_SATISFIED))
      in (fired, cited_line # other_lines, cited_terms @ other_terms))"

definition advisory_side ::
    "submission \<Rightarrow> gate_record list \<Rightarrow> reasoner_registration
      \<Rightarrow> ustr option \<times> log_line \<times> decision_action option" where
  "advisory_side s advisory registration =
     (let plain = max_by severity (map record_action advisory)
      in case novel_entity_feature registration of
           None \<Rightarrow> (None, NotFired TIER3_NOVEL_ENTITY NoNovelFeature, plain)
         | Some feature \<Rightarrow>
             if \<not> truthy (case map_of (feature_set (reasoner_context s)) feature of
                            Some value \<Rightarrow> value | None \<Rightarrow> SBool False)
             then (None, NotFired TIER3_NOVEL_ENTITY HistorySufficient, plain)
             else
               let rules = map (\<lambda>r. enforcement_rule_applied (the (enforcement r)))
                             (filter (\<lambda>r. enforcement r \<noteq> None) advisory)
               in if Some TIER2_ADVERSARIAL_PROBE \<in> set rules
                  then (None, Fired TIER3_NOVEL_ENTITY (NovelEntity (Some TIER2_ADVERSARIAL_PROBE)),
                        Some BLOCK)
                  else if advisory \<noteq> []
                    \<and> list_all (\<lambda>r. case enforcement r of
                                   None \<Rightarrow> False
                                 | Some e \<Rightarrow> enforcement_rule_applied e = Some TIER1_SCHEMA_FAILURE)
                        advisory
                  then (None, Fired TIER3_NOVEL_ENTITY (NovelEntity (Some TIER1_SCHEMA_FAILURE)),
                        Some HOLD)
                  else (Some TIER3_NOVEL_ENTITY, Fired TIER3_NOVEL_ENTITY (NovelEntity None),
                        Some HOLD))"

datatype enforcement_error = RecordWithoutCheck | NothingContributes

text \<open>
  The decision-level rules: the rule that fired, the log lines, and the terms that enter the
  combinator beside the proposal.
\<close>

definition decision_terms ::
    "submission \<Rightarrow> gate_record list \<Rightarrow> reasoner_registration \<Rightarrow> bypass_check option
      \<Rightarrow> bypass_check list
      \<Rightarrow> enforcement_error + (ustr option \<times> log_line list \<times> (ustr \<times> decision_action) list)" where
  "decision_terms s records registration check competing =
     (let enforced = filter (\<lambda>r. enforcement r \<noteq> None) records;
          mandatories = filter record_mandatory enforced;
          advisory = filter (\<lambda>r. \<not> record_mandatory r) enforced;
          terms = map (\<lambda>r. (lit ''mandatory:'' @ record_gate_id r, record_action r)) mandatories
      in if mode s = Record then
           (case check of
              None \<Rightarrow> Inl RecordWithoutCheck
            | Some cited \<Rightarrow>
                let (fired, lines, floors) = bypass_rules_applied cited competing
                in Inr (fired, lines @ [SkippedCheck TIER3_NOVEL_ENTITY RecordedDecision],
                        terms @ floors))
         else if list_ex (\<lambda>r. record_action r = BLOCK) mandatories then
           Inr (None, [NotApplied TIER3_NOVEL_ENTITY MandatoryBlocks],
                terms @ map (\<lambda>r. (lit ''advisory'', record_action r)) advisory)
         else
           let (fired, line, action) = advisory_side s advisory registration
           in Inr (fired, [line],
                   terms @ (case action of Some a \<Rightarrow> [(lit ''advisory'', a)] | None \<Rightarrow> [])))"

definition resolve_decision ::
    "submission \<Rightarrow> gate_record list \<Rightarrow> reasoner_registration \<Rightarrow> bypass_check option
      \<Rightarrow> bypass_check list \<Rightarrow> enforcement_error + enforcement_decision" where
  "resolve_decision s records registration check competing =
     rbind (decision_terms s records registration check competing) (\<lambda>(fired, lines, terms).
       case most_restrictive (proposed_action s) (map snd terms) of
         Inl e \<Rightarrow> Inl NothingContributes
       | Inr final \<Rightarrow>
           Inr \<lparr>decision_action = final, enforcement_rule_applied = fired,
                override_log = lines @ [Combined (proposed_action s) terms final]\<rparr>)"

section \<open>The credited rule\<close>

definition credited_rule :: "decision_bundle \<Rightarrow> ustr option" where
  "credited_rule b =
     (let final = bundle_action b;
          fired = decision_level_rule b;
          floors = (case bundle_check b of
                      None \<Rightarrow> []
                    | Some cited \<Rightarrow>
                        map (\<lambda>check. rule_action (rule check))
                          (filter (\<lambda>check. holds check \<and> check_severity cited < check_severity check)
                            (other_bypass_checks b)));
          by_gate = (case find (\<lambda>r. enforcement r \<noteq> None \<and> enforced_action r = Some final)
                            (bundle_gates b) of
                       Some r \<Rightarrow> enforcement_rule_applied (the (enforcement r))
                     | None \<Rightarrow> None)
      in if fired \<in> {Some TIER3_NOVEL_ENTITY, Some BYPASS_RULE_NOT_SATISFIED} \<and> final = HOLD
         then fired
         else if fired = Some BYPASS_RULE_SUPERSEDED \<and> max_by severity floors = Some final
         then fired
         else by_gate)"

end
