(* ===== verification/Enforcement_Spec.thy ===== *)
theory Enforcement_Spec
  imports Enforcement
begin

text \<open>
  The abstract specification of enforcement and the proof that the resolver implements it.
  A gate's enforced action is that of the first tier, in a table, whose condition holds. A
  decision's action is the greatest of a set of contributions: the proposal, every
  mandatory gate's action, the advisory side, and the bypass floors. The set says nothing
  of short-circuits, of the order of gates, or of which of several floors is appended: that
  the resolver computes its maximum is the content of the refinement.
\<close>

section \<open>The tier table of one gate\<close>

definition tier_table ::
    "gate_output \<Rightarrow> gate_verdict \<Rightarrow> reasoner_registration \<Rightarrow> (ustr \<times> bool \<times> decision_action) list" where
  "tier_table out v registration =
     [(TIER2_ADVERSARIAL_PROBE,
       \<not> deterministic out \<and> ADVERSARIAL_CONTROL \<in> set (required_controls v), BLOCK),
      (TIER4_LOW_CONFIDENCE,
       \<not> deterministic out \<and> confidence v < LOW_CONFIDENCE_THRESHOLD
         \<and> HOLD \<le> most_conservative (permitted_actions v), HOLD),
      (TIER5_JURISDICTION_CONFLICT,
       evidence_jurisdictions out \<noteq> {}
         \<and> has_jurisdiction_conflict v (evidence_jurisdictions out)
              (jurisdiction_conflict_groups registration), HOLD)]"

definition gate_spec ::
    "gate_output option \<Rightarrow> reasoner_registration \<Rightarrow> ustr option \<times> decision_action" where
  "gate_spec answer registration =
     (case Option.bind answer verdict of
        None \<Rightarrow> (Some TIER1_SCHEMA_FAILURE, HOLD)
      | Some v \<Rightarrow>
          (case find (fst \<circ> snd) (tier_table (the answer) v registration) of
             Some (tier, _, action) \<Rightarrow> (Some tier, action)
           | None \<Rightarrow> (None, most_conservative (permitted_actions v))))"

lemma resolve_gate_output_spec:
  "(enforcement_rule_applied (resolve_gate_output answer registration failure),
    decision_action (resolve_gate_output answer registration failure))
   = gate_spec answer registration"
proof (cases answer)
  case None
  then show ?thesis by (simp add: resolve_gate_output_def gate_spec_def fire_def)
next
  case (Some out)
  then show ?thesis
    by (cases "verdict out")
      (auto simp: resolve_gate_output_def gate_spec_def tier_table_def fire_def Let_def HOLD_le_iff)
qed

lemma resolve_gate_output_rule:
    "enforcement_rule_applied (resolve_gate_output answer registration failure)
       = fst (gate_spec answer registration)"
  and resolve_gate_output_action:
    "decision_action (resolve_gate_output answer registration failure)
       = snd (gate_spec answer registration)"
  using resolve_gate_output_spec [of answer registration failure] by (simp_all add: prod_eq_iff)

lemmas gate_tier_simps = gate_spec_def tier_table_def HOLD_le_iff

lemma gate_spec_tier1:
  "fst (gate_spec answer registration) = Some TIER1_SCHEMA_FAILURE \<longleftrightarrow> Option.bind answer verdict = None"
  by (cases "Option.bind answer verdict") (auto simp: gate_tier_simps)

lemma gate_spec_tier2:
  "fst (gate_spec answer registration) = Some TIER2_ADVERSARIAL_PROBE \<longleftrightarrow>
     (\<exists>out v. answer = Some out \<and> verdict out = Some v \<and> \<not> deterministic out
       \<and> ADVERSARIAL_CONTROL \<in> set (required_controls v))"
  by (cases answer; cases "Option.bind answer verdict") (auto simp: gate_tier_simps)

lemma gate_spec_tier2_blocks:
  "fst (gate_spec answer registration) = Some TIER2_ADVERSARIAL_PROBE \<Longrightarrow>
     snd (gate_spec answer registration) = BLOCK"
  by (cases "Option.bind answer verdict") (auto simp: gate_tier_simps split: if_splits)

lemma gate_spec_fired_holds:
  "fst (gate_spec answer registration) \<noteq> None \<Longrightarrow> HOLD \<le> snd (gate_spec answer registration)"
  by (cases "Option.bind answer verdict") (auto simp: gate_tier_simps split: if_splits)

lemma most_conservative_Max:
  "most_conservative actions = (if actions = [] then HOLD else Max (set actions))"
  by (simp add: most_conservative_def max_by_severity)

section \<open>What contributes to a decision\<close>

definition novel_entity :: "submission \<Rightarrow> reasoner_registration \<Rightarrow> bool" where
  "novel_entity s registration \<longleftrightarrow>
     (\<exists>feature value. novel_entity_feature registration = Some feature
       \<and> map_of (feature_set (reasoner_context s)) feature = Some value \<and> truthy value)"

definition enforced_records :: "gate_record list \<Rightarrow> gate_record set" where
  "enforced_records records = {r \<in> set records. enforcement r \<noteq> None}"

definition mandatory_records :: "gate_record list \<Rightarrow> gate_record set" where
  "mandatory_records records = {r \<in> enforced_records records. record_mandatory r}"

definition advisory_records :: "gate_record list \<Rightarrow> gate_record set" where
  "advisory_records records = {r \<in> enforced_records records. \<not> record_mandatory r}"

definition record_rule :: "gate_record \<Rightarrow> ustr option" where
  "record_rule r = enforcement_rule_applied (the (enforcement r))"

definition advisory_contributions ::
    "submission \<Rightarrow> gate_record list \<Rightarrow> reasoner_registration \<Rightarrow> decision_action set" where
  "advisory_contributions s records registration =
     (if novel_entity s registration
      then {HOLD} \<union> {BLOCK |r. r \<in> advisory_records records
                              \<and> record_rule r = Some TIER2_ADVERSARIAL_PROBE}
      else record_action ` advisory_records records)"

definition bypass_floors :: "bypass_check \<Rightarrow> bypass_check list \<Rightarrow> decision_action set" where
  "bypass_floors cited competing =
     (if holds cited then {} else {HOLD})
     \<union> {rule_action (rule c) |c. c \<in> set competing \<and> holds c
          \<and> rule_action (rule cited) < rule_action (rule c)}"

definition contributions ::
    "submission \<Rightarrow> gate_record list \<Rightarrow> reasoner_registration \<Rightarrow> bypass_check option
      \<Rightarrow> bypass_check list \<Rightarrow> decision_action set" where
  "contributions s records registration check competing =
     set_option (proposed_action s) \<union> record_action ` mandatory_records records
     \<union> (if mode s = Record then bypass_floors (the check) competing
        else advisory_contributions s records registration)"

lemma finite_actions [simp]: "finite (A :: decision_action set)"
proof (rule finite_subset)
  show "A \<subseteq> {ALLOW, CHALLENGE, HOLD, BLOCK}" using decision_action.exhaust by blast
qed simp

section \<open>The resolver implements the specification\<close>

text \<open>Which actions the terms hold, and that every contribution is dominated by one of them.\<close>

definition covers :: "decision_action set \<Rightarrow> decision_action set \<Rightarrow> bool" where
  "covers D C \<longleftrightarrow> D \<subseteq> C \<and> (\<forall>c \<in> C. \<exists>d \<in> D. c \<le> d)"

lemma covers_refl [simp]: "covers C C"
  by (auto simp: covers_def)

lemma covers_empty [simp]: "covers D {} \<longleftrightarrow> D = {}"
  by (auto simp: covers_def)

lemma covers_Un: "covers D C \<Longrightarrow> covers D' C' \<Longrightarrow> covers (D \<union> D') (C \<union> C')"
  unfolding covers_def by blast

lemma check_severity_less:
  "check_severity c < check_severity d \<longleftrightarrow> rule_action (rule c) < rule_action (rule d)"
  by (simp add: check_severity_def action_less_iff)

lemma bypass_terms_cover:
  assumes "bypass_rules_applied cited competing = (fired, lines, terms)"
  shows "covers (snd ` set terms) (bypass_floors cited competing)"
proof -
  let ?stricter = "filter (\<lambda>c. holds c \<and> check_severity cited < check_severity c) competing"
  let ?floors = "{rule_action (rule c) |c. c \<in> set competing \<and> holds c
      \<and> rule_action (rule cited) < rule_action (rule c)}"
  let ?top = "set_option (map_option (\<lambda>c. rule_action (rule c)) (max_by check_severity ?stricter))"
  have terms: "snd ` set terms = (if holds cited then {} else {HOLD}) \<union> ?top"
    using assms
    by (auto simp: bypass_rules_applied_def Let_def split: option.splits if_splits)
  have "covers ?top ?floors"
  proof (cases "max_by check_severity ?stricter")
    case None
    then have "?floors = {}" by (auto simp: filter_empty_conv check_severity_less)
    with None show ?thesis by (simp add: covers_def)
  next
    case (Some m)
    have "m \<in> set ?stricter" using max_by_in [OF Some] .
    moreover have "rule_action (rule c) \<le> rule_action (rule m)" if "c \<in> set ?stricter" for c
      using max_by_ge [OF Some that] by (simp add: check_severity_def action_le_iff)
    ultimately show ?thesis using Some by (auto simp: covers_def check_severity_less)
  qed
  then show ?thesis unfolding terms bypass_floors_def by (intro covers_Un) simp_all
qed

lemma novel_entity_iff:
  "novel_entity s registration \<longleftrightarrow>
     (case novel_entity_feature registration of
        None \<Rightarrow> False
      | Some feature \<Rightarrow>
          truthy (case map_of (feature_set (reasoner_context s)) feature of
                    Some value \<Rightarrow> value | None \<Rightarrow> SBool False))"
  by (auto simp: novel_entity_def split: option.splits)

lemma advisory_side_action:
  assumes "advisory_side s advisory registration = (fired, line, action)"
    and "set advisory = advisory_records records"
  shows "covers (set_option action) (advisory_contributions s records registration)"
proof (cases "novel_entity s registration")
  case True
  then obtain feature where feature: "novel_entity_feature registration = Some feature"
      "truthy (case map_of (feature_set (reasoner_context s)) feature of
                 Some value \<Rightarrow> value | None \<Rightarrow> SBool False)"
    by (auto simp: novel_entity_iff split: option.splits)
  have enforced: "filter (\<lambda>r. enforcement r \<noteq> None) advisory = advisory"
    using assms(2) by (auto simp: advisory_records_def enforced_records_def intro!: filter_True)
  let ?probe = "\<exists>r \<in> advisory_records records. record_rule r = Some TIER2_ADVERSARIAL_PROBE"
  have probe: "Some TIER2_ADVERSARIAL_PROBE
      \<in> set (map (\<lambda>r. enforcement_rule_applied (the (enforcement r))) advisory) \<longleftrightarrow> ?probe"
    using assms(2) by (force simp: record_rule_def)
  have "action = Some (if ?probe then BLOCK else HOLD)"
    using assms(1) feature unfolding advisory_side_def Let_def enforced probe
    by (auto split: if_splits)
  with True show ?thesis by (auto simp: advisory_contributions_def covers_def action_le_iff)
next
  case False
  then have "action = max_by severity (map record_action advisory)"
    using assms(1) by (auto simp: novel_entity_iff advisory_side_def Let_def split: option.splits if_splits)
  with assms(2) have "set_option action = (if advisory = [] then {} else
      {Max (record_action ` advisory_records records)})"
    by (simp add: max_by_severity)
  moreover have "advisory = [] \<longleftrightarrow> advisory_records records = {}"
    using assms(2) by (metis set_empty)
  ultimately show ?thesis
    using False by (auto simp: advisory_contributions_def covers_def)
qed

lemma decision_terms_cover:
  assumes "decision_terms s records registration check competing = Inr (fired, lines, terms)"
  shows "covers (set_option (proposed_action s) \<union> snd ` set terms)
      (contributions s records registration check competing)
    \<or> BLOCK \<in> snd ` set terms \<and> mode s = Gate \<and> BLOCK \<in> record_action ` mandatory_records records"
proof -
  let ?enforced = "filter (\<lambda>r. enforcement r \<noteq> None) records"
  let ?mandatory = "filter record_mandatory ?enforced"
  let ?advisory = "filter (\<lambda>r. \<not> record_mandatory r) ?enforced"
  let ?terms = "map (\<lambda>r. (lit ''mandatory:'' @ record_gate_id r, record_action r)) ?mandatory"
  have terms: "snd ` set ?terms = record_action ` mandatory_records records"
    by (auto simp: mandatory_records_def enforced_records_def image_image)
  have advisory: "set ?advisory = advisory_records records"
    by (auto simp: advisory_records_def enforced_records_def)
  have blocks: "list_ex (\<lambda>r. record_action r = BLOCK) ?mandatory
      \<longleftrightarrow> BLOCK \<in> record_action ` mandatory_records records"
    by (force simp: list_ex_iff mandatory_records_def enforced_records_def)
  consider (rec) "mode s = Record"
    | (block) "mode s = Gate" "list_ex (\<lambda>r. record_action r = BLOCK) ?mandatory"
    | (gate) "mode s = Gate" "\<not> list_ex (\<lambda>r. record_action r = BLOCK) ?mandatory"
    by (cases "mode s") auto
  then show ?thesis
  proof cases
    case rec
    then obtain cited floors where check: "check = Some cited"
      and floors: "bypass_rules_applied cited competing = (fired, butlast lines, floors)"
      and all_terms: "terms = ?terms @ floors"
      using assms
      by (auto simp: decision_terms_def Let_def split: option.splits prod.splits)
    have "covers (set_option (proposed_action s) \<union> (snd ` set ?terms \<union> snd ` set floors))
        (set_option (proposed_action s) \<union> (record_action ` mandatory_records records
          \<union> bypass_floors cited competing))"
      unfolding terms by (intro covers_Un covers_refl bypass_terms_cover [OF floors])
    with rec show ?thesis
      by (simp add: contributions_def check all_terms image_Un Un_assoc)
  next
    case block
    then have "terms = ?terms @ map (\<lambda>r. (lit ''advisory'', record_action r)) ?advisory"
      using assms by (simp add: decision_terms_def Let_def)
    with block terms show ?thesis unfolding blocks by (simp add: image_Un)
  next
    case gate
    obtain f line action where side: "advisory_side s ?advisory registration = (f, line, action)"
      by (cases "advisory_side s ?advisory registration")
    have "terms = ?terms @ (case action of Some a \<Rightarrow> [(lit ''advisory'', a)] | None \<Rightarrow> [])"
      using assms gate side by (simp add: decision_terms_def Let_def)
    then have "snd ` set terms = record_action ` mandatory_records records \<union> set_option action"
      using terms by (cases action) (auto simp: image_Un)
    moreover have "covers (set_option (proposed_action s)
          \<union> (record_action ` mandatory_records records \<union> set_option action))
        (set_option (proposed_action s) \<union> (record_action ` mandatory_records records
          \<union> advisory_contributions s records registration))"
      by (intro covers_Un covers_refl advisory_side_action [OF side advisory])
    ultimately show ?thesis using gate by (simp add: contributions_def Un_assoc)
  qed
qed

text \<open>
  Enforcement raises exactly when a record arrives without its check or nothing contributes;
  otherwise its action is the maximum of the contributions.
\<close>

definition enforceable ::
    "submission \<Rightarrow> gate_record list \<Rightarrow> reasoner_registration \<Rightarrow> bypass_check option
      \<Rightarrow> bypass_check list \<Rightarrow> bool" where
  "enforceable s records registration check competing \<longleftrightarrow>
     (mode s = Record \<longrightarrow> check \<noteq> None)
     \<and> contributions s records registration check competing \<noteq> {}"

lemma decision_terms_total:
  "mode s = Record \<longrightarrow> check \<noteq> None \<Longrightarrow>
     \<exists>fired lines terms. decision_terms s records registration check competing = Inr (fired, lines, terms)"
  by (cases "mode s") (auto simp: decision_terms_def Let_def split: option.splits prod.splits)

lemma covers_empty_iff: "covers D C \<Longrightarrow> D = {} \<longleftrightarrow> C = {}"
  by (auto simp: covers_def)

lemma resolve_decision_refines:
  assumes "enforceable s records registration check competing"
  obtains fired lines terms where
    "decision_terms s records registration check competing = Inr (fired, lines, terms)"
    and "resolve_decision s records registration check competing =
      Inr \<lparr>decision_action = Max (contributions s records registration check competing),
           enforcement_rule_applied = fired,
           override_log = lines @ [Combined (proposed_action s) terms
             (Max (contributions s records registration check competing))]\<rparr>"
proof -
  let ?C = "contributions s records registration check competing"
  obtain fired lines terms
    where run: "decision_terms s records registration check competing = Inr (fired, lines, terms)"
    using assms decision_terms_total by (fastforce simp: enforceable_def)
  have "most_restrictive (proposed_action s) (map snd terms) = Inr (Max ?C)"
    using decision_terms_cover [OF run]
  proof
    assume "covers (set_option (proposed_action s) \<union> snd ` set terms) ?C"
    then show ?thesis
      using assms by (intro cc.combine_eq_Max_cover) (auto simp: covers_def enforceable_def)
  next
    assume *: "BLOCK \<in> snd ` set terms \<and> mode s = Gate \<and> BLOCK \<in> record_action ` mandatory_records records"
    then have "terms \<noteq> []" by auto
    then obtain m where m: "most_restrictive (proposed_action s) (map snd terms) = Inr m"
      using cc.combine_returns_iff [of "proposed_action s" "map snd terms"] by auto
    have "m = BLOCK" using cc.combine_absorbs [OF m, of BLOCK] * by auto
    moreover have "Max ?C = BLOCK"
      using * by (intro Max_eqI) (auto simp: contributions_def)
    ultimately show ?thesis using m by simp
  qed
  with run show ?thesis by (intro that [OF run]) (simp add: resolve_decision_def)
qed

lemma resolve_decision_action:
  assumes "resolve_decision s records registration check competing = Inr e"
  shows "enforceable s records registration check competing"
    and "decision_action e = Max (contributions s records registration check competing)"
proof -
  obtain fired lines terms where
    run: "decision_terms s records registration check competing = Inr (fired, lines, terms)"
    using assms by (auto simp: resolve_decision_def)
  with assms obtain final where
    final: "most_restrictive (proposed_action s) (map snd terms) = Inr final"
    by (cases "most_restrictive (proposed_action s) (map snd terms)") (auto simp: resolve_decision_def)
  have "mode s = Record \<longrightarrow> check \<noteq> None"
    using run by (auto simp: decision_terms_def Let_def split: option.splits)
  moreover have "set_option (proposed_action s) \<union> snd ` set terms \<noteq> {}"
    using cc.combine_member [OF final] by auto
  then have "contributions s records registration check competing \<noteq> {}"
    using decision_terms_cover [OF run] covers_empty_iff by (auto simp: contributions_def)
  ultimately show enf: "enforceable s records registration check competing"
    by (simp add: enforceable_def)
  show "decision_action e = Max (contributions s records registration check competing)"
    by (rule resolve_decision_refines [OF enf]) (use assms in simp)
qed

end
