(* ===== verification/Identity_Service.thy ===== *)
theory Identity_Service
  imports Bundle
begin

text \<open>
  \<open>app/identity/passthrough.py\<close> and \<open>app/identity/resolvers.py\<close>: the passthrough subject, the
  deployment's native namespaces, the resolver plugin seam, and the identity step with its
  fallback. A resolver is third-party code: what one call of it ends in is a
  \<open>resolver_outcome\<close>, an exception, an expired deadline, or an answer. Serialization and
  re-validation of an identity (pydantic) are the record \<open>identity_wire\<close>.
\<close>

section \<open>The passthrough\<close>

definition PASSTHROUGH :: ustr where
  "PASSTHROUGH = lit ''passthrough''"

lemma PASSTHROUGH_nonempty [simp]: "PASSTHROUGH \<noteq> []"
  by (simp add: PASSTHROUGH_def)

datatype identity_error = IdentityInvalid | KeyEmpty | CallerCancelled

definition construct_identity :: "uuid5 \<Rightarrow> resolved_identity \<Rightarrow> identity_error + resolved_identity" where
  "construct_identity uuid5 i = (if identity_valid uuid5 i then Inr i else Inl IdentityInvalid)"

definition declared_identity ::
    "uuid5 \<Rightarrow> native_namespace \<Rightarrow> native_subject \<Rightarrow> unresolved_reason \<Rightarrow> instant
      \<Rightarrow> identity_error + resolved_identity" where
  "declared_identity uuid5 namespace native reason now =
     (let d = \<lparr>derivation_namespace = namespace_uuid namespace,
               enterprise_key = native_subject_id native\<rparr>
      in case derived_id uuid5 d of
           Inl e \<Rightarrow> Inl KeyEmpty
         | Inr the_id \<Rightarrow>
             construct_identity uuid5
               \<lparr>entity_id = the_id, entity_type = namespace_entity_type namespace,
                derivation = Some d,
                provenance =
                  \<lparr>native_namespace = Some (subject_namespace native),
                   native_subject_id_of = Some (native_subject_id native),
                   resolved_by = PASSTHROUGH, crosswalk_version = None,
                   identity_method = Unresolved, match_confidence = None,
                   resolved_at = now, unresolved_reason = Some reason\<rparr>,
                related = []\<rparr>)"

definition passthrough_identity ::
    "uuid5 \<Rightarrow> submission \<Rightarrow> reasoner_registration \<Rightarrow> unresolved_reason \<Rightarrow> instant
      \<Rightarrow> identity_error + resolved_identity" where
  "passthrough_identity uuid5 s registration reason now =
     (let asserted = (\<lambda>why. construct_identity uuid5
            \<lparr>entity_id = asserted_entity_id s, entity_type = asserted_entity_type s,
             derivation = None,
             provenance =
               \<lparr>native_namespace = map_option subject_namespace (native_subject s),
                native_subject_id_of = map_option native_subject_id (native_subject s),
                resolved_by = PASSTHROUGH, crosswalk_version = None,
                identity_method = Unresolved, match_confidence = None,
                resolved_at = now, unresolved_reason = Some why\<rparr>,
             related = []\<rparr>)
      in case native_subject s of
           None \<Rightarrow> asserted reason
         | Some native \<Rightarrow>
             (case native_namespace_of registration (subject_namespace native) of
                Some namespace \<Rightarrow> declared_identity uuid5 namespace native reason now
              | None \<Rightarrow> asserted (UndeclaredNamespace reason (subject_namespace native))))"

section \<open>The namespaces a deployment declares\<close>

datatype namespace_conflict = DeclaredDifferently ustr ustr "ustr option"

type_synonym namespace_table = "ustr \<rightharpoonup> native_namespace \<times> ustr"

fun declare_namespaces ::
    "ustr \<Rightarrow> native_namespace list \<Rightarrow> namespace_table \<Rightarrow> namespace_conflict + namespace_table" where
  "declare_namespaces reasoner [] table = Inr table"
| "declare_namespaces reasoner (n # ns) table =
     (case table (namespace_name n) of
        None \<Rightarrow> declare_namespaces reasoner ns (table(namespace_name n \<mapsto> (n, reasoner)))
      | Some (known, owner) \<Rightarrow>
          if known \<noteq> n
          then Inl (DeclaredDifferently reasoner (namespace_name n) (Some owner))
          else declare_namespaces reasoner ns table)"

fun declared_from ::
    "reasoner_registration list \<Rightarrow> namespace_table \<Rightarrow> namespace_conflict + namespace_table" where
  "declared_from [] table = Inr table"
| "declared_from (r # rs) table =
     rbind (declare_namespaces (registered_reasoner_id r) (native_namespaces r) table)
       (declared_from rs)"

definition declared_namespaces ::
    "reasoner_registration list \<Rightarrow> namespace_conflict + (ustr \<rightharpoonup> native_namespace)" where
  "declared_namespaces registrations =
     rbind (declared_from registrations Map.empty) (\<lambda>table. Inr (\<lambda>name. map_option fst (table name)))"

section \<open>Resolver plugins\<close>

datatype type_value = TypeStr ustr | TypeOther

datatype types_value = NotAFrozenset | Frozenset "type_value set"

datatype resolver_answer = NoAnswer | IdentityAnswer resolved_identity | OtherAnswer ustr

datatype resolver_outcome =
    Answered resolver_answer
  | DeadlineExpired
  | RaisedTimeout ustr
  | RaisedCancelled ustr
  | CancelledByCaller
  | RaisedOther ustr ustr

datatype built_object =
    NotAResolver
  | CoroutineResolver
  | SyncResolver "ustr \<Rightarrow> ustr \<Rightarrow> resolver_outcome"

record resolver_plugin =
  satisfies_protocol :: bool
  plugin_resolver_id :: ustr
  plugin_types :: types_value
  plugin_build :: built_object

datatype plugin_problem =
    NotAPlugin
  | NameDiffers ustr
  | IdIsPassthrough
  | BadTypes
  | PublishedTimes nat
  | FailedToLoad ustr
  | BuiltNotAResolver
  | BuiltCoroutine

datatype plugin_error = ResolverPluginError ustr plugin_problem

definition type_usable :: "type_value \<Rightarrow> bool" where
  "type_usable t = (case t of TypeStr s \<Rightarrow> s \<noteq> [] \<and> text_problem s = None | TypeOther \<Rightarrow> False)"

definition check_resolver_plugin :: "resolver_plugin \<Rightarrow> ustr \<Rightarrow> plugin_error + resolver_plugin" where
  "check_resolver_plugin obj name =
     (if \<not> satisfies_protocol obj then Inl (ResolverPluginError name NotAPlugin)
      else if plugin_resolver_id obj \<noteq> name
      then Inl (ResolverPluginError name (NameDiffers (plugin_resolver_id obj)))
      else if plugin_resolver_id obj = PASSTHROUGH
      then Inl (ResolverPluginError name IdIsPassthrough)
      else (case plugin_types obj of
              NotAFrozenset \<Rightarrow> Inl (ResolverPluginError name BadTypes)
            | Frozenset ts \<Rightarrow>
                if \<forall>t \<in> ts. type_usable t then Inr obj
                else Inl (ResolverPluginError name BadTypes)))"

record entry_point =
  ep_name :: ustr
  ep_load :: "ustr + resolver_plugin"

definition select_given ::
    "ustr option \<Rightarrow> resolver_plugin list \<Rightarrow> plugin_error + resolver_plugin option" where
  "select_given resolver_id plugins =
     (case resolver_id of
        None \<Rightarrow> Inr None
      | Some the_id \<Rightarrow>
          (case filter (\<lambda>p. plugin_resolver_id p = the_id) plugins of
             [p] \<Rightarrow> rbind (check_resolver_plugin p the_id) (\<lambda>p. Inr (Some p))
           | matching \<Rightarrow> Inl (ResolverPluginError the_id (PublishedTimes (length matching)))))"

definition select_installed ::
    "ustr option \<Rightarrow> entry_point list \<Rightarrow> plugin_error + resolver_plugin option" where
  "select_installed resolver_id eps =
     (case resolver_id of
        None \<Rightarrow> Inr None
      | Some the_id \<Rightarrow>
          (case filter (\<lambda>ep. ep_name ep = the_id) eps of
             [ep] \<Rightarrow>
               (case ep_load ep of
                  Inl err \<Rightarrow> Inl (ResolverPluginError the_id (FailedToLoad err))
                | Inr obj \<Rightarrow> rbind (check_resolver_plugin obj the_id) (\<lambda>p. Inr (Some p)))
           | matching \<Rightarrow> Inl (ResolverPluginError the_id (PublishedTimes (length matching)))))"

definition select_resolver ::
    "ustr option \<Rightarrow> resolver_plugin list option \<Rightarrow> entry_point list
      \<Rightarrow> plugin_error + resolver_plugin option" where
  "select_resolver resolver_id plugins entry_points =
     (case plugins of
        Some ps \<Rightarrow> select_given resolver_id ps
      | None \<Rightarrow> select_installed resolver_id entry_points)"

record composed_resolver =
  resolver_id :: ustr
  relationship_types :: "ustr set"
  resolve :: "ustr \<Rightarrow> ustr \<Rightarrow> resolver_outcome"

definition declared_types :: "types_value \<Rightarrow> ustr set" where
  "declared_types v = (case v of NotAFrozenset \<Rightarrow> {} | Frozenset ts \<Rightarrow> {s. TypeStr s \<in> ts})"

definition build_resolver :: "resolver_plugin \<Rightarrow> plugin_error + composed_resolver" where
  "build_resolver plugin =
     (case plugin_build plugin of
        NotAResolver \<Rightarrow> Inl (ResolverPluginError (plugin_resolver_id plugin) BuiltNotAResolver)
      | CoroutineResolver \<Rightarrow> Inl (ResolverPluginError (plugin_resolver_id plugin) BuiltCoroutine)
      | SyncResolver f \<Rightarrow>
          Inr \<lparr>resolver_id = plugin_resolver_id plugin,
               relationship_types = declared_types (plugin_types plugin), resolve = f\<rparr>)"

section \<open>Whether an answer is usable\<close>

text \<open>
  The serialization of an identity: its JSON-mode dump, and what re-validating its JSON text
  gives; both may raise a \<open>ValueError\<close>, named by its class.
\<close>

record identity_wire =
  dump_identity :: "resolved_identity \<Rightarrow> ustr + json"
  reload_identity :: "resolved_identity \<Rightarrow> ustr + resolved_identity"

definition wire_problem :: "identity_wire \<Rightarrow> resolved_identity \<Rightarrow> identity_problem option" where
  "wire_problem wire i =
     (case dump_identity wire i of
        Inl err \<Rightarrow> Some (ContractRefuses err)
      | Inr j \<Rightarrow>
          (case storage_problem j of
             Some issue \<Rightarrow> Some (HoldsIssue issue)
           | None \<Rightarrow>
               (case reload_identity wire i of
                  Inl err \<Rightarrow> Some (ContractRefuses err)
                | Inr i' \<Rightarrow> if i' \<noteq> i then Some DoesNotSurvive else None)))"

definition identity_problem ::
    "identity_wire \<Rightarrow> resolver_answer \<Rightarrow> ustr \<Rightarrow> ustr set \<Rightarrow> native_subject
      \<Rightarrow> identity_problem option" where
  "identity_problem wire answer the_resolver types native =
     (case answer of
        NoAnswer \<Rightarrow> Some (NotResolvedIdentity (lit ''NoneType''))
      | OtherAnswer type_name \<Rightarrow> Some (NotResolvedIdentity type_name)
      | IdentityAnswer i \<Rightarrow>
          (case wire_problem wire i of
             Some problem \<Rightarrow> Some problem
           | None \<Rightarrow>
               let p = provenance i;
                   undeclared = sorted_list_of_set (relationship_type ` set (related i) - types)
               in if identity_method p = Unresolved then Some AnswersUnresolved
                  else if resolved_by p \<noteq> the_resolver then Some (NamesResolver (resolved_by p))
                  else if (native_namespace p, native_subject_id_of p)
                          \<noteq> (Some (subject_namespace native), Some (native_subject_id native))
                  then Some NamesAnotherSubject
                  else if undeclared \<noteq> [] then Some (UndeclaredTypes undeclared)
                  else None))"

section \<open>The identity step\<close>

record identity_service =
  active_resolver :: "composed_resolver option"
  identity_budget_ms :: nat

text \<open>\<open>_fallback\<close>: the reason with the text a resolver wrote made storable.\<close>

fun storable_reason :: "unresolved_reason \<Rightarrow> unresolved_reason" where
  "storable_reason (ResolverRaised r t msg) =
     ResolverRaised (storable_text r) (storable_text t) (storable_text msg)"
| "storable_reason (NoMatch r) = NoMatch (storable_text r)"
| "storable_reason (ResolverTimedOut r ms) = ResolverTimedOut (storable_text r) ms"
| "storable_reason (UnusableIdentity r p) = UnusableIdentity (storable_text r) p"
| "storable_reason why = why"

definition consult ::
    "identity_wire \<Rightarrow> identity_service \<Rightarrow> native_subject
      \<Rightarrow> identity_error + (unresolved_reason + resolved_identity)" where
  "consult wire service native =
     (case active_resolver service of
        None \<Rightarrow> Inr (Inl NoResolverActive)
      | Some composed \<Rightarrow>
     (let r = resolver_id composed;
          fallback = (\<lambda>why. Inr (Inl (storable_reason why)))
      in case resolve composed (subject_namespace native) (native_subject_id native) of
           DeadlineExpired \<Rightarrow> fallback (ResolverTimedOut r (identity_budget_ms service))
         | RaisedTimeout msg \<Rightarrow> fallback (ResolverRaised r (lit ''TimeoutError'') msg)
         | CancelledByCaller \<Rightarrow> Inl CallerCancelled
         | RaisedCancelled msg \<Rightarrow> fallback (ResolverRaised r (lit ''CancelledError'') msg)
         | RaisedOther type_name msg \<Rightarrow> fallback (ResolverRaised r type_name msg)
         | Answered NoAnswer \<Rightarrow> fallback (NoMatch r)
         | Answered answer \<Rightarrow>
             (case identity_problem wire answer r (relationship_types composed) native of
                Some problem \<Rightarrow> fallback (UnusableIdentity r problem)
              | None \<Rightarrow>
                  (case answer of
                     IdentityAnswer i \<Rightarrow> Inr (Inr i)
                   | _ \<Rightarrow> fallback (NoMatch r)))))"

definition identify ::
    "uuid5 \<Rightarrow> identity_wire \<Rightarrow> identity_service \<Rightarrow> instant \<Rightarrow> submission \<Rightarrow> reasoner_registration
      \<Rightarrow> identity_error + resolved_identity" where
  "identify uuid5 wire service now s registration =
     (case native_subject s of
        None \<Rightarrow> passthrough_identity uuid5 s registration NoNativeSubject now
      | Some native \<Rightarrow>
          rbind (consult wire service native) (\<lambda>outcome.
            case outcome of
              Inr i \<Rightarrow> Inr i
            | Inl reason \<Rightarrow> passthrough_identity uuid5 s registration reason now))"

record identity_lookup =
  found_identity :: "resolved_identity option"
  lookup_reason :: "unresolved_reason option"

definition lookup_subject ::
    "uuid5 \<Rightarrow> identity_wire \<Rightarrow> identity_service \<Rightarrow> instant \<Rightarrow> native_subject
      \<Rightarrow> (ustr \<rightharpoonup> native_namespace) \<Rightarrow> identity_error + identity_lookup" where
  "lookup_subject uuid5 wire service now native namespaces =
     rbind (consult wire service native) (\<lambda>outcome.
       case outcome of
         Inr i \<Rightarrow> Inr \<lparr>found_identity = Some i, lookup_reason = None\<rparr>
       | Inl reason \<Rightarrow>
           (case namespaces (subject_namespace native) of
              None \<Rightarrow> Inr \<lparr>found_identity = None, lookup_reason = Some reason\<rparr>
            | Some namespace \<Rightarrow>
                rbind (declared_identity uuid5 namespace native reason now) (\<lambda>i.
                  Inr \<lparr>found_identity = Some i, lookup_reason = Some reason\<rparr>)))"

section \<open>Facts\<close>

lemma construct_identity_Inr [simp]:
  "construct_identity uuid5 i = Inr i' \<longleftrightarrow> i' = i \<and> identity_valid uuid5 i"
  by (auto simp: construct_identity_def)

text \<open>The provenance names the subject the submission named.\<close>

definition echoes :: "native_subject option \<Rightarrow> resolved_identity \<Rightarrow> bool" where
  "echoes native i \<longleftrightarrow>
     (native_namespace (provenance i), native_subject_id_of (provenance i))
     = (map_option subject_namespace native, map_option native_subject_id native)"

lemmas identity_checks =
  identity_valid_def provenance_valid_def fields_match_method_def nonempty_def
  derivation_and_relationships_hold_def relationships_hold_def relation_pairs_def resolved_def
  derivation_valid_def derived_id_def derive_entity_id_def native_subject_valid_def
  native_namespace_valid_def

lemma declared_identity_valid:
  assumes "native_subject_valid native" "native_namespace_valid n" "reason \<noteq> ResolverText []"
  obtains i where "declared_identity uuid5 n native reason now = Inr i"
    and "identity_valid uuid5 i" "\<not> resolved i" "echoes (Some native) i"
    and "entity_id i = uuid5 (namespace_uuid n) (native_subject_id native)"
    and "entity_type i = namespace_entity_type n"
  using assms
  by (auto simp: declared_identity_def echoes_def identity_checks)

lemma passthrough_identity_valid:
  assumes "submission_valid dump s" "registration_valid registration" "reason \<noteq> ResolverText []"
  obtains i where "passthrough_identity uuid5 s registration reason now = Inr i"
    and "identity_valid uuid5 i" "\<not> resolved i" "echoes (native_subject s) i"
    and "validate_native_subject uuid5 s registration = Inr () \<Longrightarrow>
      entity_id i = asserted_entity_id s \<and> entity_type i = asserted_entity_type s"
proof -
  have asserted_type: "asserted_entity_type s \<noteq> []" using assms(1) by (simp add: submission_valid_def)
  have native_ok: "native_subject_valid n" if "native_subject s = Some n" for n
    using submission_validD(6) [OF assms(1) that] .
  show ?thesis
  proof (cases "native_subject s")
    case None
    then show ?thesis
      using asserted_type assms(3)
      by (intro that) (auto simp: passthrough_identity_def echoes_def identity_checks)
  next
    case (Some native)
    show ?thesis
    proof (cases "native_namespace_of registration (subject_namespace native)")
      case None
      with Some show ?thesis
        using asserted_type native_ok [OF Some]
        by (intro that) (auto simp: passthrough_identity_def echoes_def identity_checks)
    next
      case namespace: (Some n)
      then have "native_namespace_valid n"
        using registration_validD(6) [OF assms(2)] native_namespace_of_Some by blast
      then obtain i where i: "declared_identity uuid5 n native reason now = Inr i"
        and props: "identity_valid uuid5 i" "\<not> resolved i" "echoes (Some native) i"
          "entity_id i = uuid5 (namespace_uuid n) (native_subject_id native)"
          "entity_type i = namespace_entity_type n"
        using declared_identity_valid [OF native_ok [OF Some] _ assms(3)] by metis
      have "entity_id i = asserted_entity_id s \<and> entity_type i = asserted_entity_type s"
        if "validate_native_subject uuid5 s registration = Inr ()"
        using that props(4,5) native_ok [OF Some] Some namespace
        by (auto simp: validate_native_subject_def entity_id_of_def derive_entity_id_def
            native_subject_valid_def split: if_splits)
      with i props Some namespace show ?thesis
        by (intro that) (simp_all add: passthrough_identity_def)
    qed
  qed
qed

text \<open>What an accepted answer is known to satisfy.\<close>

lemma identity_problem_None:
  assumes "identity_problem wire (IdentityAnswer i) r types native = None"
  shows "reload_identity wire i = Inr i" "resolved i" "resolved_by (provenance i) = r"
    "echoes (Some native) i" "\<forall>e \<in> set (related i). relationship_type e \<in> types"
    "\<exists>j. dump_identity wire i = Inr j \<and> storable j"
  using assms
  by (auto simp: identity_problem_def wire_problem_def Let_def resolved_def echoes_def
      storage_problem_None_iff split: option.splits sum.splits if_splits)

definition revalidates :: "uuid5 \<Rightarrow> identity_wire \<Rightarrow> bool" where
  "revalidates uuid5 wire \<longleftrightarrow> (\<forall>i i'. reload_identity wire i = Inr i' \<longrightarrow> identity_valid uuid5 i')"

lemma consult_identity:
  assumes "consult wire service native = Inr (Inr i)"
  obtains composed where "active_resolver service = Some composed"
    and "resolve composed (subject_namespace native) (native_subject_id native)
      = Answered (IdentityAnswer i)"
    and "identity_problem wire (IdentityAnswer i) (resolver_id composed)
      (relationship_types composed) native = None"
  using assms
  by (auto simp: consult_def Let_def split: option.splits resolver_outcome.splits
      resolver_answer.splits)

lemma consult_reason:
  "consult wire service native = Inr (Inl why) \<Longrightarrow> why \<noteq> ResolverText []"
  by (auto simp: consult_def Let_def split: option.splits resolver_outcome.splits
      resolver_answer.splits)

lemma consult_cancelled:
  "consult wire service native = Inl err \<longleftrightarrow> err = CallerCancelled \<and>
     (\<exists>composed. active_resolver service = Some composed
       \<and> resolve composed (subject_namespace native) (native_subject_id native) = CancelledByCaller)"
  by (auto simp: consult_def Let_def split: option.splits resolver_outcome.splits
      resolver_answer.splits)

text \<open>The caller is being cancelled while the resolver runs.\<close>

definition cancelled :: "identity_service \<Rightarrow> submission \<Rightarrow> bool" where
  "cancelled service s \<longleftrightarrow>
     (\<exists>native composed. native_subject s = Some native \<and> active_resolver service = Some composed
       \<and> resolve composed (subject_namespace native) (native_subject_id native) = CancelledByCaller)"

lemma identify_cases:
  assumes "submission_valid dump s" "registration_valid registration" "revalidates uuid5 wire"
    "\<not> cancelled service s"
  obtains i where "identify uuid5 wire service now s registration = Inr i"
    and "identity_valid uuid5 i" "echoes (native_subject s) i"
    and "\<not> resolved i \<Longrightarrow> validate_native_subject uuid5 s registration = Inr () \<Longrightarrow>
      entity_id i = asserted_entity_id s \<and> entity_type i = asserted_entity_type s"
    and "resolved i \<Longrightarrow> \<exists>composed. active_resolver service = Some composed
      \<and> resolved_by (provenance i) = resolver_id composed
      \<and> (\<forall>e \<in> set (related i). relationship_type e \<in> relationship_types composed)"
proof (cases "native_subject s")
  case None
  show ?thesis
    by (rule passthrough_identity_valid [OF assms(1,2), of NoNativeSubject uuid5 now])
      (use None in \<open>auto simp: identify_def intro: that\<close>)
next
  case (Some native)
  show ?thesis
  proof (cases "consult wire service native")
    case (Inl err)
    with assms(4) Some show ?thesis by (auto simp: consult_cancelled cancelled_def)
  next
    case (Inr outcome)
    show ?thesis
    proof (cases outcome)
      case (Inl reason)
      show ?thesis
        by (rule passthrough_identity_valid [OF assms(1,2), of reason uuid5 now])
          (use Some Inr Inl in \<open>auto simp: identify_def dest: consult_reason intro: that\<close>)
    next
      case found: (Inr i)
      obtain composed where c: "active_resolver service = Some composed"
        "identity_problem wire (IdentityAnswer i) (resolver_id composed)
          (relationship_types composed) native = None"
        using consult_identity Inr found by metis
      note facts = identity_problem_None [OF c(2)]
      have "identity_valid uuid5 i" using facts(1) assms(3) by (auto simp: revalidates_def)
      with facts c Some Inr found show ?thesis
        by (intro that [of i]) (auto simp: identify_def)
    qed
  qed
qed

end
