(* ===== verification/Gates.thy ===== *)
theory Gates
  imports Bundle
begin

text \<open>
  \<open>app/gates.py\<close> and \<open>core/gate_request.py\<close>: discovering, checking, building and closing gate
  plugins, admitting the bindings of a registration, and invoking one gate so that anything
  unusable fails closed. A gate is third-party code: its capabilities are functions in the
  record \<open>built_gate\<close>, and one call of it ends in a \<open>gate_run\<close> (what it did and how long it
  took, in tenths of a millisecond). Closing a gate is an effect; operations that close
  gates return the sequence of the gates they closed.
\<close>

section \<open>Requests\<close>

record gate_request =
  request_decision_id :: ustr
  request_submission :: submission
  request_context :: gate_context
  budget_ms :: nat
  request_identity :: "resolved_identity option"
  binding_config :: json_obj

section \<open>Gates and plugins\<close>

text \<open>A configuration as a gate sees it: the raw mapping, or its validated model instance.\<close>

datatype config_value = RawConfig json_obj | ModelConfig json

text \<open>
  What \<open>evaluate\<close> returned: not a \<open>GateOutput\<close> (its type), or one, with the type of a verdict
  that is not exactly a \<open>GateVerdict\<close> and those of evidence that is not exactly \<open>EvidenceRef\<close>.
\<close>

datatype gate_answer =
    NotAnOutput ustr
  | OutputAnswer gate_output "ustr option" "ustr set"

datatype gate_outcome =
    Returned gate_answer
  | GateTimeoutError ustr ustr
  | GateCancelledError ustr
  | CallerCancels
  | GateRaised ustr ustr

record gate_run =
  gate_outcome :: gate_outcome
  run_elapsed :: nat
  deadline_expired :: bool

datatype verify_answer = Statuses "evidence_status option list" | NotASequence

datatype verify_outcome =
    VerifyReturned verify_answer
  | VerifyRaised
  | VerifyCallerCancels

record verify_run =
  verify_outcome :: verify_outcome
  verify_elapsed :: nat
  verify_expired :: bool

record built_gate =
  evaluate :: "gate_request \<Rightarrow> gate_run"
  authorize_config :: "(config_value \<Rightarrow> ustr \<Rightarrow> ustr + unit) option"
  validate_binding :: "(ustr \<Rightarrow> config_value \<Rightarrow> ustr + unit) option"
  serves :: "(ustr \<Rightarrow> bool) option"
  verify :: "(gate_output \<Rightarrow> bool \<Rightarrow> verify_run) option"

datatype gate_object =
    NoGateProtocol
  | SynchronousGate
  | AsyncGate built_gate

datatype model_attribute = NotAModel | Model "json_obj \<Rightarrow> ustr + json"

record gate_plugin =
  plugin_protocol :: bool
  plugin_gate_id :: ustr
  plugin_kind :: ustr
  plugin_deterministic :: "bool option"
  config_model :: "model_attribute option"
  binding_config_model :: "model_attribute option"
  plugin_builds :: "ustr + gate_object"

record composed_gate =
  plugin :: gate_plugin
  gate :: built_gate
  deployment_mandates :: bool

definition composed_gate_id :: "composed_gate \<Rightarrow> ustr" where
  "composed_gate_id c = plugin_gate_id (plugin c)"

type_synonym gate_map = "(ustr \<times> composed_gate) list"

datatype gate_problem =
    LoadFailed ustr
  | NotAGatePlugin
  | IdDiffers ustr
  | UnknownKind ustr
  | DeterministicNotBool
  | ModelNotPydantic string
  | DuplicateGateId
  | MandatedNotComposed "ustr list"
  | BuildReturned string
  | BuildRaised ustr
  | MandatoryBindingNotComposed ustr
  | BindingRefused ustr ustr
  | NotServed ustr
  | UnboundMandateRefused ustr ustr

datatype gate_error = GatePluginError ustr gate_problem

definition KINDS :: "ustr set" where
  "KINDS = {lit ''llm'', lit ''lookup'', lit ''rules''}"

fun model_ok :: "model_attribute option \<Rightarrow> bool" where
  "model_ok (Some NotAModel) = False"
| "model_ok _ = True"

definition check_gate_plugin :: "gate_plugin \<Rightarrow> ustr \<Rightarrow> gate_error + gate_plugin" where
  "check_gate_plugin obj name =
     (if \<not> plugin_protocol obj then Inl (GatePluginError name NotAGatePlugin)
      else if plugin_gate_id obj \<noteq> name
      then Inl (GatePluginError name (IdDiffers (plugin_gate_id obj)))
      else if plugin_kind obj \<notin> KINDS
      then Inl (GatePluginError name (UnknownKind (plugin_kind obj)))
      else if plugin_deterministic obj = None
      then Inl (GatePluginError name DeterministicNotBool)
      else if \<not> model_ok (config_model obj)
      then Inl (GatePluginError name (ModelNotPydantic ''config_model''))
      else if \<not> model_ok (binding_config_model obj)
      then Inl (GatePluginError name (ModelNotPydantic ''binding_config_model''))
      else Inr obj)"

record gate_entry_point =
  gate_ep_name :: ustr
  gate_ep_load :: "ustr + gate_plugin"

fun load_gates :: "gate_entry_point list \<Rightarrow> gate_plugin list \<Rightarrow> gate_error + gate_plugin list" where
  "load_gates [] plugins = Inr plugins"
| "load_gates (ep # eps) plugins =
     (case gate_ep_load ep of
        Inl err \<Rightarrow> Inl (GatePluginError (gate_ep_name ep) (LoadFailed err))
      | Inr obj \<Rightarrow>
          rbind (check_gate_plugin obj (gate_ep_name ep)) (\<lambda>p.
            if plugin_gate_id p \<in> set (map plugin_gate_id plugins)
            then Inl (GatePluginError (gate_ep_name ep) DuplicateGateId)
            else load_gates eps (plugins @ [p])))"

definition discover_gates :: "gate_entry_point list \<Rightarrow> gate_error + gate_plugin list" where
  "discover_gates eps = load_gates (sort_key gate_ep_name eps) []"

section \<open>Admitting the gate set of a registration\<close>

text \<open>\<open>model_validate\<close>: the model instance, or the problems it reports.\<close>

fun apply_model :: "model_attribute option \<Rightarrow> json_obj \<Rightarrow> ustr + config_value" where
  "apply_model (Some (Model f)) raw = map_sum id ModelConfig (f raw)"
| "apply_model _ raw = Inr (RawConfig raw)"

definition admit_binding :: "composed_gate \<Rightarrow> gate_binding \<Rightarrow> ustr \<Rightarrow> ustr + unit" where
  "admit_binding c b reasoner =
     rbind (apply_model (binding_config_model (plugin c)) (config b)) (\<lambda>value.
       case validate_binding (gate c) of
         Some accept \<Rightarrow> accept reasoner value
       | None \<Rightarrow>
           if binding_config_model (plugin c) = None \<and> config b \<noteq> []
           then Inl (lit ''the gate takes no binding configuration'')
           else Inr ())"

definition check_unbound_mandate :: "composed_gate \<Rightarrow> ustr \<Rightarrow> gate_error + unit" where
  "check_unbound_mandate c reasoner =
     (case rbind (apply_model (binding_config_model (plugin c)) []) (\<lambda>_.
           rbind (apply_model (config_model (plugin c)) []) (\<lambda>value.
             case authorize_config (gate c) of
               Some authorize \<Rightarrow> authorize value reasoner
             | None \<Rightarrow> Inr ())) of
        Inl err \<Rightarrow> Inl (GatePluginError (composed_gate_id c) (UnboundMandateRefused reasoner err))
      | Inr _ \<Rightarrow> Inr ())"

definition check_composed :: "ustr \<Rightarrow> gate_map \<Rightarrow> gate_binding \<Rightarrow> gate_error + unit" where
  "check_composed reasoner gs b =
     (if map_of gs (binding_gate_id b) = None \<and> mandatory b
      then Inl (GatePluginError (binding_gate_id b) (MandatoryBindingNotComposed reasoner))
      else Inr ())"

definition check_binding :: "ustr \<Rightarrow> gate_map \<Rightarrow> gate_binding \<Rightarrow> gate_error + unit" where
  "check_binding reasoner gs b =
     (case map_of gs (binding_gate_id b) of
        None \<Rightarrow> Inr ()
      | Some c \<Rightarrow>
          (case admit_binding c b reasoner of
             Inl err \<Rightarrow> Inl (GatePluginError (binding_gate_id b) (BindingRefused reasoner err))
           | Inr _ \<Rightarrow>
               (case serves (gate c) of
                  Some answers \<Rightarrow>
                    if answers reasoner then Inr ()
                    else Inl (GatePluginError (binding_gate_id b) (NotServed reasoner))
                | None \<Rightarrow> Inr ())))"

definition check_gate_set :: "reasoner_registration \<Rightarrow> gate_map \<Rightarrow> gate_error + unit" where
  "check_gate_set registration gs =
     (let reasoner = registered_reasoner_id registration
      in rbind (rcheck (check_composed reasoner gs) (gates registration)) (\<lambda>_.
         rbind (rcheck (\<lambda>(g, c). if deployment_mandates c \<and> g \<notin> gate_ids registration
                                 then check_unbound_mandate c reasoner else Inr ()) gs) (\<lambda>_.
         rcheck (check_binding reasoner gs) (gates registration))))"

section \<open>Building and closing gates\<close>

text \<open>
  One pass of the composition loop: the gates composed so far, in order, and on failure the
  object \<open>build\<close> returned that was rejected, which is closed at once.
\<close>

datatype build_failure = BuildFailure gate_error (rejected: "ustr option") (built: gate_map)

fun compose_gates :: "ustr set \<Rightarrow> gate_plugin list \<Rightarrow> gate_map \<Rightarrow> build_failure + gate_map" where
  "compose_gates mandated [] composed = Inr composed"
| "compose_gates mandated (p # ps) composed =
     (case check_gate_plugin p (plugin_gate_id p) of
        Inl err \<Rightarrow> Inl (BuildFailure err None composed)
      | Inr _ \<Rightarrow>
          if plugin_gate_id p \<in> fst ` set composed
          then Inl (BuildFailure (GatePluginError (plugin_gate_id p) DuplicateGateId) None composed)
          else (case plugin_builds p of
                  Inl err \<Rightarrow>
                    Inl (BuildFailure (GatePluginError (plugin_gate_id p) (BuildRaised err))
                           None composed)
                | Inr NoGateProtocol \<Rightarrow>
                    Inl (BuildFailure
                           (GatePluginError (plugin_gate_id p) (BuildReturned ''not a Gate''))
                           (Some (plugin_gate_id p)) composed)
                | Inr SynchronousGate \<Rightarrow>
                    Inl (BuildFailure
                           (GatePluginError (plugin_gate_id p) (BuildReturned ''synchronous evaluate''))
                           (Some (plugin_gate_id p)) composed)
                | Inr (AsyncGate g) \<Rightarrow>
                    compose_gates mandated ps
                      (composed @ [(plugin_gate_id p,
                        \<lparr>plugin = p, gate = g,
                         deployment_mandates = (plugin_gate_id p \<in> mandated)\<rparr>)])))"

text \<open>
  \<open>build_gates\<close>: the composed gates, or the error together with the gates closed, in the
  order of the \<open>close()\<close> calls (errors of which are suppressed).
\<close>

definition build_gates ::
    "gate_plugin list \<Rightarrow> reasoner_registration list \<Rightarrow> ustr set
      \<Rightarrow> (gate_error \<times> ustr list) + gate_map" where
  "build_gates plugins served mandated =
     (let missing = sorted_list_of_set (mandated - plugin_gate_id ` set plugins)
      in if missing \<noteq> [] then Inl (GatePluginError (concat missing) (MandatedNotComposed missing), [])
         else (case compose_gates mandated plugins [] of
                 Inl failure \<Rightarrow>
                   (case failure of BuildFailure err rej composed \<Rightarrow>
                      Inl (err, (case rej of Some g \<Rightarrow> [g] | None \<Rightarrow> []) @ rev (map fst composed)))
               | Inr composed \<Rightarrow>
                   (case rcheck (\<lambda>r. check_gate_set r composed) served of
                      Inl err \<Rightarrow> Inl (err, rev (map fst composed))
                    | Inr _ \<Rightarrow> Inr composed)))"

text \<open>
  \<open>close_gates\<close>: every gate is closed, in reverse order; the first error is raised at the end.
  \<open>closing\<close> is what each gate's \<open>close()\<close> raises, if anything.
\<close>

definition close_gates :: "(ustr \<Rightarrow> ustr option) \<Rightarrow> gate_map \<Rightarrow> ustr list \<times> ustr option" where
  "close_gates closing gs =
     fold (\<lambda>(g, c) (closed, first_error).
             (closed @ [g], first_problem first_error (closing g)))
       (rev gs) ([], None)"

section \<open>Invoking a gate\<close>

datatype failure_kind = KindNotComposed | KindTimeout | KindError | KindMalformedOutput

record gate_invocation =
  invocation_gate_id :: ustr
  invocation_output :: "gate_output option"
  invoked :: bool
  failure :: "failure_kind option"
  invocation_reason :: "failure_reason option"
  invocation_duration :: "nat option"

definition invocation_ran :: "gate_invocation \<Rightarrow> bool" where
  "invocation_ran i \<longleftrightarrow> failure i = None"

text \<open>
  Serialization of an output (pydantic): its JSON-mode dump and what re-validating its JSON
  text gives; a \<open>ValueError\<close> is named by its class.
\<close>

record output_wire =
  dump_output :: "gate_output \<Rightarrow> ustr + json"
  reload_output :: "gate_output \<Rightarrow> ustr + gate_output"

definition unstorable_output :: "output_wire \<Rightarrow> gate_output \<Rightarrow> output_problem option" where
  "unstorable_output wire out =
     (case dump_output wire out of
        Inl err \<Rightarrow> Some (Unstorable (NotSerializable err))
      | Inr j \<Rightarrow>
          (case storage_problem j of
             Some issue \<Rightarrow> Some (Unstorable issue)
           | None \<Rightarrow>
               (case reload_output wire out of
                  Inl err \<Rightarrow> Some (Unstorable (NotSerializable err))
                | Inr out' \<Rightarrow> if out' \<noteq> out then Some (Unstorable DoesNotRoundTrip) else None)))"

definition output_problem :: "output_wire \<Rightarrow> composed_gate \<Rightarrow> gate_answer \<Rightarrow> output_problem option" where
  "output_problem wire c answer =
     (case answer of
        NotAnOutput type_name \<Rightarrow> Some (NotGateOutput type_name)
      | OutputAnswer out verdict_type foreign \<Rightarrow>
          if verdict out \<noteq> None \<and> verdict_type \<noteq> None then Some (ForeignVerdict (the verdict_type))
          else if foreign \<noteq> {} then Some (ForeignEvidence (sorted_list_of_set foreign))
          else if output_gate_id out \<noteq> composed_gate_id c
          then Some (OtherGatesOutput (output_gate_id out))
          else if Some (deterministic out) \<noteq> plugin_deterministic (plugin c)
          then Some (WrongDeterminism (deterministic out) (plugin_deterministic (plugin c) = Some True))
          else unstorable_output wire out)"

text \<open>\<open>_failed\<close>: a failed invocation, its quoted text made storable.\<close>

fun storable_failure :: "failure_reason \<Rightarrow> failure_reason" where
  "storable_failure (Raised type_name msg) = Raised (storable_text type_name) (storable_text msg)"
| "storable_failure (NotComposed g) = NotComposed (storable_text g)"
| "storable_failure why = why"

definition failed :: "ustr \<Rightarrow> failure_kind \<Rightarrow> failure_reason \<Rightarrow> nat option \<Rightarrow> bool \<Rightarrow> gate_invocation" where
  "failed g kind why elapsed was_invoked =
     \<lparr>invocation_gate_id = g, invocation_output = None, invoked = was_invoked,
      failure = Some kind, invocation_reason = Some (storable_failure why),
      invocation_duration = elapsed\<rparr>"

datatype cancelled_call = CancelledCall

definition invoke_gate ::
    "output_wire \<Rightarrow> composed_gate option \<Rightarrow> gate_request \<Rightarrow> cancelled_call + gate_invocation" where
  "invoke_gate wire composed request =
     (let g = context_gate_id (request_context request);
          budget = budget_ms request
      in case composed of
           None \<Rightarrow> Inr (failed g KindNotComposed (NotComposed g) None False)
         | Some c \<Rightarrow>
     (let run = evaluate (gate c) request;
          elapsed = run_elapsed run
      in case gate_outcome run of
           GateTimeoutError type_name msg \<Rightarrow>
             Inr (if deadline_expired run
                  then failed g KindTimeout (TimedOut budget) (Some elapsed) True
                  else failed g KindError (Raised type_name msg) (Some elapsed) True)
         | CallerCancels \<Rightarrow> Inl CancelledCall
         | GateCancelledError msg \<Rightarrow>
             Inr (failed g KindError (Raised (lit ''CancelledError'') msg) (Some elapsed) True)
         | GateRaised type_name msg \<Rightarrow>
             Inr (failed g KindError (Raised type_name msg) (Some elapsed) True)
         | Returned answer \<Rightarrow>
             if deadline_expired run
             then Inr (failed g KindTimeout (LateAfterCancellation budget elapsed) (Some elapsed) True)
             else if budget * 10 < elapsed
             then Inr (failed g KindTimeout (ExceededBudget elapsed budget) (Some elapsed) True)
             else (case output_problem wire c answer of
                     Some problem \<Rightarrow>
                       Inr (failed g KindMalformedOutput (MalformedOutput problem) (Some elapsed) True)
                   | None \<Rightarrow>
                       Inr \<lparr>invocation_gate_id = g,
                            invocation_output =
                              (case answer of OutputAnswer out _ _ \<Rightarrow> Some out | NotAnOutput _ \<Rightarrow> None),
                            invoked = True, failure = None, invocation_reason = None,
                            invocation_duration = Some elapsed\<rparr>)))"

section \<open>Verifying evidence\<close>

definition verify_evidence ::
    "composed_gate option \<Rightarrow> gate_output \<Rightarrow> bool \<Rightarrow> nat \<Rightarrow> cancelled_call + evidence_status list" where
  "verify_evidence composed out live budget =
     (let count = length (evidence out);
          unverifiable = replicate count NotVerifiable
      in if count = 0 then Inr []
         else case Option.bind composed (\<lambda>c. verify (gate c)) of
           None \<Rightarrow> Inr unverifiable
         | Some ask \<Rightarrow>
             (let run = ask out live
              in case verify_outcome run of
                   VerifyCallerCancels \<Rightarrow> Inl CancelledCall
                 | VerifyRaised \<Rightarrow> Inr unverifiable
                 | VerifyReturned answer \<Rightarrow>
                     if verify_expired run \<or> budget * 10 < verify_elapsed run then Inr unverifiable
                     else (case answer of
                             NotASequence \<Rightarrow> Inr unverifiable
                           | Statuses statuses \<Rightarrow>
                               if length statuses \<noteq> count \<or> None \<in> set statuses
                               then Inr unverifiable
                               else Inr (map the statuses))))"

end
