(* ===== verification/Submit.thy ===== *)
theory Submit
  imports Enforcement_Spec Identity_Service Gates
begin

text \<open>
  \<open>app/submit.py\<close>: intake, the decision's subject, its gate set, enforcement and the bundle.
  The deployment is a record of what \<open>decide\<close> is given (composed gates, registry, identity
  step); the clock, the generated id and the measured durations are inputs. Gates run
  concurrently and \<open>asyncio.gather\<close> returns the records in the order of the bindings: the
  model runs them in that order.
\<close>

section \<open>The deployment and the errors\<close>

record deployment =
  deployed_gates :: gate_map
  registry_get :: "ustr \<Rightarrow> reasoner_registration option"
  identity_step :: identity_service
  wire_identity :: identity_wire
  wire_output :: output_wire
  derive :: uuid5
  version_of :: "reasoner_registration \<Rightarrow> ustr"

record readings =
  identified_at :: instant
  built_at :: instant
  identity_ms :: rat
  gate_ms :: rat
  enforcement_ms :: rat
  fresh_id :: ustr

datatype decide_error =
    UnregisteredReasonerError ustr
  | IntakeRaised intake_error
  | IdentityRaised identity_error
  | PredicateRaised predicate_error
  | BudgetNotPositive
  | CallCancelled
  | GateRecordInvalid record_problem
  | EnforcementRaised enforcement_error
  | BundleInvalid bundle_violation

text \<open>An exception of a step, as the exception \<open>decide\<close> raises.\<close>

definition lift_error :: "('a \<Rightarrow> decide_error) \<Rightarrow> 'a + 'b \<Rightarrow> decide_error + 'b" where
  "lift_error f r = map_sum f id r"

lemma lift_error_Inr [simp]: "lift_error f r = Inr x \<longleftrightarrow> r = Inr x"
  by (cases r) (auto simp: lift_error_def)

section \<open>Intake\<close>

definition validate_gate_config ::
    "composed_gate \<Rightarrow> gate_context \<Rightarrow> ustr \<Rightarrow> bool \<Rightarrow> intake_error + unit" where
  "validate_gate_config c context reasoner bound =
     (let raw = (case gate_config context of Some kvs \<Rightarrow> kvs | None \<Rightarrow> [])
      in case apply_model (config_model (plugin c)) raw of
           Inl problems \<Rightarrow>
             Inl (SubmissionContractError reasoner
               (GateConfigInvalid (composed_gate_id c) problems bound))
         | Inr value \<Rightarrow>
             (case authorize_config (gate c) of
                None \<Rightarrow> Inr ()
              | Some authorize \<Rightarrow>
                  (case authorize value reasoner of
                     Inl err \<Rightarrow>
                       Inl (SubmissionContractError reasoner
                         (GateConfigUnauthorized (composed_gate_id c) err))
                   | Inr _ \<Rightarrow> Inr ())))"

definition deployment_mandatory :: "gate_map \<Rightarrow> ustr set" where
  "deployment_mandatory gs = fst ` set (filter (\<lambda>(g, c). deployment_mandates c) gs)"

definition context_for :: "submission \<Rightarrow> ustr \<Rightarrow> gate_context" where
  "context_for s g =
     (case gate_context_of s g of
        Some context \<Rightarrow> context
      | None \<Rightarrow> \<lparr>context_gate_id = g, gate_config = None\<rparr>)"

text \<open>Everything that may refuse a submission: the rule a record cites and the gate set.\<close>

definition intake ::
    "deployment \<Rightarrow> submission \<Rightarrow> reasoner_registration
      \<Rightarrow> intake_error + (bypass_rule option \<times> gate_binding list)" where
  "intake d s registration =
     (let mandated = deployment_mandatory (deployed_gates d)
      in rbind (validate_submission (derive d) s registration mandated) (\<lambda>rule.
         let gate_set = effective_gate_set registration mandated
         in rbind (rcheck (\<lambda>b. case map_of (deployed_gates d) (binding_gate_id b) of
                                 None \<Rightarrow> Inr ()
                               | Some c \<Rightarrow>
                                   validate_gate_config c (context_for s (binding_gate_id b))
                                     (reasoner_id s)
                                     (binding_gate_id b \<in> gate_ids registration))
                    gate_set) (\<lambda>_. Inr (rule, gate_set))))"

section \<open>Running a gate set\<close>

definition run_one ::
    "deployment \<Rightarrow> (ustr \<Rightarrow> gate_request) \<Rightarrow> reasoner_registration \<Rightarrow> gate_binding
      \<Rightarrow> decide_error + gate_record" where
  "run_one d request registration b =
     (let g = binding_gate_id b
      in if budget_ms (request g) = 0 then Inl BudgetNotPositive
         else rbind (lift_error (\<lambda>_. CallCancelled)
                (invoke_gate (wire_output d) (map_of (deployed_gates d) g) (request g))) (\<lambda>i.
         let why = map_option GateFailure (invocation_reason i)
         in lift_error GateRecordInvalid (construct_gate_record
              \<lparr>record_gate_id = g, record_mandatory = mandatory b,
               status = (if invocation_ran i then Ran else Failed),
               record_reason = why,
               input = (if invoked i then Some \<lparr>input_gate_id = g\<rparr> else None),
               gate_output_of = invocation_output i,
               enforcement = Some (resolve_gate_output (invocation_output i) registration why),
               duration = invocation_duration i\<rparr>)))"

definition run_gate_set ::
    "deployment \<Rightarrow> (ustr \<Rightarrow> gate_request) \<Rightarrow> reasoner_registration \<Rightarrow> gate_binding list
      \<Rightarrow> decide_error + gate_record list" where
  "run_gate_set d request registration bindings = rmap (run_one d request registration) bindings"

definition skipped :: "record_reason \<Rightarrow> gate_binding \<Rightarrow> gate_record" where
  "skipped why b =
     \<lparr>record_gate_id = binding_gate_id b, record_mandatory = mandatory b, status = Skipped,
      record_reason = Some why, input = None, gate_output_of = None, enforcement = None,
      duration = None\<rparr>"

definition blocked_by_mandatory_gate :: "gate_record list \<Rightarrow> bool" where
  "blocked_by_mandatory_gate records = list_ex (\<lambda>r. enforced_action r = Some BLOCK) records"

section \<open>Deciding\<close>

definition make_request ::
    "submission \<Rightarrow> gate_binding list \<Rightarrow> ustr \<Rightarrow> resolved_identity \<Rightarrow> nat \<Rightarrow> ustr \<Rightarrow> gate_request" where
  "make_request s gate_set the_id subject budget g =
     \<lparr>request_decision_id = the_id, request_submission = s, request_context = context_for s g,
      budget_ms = budget, request_identity = Some subject,
      binding_config = (case find (\<lambda>b. binding_gate_id b = g) gate_set of
                          Some b \<Rightarrow> config b | None \<Rightarrow> [])\<rparr>"

text \<open>Steps 4 to 6: the records of the decision's gate set, mandatory gates first.\<close>

definition gate_phase ::
    "deployment \<Rightarrow> submission \<Rightarrow> (ustr \<Rightarrow> gate_request) \<Rightarrow> reasoner_registration
      \<Rightarrow> gate_binding list \<Rightarrow> decide_error + gate_record list" where
  "gate_phase d s request registration gate_set =
     (let mandatories = filter mandatory gate_set;
          advisory = filter (\<lambda>b. \<not> mandatory b) gate_set
      in rbind (run_gate_set d request registration mandatories) (\<lambda>records.
           if mode s = Record then Inr (records @ map (skipped SkippedForRecord) advisory)
           else if blocked_by_mandatory_gate records
           then Inr (records @ map (skipped SkippedForBlock) advisory)
           else rbind (run_gate_set d request registration advisory)
                  (\<lambda>more. Inr (records @ more))))"

definition or_default :: "ustr option \<Rightarrow> ustr \<Rightarrow> ustr" where
  "or_default given fallback = (case given of Some x \<Rightarrow> if x = [] then fallback else x | None \<Rightarrow> fallback)"

definition decide ::
    "deployment \<Rightarrow> readings \<Rightarrow> submission \<Rightarrow> instant \<Rightarrow> (ustr \<times> rat) list \<Rightarrow> ustr option
      \<Rightarrow> ustr option \<Rightarrow> nat \<Rightarrow> decide_error + decision_bundle" where
  "decide d t s received upstream given_id given_key budget =
     (case registry_get d (reasoner_id s) of
        None \<Rightarrow> Inl (UnregisteredReasonerError (reasoner_id s))
      | Some registration \<Rightarrow>
     rbind (lift_error IntakeRaised (intake d s registration)) (\<lambda>(rule, gate_set).
     let the_id = or_default given_id (fresh_id t);
         key = or_default given_key (event_id s)
     in
     rbind (lift_error IdentityRaised
       (identify (derive d) (wire_identity d) (identity_step d) (identified_at t) s registration))
       (\<lambda>subject.
     let latency1 = AList.update (lit ''identity_ms'') (identity_ms t) upstream
     in
     rbind (case rule of
              None \<Rightarrow> Inr (None, [])
            | Some r \<Rightarrow>
                rbind (lift_error PredicateRaised (evaluate_bypass r (reasoner_context s))) (\<lambda>check.
                rbind (lift_error PredicateRaised
                  (evaluate_competing_rules registration r (reasoner_context s))) (\<lambda>others.
                Inr (Some check, others)))) (\<lambda>(check, others).
     rbind (gate_phase d s (make_request s gate_set the_id subject budget) registration gate_set)
       (\<lambda>records.
     rbind (lift_error EnforcementRaised (resolve_decision s records registration check others))
       (\<lambda>decision.
     let latency = AList.update (lit ''enforcement_ms'') (enforcement_ms t)
                     (AList.update (lit ''gate_ms'') (gate_ms t) latency1)
     in lift_error BundleInvalid
          (build_bundle (built_at t) the_id s key received records decision check others latency
             (Some (version_of d registration)) (Some subject))))))))"

end
