(* ===== verification/Replay.thy ===== *)
theory Replay
  imports Submit
begin

text \<open>
  \<open>replay_bundle\<close> of \<open>app/audit/store.py\<close>: enforcement run again on the states a bundle
  caches, with no gate invoked, and what comparing the two runs reports.
\<close>

record gate_replay =
  replay_gate_id :: ustr
  replay_status :: gate_status
  original_gate_action :: "decision_action option"
  replayed_gate_action :: "decision_action option"

definition gate_matches :: "gate_replay \<Rightarrow> bool" where
  "gate_matches g \<longleftrightarrow> original_gate_action g = replayed_gate_action g"

record replay_result =
  replay_decision_id :: ustr
  original_action :: decision_action
  replayed_action :: decision_action
  actions_match :: bool
  original_bypass_rule_holds :: "bool option"
  replayed_bypass_rule_holds :: "bool option"
  gate_replays :: "gate_replay list"
  replayed_decision :: enforcement_decision
  competing_rules_match :: bool
  replay_registration_version :: ustr

definition bypass_matches :: "replay_result \<Rightarrow> bool" where
  "bypass_matches r \<longleftrightarrow> original_bypass_rule_holds r = replayed_bypass_rule_holds r"

definition matched :: "replay_result \<Rightarrow> bool" where
  "matched r \<longleftrightarrow>
     actions_match r \<and> bypass_matches r \<and> competing_rules_match r
     \<and> list_all gate_matches (gate_replays r)"

datatype replay_error = ReplayPredicate predicate_error | ReplayEnforcement enforcement_error

definition replay_record :: "reasoner_registration \<Rightarrow> gate_record \<Rightarrow> gate_record \<times> gate_replay" where
  "replay_record registration r =
     (case enforcement r of
        None \<Rightarrow>
          (r, \<lparr>replay_gate_id = record_gate_id r, replay_status = status r,
               original_gate_action = None, replayed_gate_action = None\<rparr>)
      | Some stored \<Rightarrow>
          let e = resolve_gate_output (gate_output_of r) registration (record_reason r)
          in (r\<lparr>enforcement := Some e\<rparr>,
              \<lparr>replay_gate_id = record_gate_id r, replay_status = status r,
               original_gate_action = Some (decision_action stored),
               replayed_gate_action = Some (decision_action e)\<rparr>))"

definition reevaluate :: "bypass_check \<Rightarrow> reasoner_context \<Rightarrow> replay_error + bypass_check" where
  "reevaluate check facts = map_sum ReplayPredicate id (evaluate_bypass (rule check) facts)"

definition replay_bundle ::
    "(reasoner_registration \<Rightarrow> ustr) \<Rightarrow> decision_bundle \<Rightarrow> reasoner_registration
      \<Rightarrow> replay_error + replay_result" where
  "replay_bundle version b registration =
     (let replays = map (replay_record registration) (bundle_gates b);
          facts = reasoner_context (submission b)
      in rbind (case bundle_check b of
                  None \<Rightarrow> Inr None
                | Some check \<Rightarrow> rbind (reevaluate check facts) (\<lambda>c. Inr (Some c))) (\<lambda>check.
         rbind (rmap (\<lambda>c. reevaluate c facts) (other_bypass_checks b)) (\<lambda>competing.
         rbind (map_sum ReplayEnforcement id
                  (resolve_decision (submission b) (map fst replays) registration check competing))
           (\<lambda>decision.
         Inr \<lparr>replay_decision_id = decision_id b, original_action = bundle_action b,
              replayed_action = decision_action decision,
              actions_match = (bundle_action b = decision_action decision),
              original_bypass_rule_holds = bypass_rule_holds b,
              replayed_bypass_rule_holds = map_option holds check,
              gate_replays = map snd replays, replayed_decision = decision,
              competing_rules_match = (map holds competing = map holds (other_bypass_checks b)),
              replay_registration_version = version registration\<rparr>))))"

section \<open>What a successful decision consists of\<close>

text \<open>A record whose enforcement is what the tiers give for its own output and reason.\<close>

definition faithful_record :: "reasoner_registration \<Rightarrow> gate_record \<Rightarrow> bool" where
  "faithful_record registration r \<longleftrightarrow>
     fields_match_status r = Inr ()
     \<and> (enforcement r = None
        \<or> enforcement r = Some (resolve_gate_output (gate_output_of r) registration (record_reason r)))"

lemma run_one_Inr:
  assumes "run_one d request registration b = Inr r"
  shows "faithful_record registration r" "record_gate_id r = binding_gate_id b"
    "record_mandatory r = mandatory b" "status r \<noteq> Skipped"
    "enforcement r = Some (resolve_gate_output (gate_output_of r) registration (record_reason r))"
  using assms
  by (auto simp: run_one_def Let_def faithful_record_def split: if_splits)

lemma skipped_simps [simp]:
  "faithful_record registration (skipped SkippedForRecord b)"
  "faithful_record registration (skipped SkippedForBlock b)"
  "enforcement (skipped why b) = None" "status (skipped why b) = Skipped"
  "record_gate_id (skipped why b) = binding_gate_id b"
  "record_mandatory (skipped why b) = mandatory b"
  by (simp_all add: skipped_def faithful_record_def fields_match_status_def)

text \<open>The records of a run, one per binding, in the order of the bindings.\<close>

lemma run_gate_set_Inr:
  assumes "run_gate_set d request registration bindings = Inr records"
  shows "map record_gate_id records = map binding_gate_id bindings"
    and "map record_mandatory records = map mandatory bindings"
    and "r \<in> set records \<Longrightarrow> \<exists>b \<in> set bindings. run_one d request registration b = Inr r"
proof -
  have n: "length bindings = length records"
    and each: "\<And>i. i < length bindings \<Longrightarrow> run_one d request registration (bindings ! i) = Inr (records ! i)"
    using assms by (simp_all add: run_gate_set_def rmap_Inr_nth)
  show "map record_gate_id records = map binding_gate_id bindings"
    by (rule nth_equalityI) (use n run_one_Inr(2) [OF each] in auto)
  show "map record_mandatory records = map mandatory bindings"
    by (rule nth_equalityI) (use n run_one_Inr(3) [OF each] in auto)
  show "\<exists>b \<in> set bindings. run_one d request registration b = Inr r" if "r \<in> set records"
    using that n each by (auto simp: in_set_conv_nth intro!: bexI [rotated, OF nth_mem])
qed

lemma gate_phase_Inr:
  assumes "gate_phase d s request registration gate_set = Inr records"
  obtains ran rest where "records = ran @ rest"
    and "run_gate_set d request registration (filter mandatory gate_set) = Inr ran"
    and "mode s = Record \<Longrightarrow> rest = map (skipped SkippedForRecord) (filter (\<lambda>b. \<not> mandatory b) gate_set)"
    and "mode s = Gate \<Longrightarrow> blocked_by_mandatory_gate ran \<Longrightarrow>
      rest = map (skipped SkippedForBlock) (filter (\<lambda>b. \<not> mandatory b) gate_set)"
    and "mode s = Gate \<Longrightarrow> \<not> blocked_by_mandatory_gate ran \<Longrightarrow>
      run_gate_set d request registration (filter (\<lambda>b. \<not> mandatory b) gate_set) = Inr rest"
  using assms
  by (cases "mode s") (auto simp: gate_phase_def Let_def split: if_splits)

lemma gate_phase_records:
  assumes "gate_phase d s request registration gate_set = Inr records"
  shows "map record_gate_id records
      = map binding_gate_id (filter mandatory gate_set @ filter (\<lambda>b. \<not> mandatory b) gate_set)"
    and "map record_mandatory records
      = map mandatory (filter mandatory gate_set @ filter (\<lambda>b. \<not> mandatory b) gate_set)"
    and "r \<in> set records \<Longrightarrow> faithful_record registration r"
proof -
  obtain ran rest where *: "records = ran @ rest"
    "run_gate_set d request registration (filter mandatory gate_set) = Inr ran"
    "mode s = Record \<Longrightarrow> rest = map (skipped SkippedForRecord) (filter (\<lambda>b. \<not> mandatory b) gate_set)"
    "mode s = Gate \<Longrightarrow> blocked_by_mandatory_gate ran \<Longrightarrow>
      rest = map (skipped SkippedForBlock) (filter (\<lambda>b. \<not> mandatory b) gate_set)"
    "mode s = Gate \<Longrightarrow> \<not> blocked_by_mandatory_gate ran \<Longrightarrow>
      run_gate_set d request registration (filter (\<lambda>b. \<not> mandatory b) gate_set) = Inr rest"
    by (rule gate_phase_Inr [OF assms]) blast
  note ran = run_gate_set_Inr [OF *(2)]
  consider (rec) "mode s = Record" | (block) "mode s = Gate" "blocked_by_mandatory_gate ran"
    | (gate) "mode s = Gate" "\<not> blocked_by_mandatory_gate ran"
    by (cases "mode s") auto
  then have rest: "map record_gate_id rest = map binding_gate_id (filter (\<lambda>b. \<not> mandatory b) gate_set)
      \<and> map record_mandatory rest = map mandatory (filter (\<lambda>b. \<not> mandatory b) gate_set)
      \<and> (\<forall>r \<in> set rest. faithful_record registration r)"
  proof cases
    case gate
    note more = run_gate_set_Inr [OF *(5) [OF gate]]
    from more(1,2) show ?thesis using more(3) run_one_Inr(1) by blast
  qed (use *(3,4) in auto)
  with ran *(1) show "map record_gate_id records
      = map binding_gate_id (filter mandatory gate_set @ filter (\<lambda>b. \<not> mandatory b) gate_set)"
    and "map record_mandatory records
      = map mandatory (filter mandatory gate_set @ filter (\<lambda>b. \<not> mandatory b) gate_set)"
    by simp_all
  have "faithful_record registration r" if r: "r \<in> set ran" for r
    using ran(3) [OF r] run_one_Inr(1) by blast
  with *(1) rest show "faithful_record registration r" if "r \<in> set records"
    using that by auto
qed

text \<open>Everything a returned bundle is made of.\<close>

lemma decide_Inr:
  assumes "decide d t s received upstream given_id given_key budget = Inr b"
  obtains registration r gate_set subject records e where
    "registry_get d (reasoner_id s) = Some registration"
    and "intake d s registration = Inr (r, gate_set)"
    and "identify (derive d) (wire_identity d) (identity_step d) (identified_at t) s registration
      = Inr subject"
    and "case r of
        None \<Rightarrow> bundle_check b = None \<and> other_bypass_checks b = []
      | Some cited \<Rightarrow>
          (\<exists>check. bundle_check b = Some check
            \<and> evaluate_bypass cited (reasoner_context s) = Inr check)
          \<and> evaluate_competing_rules registration cited (reasoner_context s)
            = Inr (other_bypass_checks b)"
    and "gate_phase d s (make_request s gate_set (or_default given_id (fresh_id t)) subject budget)
      registration gate_set = Inr records"
    and "bundle_gates b = records" "submission b = s"
    and "resolve_decision s records registration (bundle_check b) (other_bypass_checks b) = Inr e"
    and "bundle_action b = decision_action e" "decision_level_rule b = enforcement_rule_applied e"
      "bundle_log b = override_log e"
    and "bypass_rule_holds b = map_option holds (bundle_check b)"
    and "identity b = Some subject" "registration_version b = Some (version_of d registration)"
    and "record_layer_matches_mode b = Inr ()" "identity_resolves_the_submitted_subject b = Inr ()"
    and "decision_id b = or_default given_id (fresh_id t)"
      "idempotency_key b = or_default given_key (event_id s)" "ingestion_timestamp b = received"
proof -
  from assms obtain registration where reg: "registry_get d (reasoner_id s) = Some registration"
    by (auto simp: decide_def split: option.splits)
  from assms reg obtain r gate_set subject check others records e latency where steps:
    "intake d s registration = Inr (r, gate_set)"
    "identify (derive d) (wire_identity d) (identity_step d) (identified_at t) s registration = Inr subject"
    "(case r of
        None \<Rightarrow> Inr (None, [])
      | Some r \<Rightarrow>
          rbind (lift_error PredicateRaised (evaluate_bypass r (reasoner_context s))) (\<lambda>check.
          rbind (lift_error PredicateRaised
            (evaluate_competing_rules registration r (reasoner_context s))) (\<lambda>others.
          Inr (Some check, others)))) = Inr (check, others)"
    "gate_phase d s (make_request s gate_set (or_default given_id (fresh_id t)) subject budget)
      registration gate_set = Inr records"
    "resolve_decision s records registration check others = Inr e"
    "build_bundle (built_at t) (or_default given_id (fresh_id t)) s (or_default given_key (event_id s))
      received records e check others latency (Some (version_of d registration)) (Some subject) = Inr b"
    by (auto simp: decide_def Let_def)
  from steps(3) have checks: "case r of
        None \<Rightarrow> check = None \<and> others = []
      | Some cited \<Rightarrow>
          (\<exists>c. check = Some c \<and> evaluate_bypass cited (reasoner_context s) = Inr c)
          \<and> evaluate_competing_rules registration cited (reasoner_context s) = Inr others"
    by (auto split: option.splits)
  show ?thesis
    by (rule that [OF reg steps(1,2) _ steps(4)])
      (use steps(5,6) checks in \<open>auto simp: build_bundle_def construct_bundle_Inr split: option.splits\<close>)
qed

section \<open>Replaying a decision\<close>

lemma replay_faithful:
  assumes "\<forall>r \<in> set records. faithful_record registration r"
  shows "map fst (map (replay_record registration) records) = records"
    and "list_all gate_matches (map snd (map (replay_record registration) records))"
proof -
  have "fst (replay_record registration r) = r \<and> gate_matches (snd (replay_record registration r))"
    if "faithful_record registration r" for r
    using that by (auto simp: faithful_record_def replay_record_def gate_matches_def Let_def
        split: option.splits)
  with assms show "map fst (map (replay_record registration) records) = records"
    and "list_all gate_matches (map snd (map (replay_record registration) records))"
    by (simp_all add: map_idI list_all_iff)
qed

lemma evaluate_bypass_rule: "evaluate_bypass r facts = Inr c \<Longrightarrow> rule c = r"
  by (auto simp: evaluate_bypass_def Let_def split: sum.splits predicate_error.splits)

lemma reevaluate_check:
  "evaluate_bypass r facts = Inr c \<Longrightarrow> reevaluate c facts = Inr c"
  using evaluate_bypass_rule [of r facts c] by (simp add: reevaluate_def)

lemma reevaluate_competing:
  assumes "evaluate_competing_rules registration cited facts = Inr others"
  shows "rmap (\<lambda>c. reevaluate c facts) others = Inr others"
proof -
  have "reevaluate c facts = Inr c" if c: "c \<in> set others" for c
  proof -
    from c obtain i where "i < length others" "others ! i = c" by (auto simp: in_set_conv_nth)
    with assms obtain r where "evaluate_bypass r facts = Inr c"
      by (auto simp: evaluate_competing_rules_def rmap_Inr_nth)
    then show ?thesis by (rule reevaluate_check)
  qed
  then show ?thesis by (simp add: rmap_Inr [where g = id, simplified])
qed

lemma replay_of_decided:
  assumes "decide d t s received upstream given_id given_key budget = Inr b"
    and "registry_get d (reasoner_id s) = Some registration"
  obtains result where "replay_bundle version b registration = Inr result"
    and "matched result"
    and "decision_action (replayed_decision result) = bundle_action b"
    and "enforcement_rule_applied (replayed_decision result) = decision_level_rule b"
    and "override_log (replayed_decision result) = bundle_log b"
proof -
  show ?thesis
  proof (rule decide_Inr [OF assms(1)])
    fix reg r gate_set subject records e
    assume reg: "registry_get d (reasoner_id s) = Some reg"
      and checks: "case r of
        None \<Rightarrow> bundle_check b = None \<and> other_bypass_checks b = []
      | Some cited \<Rightarrow>
          (\<exists>check. bundle_check b = Some check
            \<and> evaluate_bypass cited (reasoner_context s) = Inr check)
          \<and> evaluate_competing_rules reg cited (reasoner_context s) = Inr (other_bypass_checks b)"
      and phase: "gate_phase d s (make_request s gate_set (or_default given_id (fresh_id t)) subject
        budget) reg gate_set = Inr records"
      and b: "bundle_gates b = records" "submission b = s"
      and e: "resolve_decision s records reg (bundle_check b) (other_bypass_checks b) = Inr e"
        "bundle_action b = decision_action e" "decision_level_rule b = enforcement_rule_applied e"
        "bundle_log b = override_log e"
      and held: "bypass_rule_holds b = map_option holds (bundle_check b)"
    have same: "reg = registration" using reg assms(2) by simp
    have faithful: "\<forall>r \<in> set records. faithful_record registration r"
      using gate_phase_records(3) [OF phase] same by simp
    have cited: "(case bundle_check b of None \<Rightarrow> Inr None
        | Some check \<Rightarrow> rbind (reevaluate check (reasoner_context s)) (\<lambda>c. Inr (Some c)))
        = Inr (bundle_check b)"
      using checks by (auto simp: reevaluate_check split: option.splits)
    have competing: "rmap (\<lambda>c. reevaluate c (reasoner_context s)) (other_bypass_checks b)
        = Inr (other_bypass_checks b)"
      using checks by (auto intro: reevaluate_competing split: option.splits)
    have "replay_bundle version b registration =
      Inr \<lparr>replay_decision_id = decision_id b, original_action = bundle_action b,
           replayed_action = decision_action e,
           actions_match = (bundle_action b = decision_action e),
           original_bypass_rule_holds = bypass_rule_holds b,
           replayed_bypass_rule_holds = map_option holds (bundle_check b),
           gate_replays = map snd (map (replay_record registration) records),
           replayed_decision = e, competing_rules_match = True,
           replay_registration_version = version registration\<rparr>"
      unfolding replay_bundle_def Let_def b replay_faithful(1) [OF faithful] cited competing
      by (simp add: e(1) [unfolded same])
    with e held show ?thesis
      by (intro that) (auto simp: matched_def bypass_matches_def replay_faithful(2) [OF faithful]
          simp del: map_map)
  qed
qed

end
