(* ===== verification/Submit_Correct.thy ===== *)
theory Submit_Correct
  imports Replay
begin

text \<open>
  The facts about \<open>decide\<close> that its properties rest on: once intake accepts a submission the
  decision is made (no step raises, short of the caller's own cancellation), every gate of
  the set has exactly one record, and a gate without a usable answer holds the decision.
\<close>

section \<open>Composed gates\<close>

definition gate_map_ok :: "gate_map \<Rightarrow> bool" where
  "gate_map_ok gs \<longleftrightarrow> distinct (map fst gs) \<and> (\<forall>(g, c) \<in> set gs. composed_gate_id c = g)"

lemma compose_gates_ok:
  "compose_gates mandated plugins composed = Inr gs \<Longrightarrow> gate_map_ok composed \<Longrightarrow> gate_map_ok gs"
proof (induction mandated plugins composed rule: compose_gates.induct)
  case (2 mandated p ps composed)
  then obtain g where "plugin_builds p = Inr (AsyncGate g)"
    and "plugin_gate_id p \<notin> fst ` set composed"
    by (auto split: sum.splits if_splits gate_object.splits)
  with 2 show ?case
    by (auto simp: gate_map_ok_def composed_gate_id_def split: sum.splits if_splits)
qed simp

lemma build_gates_ok: "build_gates plugins served mandated = Inr gs \<Longrightarrow> gate_map_ok gs"
  by (auto simp: build_gates_def Let_def gate_map_ok_def [of "[]"] dest: compose_gates_ok
      split: if_splits sum.splits build_failure.splits)

section \<open>One gate\<close>

text \<open>An accepted output belongs to its gate and is one the ledger stores and reloads.\<close>

lemma output_problem_None:
  assumes "output_problem wire c answer = None"
  obtains out foreign where "answer = OutputAnswer out foreign {}"
    and "output_gate_id out = composed_gate_id c"
    and "Some (deterministic out) = plugin_deterministic (plugin c)"
    and "reload_output wire out = Inr out"
    and "\<exists>j. dump_output wire out = Inr j \<and> storable j"
  using assms
  by (auto simp: output_problem_def unstorable_output_def storage_problem_None_iff
      split: gate_answer.splits if_splits sum.splits option.splits)

text \<open>The two shapes of an invocation.\<close>

definition usable_invocation :: "output_wire \<Rightarrow> composed_gate \<Rightarrow> gate_request \<Rightarrow> gate_output \<Rightarrow> bool" where
  "usable_invocation wire c request out \<longleftrightarrow>
     (\<exists>foreign. gate_outcome (evaluate (gate c) request) = Returned (OutputAnswer out foreign {})
        \<and> output_problem wire c (OutputAnswer out foreign {}) = None)
     \<and> \<not> deadline_expired (evaluate (gate c) request)
     \<and> run_elapsed (evaluate (gate c) request) \<le> budget_ms request * 10"

lemma invoke_gate_Inr:
  assumes "invoke_gate wire composed request = Inr i"
  shows "invocation_ran i \<and> invocation_reason i = None \<and> invoked i
      \<and> (\<exists>c out. composed = Some c \<and> invocation_output i = Some out \<and> usable_invocation wire c request out)
    \<or> \<not> invocation_ran i \<and> invocation_output i = None \<and> invocation_reason i \<noteq> None
      \<and> (invoked i \<longleftrightarrow> composed \<noteq> None)
      \<and> (\<forall>c out. composed = Some c \<longrightarrow> \<not> usable_invocation wire c request out)"
proof (cases composed)
  case None
  with assms show ?thesis by (auto simp: invoke_gate_def Let_def failed_def invocation_ran_def)
next
  case (Some c)
  show ?thesis
  proof (cases "gate_outcome (evaluate (gate c) request)")
    case (Returned answer)
    show ?thesis
    proof (cases "output_problem wire c answer")
      case None
      then obtain out foreign where "answer = OutputAnswer out foreign {}"
        by (rule output_problem_None)
      with Some Returned None assms show ?thesis
        by (auto simp: invoke_gate_def Let_def failed_def invocation_ran_def usable_invocation_def
            not_less split: if_splits)
    next
      case problem: (Some problem)
      with Some Returned assms show ?thesis
        by (auto simp: invoke_gate_def Let_def failed_def invocation_ran_def usable_invocation_def
            split: if_splits)
    qed
  qed (use Some assms in \<open>auto simp: invoke_gate_def Let_def failed_def invocation_ran_def
      usable_invocation_def split: if_splits\<close>)
qed

lemma invoke_gate_total:
  "(\<And>c. composed = Some c \<Longrightarrow> gate_outcome (evaluate (gate c) request) \<noteq> CallerCancels) \<Longrightarrow>
     \<exists>i. invoke_gate wire composed request = Inr i"
  by (auto simp: invoke_gate_def Let_def split: option.split gate_outcome.split)

text \<open>The caller is not being cancelled while a gate runs.\<close>

definition uncancelled :: "deployment \<Rightarrow> bool" where
  "uncancelled d \<longleftrightarrow>
     (\<forall>(g, c) \<in> set (deployed_gates d). \<forall>request.
        gate_outcome (evaluate (gate c) request) \<noteq> CallerCancels)"

lemma run_one_total:
  assumes "gate_map_ok (deployed_gates d)" "uncancelled d" "0 < budget_ms (request (binding_gate_id b))"
  obtains r where "run_one d request registration b = Inr r"
    and "status r = Ran \<longleftrightarrow> (\<exists>c out. map_of (deployed_gates d) (binding_gate_id b) = Some c
      \<and> usable_invocation (wire_output d) c (request (binding_gate_id b)) out)"
proof -
  let ?g = "binding_gate_id b"
  let ?composed = "map_of (deployed_gates d) ?g"
  obtain i where i: "invoke_gate (wire_output d) ?composed (request ?g) = Inr i"
    using invoke_gate_total [of ?composed "request ?g" "wire_output d"] assms(2)
    by (fastforce simp: uncancelled_def dest: map_of_SomeD)
  have belongs: "output_gate_id out = ?g"
    if "?composed = Some c" "usable_invocation (wire_output d) c (request ?g) out" for c out
  proof -
    have "composed_gate_id c = ?g"
      using that(1) assms(1) by (auto simp: gate_map_ok_def dest: map_of_SomeD)
    moreover have "output_gate_id out = composed_gate_id c"
      using that(2) by (auto simp: usable_invocation_def elim: output_problem_None)
    ultimately show ?thesis by simp
  qed
  show ?thesis
    using invoke_gate_Inr [OF i]
  proof
    assume ran: "invocation_ran i \<and> invocation_reason i = None \<and> invoked i
      \<and> (\<exists>c out. ?composed = Some c \<and> invocation_output i = Some out
           \<and> usable_invocation (wire_output d) c (request ?g) out)"
    then obtain c out where "?composed = Some c" "invocation_output i = Some out"
      "usable_invocation (wire_output d) c (request ?g) out" by blast
    with ran i assms(3) belongs [of c out] show ?thesis
      by (intro that) (auto simp: run_one_def Let_def fields_match_status_def)
  next
    assume "\<not> invocation_ran i \<and> invocation_output i = None \<and> invocation_reason i \<noteq> None
      \<and> (invoked i \<longleftrightarrow> ?composed \<noteq> None)
      \<and> (\<forall>c out. ?composed = Some c \<longrightarrow> \<not> usable_invocation (wire_output d) c (request ?g) out)"
    with i assms(3) show ?thesis
      by (cases "?composed"; intro that) (auto simp: run_one_def Let_def fields_match_status_def)
  qed
qed

section \<open>The gate phase\<close>

lemma run_gate_set_total:
  assumes "gate_map_ok (deployed_gates d)" "uncancelled d" "\<And>g. 0 < budget_ms (request g)"
  shows "\<exists>records. run_gate_set d request registration bindings = Inr records"
proof -
  have "\<exists>r. run_one d request registration b = Inr r" for b
    using run_one_total [OF assms(1,2), of request b registration] assms(3) by metis
  then obtain f where "\<And>b. run_one d request registration b = Inr (f b)" by metis
  then show ?thesis unfolding run_gate_set_def by (metis rmap_Inr)
qed

lemma gate_phase_total:
  assumes "gate_map_ok (deployed_gates d)" "uncancelled d" "\<And>g. 0 < budget_ms (request g)"
  shows "\<exists>records. gate_phase d s request registration gate_set = Inr records"
proof -
  note total = run_gate_set_total [where request = request and registration = registration, OF assms]
  obtain ran where "run_gate_set d request registration (filter mandatory gate_set) = Inr ran"
    using total by blast
  moreover obtain more where
    "run_gate_set d request registration (filter (\<lambda>b. \<not> mandatory b) gate_set) = Inr more"
    using total by blast
  ultimately show ?thesis by (simp add: gate_phase_def Let_def)
qed

text \<open>Which gates are skipped.\<close>

lemma gate_phase_skips:
  assumes "gate_phase d s request registration gate_set = Inr records" "r \<in> set records"
  shows "status r = Skipped \<longleftrightarrow> enforcement r = None"
    and "record_mandatory r \<Longrightarrow> status r \<noteq> Skipped"
    and "status r = Skipped \<Longrightarrow> mode s = Record \<or> BLOCK \<in> record_action ` mandatory_records records"
    and "mode s = Record \<Longrightarrow> \<not> record_mandatory r \<Longrightarrow> status r = Skipped"
proof -
  obtain ran rest where *: "records = ran @ rest"
    "run_gate_set d request registration (filter mandatory gate_set) = Inr ran"
    "mode s = Record \<Longrightarrow> rest = map (skipped SkippedForRecord) (filter (\<lambda>b. \<not> mandatory b) gate_set)"
    "mode s = Gate \<Longrightarrow> blocked_by_mandatory_gate ran \<Longrightarrow>
      rest = map (skipped SkippedForBlock) (filter (\<lambda>b. \<not> mandatory b) gate_set)"
    "mode s = Gate \<Longrightarrow> \<not> blocked_by_mandatory_gate ran \<Longrightarrow>
      run_gate_set d request registration (filter (\<lambda>b. \<not> mandatory b) gate_set) = Inr rest"
    by (rule gate_phase_Inr [OF assms(1)]) blast
  have ran: "status x \<noteq> Skipped \<and> enforcement x \<noteq> None \<and> record_mandatory x" if "x \<in> set ran" for x
    using run_gate_set_Inr(3) [OF *(2) that] run_one_Inr(3-5) by fastforce
  have rest: "\<not> record_mandatory x \<and>
      (if mode s = Record \<or> blocked_by_mandatory_gate ran
       then status x = Skipped \<and> enforcement x = None
       else status x \<noteq> Skipped \<and> enforcement x \<noteq> None)" if "x \<in> set rest" for x
  proof (cases "mode s = Record \<or> blocked_by_mandatory_gate ran")
    case True
    then show ?thesis using that *(3,4) by (cases "mode s") auto
  next
    case False
    then have "mode s = Gate" by (cases "mode s") auto
    with False *(5) have "run_gate_set d request registration
        (filter (\<lambda>b. \<not> mandatory b) gate_set) = Inr rest" by simp
    from run_gate_set_Inr(3) [OF this that] False show ?thesis
      using run_one_Inr(3-5) by fastforce
  qed
  have "BLOCK \<in> record_action ` mandatory_records records" if block: "blocked_by_mandatory_gate ran"
  proof -
    obtain x where x: "x \<in> set ran" "enforced_action x = Some BLOCK"
      using block by (auto simp: blocked_by_mandatory_gate_def list_ex_iff)
    then have "x \<in> mandatory_records records" "record_action x = BLOCK"
      using ran [OF x(1)] *(1)
      by (auto simp: mandatory_records_def enforced_records_def record_action_def enforced_action_def)
    then show ?thesis by force
  qed
  then have block: "BLOCK \<in> record_action ` mandatory_records records"
    if "blocked_by_mandatory_gate ran" using that .
  from assms(2) *(1) have "r \<in> set ran \<or> r \<in> set rest" by simp
  then have "(r \<in> set ran \<and> status r \<noteq> Skipped \<and> enforcement r \<noteq> None \<and> record_mandatory r)
    \<or> (\<not> record_mandatory r \<and> status r = Skipped \<and> enforcement r = None
        \<and> (mode s = Record \<or> blocked_by_mandatory_gate ran))
    \<or> (\<not> record_mandatory r \<and> status r \<noteq> Skipped \<and> enforcement r \<noteq> None \<and> mode s \<noteq> Record)"
    using ran [of r] rest [of r] by (auto split: if_splits)
  with block show "status r = Skipped \<longleftrightarrow> enforcement r = None"
    and "record_mandatory r \<Longrightarrow> status r \<noteq> Skipped"
    and "status r = Skipped \<Longrightarrow> mode s = Record \<or> BLOCK \<in> record_action ` mandatory_records records"
    and "mode s = Record \<Longrightarrow> \<not> record_mandatory r \<Longrightarrow> status r = Skipped"
    by auto
qed

lemma gate_phase_ran:
  assumes "gate_phase d s request registration gate_set = Inr records" "r \<in> set records"
    "status r \<noteq> Skipped"
  shows "\<exists>b \<in> set gate_set. run_one d request registration b = Inr r"
proof (rule gate_phase_Inr [OF assms(1)])
  fix ran rest
  assume *: "records = ran @ rest"
    "run_gate_set d request registration (filter mandatory gate_set) = Inr ran"
    "mode s = Record \<Longrightarrow> rest = map (skipped SkippedForRecord) (filter (\<lambda>b. \<not> mandatory b) gate_set)"
    "mode s = Gate \<Longrightarrow> blocked_by_mandatory_gate ran \<Longrightarrow>
      rest = map (skipped SkippedForBlock) (filter (\<lambda>b. \<not> mandatory b) gate_set)"
    "mode s = Gate \<Longrightarrow> \<not> blocked_by_mandatory_gate ran \<Longrightarrow>
      run_gate_set d request registration (filter (\<lambda>b. \<not> mandatory b) gate_set) = Inr rest"
  show ?thesis
  proof (cases "r \<in> set ran")
    case True
    from run_gate_set_Inr(3) [OF *(2) this] show ?thesis by auto
  next
    case False
    then have rest: "r \<in> set rest" using assms(2) *(1) by simp
    have "mode s = Gate" "\<not> blocked_by_mandatory_gate ran"
      using rest assms(3) *(3,4) by (cases "mode s"; auto)+
    from run_gate_set_Inr(3) [OF *(5) [OF this] rest] show ?thesis by auto
  qed
qed

text \<open>A failed gate's enforcement is its own Tier 1: HOLD.\<close>

lemma failed_record_holds:
  assumes "faithful_record registration r" "status r = Failed"
  shows "enforcement r \<noteq> None" "record_action r = HOLD" "record_rule r = Some TIER1_SCHEMA_FAILURE"
proof -
  from assms show enf: "enforcement r \<noteq> None"
    by (simp add: faithful_record_def fields_match_status_iff)
  have "gate_output_of r = None"
    using assms by (simp add: faithful_record_def fields_match_status_iff)
  with assms(1) enf have "enforcement r = Some (resolve_gate_output None registration (record_reason r))"
    by (simp add: faithful_record_def)
  then show "record_action r = HOLD" "record_rule r = Some TIER1_SCHEMA_FAILURE"
    by (simp_all add: record_action_def record_rule_def resolve_gate_output_action
        resolve_gate_output_rule gate_spec_def)
qed

end
