(* ===== verification/Enforcement_Claims.thy ===== *)
theory Enforcement_Claims
  imports Enforcement_Spec
begin

text \<open>
  What enforcement promises, proved from its specification: the tiers of one gate, the
  decision as a maximum, its independence of the order of gates, monotonicity, the floors,
  the short circuit, the novel-entity tier, and the reduction to the single-gate resolver.
\<close>

section \<open>A concrete decision\<close>

text \<open>
  The inputs the witnesses evaluate: a reasoner with a jurisdiction profile and a
  novel-entity feature, and the records of two gates.
\<close>

definition ex_rule :: "decision_action \<Rightarrow> bypass_rule" where
  "ex_rule action =
     \<lparr>rule_id = [9], rule_version = [1], rule_description = [],
      rule_predicate = Compare LABEL_FIELD Eq (VScalar (SInt 1)), rule_action = action\<rparr>"

definition ex_registration :: reasoner_registration where
  "ex_registration =
     \<lparr>registered_reasoner_id = [1], registered_reasoner_name = [1],
      gates = [\<lparr>binding_gate_id = [7], mandatory = True, config = []\<rparr>,
               \<lparr>binding_gate_id = [8], mandatory = False, config = []\<rparr>],
      bypass_rules = [ex_rule CHALLENGE], recordable_actions = UNIV, native_namespaces = [],
      novel_entity_feature = Some [5], jurisdiction_conflict_groups = []\<rparr>"

definition ex_context :: "bool \<Rightarrow> reasoner_context" where
  "ex_context novel =
     \<lparr>label_value = SInt 1, feature_set = [([5], SBool novel)],
      context_reasoner_id = [1], context_reasoner_name = [1], model_version = [],
      model_artifact_sha256 = None, inference_latency_ms = None, label_type_of = NUMERICAL,
      label_name = [], attribution = None\<rparr>"

definition ex_submission ::
    "submission_mode \<Rightarrow> decision_action option \<Rightarrow> bool \<Rightarrow> submission" where
  "ex_submission m proposal novel =
     \<lparr>reasoner_id = [1], event_id = [2], timestamp = 0, asserted_entity_id = 3,
      asserted_entity_type = [4], native_subject = None, mode = m, proposed_action = proposal,
      bypass = (if m = Record then Some \<lparr>cited_rule_id = [9], cited_version = None\<rparr> else None),
      reasoner_context = ex_context novel,
      gate_contexts = [\<lparr>context_gate_id = [7], gate_config = None\<rparr>,
                       \<lparr>context_gate_id = [8], gate_config = None\<rparr>],
      raw_event = []\<rparr>"

definition ex_output :: "ustr \<Rightarrow> decision_action \<Rightarrow> gate_output" where
  "ex_output g action =
     \<lparr>output_gate_id = g, deterministic = True,
      verdict = Some \<lparr>verdict_gate_id = g, permitted_actions = [action], required_controls = [],
        confidence = 1, escalate_to_human = False, escalation_reason = None\<rparr>,
      evidence = [], evidence_snapshot = JNull, extra = []\<rparr>"

definition ex_record :: "ustr \<Rightarrow> bool \<Rightarrow> decision_action \<Rightarrow> gate_record" where
  "ex_record g required action =
     \<lparr>record_gate_id = g, record_mandatory = required, status = Ran, record_reason = None,
      input = Some \<lparr>input_gate_id = g\<rparr>, gate_output_of = Some (ex_output g action),
      enforcement = Some (resolve_gate_output (Some (ex_output g action)) ex_registration None),
      duration = Some 10\<rparr>"

definition ex_check :: "decision_action \<Rightarrow> bool \<Rightarrow> bypass_check" where
  "ex_check action held =
     \<lparr>rule = ex_rule action, observed = [(LABEL_FIELD, SInt 1)], holds = held, error = None\<rparr>"

lemma ex_record_simps [simp]:
  "record_action (ex_record g required action) = action"
  "record_rule (ex_record g required action) = None"
  "\<exists>e. enforcement (ex_record g required action) = Some e"
  "record_mandatory (ex_record g required action) = required"
  by (simp_all add: ex_record_def record_action_def record_rule_def resolve_gate_output_action
      resolve_gate_output_rule gate_spec_def tier_table_def ex_output_def most_conservative_Max
      evidence_jurisdictions_def)

lemma ex_submission_simps [simp]:
  "mode (ex_submission m p n) = m" "proposed_action (ex_submission m p n) = p"
  "reasoner_context (ex_submission m p n) = ex_context n"
  by (simp_all add: ex_submission_def)

lemma ex_novel [simp]: "novel_entity (ex_submission m p n) ex_registration = n"
  by (auto simp: novel_entity_def ex_registration_def ex_context_def)

lemma ex_sets [simp]:
  "enforced_records [] = {}" "mandatory_records [] = {}" "advisory_records [] = {}"
  "enforced_records (ex_record g q a # rs) = insert (ex_record g q a) (enforced_records rs)"
  "mandatory_records (ex_record g True a # rs) = insert (ex_record g True a) (mandatory_records rs)"
  "mandatory_records (ex_record g False a # rs) = mandatory_records rs"
  "advisory_records (ex_record g False a # rs) = insert (ex_record g False a) (advisory_records rs)"
  "advisory_records (ex_record g True a # rs) = advisory_records rs"
  by (auto simp: enforced_records_def mandatory_records_def advisory_records_def)

section \<open>Facts about the contributions\<close>

lemma contributions_mono:
  assumes "enforced_records records \<subseteq> enforced_records records'"
  shows "contributions s records registration check competing
    \<subseteq> contributions s records' registration check competing"
  using assms
  by (auto simp: contributions_def advisory_contributions_def mandatory_records_def advisory_records_def)

lemma enforceable_runs:
  "enforceable s records registration check competing \<Longrightarrow>
     \<exists>e. resolve_decision s records registration check competing = Inr e"
  by (erule resolve_decision_refines) blast

lemma contribution_le:
  assumes "resolve_decision s records registration check competing = Inr e"
    and "a \<in> contributions s records registration check competing"
  shows "a \<le> decision_action e"
  using resolve_decision_action(2) [OF assms(1)] assms(2) by simp

lemma decision_action_cong:
  assumes "enforced_records records = enforced_records records'"
  shows "contributions s records registration check competing
    = contributions s records' registration check competing"
  using assms by (intro equalityI contributions_mono) simp_all

section \<open>One gate\<close>


section \<open>The decision\<close>

text \<open>
  C2: The combinator. Enforcement returns a decision exactly when a record comes with its
  check and something contributes, and its action is then the most restrictive of the
  contributions: the proposal, the mandatory gates' actions, and the advisory side or the
  bypass floors.
\<close>

theorem resolve_decision_is_maximum:
  "map_sum (\<lambda>_. ()) decision_action (resolve_decision s records registration check competing)
   = (if enforceable s records registration check competing
      then Inr (Max (contributions s records registration check competing)) else Inl ())"
proof (cases "resolve_decision s records registration check competing")
  case (Inl err)
  then have "\<not> enforceable s records registration check competing"
    by (metis Inl_Inr_False resolve_decision_refines)
  with Inl show ?thesis by simp
next
  case (Inr e)
  with resolve_decision_action [OF Inr] show ?thesis by simp
qed

text \<open>
  C3: Monotonicity. A decision over more enforced gate records, in any order, is never less
  restrictive: adding a gate can only keep or raise the action.
\<close>

theorem more_gates_never_relax:
  assumes "enforced_records records \<subseteq> enforced_records records'"
    and "resolve_decision s records registration check competing = Inr e"
    and "resolve_decision s records' registration check competing = Inr e'"
  shows "decision_action e \<le> decision_action e'"
proof -
  have "decision_action e \<in> contributions s records registration check competing"
    using resolve_decision_action [OF assms(2)] Max_in [OF finite_actions]
    by (auto simp: enforceable_def)
  then show ?thesis
    using contributions_mono [OF assms(1)] by (intro contribution_le [OF assms(3)]) blast
qed

theorem more_gates_never_relax_witness:
  "\<exists>e e'. resolve_decision (ex_submission Gate (Some ALLOW) True) [] ex_registration None [] = Inr e
    \<and> resolve_decision (ex_submission Gate (Some ALLOW) True) [ex_record [7] True BLOCK]
        ex_registration None [] = Inr e'
    \<and> decision_action e \<le> decision_action e'"
proof -
  have "enforceable (ex_submission Gate (Some ALLOW) True) rs ex_registration None []" for rs
    by (simp add: enforceable_def contributions_def)
  then obtain e e' where
    "resolve_decision (ex_submission Gate (Some ALLOW) True) [] ex_registration None [] = Inr e"
    "resolve_decision (ex_submission Gate (Some ALLOW) True) [ex_record [7] True BLOCK]
       ex_registration None [] = Inr e'"
    using enforceable_runs by meson
  moreover from this have "decision_action e \<le> decision_action e'"
    by (rule more_gates_never_relax [rotated]) simp
  ultimately show ?thesis by blast
qed

section \<open>Which rule fired\<close>

lemma advisory_side_rule:
  assumes "set advisory = advisory_records records"
  shows "fst (advisory_side s advisory registration) =
    (if novel_entity s registration
        \<and> (\<forall>r \<in> advisory_records records. record_rule r \<noteq> Some TIER2_ADVERSARIAL_PROBE)
        \<and> (advisory_records records = {}
           \<or> (\<exists>r \<in> advisory_records records. record_rule r \<noteq> Some TIER1_SCHEMA_FAILURE))
     then Some TIER3_NOVEL_ENTITY else None)"
proof (cases "novel_entity s registration")
  case True
  then obtain feature where feature: "novel_entity_feature registration = Some feature"
      "truthy (case map_of (feature_set (reasoner_context s)) feature of
                 Some value \<Rightarrow> value | None \<Rightarrow> SBool False)"
    by (auto simp: novel_entity_iff split: option.splits)
  have enforced: "filter (\<lambda>r. enforcement r \<noteq> None) advisory = advisory"
    using assms by (auto simp: advisory_records_def enforced_records_def intro!: filter_True)
  have probe: "Some TIER2_ADVERSARIAL_PROBE
      \<in> set (map (\<lambda>r. enforcement_rule_applied (the (enforcement r))) advisory)
      \<longleftrightarrow> (\<exists>r \<in> advisory_records records. record_rule r = Some TIER2_ADVERSARIAL_PROBE)"
    using assms by (force simp: record_rule_def)
  have schema: "list_all (\<lambda>r. case enforcement r of None \<Rightarrow> False
        | Some e \<Rightarrow> enforcement_rule_applied e = Some TIER1_SCHEMA_FAILURE) advisory
      \<longleftrightarrow> (\<forall>r \<in> advisory_records records. record_rule r = Some TIER1_SCHEMA_FAILURE)"
    unfolding list_all_iff assms
    by (auto simp: record_rule_def advisory_records_def enforced_records_def split: option.splits)
  have empty: "advisory = [] \<longleftrightarrow> advisory_records records = {}"
    using assms by (metis set_empty)
  show ?thesis
    using True feature unfolding advisory_side_def Let_def enforced probe schema empty by auto
next
  case False
  then show ?thesis
    by (auto simp: novel_entity_iff advisory_side_def Let_def split: option.splits if_splits)
qed

lemma decision_terms_gate:
  assumes "mode s = Gate"
    and "decision_terms s records registration check competing = Inr (fired, lines, terms)"
  shows "fired = Some TIER3_NOVEL_ENTITY \<longleftrightarrow>
      novel_entity s registration \<and> BLOCK \<notin> record_action ` mandatory_records records
      \<and> (\<forall>r \<in> advisory_records records. record_rule r \<noteq> Some TIER2_ADVERSARIAL_PROBE)
      \<and> (advisory_records records = {}
         \<or> (\<exists>r \<in> advisory_records records. record_rule r \<noteq> Some TIER1_SCHEMA_FAILURE))"
    and "fired \<in> {None, Some TIER3_NOVEL_ENTITY}"
proof -
  let ?enforced = "filter (\<lambda>r. enforcement r \<noteq> None) records"
  let ?advisory = "filter (\<lambda>r. \<not> record_mandatory r) ?enforced"
  have advisory: "set ?advisory = advisory_records records"
    by (auto simp: advisory_records_def enforced_records_def)
  have blocks: "list_ex (\<lambda>r. record_action r = BLOCK) (filter record_mandatory ?enforced)
      \<longleftrightarrow> BLOCK \<in> record_action ` mandatory_records records"
    by (force simp: list_ex_iff mandatory_records_def enforced_records_def)
  have "fired = (if BLOCK \<in> record_action ` mandatory_records records then None
      else fst (advisory_side s ?advisory registration))"
    using assms unfolding decision_terms_def Let_def blocks by (auto split: prod.splits if_splits)
  then show "fired = Some TIER3_NOVEL_ENTITY \<longleftrightarrow>
      novel_entity s registration \<and> BLOCK \<notin> record_action ` mandatory_records records
      \<and> (\<forall>r \<in> advisory_records records. record_rule r \<noteq> Some TIER2_ADVERSARIAL_PROBE)
      \<and> (advisory_records records = {}
         \<or> (\<exists>r \<in> advisory_records records. record_rule r \<noteq> Some TIER1_SCHEMA_FAILURE))"
    and "fired \<in> {None, Some TIER3_NOVEL_ENTITY}"
    unfolding advisory_side_rule [OF advisory] by auto
qed

lemma resolve_decision_terms:
  assumes "resolve_decision s records registration check competing = Inr e"
  obtains lines terms where
    "decision_terms s records registration check competing
      = Inr (enforcement_rule_applied e, lines, terms)"
  using resolve_decision_refines [OF resolve_decision_action(1) [OF assms]] assms
  by (metis enforcement_decision.select_convs(2) sum.inject(2))

lemma resolve_decision_Inl:
  assumes "\<not> enforceable s records registration check competing"
  shows "resolve_decision s records registration check competing =
    Inl (if mode s = Record \<and> check = None then RecordWithoutCheck else NothingContributes)"
proof (cases "mode s = Record \<and> check = None")
  case True
  then show ?thesis by (simp add: resolve_decision_def decision_terms_def)
next
  case False
  then obtain fired lines terms where
    run: "decision_terms s records registration check competing = Inr (fired, lines, terms)"
    using decision_terms_total by blast
  have "\<nexists>e. resolve_decision s records registration check competing = Inr e"
    using assms resolve_decision_action(1) by blast
  with run have "most_restrictive (proposed_action s) (map snd terms) \<noteq> Inr m" for m
    by (auto simp: resolve_decision_def)
  then obtain err where "most_restrictive (proposed_action s) (map snd terms) = Inl err"
    by (cases "most_restrictive (proposed_action s) (map snd terms)") auto
  with run False show ?thesis by (simp add: resolve_decision_def)
qed

text \<open>
  The order of the gates does not matter. Two lists holding the same gate records give
  the same result: the same failure, or the same action credited to the same rule.
\<close>

theorem gate_order_is_irrelevant:
  assumes "set records = set records'"
  shows "map_sum id (\<lambda>e. (decision_action e, enforcement_rule_applied e))
      (resolve_decision s records registration check competing)
    = map_sum id (\<lambda>e. (decision_action e, enforcement_rule_applied e))
      (resolve_decision s records' registration check competing)"
proof -
  have same: "enforced_records records = enforced_records records'"
      "mandatory_records records = mandatory_records records'"
      "advisory_records records = advisory_records records'"
    using assms by (simp_all add: enforced_records_def mandatory_records_def advisory_records_def)
  note cong = decision_action_cong [OF same(1)]
  show ?thesis
  proof (cases "enforceable s records registration check competing")
    case True
    then have True': "enforceable s records' registration check competing"
      by (simp add: enforceable_def cong)
    obtain f lines terms where
      f: "decision_terms s records registration check competing = Inr (f, lines, terms)"
      and r: "map_sum id (\<lambda>e. (decision_action e, enforcement_rule_applied e))
        (resolve_decision s records registration check competing)
        = Inr (Max (contributions s records registration check competing), f)"
      by (rule resolve_decision_refines [OF True]) simp
    obtain f' lines' terms' where
      f': "decision_terms s records' registration check competing = Inr (f', lines', terms')"
      and r': "map_sum id (\<lambda>e. (decision_action e, enforcement_rule_applied e))
        (resolve_decision s records' registration check competing)
        = Inr (Max (contributions s records' registration check competing), f')"
      by (rule resolve_decision_refines [OF True']) simp
    have "f = f'"
    proof (cases "mode s")
      case Record
      with f f' show ?thesis
        by (auto simp: decision_terms_def Let_def split: option.splits prod.splits)
    next
      case Gate
      show ?thesis
        using decision_terms_gate [OF Gate f] decision_terms_gate [OF Gate f']
        unfolding same by (metis insertE singletonD)
    qed
    with r r' cong show ?thesis by simp
  next
    case False
    then have "\<not> enforceable s records' registration check competing"
      by (simp add: enforceable_def cong)
    with False show ?thesis by (simp add: resolve_decision_Inl)
  qed
qed

theorem gate_order_is_irrelevant_witness:
  "map_sum id (\<lambda>e. (decision_action e, enforcement_rule_applied e))
     (resolve_decision (ex_submission Gate None False)
        [ex_record [7] True ALLOW, ex_record [8] False HOLD] ex_registration None [])
   = map_sum id (\<lambda>e. (decision_action e, enforcement_rule_applied e))
     (resolve_decision (ex_submission Gate None False)
        [ex_record [8] False HOLD, ex_record [7] True ALLOW] ex_registration None [])"
  by (rule gate_order_is_irrelevant) (simp add: insert_commute)

section \<open>Floors\<close>

text \<open>
  C4: The floors no gate and no rule can lower. A decision is at least as restrictive as the
  reasoner's proposal and as every mandatory gate's enforced action; on a gated decision no
  enforced gate is relaxed below HOLD, and without a novel entity no gate is relaxed at all.
\<close>

theorem decision_respects_floors:
  assumes "resolve_decision s records registration check competing = Inr e"
  shows "(\<forall>a \<in> set_option (proposed_action s). a \<le> decision_action e)
    \<and> (\<forall>r \<in> mandatory_records records. record_action r \<le> decision_action e)
    \<and> (mode s = Gate \<longrightarrow>
        (\<forall>r \<in> enforced_records records. min HOLD (record_action r) \<le> decision_action e)
        \<and> (\<not> novel_entity s registration \<longrightarrow>
            (\<forall>r \<in> enforced_records records. record_action r \<le> decision_action e)))"
proof -
  note le = contribution_le [OF assms]
  have mandatory: "record_action r \<le> decision_action e" if "r \<in> mandatory_records records" for r
    using that by (intro le) (simp add: contributions_def)
  have advisory: "record_action r \<le> decision_action e"
    if "mode s = Gate" "\<not> novel_entity s registration" "r \<in> advisory_records records" for r
    using that by (intro le) (simp add: contributions_def advisory_contributions_def)
  have held: "HOLD \<le> decision_action e" if "mode s = Gate" "novel_entity s registration"
    using that by (intro le) (simp add: contributions_def advisory_contributions_def)
  have split: "r \<in> mandatory_records records \<or> r \<in> advisory_records records"
    if "r \<in> enforced_records records" for r
    using that by (simp add: mandatory_records_def advisory_records_def)
  have "a \<le> decision_action e" if "a \<in> set_option (proposed_action s)" for a
    using that by (intro le) (simp add: contributions_def)
  then show ?thesis
    using mandatory advisory held split by (metis min.coboundedI1 min.coboundedI2)
qed

theorem decision_respects_floors_witness:
  "\<exists>e. resolve_decision (ex_submission Gate (Some CHALLENGE) False) [ex_record [8] False HOLD]
        ex_registration None [] = Inr e
    \<and> CHALLENGE \<le> decision_action e \<and> HOLD \<le> decision_action e"
proof -
  have "enforceable (ex_submission Gate (Some CHALLENGE) False) [ex_record [8] False HOLD]
      ex_registration None []"
    by (simp add: enforceable_def contributions_def)
  then obtain e where "resolve_decision (ex_submission Gate (Some CHALLENGE) False)
      [ex_record [8] False HOLD] ex_registration None [] = Inr e"
    using enforceable_runs by meson
  with decision_respects_floors [OF this] show ?thesis by auto
qed

text \<open>
  C5: The bypass floors. A recorded decision whose cited rule does not hold is at least HOLD,
  and it is at least as restrictive as the action of every registered rule that was checked
  and holds: citing the lenient one of two rules gains nothing.
\<close>

theorem record_respects_bypass_rules:
  assumes "mode s = Record"
    and "proposed_action s = Some (rule_action (rule cited))"
    and "resolve_decision s records registration (Some cited) competing = Inr e"
  shows "(\<not> holds cited \<longrightarrow> HOLD \<le> decision_action e)
    \<and> (\<forall>c \<in> set competing. holds c \<longrightarrow> rule_action (rule c) \<le> decision_action e)"
proof -
  note le = contribution_le [OF assms(3)]
  have "HOLD \<le> decision_action e" if "\<not> holds cited"
    using that assms(1) by (intro le) (simp add: contributions_def bypass_floors_def)
  moreover have "rule_action (rule c) \<le> decision_action e" if "c \<in> set competing" "holds c" for c
  proof (cases "rule_action (rule cited) < rule_action (rule c)")
    case True
    with that assms(1) show ?thesis
      by (intro le) (auto simp: contributions_def bypass_floors_def)
  next
    case False
    have "rule_action (rule cited) \<le> decision_action e"
      using assms(2) by (intro le) (simp add: contributions_def)
    with False show ?thesis by simp
  qed
  ultimately show ?thesis by blast
qed

theorem record_respects_bypass_rules_witness:
  "\<exists>e. resolve_decision (ex_submission Record (Some ALLOW) False) [] ex_registration
        (Some (ex_check ALLOW False)) [ex_check BLOCK True] = Inr e
    \<and> HOLD \<le> decision_action e \<and> BLOCK \<le> decision_action e"
proof -
  have "enforceable (ex_submission Record (Some ALLOW) False) [] ex_registration
      (Some (ex_check ALLOW False)) [ex_check BLOCK True]"
    by (simp add: enforceable_def contributions_def)
  then obtain e where "resolve_decision (ex_submission Record (Some ALLOW) False) [] ex_registration
      (Some (ex_check ALLOW False)) [ex_check BLOCK True] = Inr e"
    using enforceable_runs by meson
  with record_respects_bypass_rules [OF _ _ this] show ?thesis by (auto simp: ex_check_def ex_rule_def)
qed

text \<open>
  A record is nothing but its proposal, its mandatory gates and its floors: when the cited
  rule holds, no stricter registered rule holds, and no mandatory gate is stricter than the
  proposal, the recorded action stands.
\<close>

theorem justified_record_stands:
  assumes "mode s = Record" and "proposed_action s = Some (rule_action (rule cited))"
    and "holds cited"
    and "\<forall>c \<in> set competing. holds c \<longrightarrow> rule_action (rule c) \<le> rule_action (rule cited)"
    and "\<forall>r \<in> mandatory_records records. record_action r \<le> rule_action (rule cited)"
  shows "map_sum id (\<lambda>e. (decision_action e, enforcement_rule_applied e))
      (resolve_decision s records registration (Some cited) competing)
    = Inr (rule_action (rule cited), None)"
proof -
  let ?C = "contributions s records registration (Some cited) competing"
  have none: "filter (\<lambda>c. holds c \<and> check_severity cited < check_severity c) competing = []"
    using assms(4) by (auto simp: filter_empty_conv check_severity_less)
  have "enforceable s records registration (Some cited) competing"
    using assms(2) by (simp add: enforceable_def contributions_def)
  moreover have "Max ?C = rule_action (rule cited)"
    using assms by (intro Max_eqI) (auto simp: contributions_def bypass_floors_def)
  moreover have "fired = None"
    if "decision_terms s records registration (Some cited) competing = Inr (fired, lines, terms)"
    for fired lines terms
    using that assms(1,3) none
    by (auto simp: decision_terms_def bypass_rules_applied_def Let_def split: prod.splits)
  ultimately show ?thesis by (elim resolve_decision_refines) simp
qed

theorem justified_record_stands_witness:
  "map_sum id (\<lambda>e. (decision_action e, enforcement_rule_applied e))
     (resolve_decision (ex_submission Record (Some CHALLENGE) True) [ex_record [7] True ALLOW]
        ex_registration (Some (ex_check CHALLENGE True)) [ex_check BLOCK False])
   = Inr (CHALLENGE, None)"
  using justified_record_stands [of "ex_submission Record (Some CHALLENGE) True"
      "ex_check CHALLENGE True" "[ex_check BLOCK False]" "[ex_record [7] True ALLOW]" ex_registration]
  by (simp add: ex_check_def ex_rule_def)

section \<open>Short circuit, Tier 3 and the single-gate resolver\<close>

text \<open>
  Skipping the advisory gates once a mandatory gate blocks is sound: whatever records the
  advisory gates would have produced, the decision is BLOCK and credited to no rule, which
  is what enforcement returns without them.
\<close>

theorem advisory_gates_cannot_change_a_block:
  assumes "mode s = Gate" and "BLOCK \<in> record_action ` mandatory_records records"
    and "\<forall>r \<in> set others. \<not> record_mandatory r"
  shows "map_sum id (\<lambda>e. (decision_action e, enforcement_rule_applied e))
      (resolve_decision s (records @ others) registration check competing)
    = Inr (BLOCK, None)"
proof -
  have "mandatory_records (records @ others) = mandatory_records records"
    using assms(3) by (auto simp: mandatory_records_def enforced_records_def)
  with assms(2) have block: "BLOCK \<in> record_action ` mandatory_records (records @ others)" by simp
  let ?C = "contributions s (records @ others) registration check competing"
  have mem: "BLOCK \<in> ?C" using block by (simp add: contributions_def)
  then have "Max ?C = BLOCK" by (intro Max_eqI) auto
  moreover have "enforceable s (records @ others) registration check competing"
    using mem assms(1) by (auto simp: enforceable_def)
  moreover have "fired = None"
    if "decision_terms s (records @ others) registration check competing = Inr (fired, lines, terms)"
    for fired lines terms
    using decision_terms_gate [OF assms(1) that] block by auto
  ultimately show ?thesis by (elim resolve_decision_refines) simp
qed

theorem advisory_gates_cannot_change_a_block_witness:
  "map_sum id (\<lambda>e. (decision_action e, enforcement_rule_applied e))
     (resolve_decision (ex_submission Gate None True)
        ([ex_record [7] True BLOCK] @ [ex_record [8] False ALLOW]) ex_registration None [])
   = Inr (BLOCK, None)"
  by (rule advisory_gates_cannot_change_a_block) simp_all

text \<open>
  Tier 3 is credited exactly when the decision is gated, the entity is novel, no mandatory
  gate already blocks, no advisory gate saw an adversarial probe, and the advisory gates do
  not all hold for their own schema failure (or there are none).
\<close>

theorem tier3_fires_iff:
  assumes "resolve_decision s records registration check competing = Inr e"
  shows "enforcement_rule_applied e = Some TIER3_NOVEL_ENTITY \<longleftrightarrow>
    mode s = Gate \<and> novel_entity s registration
    \<and> BLOCK \<notin> record_action ` mandatory_records records
    \<and> (\<forall>r \<in> advisory_records records. record_rule r \<noteq> Some TIER2_ADVERSARIAL_PROBE)
    \<and> (advisory_records records = {}
       \<or> (\<exists>r \<in> advisory_records records. record_rule r \<noteq> Some TIER1_SCHEMA_FAILURE))"
proof -
  obtain lines terms where run: "decision_terms s records registration check competing
      = Inr (enforcement_rule_applied e, lines, terms)"
    using resolve_decision_terms [OF assms] by blast
  show ?thesis
  proof (cases "mode s")
    case Gate
    with decision_terms_gate(1) [OF Gate run] show ?thesis by simp
  next
    case Record
    with run show ?thesis
      by (auto simp: decision_terms_def bypass_rules_applied_def Let_def
          split: option.splits prod.splits if_splits)
  qed
qed

theorem tier3_fires_iff_witness:
  "\<exists>e. resolve_decision (ex_submission Gate None True) [ex_record [8] False ALLOW]
        ex_registration None [] = Inr e
    \<and> enforcement_rule_applied e = Some TIER3_NOVEL_ENTITY"
proof -
  have "enforceable (ex_submission Gate None True) [ex_record [8] False ALLOW] ex_registration None []"
    by (simp add: enforceable_def contributions_def advisory_contributions_def)
  then obtain e where "resolve_decision (ex_submission Gate None True) [ex_record [8] False ALLOW]
      ex_registration None [] = Inr e"
    using enforceable_runs by meson
  with tier3_fires_iff [OF this] show ?thesis by simp
qed

text \<open>
  The single-gate resolver the combinator generalizes: one table of tiers in which the
  novel-entity tier stands third.
\<close>

definition single_gate_resolver ::
    "submission \<Rightarrow> gate_output option \<Rightarrow> reasoner_registration \<Rightarrow> ustr option \<times> decision_action" where
  "single_gate_resolver s answer registration =
     (case gate_spec answer registration of
        (tier, action) \<Rightarrow>
          if tier \<in> {Some TIER1_SCHEMA_FAILURE, Some TIER2_ADVERSARIAL_PROBE} then (tier, action)
          else if novel_entity s registration then (Some TIER3_NOVEL_ENTITY, HOLD)
          else (tier, action))"

lemma single_record_sets:
  assumes "enforcement r \<noteq> None" "\<not> record_mandatory r"
  shows "enforced_records [r] = {r}" "mandatory_records [r] = {}" "advisory_records [r] = {r}"
  using assms by (auto simp: enforced_records_def mandatory_records_def advisory_records_def)

text \<open>
  For a gated decision with one advisory gate, no proposal and no mandatory gate, the
  two-level resolver with its combinator is the single-gate resolver: the same action, and
  the same rule in the single-rule summary.
\<close>

theorem single_advisory_gate_reduction:
  assumes "mode (submission b) = Gate" and "proposed_action (submission b) = None"
    and "bundle_gates b = [r]" and "\<not> record_mandatory r"
    and "enforcement r = Some (resolve_gate_output answer registration failure)"
    and "bundle_check b = None" and "other_bypass_checks b = []"
    and "resolve_decision (submission b) [r] registration None [] = Inr e"
    and "bundle_action b = decision_action e"
    and "decision_level_rule b = enforcement_rule_applied e"
  shows "(credited_rule b, decision_action e)
    = single_gate_resolver (submission b) answer registration"
proof -
  have sets: "enforced_records [r] = {r}" "mandatory_records [r] = {}" "advisory_records [r] = {r}"
    using assms(4,5) by (simp_all add: single_record_sets)
  have rule: "record_rule r = fst (gate_spec answer registration)"
    and action: "record_action r = snd (gate_spec answer registration)"
    using assms(5) by (simp_all add: record_rule_def record_action_def resolve_gate_output_rule
        resolve_gate_output_action)
  have "decision_action e = Max (advisory_contributions (submission b) [r] registration)"
    using resolve_decision_action(2) [OF assms(8)] assms(1,2) sets(2) by (simp add: contributions_def)
  then have final: "decision_action e =
      (if novel_entity (submission b) registration
       then if fst (gate_spec answer registration) = Some TIER2_ADVERSARIAL_PROBE then BLOCK else HOLD
       else snd (gate_spec answer registration))"
    using sets(3) rule action by (auto simp: advisory_contributions_def max_def action_le_iff)
  have fired: "enforcement_rule_applied e = Some TIER3_NOVEL_ENTITY \<longleftrightarrow>
      novel_entity (submission b) registration
      \<and> fst (gate_spec answer registration)
        \<notin> {Some TIER1_SCHEMA_FAILURE, Some TIER2_ADVERSARIAL_PROBE}"
    and fired_or_not: "enforcement_rule_applied e \<in> {None, Some TIER3_NOVEL_ENTITY}"
  proof -
    obtain lines terms where run: "decision_terms (submission b) [r] registration None []
        = Inr (enforcement_rule_applied e, lines, terms)"
      using resolve_decision_terms [OF assms(8)] by blast
    show "enforcement_rule_applied e = Some TIER3_NOVEL_ENTITY \<longleftrightarrow>
        novel_entity (submission b) registration
        \<and> fst (gate_spec answer registration)
          \<notin> {Some TIER1_SCHEMA_FAILURE, Some TIER2_ADVERSARIAL_PROBE}"
      using decision_terms_gate(1) [OF assms(1) run] sets rule by auto
    show "enforcement_rule_applied e \<in> {None, Some TIER3_NOVEL_ENTITY}"
      using decision_terms_gate(2) [OF assms(1) run] .
  qed
  have by_gate: "credited_rule b = record_rule r"
    if "enforcement_rule_applied e = None" "decision_action e = record_action r"
    using that assms(3,5,9,10)
    by (simp add: credited_rule_def record_rule_def record_action_def enforced_action_def)
  have by_tier3: "credited_rule b = Some TIER3_NOVEL_ENTITY"
    if "enforcement_rule_applied e = Some TIER3_NOVEL_ENTITY" "decision_action e = HOLD"
    using that assms(9,10) by (simp add: credited_rule_def)
  have t1: "snd (gate_spec answer registration) = HOLD"
    if "fst (gate_spec answer registration) = Some TIER1_SCHEMA_FAILURE"
    using gate_spec_tier1 [THEN iffD1, OF that] by (simp add: gate_spec_def)
  show ?thesis
    using final fired fired_or_not by_gate by_tier3 t1 gate_spec_tier2_blocks [of answer registration] rule action
    by (cases "gate_spec answer registration")
      (auto simp: single_gate_resolver_def split: if_splits)
qed

definition ex_bundle :: "enforcement_decision \<Rightarrow> decision_bundle" where
  "ex_bundle e =
     \<lparr>decision_id = [1], created_at = 0, submission = ex_submission Gate None True,
      identity = None, idempotency_key = [2], ingestion_timestamp = 0,
      bundle_gates = [ex_record [8] False BLOCK], bundle_action = decision_action e,
      decision_level_rule = enforcement_rule_applied e, bundle_log = [], bypass_rule_holds = None,
      bundle_check = None, other_bypass_checks = [], registration_version = None,
      latency_breakdown = []\<rparr>"

theorem single_advisory_gate_reduction_witness:
  "\<exists>e. resolve_decision (ex_submission Gate None True) [ex_record [8] False BLOCK]
        ex_registration None [] = Inr e
    \<and> (credited_rule (ex_bundle e), decision_action e)
      = single_gate_resolver (ex_submission Gate None True) (Some (ex_output [8] BLOCK)) ex_registration"
proof -
  have "enforceable (ex_submission Gate None True) [ex_record [8] False BLOCK] ex_registration None []"
    by (simp add: enforceable_def contributions_def advisory_contributions_def)
  then obtain e where "resolve_decision (ex_submission Gate None True) [ex_record [8] False BLOCK]
      ex_registration None [] = Inr e"
    using enforceable_runs by meson
  moreover from this have "(credited_rule (ex_bundle e), decision_action e)
      = single_gate_resolver (submission (ex_bundle e)) (Some (ex_output [8] BLOCK)) ex_registration"
    by (intro single_advisory_gate_reduction [where r = "ex_record [8] False BLOCK"])
      (simp_all add: ex_bundle_def, simp add: ex_record_def)
  ultimately show ?thesis by (auto simp: ex_bundle_def)
qed

end
