(* ===== verification/Submit_Claims.thy ===== *)
theory Submit_Claims
  imports Submit_Correct Enforcement_Claims
begin

text \<open>
  What the ledger promises about a decision: once intake accepts a submission a valid bundle
  is produced, no gate is dropped, a gate without a usable answer holds the decision, a
  record made under the rule the ledger itself would pick is not floored, and the bundle
  replays to the same decision.
\<close>

section \<open>Deciding always succeeds\<close>

lemma intake_Inr:
  assumes "intake d s registration = Inr (r, gate_set)"
  shows "validate_submission (derive d) s registration (deployment_mandatory (deployed_gates d)) = Inr r"
    and "gate_set = effective_gate_set registration (deployment_mandatory (deployed_gates d))"
    and "validate_citation s registration = Inr r"
    and "validate_native_subject (derive d) s registration = Inr ()"
    and "mode s = Gate \<Longrightarrow> gate_set \<noteq> []"
proof -
  have fin: "finite (deployment_mandatory (deployed_gates d))"
    by (simp add: deployment_mandatory_def)
  show v: "validate_submission (derive d) s registration (deployment_mandatory (deployed_gates d)) = Inr r"
    and g: "gate_set = effective_gate_set registration (deployment_mandatory (deployed_gates d))"
    using assms by (auto simp: intake_def Let_def)
  show "validate_citation s registration = Inr r"
    and "validate_native_subject (derive d) s registration = Inr ()"
    and "mode s = Gate \<Longrightarrow> gate_set \<noteq> []"
    using v g by (simp_all add: validate_submission_Inr [OF fin])
qed

lemma distinct_partition:
  "distinct (map f xs) \<Longrightarrow> distinct (map f (filter P xs @ filter (\<lambda>x. \<not> P x) xs))"
  by (induction xs) auto

lemma gate_set_distinct:
  assumes "registration_valid registration"
    "gate_set = effective_gate_set registration (deployment_mandatory (deployed_gates d))"
  shows "distinct (map binding_gate_id gate_set)"
  unfolding assms(2)
  by (rule effective_gate_set_distinct [OF assms(1)]) (simp add: deployment_mandatory_def)

text \<open>In gate mode something always contributes: the gate set is not empty.\<close>

lemma gate_phase_contributes:
  assumes "gate_phase d s request registration gate_set = Inr records"
    and "mode s = Gate" "gate_set \<noteq> []"
  shows "contributions s records registration check competing \<noteq> {}"
proof (cases "\<exists>r \<in> set records. record_mandatory r")
  case True
  then obtain r where r: "r \<in> set records" "record_mandatory r" by blast
  with gate_phase_skips(1,2) [OF assms(1) r(1)] have "r \<in> mandatory_records records"
    by (simp add: mandatory_records_def enforced_records_def)
  then show ?thesis by (auto simp: contributions_def)
next
  case False
  then have none: "mandatory_records records = {}"
    by (auto simp: mandatory_records_def enforced_records_def)
  have "length records = length (filter mandatory gate_set) + length (filter (\<lambda>b. \<not> mandatory b) gate_set)"
    using gate_phase_records(1) [OF assms(1)] by (metis length_append length_map)
  with assms(3) have "records \<noteq> []"
    by (metis add_is_0 filter_empty_conv length_0_conv last_in_set)
  then obtain r where r: "r \<in> set records" by (cases records) auto
  have "enforcement r \<noteq> None"
    using gate_phase_skips(1,3) [OF assms(1) r] none assms(2) by auto
  with r False have "r \<in> advisory_records records"
    by (simp add: advisory_records_def enforced_records_def)
  then show ?thesis
    using assms(2) by (auto simp: contributions_def advisory_contributions_def)
qed

lemma decide_total:
  assumes "registry_get d (reasoner_id s) = Some registration"
    and "registration_valid registration" "submission_valid dump s"
    and "intake d s registration = Inr (r, gate_set)"
    and "gate_map_ok (deployed_gates d)" "uncancelled d" "\<not> cancelled (identity_step d) s"
    and "revalidates (derive d) (wire_identity d)" "0 < budget"
  shows "\<exists>b. decide d t s received upstream given_id given_key budget = Inr b \<and> bundle_valid b"
proof -
  note accepted = intake_Inr [OF assms(4)]
  note rule = validated_rule [OF accepted(3) assms(3)]
  obtain subject where subject:
    "identify (derive d) (wire_identity d) (identity_step d) (identified_at t) s registration = Inr subject"
    and echo: "echoes (native_subject s) subject"
    by (rule identify_cases [OF assms(3,2,8,7), of "identified_at t"]) blast
  let ?the_id = "or_default given_id (fresh_id t)"
  obtain records where phase:
    "gate_phase d s (make_request s gate_set ?the_id subject budget) registration gate_set = Inr records"
    using gate_phase_total [OF assms(5,6), where registration = registration and gate_set = gate_set
        and s = s and request = "make_request s gate_set ?the_id subject budget"] assms(9)
    by (auto simp: make_request_def)
  define checks where "checks = (case r of None \<Rightarrow> (None, [])
    | Some cited \<Rightarrow> (Some (check_of (reasoner_context s) cited),
        map (check_of (reasoner_context s))
          (filter (\<lambda>x. rule_id x \<noteq> rule_id cited) (bypass_rules registration))))"
  have check_iff: "fst checks \<noteq> None \<longleftrightarrow> mode s = Record" and others: "mode s = Gate \<Longrightarrow> snd checks = []"
    using rule(1) by (auto simp: checks_def split: option.splits)
  have evaluated: "(case r of
        None \<Rightarrow> Inr (None, [])
      | Some r \<Rightarrow>
          rbind (lift_error PredicateRaised (evaluate_bypass r (reasoner_context s))) (\<lambda>check.
          rbind (lift_error PredicateRaised
            (evaluate_competing_rules registration r (reasoner_context s))) (\<lambda>others.
          Inr (Some check, others)))) = Inr checks"
  proof (cases r)
    case (Some cited)
    then have "bypass_rule_valid cited"
      using rule(2) registration_validD(5) [OF assms(2)] by blast
    with Some show ?thesis
      by (simp add: checks_def evaluate_bypass_check_of evaluate_competing_rules_check_of [OF assms(2)]
          lift_error_def)
  qed (simp add: checks_def)
  have "contributions s records registration (fst checks) (snd checks) \<noteq> {}"
  proof (cases "mode s")
    case Record
    then show ?thesis using submission_validD(2) [OF assms(3)] by (auto simp: contributions_def)
  next
    case Gate
    then show ?thesis using gate_phase_contributes [OF phase] accepted(5) by blast
  qed
  then have "enforceable s records registration (fst checks) (snd checks)"
    using check_iff by (simp add: enforceable_def)
  then obtain e where e: "resolve_decision s records registration (fst checks) (snd checks) = Inr e"
    using enforceable_runs by blast
  have distinct: "distinct (map record_gate_id records)"
    using distinct_partition [OF gate_set_distinct [OF assms(2) accepted(2)]]
    unfolding gate_phase_records(1) [OF phase] .
  have others_nil: "mode s = Record \<or> snd checks = []" using others by (cases "mode s") auto
  define b where "b =
    \<lparr>decision_id = ?the_id, created_at = built_at t, submission = s, identity = Some subject,
     idempotency_key = or_default given_key (event_id s), ingestion_timestamp = received,
     bundle_gates = records, bundle_action = decision_action e,
     decision_level_rule = enforcement_rule_applied e, bundle_log = override_log e,
     bypass_rule_holds = map_option holds (fst checks), bundle_check = fst checks,
     other_bypass_checks = snd checks,
     registration_version = Some (version_of d registration),
     latency_breakdown = AList.update (lit ''enforcement_ms'') (enforcement_ms t)
       (AList.update (lit ''gate_ms'') (gate_ms t)
         (AList.update (lit ''identity_ms'') (identity_ms t) upstream))\<rparr>"
  have layer: "record_layer_matches_mode b = Inr ()"
    unfolding record_layer_matches_mode_iff using check_iff others_nil distinct by (auto simp: b_def)
  have same: "identity_resolves_the_submitted_subject b = Inr ()"
    using echo
    by (auto simp: identity_resolves_the_submitted_subject_def b_def echoes_def split: option.splits)
  have "decide d t s received upstream given_id given_key budget
      = lift_error BundleInvalid (construct_bundle b)"
    using assms(1,4) subject evaluated phase e
    by (simp add: decide_def lift_error_def build_bundle_def b_def split_beta)
  moreover have "construct_bundle b = Inr b"
    using layer same by (simp add: construct_bundle_Inr)
  moreover have "list_all (\<lambda>r. fields_match_status r = Inr ()) records"
    using gate_phase_records(3) [OF phase] by (auto simp: list_all_iff faithful_record_def)
  ultimately show ?thesis using layer same by (auto simp: bundle_valid_def b_def)
qed

section \<open>A concrete deployment\<close>

definition ex_gate :: "ustr \<Rightarrow> decision_action \<Rightarrow> composed_gate" where
  "ex_gate g action =
     \<lparr>plugin = \<lparr>plugin_protocol = True, plugin_gate_id = g, plugin_kind = lit ''rules'',
        plugin_deterministic = Some True, config_model = None, binding_config_model = None,
        plugin_builds = Inl []\<rparr>,
      gate = \<lparr>evaluate = (\<lambda>_. \<lparr>gate_outcome = Returned (OutputAnswer (ex_output g action) None {}),
                              run_elapsed = 10, deadline_expired = False\<rparr>),
              authorize_config = None, validate_binding = None, serves = None, verify = None\<rparr>,
      deployment_mandates = False\<rparr>"

definition ex_deployment :: "gate_map \<Rightarrow> deployment" where
  "ex_deployment gs =
     \<lparr>deployed_gates = gs, registry_get = (\<lambda>_. Some ex_registration),
      identity_step = \<lparr>active_resolver = None, identity_budget_ms = 50\<rparr>,
      wire_identity = \<lparr>dump_identity = (\<lambda>_. Inr JNull),
        reload_identity = (\<lambda>i. if identity_valid (\<lambda>_ _. 0) i then Inr i else Inl [])\<rparr>,
      wire_output = \<lparr>dump_output = (\<lambda>_. Inr JNull), reload_output = Inr\<rparr>,
      derive = (\<lambda>_ _. 0), version_of = (\<lambda>_. [6])\<rparr>"

definition ex_gates :: gate_map where
  "ex_gates = [([7], ex_gate [7] ALLOW), ([8], ex_gate [8] HOLD)]"

definition ex_readings :: readings where
  "ex_readings = \<lparr>identified_at = 0, built_at = 1, identity_ms = 0, gate_ms = 1,
     enforcement_ms = 0, fresh_id = [3]\<rparr>"

lemma ex_registration_valid: "registration_valid ex_registration"
  by (simp add: ex_registration_def registration_valid_def consistent_iff binding_valid_def
      bypass_rule_valid_def ex_rule_def field_is_addressable_def value_fits_op_def MEMBERSHIP_OPS_def
      ORDERING_OPS_def)

lemma ex_submission_valid:
  "m = Record \<Longrightarrow> p \<noteq> None \<Longrightarrow> submission_valid (\<lambda>_. JNull) (ex_submission m p n)"
  "submission_valid (\<lambda>_. JNull) (ex_submission Gate p n)"
  by (simp_all add: submission_valid_def ex_submission_def mode_fields_are_consistent_def
      one_reasoner_and_one_context_per_gate_def storable_submission_def ex_context_def)

lemma ex_gate_set: "effective_gate_set ex_registration {} = gates ex_registration"
  by (simp add: effective_gate_set_def ex_registration_def gate_ids_def upgrade_def Let_def)

lemma ex_no_mandate: "deployment_mandatory [([7], ex_gate [7] a), ([8], ex_gate [8] c)] = {}"
    "deployment_mandatory [] = {}"
  by (simp_all add: deployment_mandatory_def ex_gate_def)

lemma ex_rules: "bypass_rules ex_registration = [ex_rule CHALLENGE]"
  by (simp add: ex_registration_def)

lemma ex_parts:
  "native_subject (ex_submission m p n) = None"
  "context_gate_id ` set (gate_contexts (ex_submission m p n)) = gate_ids ex_registration"
  "gates ex_registration \<noteq> []"
  "registered_reasoner_id ex_registration = reasoner_id (ex_submission m p n)"
  by (auto simp: ex_submission_def ex_registration_def gate_ids_def)

lemma ex_intake:
  assumes "m = Gate \<or> m = Record \<and> p = Some CHALLENGE"
    "gs = [([7], ex_gate [7] a), ([8], ex_gate [8] c)] \<or> gs = []"
  shows "intake (ex_deployment gs) (ex_submission m p n) ex_registration
    = Inr (if m = Record then Some (ex_rule CHALLENGE) else None, gates ex_registration)"
proof -
  have mandate: "deployment_mandatory gs = {}" using assms(2) ex_no_mandate by auto
  have "validate_citation (ex_submission m p n) ex_registration
      = Inr (if m = Record then Some (ex_rule CHALLENGE) else None)"
    using assms(1)
    by (auto simp: validate_citation_def ex_submission_def ex_registration_def bypass_rule_of_def ex_rule_def)
  then have "validate_submission (\<lambda>_ _. 0) (ex_submission m p n) ex_registration {}
      = Inr (if m = Record then Some (ex_rule CHALLENGE) else None)"
    by (simp add: validate_submission_Inr validate_native_subject_def ex_gate_set ex_parts)
  moreover have "validate_gate_config (ex_gate g x) (context_for (ex_submission m p n) h) reasoner bound
      = Inr ()" for g x h reasoner bound
    by (simp add: validate_gate_config_def ex_gate_def Let_def)
  ultimately show ?thesis
    using assms(2) mandate
    by (auto simp: intake_def ex_deployment_def ex_gate_set Let_def)
qed

lemma ex_deployment_ok:
  assumes "gs = [([7], ex_gate [7] a), ([8], ex_gate [8] c)] \<or> gs = []"
  shows "gate_map_ok (deployed_gates (ex_deployment gs))" "uncancelled (ex_deployment gs)"
    "\<not> cancelled (identity_step (ex_deployment gs)) s"
    "revalidates (derive (ex_deployment gs)) (wire_identity (ex_deployment gs))"
  using assms
  by (auto simp: gate_map_ok_def ex_deployment_def ex_gate_def composed_gate_id_def uncancelled_def
      cancelled_def revalidates_def)

lemma ex_decides:
  assumes "m = Gate \<or> m = Record \<and> p = Some CHALLENGE"
    "gs = [([7], ex_gate [7] a), ([8], ex_gate [8] c)] \<or> gs = []"
  shows "\<exists>b. decide (ex_deployment gs) ex_readings (ex_submission m p n) 0 [] None None 100 = Inr b
    \<and> bundle_valid b"
proof (rule decide_total [OF _ ex_registration_valid _ ex_intake [OF assms] ex_deployment_ok [OF assms(2)]])
  show "registry_get (ex_deployment gs) (reasoner_id (ex_submission m p n)) = Some ex_registration"
    by (simp add: ex_deployment_def)
  show "submission_valid (\<lambda>_. JNull) (ex_submission m p n)"
    using assms(1) ex_submission_valid by blast
qed simp

section \<open>Properties\<close>

text \<open>
  C6: Once intake accepts a submission the ledger decides it: with a valid registration and
  submission, gates composed under their own ids, a positive budget, and no cancellation by
  the caller, \<open>decide\<close> returns a bundle all of whose validators hold, whatever the gates and
  the identity resolver do.
\<close>

theorem accepted_submission_is_decided:
  assumes "registry_get d (reasoner_id s) = Some registration"
    and "registration_valid registration" "submission_valid dump s"
    and "intake d s registration = Inr (r, gate_set)"
    and "gate_map_ok (deployed_gates d)" "uncancelled d" "\<not> cancelled (identity_step d) s"
    and "revalidates (derive d) (wire_identity d)" "0 < budget"
  shows "\<exists>b. decide d t s received upstream given_id given_key budget = Inr b \<and> bundle_valid b"
  using assms by (rule decide_total)

theorem accepted_submission_is_decided_witness:
  "\<exists>b. decide (ex_deployment ex_gates) ex_readings (ex_submission Gate None True) 0 [] None None 100
      = Inr b \<and> bundle_valid b"
  using accepted_submission_is_decided [OF _ ex_registration_valid ex_submission_valid(2)
      ex_intake ex_deployment_ok [of ex_gates ALLOW HOLD], where budget = 100]
  by (simp add: ex_gates_def) (simp add: ex_deployment_def)



text \<open>
  C8: The ledger fails closed. A gate that was invoked or should have been is recorded as run
  exactly when it is composed and answered within its budget with a usable output of its
  own; otherwise it is recorded as failed, and a decision with a failed gate is at least HOLD.
\<close>

theorem gates_fail_closed:
  assumes "decide d t s received upstream given_id given_key budget = Inr b"
    and "gate_map_ok (deployed_gates d)" "uncancelled d" "r \<in> set (bundle_gates b)"
  shows "(status r = Failed \<longrightarrow> HOLD \<le> bundle_action b)
    \<and> (status r = Ran \<longrightarrow> (\<exists>request c out. map_of (deployed_gates d) (record_gate_id r) = Some c
          \<and> request_submission request = s \<and> budget_ms request = budget
          \<and> usable_invocation (wire_output d) c request out \<and> gate_output_of r = Some out))"
proof (rule decide_Inr [OF assms(1)])
  fix reg rl gate_set subject records e
  assume phase: "gate_phase d s (make_request s gate_set (or_default given_id (fresh_id t)) subject
      budget) reg gate_set = Inr records"
    and b: "bundle_gates b = records"
    and e: "resolve_decision s records reg (bundle_check b) (other_bypass_checks b) = Inr e"
      "bundle_action b = decision_action e"
  have r: "r \<in> set records" using assms(4) b by simp
  have "HOLD \<le> bundle_action b" if "status r = Failed"
  proof -
    note held = failed_record_holds [OF gate_phase_records(3) [OF phase r] that]
    then have enforced: "r \<in> enforced_records records" using r by (simp add: enforced_records_def)
    show ?thesis
    proof (cases "record_mandatory r")
      case True
      with enforced held have "HOLD \<in> contributions s records reg (bundle_check b) (other_bypass_checks b)"
        by (auto simp: contributions_def mandatory_records_def intro!: rev_image_eqI)
      from contribution_le [OF e(1) this] e(2) show ?thesis by simp
    next
      case False
      have "mode s = Gate"
        using gate_phase_skips(4) [OF phase r] False that by (cases "mode s") auto
      then have "HOLD \<in> contributions s records reg (bundle_check b) (other_bypass_checks b)"
        using enforced held False
        by (auto simp: contributions_def advisory_contributions_def advisory_records_def
            intro!: rev_image_eqI)
      from contribution_le [OF e(1) this] e(2) show ?thesis by simp
    qed
  qed
  moreover have "\<exists>request c out. map_of (deployed_gates d) (record_gate_id r) = Some c
      \<and> request_submission request = s \<and> budget_ms request = budget
      \<and> usable_invocation (wire_output d) c request out \<and> gate_output_of r = Some out"
    if ran: "status r = Ran"
  proof -
    let ?request = "make_request s gate_set (or_default given_id (fresh_id t)) subject budget"
    obtain bnd where bnd: "run_one d ?request reg bnd = Inr r"
      using gate_phase_ran [OF phase r] ran by auto
    then obtain i where i: "invoke_gate (wire_output d)
        (map_of (deployed_gates d) (binding_gate_id bnd)) (?request (binding_gate_id bnd)) = Inr i"
      and rec: "gate_output_of r = invocation_output i" "status r = (if invocation_ran i then Ran else Failed)"
        "record_gate_id r = binding_gate_id bnd"
      by (auto simp: run_one_def Let_def split: if_splits)
    have "invocation_ran i" using rec(2) ran by (auto split: if_splits)
    with invoke_gate_Inr [OF i] rec show ?thesis
      by (intro exI [of _ "?request (binding_gate_id bnd)"]) (auto simp: make_request_def)
  qed
  ultimately show ?thesis by blast
qed

lemma ex_first_record:
  assumes "decide (ex_deployment gs) ex_readings (ex_submission m p n) 0 [] None None 100 = Inr b"
    and "gs = [([7], ex_gate [7] a), ([8], ex_gate [8] c)] \<or> gs = []"
  obtains r where "r \<in> set (bundle_gates b)" "record_gate_id r = [7]" "status r \<noteq> Skipped"
proof (rule decide_Inr [OF assms(1)])
  fix reg rl gate_set subject records
  assume reg: "registry_get (ex_deployment gs) (reasoner_id (ex_submission m p n)) = Some reg"
    and intake: "intake (ex_deployment gs) (ex_submission m p n) reg = Inr (rl, gate_set)"
    and phase: "gate_phase (ex_deployment gs) (ex_submission m p n)
      (make_request (ex_submission m p n) gate_set (or_default None (fresh_id ex_readings)) subject 100)
      reg gate_set = Inr records"
    and b: "bundle_gates b = records"
  have "reg = ex_registration" using reg by (simp add: ex_deployment_def)
  then have "gate_set = gates ex_registration"
    using intake_Inr(2) [OF intake] assms(2) ex_no_mandate ex_gate_set
    by (auto simp: ex_deployment_def)
  then have ids: "map record_gate_id records = [[7], [8]]" "map record_mandatory records = [True, False]"
    using gate_phase_records(1,2) [OF phase] by (simp_all add: ex_registration_def)
  then obtain r rs where rs: "records = r # rs" by (cases records) auto
  have "status r \<noteq> Skipped" using gate_phase_skips(2) [OF phase, of r] ids(2) rs by simp
  with ids rs b show ?thesis by (intro that [of r]) auto
qed

theorem gates_fail_closed_witness:
  "\<exists>b. decide (ex_deployment []) ex_readings (ex_submission Gate (Some ALLOW) False) 0 [] None None 100
      = Inr b \<and> HOLD \<le> bundle_action b"
proof -
  obtain b where b: "decide (ex_deployment []) ex_readings (ex_submission Gate (Some ALLOW) False) 0 []
      None None 100 = Inr b"
    using ex_decides [of Gate "Some ALLOW" "[]" ALLOW ALLOW False] by auto
  obtain r where r: "r \<in> set (bundle_gates b)" "status r \<noteq> Skipped"
    by (rule ex_first_record [OF b, of ALLOW ALLOW]) auto
  note closed = gates_fail_closed [OF b ex_deployment_ok(1,2) r(1), of ALLOW ALLOW]
  have "status r \<noteq> Ran" using closed by (auto simp: ex_deployment_def)
  with r(2) have "status r = Failed" by (cases "status r") auto
  with closed b show ?thesis by auto
qed

text \<open>
  C9: Replay reproduces every decision. Running enforcement again on the states a bundle
  caches, under the registration it was decided with, needs no gate and gives the decision
  itself: the same action, the same rule, the same log, every gate's action and every bypass
  check.
\<close>

theorem replay_reproduces_the_decision:
  assumes "decide d t s received upstream given_id given_key budget = Inr b"
    and "registry_get d (reasoner_id s) = Some registration"
  shows "\<exists>result. replay_bundle version b registration = Inr result \<and> matched result
    \<and> decision_action (replayed_decision result) = bundle_action b
    \<and> enforcement_rule_applied (replayed_decision result) = decision_level_rule b
    \<and> override_log (replayed_decision result) = bundle_log b"
  by (rule replay_of_decided [OF assms, where version = version]) blast

theorem replay_reproduces_the_decision_witness:
  "\<exists>b result. decide (ex_deployment ex_gates) ex_readings (ex_submission Record (Some CHALLENGE) True)
      0 [] None None 100 = Inr b
    \<and> replay_bundle (\<lambda>_. [6]) b ex_registration = Inr result \<and> matched result"
proof -
  obtain b where b: "decide (ex_deployment ex_gates) ex_readings
      (ex_submission Record (Some CHALLENGE) True) 0 [] None None 100 = Inr b"
    using ex_decides [of Record "Some CHALLENGE" ex_gates ALLOW HOLD True] by (auto simp: ex_gates_def)
  have "registry_get (ex_deployment ex_gates) (reasoner_id (ex_submission Record (Some CHALLENGE) True))
      = Some ex_registration"
    by (simp add: ex_deployment_def)
  from replay_reproduces_the_decision [OF b this] b show ?thesis by blast
qed

text \<open>
  The subject of a decision. Its identity is always valid and names the native subject
  the submission named; an unresolved subject is the reasoner's own entity, and a resolved
  one comes from the active resolver, related only by relationship types it declares.
\<close>

theorem decided_subject:
  assumes "decide d t s received upstream given_id given_key budget = Inr b"
    and "registry_get d (reasoner_id s) = Some registration"
    and "registration_valid registration" "submission_valid dump s"
    and "revalidates (derive d) (wire_identity d)"
  shows "\<exists>i. identity b = Some i \<and> identity_valid (derive d) i
    \<and> echoes (native_subject s) i
    \<and> (\<not> resolved i \<longrightarrow> bundle_entity_id b = asserted_entity_id s
         \<and> bundle_entity_type b = asserted_entity_type s)
    \<and> (resolved i \<longrightarrow> (\<exists>composed. active_resolver (identity_step d) = Some composed
         \<and> resolved_by (provenance i) = resolver_id composed
         \<and> (\<forall>e \<in> set (related i). relationship_type e \<in> relationship_types composed)))"
proof (rule decide_Inr [OF assms(1)])
  fix reg r gate_set subject
  assume reg: "registry_get d (reasoner_id s) = Some reg"
    and intake: "intake d s reg = Inr (r, gate_set)"
    and i: "identify (derive d) (wire_identity d) (identity_step d) (identified_at t) s reg = Inr subject"
    and b: "submission b = s" "identity b = Some subject"
  have same: "reg = registration" using reg assms(2) by simp
  have "\<not> cancelled (identity_step d) s"
    using i by (auto simp: identify_def cancelled_def consult_def split: option.splits)
  from identify_cases [OF assms(4,3,5) this, of "identified_at t"] i
  show ?thesis
    using intake_Inr(4) [OF intake] b unfolding same
    by (auto simp: bundle_entity_id_def bundle_entity_type_def)
qed

theorem decided_subject_witness:
  "\<exists>b. decide (ex_deployment ex_gates) ex_readings (ex_submission Gate None False) 0 [] None None 100
      = Inr b \<and> bundle_entity_id b = 3"
proof -
  obtain b where b: "decide (ex_deployment ex_gates) ex_readings (ex_submission Gate None False) 0 []
      None None 100 = Inr b"
    using ex_decides [of Gate None ex_gates ALLOW HOLD False] by (auto simp: ex_gates_def)
  have "registry_get (ex_deployment ex_gates) (reasoner_id (ex_submission Gate None False))
      = Some ex_registration"
    by (simp add: ex_deployment_def)
  from decided_subject [OF b this ex_registration_valid ex_submission_valid(2)] obtain i where
    "resolved i \<longrightarrow> active_resolver (identity_step (ex_deployment ex_gates)) \<noteq> None"
    "\<not> resolved i \<longrightarrow> bundle_entity_id b = asserted_entity_id (ex_submission Gate None False)"
    using ex_deployment_ok(4) [of ex_gates ALLOW HOLD] by (auto simp: ex_gates_def)
  with b show ?thesis by (auto simp: ex_deployment_def ex_submission_def)
qed

text \<open>
  The rule the ledger itself would pick is safe to cite. A record made under the rule
  that \<open>matching_bypass_rule\<close> returns, with that rule's action, is floored by no bypass rule:
  its rule holds, no decision-level rule fires, and the action is the recorded one or a
  stricter one of a mandatory gate.
\<close>

theorem matching_rule_is_never_floored:
  assumes "decide d t s received upstream given_id given_key budget = Inr b"
    and "registry_get d (reasoner_id s) = Some registration" "registration_valid registration"
    and "mode s = Record" "proposed_action s = Some (rule_action r)"
    and "bypass s = Some \<lparr>cited_rule_id = rule_id r, cited_version = v\<rparr>"
    and "matching_bypass_rule registration (reasoner_context s) = Inr (Some r)"
  shows "bypass_rule_holds b = Some True \<and> decision_level_rule b = None
    \<and> bundle_action b = Max (insert (rule_action r) (record_action ` mandatory_records (bundle_gates b)))"
proof (rule decide_Inr [OF assms(1)])
  fix reg cited gate_set subject records e
  assume reg: "registry_get d (reasoner_id s) = Some reg"
    and intake: "intake d s reg = Inr (cited, gate_set)"
    and checks: "case cited of
        None \<Rightarrow> bundle_check b = None \<and> other_bypass_checks b = []
      | Some cited \<Rightarrow>
          (\<exists>check. bundle_check b = Some check
            \<and> evaluate_bypass cited (reasoner_context s) = Inr check)
          \<and> evaluate_competing_rules reg cited (reasoner_context s) = Inr (other_bypass_checks b)"
    and b: "bundle_gates b = records"
    and e: "resolve_decision s records reg (bundle_check b) (other_bypass_checks b) = Inr e"
      "bundle_action b = decision_action e" "decision_level_rule b = enforcement_rule_applied e"
    and held: "bypass_rule_holds b = map_option holds (bundle_check b)"
  have same: "reg = registration" using reg assms(2) by simp
  have best: "max_by (\<lambda>r. severity (rule_action r))
      (filter (\<lambda>r. rule_holds r (reasoner_context s)) (bypass_rules registration)) = Some r"
    using assms(7) by (simp add: matching_bypass_rule_max [OF assms(3)])
  have r: "r \<in> set (bypass_rules registration)" "rule_holds r (reasoner_context s)"
    using max_by_in [OF best] by auto
  have "cited = Some r"
    using intake_Inr(3) [OF intake] assms(4,6) find_unique [OF registration_validD(2) [OF assms(3)] r(1)]
    by (auto simp: validate_citation_Inr bypass_rule_of_def same)
  then have check: "bundle_check b = Some (check_of (reasoner_context s) r)"
    and others: "other_bypass_checks b = map (check_of (reasoner_context s))
      (filter (\<lambda>x. rule_id x \<noteq> rule_id r) (bypass_rules registration))"
    using checks same
      evaluate_bypass_check_of [OF registration_validD(5) [OF assms(3) r(1)], of "reasoner_context s"]
      evaluate_competing_rules_check_of [OF assms(3), of r "reasoner_context s"] by auto
  have none_stricter: "rule_action (rule c) \<le> rule_action r"
    if "c \<in> set (other_bypass_checks b)" "holds c" for c
  proof -
    from that others obtain x where "x \<in> set (bypass_rules registration)"
      "rule_holds x (reasoner_context s)" "rule c = x" by auto
    then show ?thesis using max_by_ge [OF best, of x] by (simp add: action_le_iff)
  qed
  have floors: "bypass_floors (check_of (reasoner_context s) r) (other_bypass_checks b) = {}"
    using r(2) none_stricter by (fastforce simp: bypass_floors_def not_less [symmetric])
  have "bundle_action b = Max (insert (rule_action r) (record_action ` mandatory_records records))"
    using resolve_decision_action(2) [OF e(1)] e(2) assms(4,5) floors
    by (simp add: contributions_def check)
  moreover have "decision_level_rule b = None"
  proof -
    obtain lines terms where run: "decision_terms s records reg (bundle_check b) (other_bypass_checks b)
        = Inr (enforcement_rule_applied e, lines, terms)"
      using resolve_decision_terms [OF e(1)] by blast
    have "filter (\<lambda>c. holds c \<and> check_severity (check_of (reasoner_context s) r) < check_severity c)
        (other_bypass_checks b) = []"
      using none_stricter by (fastforce simp: filter_empty_conv check_severity_less not_less)
    then show ?thesis
      using run assms(4) r(2) e(3)
      by (auto simp: decision_terms_def bypass_rules_applied_def Let_def check split: prod.splits)
  qed
  ultimately show ?thesis using held check r(2) b by simp
qed

theorem matching_rule_is_never_floored_witness:
  "\<exists>b. decide (ex_deployment ex_gates) ex_readings (ex_submission Record (Some CHALLENGE) True)
      0 [] None None 100 = Inr b
    \<and> bypass_rule_holds b = Some True \<and> decision_level_rule b = None"
proof -
  let ?s = "ex_submission Record (Some CHALLENGE) True"
  obtain b where b: "decide (ex_deployment ex_gates) ex_readings ?s 0 [] None None 100 = Inr b"
    using ex_decides [of Record "Some CHALLENGE" ex_gates ALLOW HOLD True] by (auto simp: ex_gates_def)
  have reg: "registry_get (ex_deployment ex_gates) (reasoner_id ?s) = Some ex_registration"
    by (simp add: ex_deployment_def)
  have "rule_holds (ex_rule CHALLENGE) (reasoner_context ?s)"
    by (simp add: rule_holds_def ex_rule_def resolve_field_def ex_context_def compare_scalar_def
        scalar_equal_def)
  then have m: "matching_bypass_rule ex_registration (reasoner_context ?s) = Inr (Some (ex_rule CHALLENGE))"
    by (simp add: matching_bypass_rule_max [OF ex_registration_valid] ex_rules)
  have c: "bypass ?s = Some \<lparr>cited_rule_id = rule_id (ex_rule CHALLENGE), cited_version = None\<rparr>"
    by (simp add: ex_submission_def ex_rule_def)
  have "proposed_action ?s = Some (rule_action (ex_rule CHALLENGE))"
    by (simp add: ex_rule_def)
  from matching_rule_is_never_floored [OF b reg ex_registration_valid _ this c m] b
  show ?thesis by simp
qed

end
