(* ===== verification/Core_Claims.thy ===== *)
theory Core_Claims
  imports Submit_Claims
begin

text \<open>
  What the parts below the pipeline promise: the predicate language, the evidence a bypass
  check keeps, what can be stored, the gate set a decision goes through, what intake accepts,
  and what a deployment that started is known to have.
\<close>

section \<open>Predicates and the checks made with them\<close>

text \<open>
  C10: Evaluation means what the predicate says. On evidence that carries every compared
  field, with a number wherever one is ordered, a validated predicate evaluates without an
  error, to its truth value: numbers compare as numbers whatever their type, a boolean
  equals only a boolean, and the connectives are the logical ones.
\<close>

theorem evaluation_denotes:
  assumes "predicate_valid p" "evaluable val s p"
  shows "evaluate_predicate p s = Inr (denotes val p)"
  by (rule evaluate_denotes(1) [OF assms])

theorem evaluation_denotes_witness:
  "evaluate_predicate (AllOf [Compare LABEL_FIELD Ge (VScalar (SFloat (1 / 2))),
      NotP (Compare LABEL_FIELD In (VList [SBool True, SInt 2]))]) (ex_context True)
    = Inr True"
proof -
  have "predicate_valid (AllOf [Compare LABEL_FIELD Ge (VScalar (SFloat (1 / 2))),
      NotP (Compare LABEL_FIELD In (VList [SBool True, SInt 2]))])"
    by (simp add: field_is_addressable_def value_fits_op_def MEMBERSHIP_OPS_def ORDERING_OPS_def)
  moreover have "evaluable (\<lambda>_. SInt 1) (ex_context True)
      (AllOf [Compare LABEL_FIELD Ge (VScalar (SFloat (1 / 2))),
        NotP (Compare LABEL_FIELD In (VList [SBool True, SInt 2]))])"
    by (simp add: evaluable_def resolve_field_def ex_context_def)
  ultimately show ?thesis by (subst evaluation_denotes [where val = "\<lambda>_. SInt 1"]) simp_all
qed

text \<open>The evidence a check kept, as a subject: its label and its features, nothing else.\<close>

definition observed_subject :: "(ustr \<times> scalar) list \<Rightarrow> predicate_subject" where
  "observed_subject seen =
     \<lparr>label_value = (case map_of seen LABEL_FIELD of Some v \<Rightarrow> v | None \<Rightarrow> SBool False),
      feature_set = map (\<lambda>(f, v). (remove_prefix FEATURE_PREFIX f, v))
                      (filter (\<lambda>(f, v). f \<noteq> LABEL_FIELD) seen)\<rparr>"

lemma map_of_observe:
  "map_of (observe fs facts) f =
     (if f \<in> set fs then case resolve_field f facts of Inr v \<Rightarrow> Some v | Inl e \<Rightarrow> None else None)"
  by (induction fs) (auto simp: observe_def split: sum.splits)

lemma set_observe:
  "(f, v) \<in> set (observe fs facts) \<longleftrightarrow> f \<in> set fs \<and> resolve_field f facts = Inr v"
  by (auto simp: observe_def split: sum.splits)

lemma addressable_feature:
  "field_is_addressable f \<Longrightarrow> f \<noteq> LABEL_FIELD \<Longrightarrow> f = FEATURE_PREFIX @ remove_prefix FEATURE_PREFIX f"
  by (auto simp: field_is_addressable_def starts_with_iff)

lemma map_of_keys_inj:
  assumes "f \<in> A" "\<And>g v. (g, v) \<in> set kvs \<Longrightarrow> g \<in> A" "inj_on h A"
  shows "map_of (map (\<lambda>(g, v). (h g, v)) kvs) (h f) = map_of kvs f"
  using assms(1,2)
proof (induction kvs)
  case (Cons kv kvs)
  obtain g v where "kv = (g, v)" by (cases kv)
  moreover from this Cons.prems have "g \<in> A" by auto
  ultimately show ?case using Cons assms(3) by (auto dest: inj_onD)
qed simp

lemma map_of_filter_key: "P f \<Longrightarrow> map_of (filter (\<lambda>(g, v). P g) kvs) f = map_of kvs f"
  by (induction kvs) auto

lemma resolve_observed:
  assumes "f \<in> set fs" "\<forall>f \<in> set fs. field_is_addressable f"
  shows "resolve_field f (observed_subject (observe fs facts)) = resolve_field f facts"
proof (cases "f = LABEL_FIELD")
  case True
  with assms(1) show ?thesis by (simp add: resolve_field_def observed_subject_def map_of_observe)
next
  case False
  let ?A = "set fs - {LABEL_FIELD}" and ?h = "remove_prefix FEATURE_PREFIX"
  have inj: "inj_on ?h ?A"
    using assms(2) addressable_feature by (metis DiffE inj_onI insertI1)
  have "map_of (map (\<lambda>(g, v). (?h g, v)) (filter (\<lambda>(g, v). g \<noteq> LABEL_FIELD) (observe fs facts))) (?h f)
      = map_of (filter (\<lambda>(g, v). g \<noteq> LABEL_FIELD) (observe fs facts)) f"
    by (rule map_of_keys_inj [OF _ _ inj]) (use assms(1) False in \<open>auto simp: set_observe\<close>)
  also have "\<dots> = map_of (observe fs facts) f"
    by (rule map_of_filter_key) (rule False)
  finally show ?thesis
    using False assms(1)
    by (simp add: resolve_field_def observed_subject_def map_of_observe Let_def split: option.splits)
qed

lemma observe_cong:
  "(\<And>f. f \<in> set fs \<Longrightarrow> resolve_field f s = resolve_field f t) \<Longrightarrow> observe fs s = observe fs t"
  unfolding observe_def by (intro arg_cong [where f = concat] map_cong) auto

lemma predicate_fields_addressable:
  "predicate_valid p \<Longrightarrow> f \<in> set (referenced_fields p) \<Longrightarrow> field_is_addressable f"
  by (induction p) (auto simp: list_all_iff)

text \<open>
  A bypass check carries its own evidence. The values a check observed are enough to
  evaluate its rule again: on a subject made of nothing but them, the rule gives the very
  same check, its verdict, its error and its observed values, whatever else the submission
  held.
\<close>

theorem check_carries_its_evidence:
  assumes "bypass_rule_valid r" "evaluate_bypass r facts = Inr check"
  shows "rule check = r \<and> evaluate_bypass r (observed_subject (observed check)) = Inr check"
proof -
  let ?fs = "sort (remdups (referenced_fields (rule_predicate r)))"
  have check: "check = check_of facts r"
    using assms by (simp add: evaluate_bypass_check_of)
  have valid: "\<forall>f \<in> set ?fs. field_is_addressable f"
    using assms(1) predicate_fields_addressable by (auto simp: bypass_rule_valid_def)
  let ?kept = "observed_subject (observe ?fs facts)"
  have same: "resolve_field f ?kept = resolve_field f facts" if "f \<in> set ?fs" for f
    using resolve_observed [OF that valid] .
  have eval: "evaluate_predicate (rule_predicate r) ?kept = evaluate_predicate (rule_predicate r) facts"
    by (rule evaluate_cong(1)) (use same in auto)
  have "observe ?fs ?kept = observe ?fs facts"
    by (rule observe_cong) (rule same)
  then have "check_of ?kept r = check_of facts r"
    using eval by (simp add: check_of_def rule_holds_def)
  then show ?thesis
    using evaluate_bypass_check_of [OF assms(1), of ?kept] check by (simp add: check_of_def)
qed

theorem check_carries_its_evidence_witness:
  "evaluate_bypass (ex_rule BLOCK) (observed_subject [(LABEL_FIELD, SInt 1)])
    = evaluate_bypass (ex_rule BLOCK) (ex_context True)"
proof -
  have valid: "bypass_rule_valid (ex_rule BLOCK)"
    by (simp add: bypass_rule_valid_def ex_rule_def field_is_addressable_def value_fits_op_def
        MEMBERSHIP_OPS_def ORDERING_OPS_def)
  have "evaluate_bypass (ex_rule BLOCK) (ex_context True) = Inr (ex_check BLOCK True)"
    by (simp add: evaluate_bypass_def ex_rule_def ex_check_def observe_def resolve_field_def
        ex_context_def compare_scalar_def scalar_equal_def Let_def)
  with check_carries_its_evidence [OF valid this] show ?thesis by (simp add: ex_check_def)
qed

section \<open>Storage\<close>

text \<open>
  The storage check is exact and every stored message passes it. A value is accepted
  exactly when no string in it (keys included) holds a NUL or a lone surrogate and every
  float is finite; and the text the ledger stores for a message always passes, is the message
  itself when that already does, and is empty only for an empty message.
\<close>

theorem storage_check_is_exact:
  "(storage_problem j = None \<longleftrightarrow> storable j)
    \<and> storage_problem (JStr (storable_text s)) = None
    \<and> (storage_problem (JStr s) = None \<longrightarrow> storable_text s = s)
    \<and> (storable_text s = [] \<longleftrightarrow> s = [])"
  by (simp add: storage_problem_None_iff storable_text_storable storable_text_id storable_text_Nil_iff)

theorem storage_check_is_exact_witness:
  "storage_problem (JObj [([97, 0], JNull)]) \<noteq> None
    \<and> storage_problem (JStr (storable_text [97, 0, 0xD800])) = None"
  using storage_check_is_exact [of "JObj [([97, 0], JNull)]" "[97, 0, 0xD800]"] by simp

section \<open>Gate sets and intake\<close>

text \<open>
  C11: What a deployment may do to a gate set. The gates of a decision are those the
  registration binds and those the deployment mandates, each once; every bound gate keeps
  its place and its configuration; a gate is mandatory exactly when its registration or the
  deployment makes it so.
\<close>

theorem deployment_only_strengthens:
  assumes "registration_valid registration" "finite mandated"
  shows "distinct (map binding_gate_id (effective_gate_set registration mandated))
    \<and> set (map binding_gate_id (effective_gate_set registration mandated))
      = gate_ids registration \<union> mandated
    \<and> map (\<lambda>b. (binding_gate_id b, config b))
        (take (length (gates registration)) (effective_gate_set registration mandated))
      = map (\<lambda>b. (binding_gate_id b, config b)) (gates registration)
    \<and> (\<forall>b \<in> set (effective_gate_set registration mandated).
        mandatory b \<longleftrightarrow> binding_gate_id b \<in> mandated
          \<or> pred_option mandatory (binding registration (binding_gate_id b))
            \<and> binding_gate_id b \<in> gate_ids registration)"
proof -
  let ?set = "effective_gate_set registration mandated"
  have unique: "binding registration (binding_gate_id b) = Some b" if "b \<in> set (gates registration)" for b
    unfolding binding_def by (rule find_unique [OF registration_validD(1) [OF assms(1)] that])
  have "mandatory b \<longleftrightarrow> binding_gate_id b \<in> mandated
      \<or> pred_option mandatory (binding registration (binding_gate_id b))
        \<and> binding_gate_id b \<in> gate_ids registration" if "b \<in> set ?set" for b
  proof -
    from that consider (bound) x where "x \<in> set (gates registration)" "b = upgrade mandated x"
      | (extra) "binding_gate_id b \<in> mandated" "mandatory b"
      using assms(2) by (auto simp: effective_gate_set_def Let_def)
    then show ?thesis
      using unique by cases (auto simp: gate_ids_def)
  qed
  moreover have "map (\<lambda>b. (binding_gate_id b, config b)) (take (length (gates registration)) ?set)
      = map (\<lambda>b. (binding_gate_id b, config b)) (gates registration)"
    by (simp add: effective_gate_set_def Let_def)
  ultimately show ?thesis
    using effective_gate_set_distinct [OF assms] effective_gate_set_ids [OF assms(2)] by simp
qed

theorem deployment_only_strengthens_witness:
  "set (map binding_gate_id (effective_gate_set ex_registration {[8], [6]})) = {[6], [7], [8]}"
  using deployment_only_strengthens [OF ex_registration_valid, of "{[8], [6]}"]
  by (auto simp: gate_ids_def ex_registration_def)

text \<open>What a citation and a native subject must satisfy.\<close>

definition cites :: "submission \<Rightarrow> reasoner_registration \<Rightarrow> bypass_rule option \<Rightarrow> bool" where
  "cites s registration r \<longleftrightarrow>
     (case (mode s, bypass s) of
        (Record, Some citation) \<Rightarrow>
          (\<exists>cited \<in> set (bypass_rules registration). r = Some cited
             \<and> rule_id cited = cited_rule_id citation
             \<and> cited_version citation \<in> {None, Some (rule_version cited)}
             \<and> proposed_action s = Some (rule_action cited))
      | _ \<Rightarrow> r = None)"

definition derives_asserted :: "uuid5 \<Rightarrow> submission \<Rightarrow> reasoner_registration \<Rightarrow> bool" where
  "derives_asserted uuid5 s registration \<longleftrightarrow>
     (\<forall>subject n. native_subject s = Some subject \<longrightarrow> n \<in> set (native_namespaces registration) \<longrightarrow>
        namespace_name n = subject_namespace subject \<longrightarrow>
          asserted_entity_id s = uuid5 (namespace_uuid n) (native_subject_id subject)
          \<and> asserted_entity_type s = namespace_entity_type n)"

lemma bypass_rule_of_iff:
  assumes "registration_valid registration"
  shows "bypass_rule_of registration i = Some x \<longleftrightarrow> x \<in> set (bypass_rules registration) \<and> rule_id x = i"
proof
  assume "x \<in> set (bypass_rules registration) \<and> rule_id x = i"
  then show "bypass_rule_of registration i = Some x"
    using find_unique [OF registration_validD(2) [OF assms]] by (auto simp: bypass_rule_of_def)
qed (rule bypass_rule_of_Some)

lemma native_namespace_of_iff:
  assumes "registration_valid registration"
  shows "native_namespace_of registration i = Some n
    \<longleftrightarrow> n \<in> set (native_namespaces registration) \<and> namespace_name n = i"
proof
  assume "n \<in> set (native_namespaces registration) \<and> namespace_name n = i"
  then show "native_namespace_of registration i = Some n"
    using find_unique [OF registration_validD(3) [OF assms]] by (auto simp: native_namespace_of_def)
qed (rule native_namespace_of_Some)

lemma validate_citation_cites:
  assumes "registration_valid registration"
  shows "validate_citation s registration = Inr r \<longleftrightarrow> cites s registration r"
  using registration_validD(4) [OF assms]
  by (cases "mode s"; cases "bypass s")
    (auto simp: validate_citation_Inr cites_def bypass_rule_of_iff [OF assms])

lemma validate_native_subject_derives:
  assumes "registration_valid registration" "submission_valid dump s"
  shows "validate_native_subject uuid5 s registration = Inr () \<longleftrightarrow> derives_asserted uuid5 s registration"
proof (cases "native_subject s")
  case (Some subject)
  note found = native_namespace_of_iff [OF assms(1), of "subject_namespace subject"]
  have key: "native_subject_id subject \<noteq> []"
    using submission_validD(6) [OF assms(2) Some] by (simp add: native_subject_valid_def)
  show ?thesis
  proof (cases "native_namespace_of registration (subject_namespace subject)")
    case None
    then have "\<not> (n \<in> set (native_namespaces registration) \<and> namespace_name n = subject_namespace subject)"
      for n
      using found [of n] by simp
    with None Some show ?thesis by (auto simp: validate_native_subject_def derives_asserted_def)
  next
    case namespace: (Some n)
    then have "n \<in> set (native_namespaces registration)" "namespace_name n = subject_namespace subject"
      and "m \<in> set (native_namespaces registration) \<Longrightarrow>
        namespace_name m = subject_namespace subject \<Longrightarrow> m = n" for m
      using found [of n] found [of m] by auto
    then have "derives_asserted uuid5 s registration \<longleftrightarrow>
        asserted_entity_id s = uuid5 (namespace_uuid n) (native_subject_id subject)
        \<and> asserted_entity_type s = namespace_entity_type n"
      using Some unfolding derives_asserted_def by (metis option.inject)
    with namespace Some key show ?thesis
      by (auto simp: validate_native_subject_def entity_id_of_def derive_entity_id_def)
  qed
qed (simp add: validate_native_subject_def derives_asserted_def)

text \<open>
  C12: What intake accepts. Validation passes exactly when the registration is the
  reasoner's own, a recorded decision cites a registered rule at its current version (or
  any) with the rule's action proposed and recordable, a native subject in a declared
  namespace derives the asserted subject, the contexts address exactly the bound gates, and
  a gated decision has a gate; and the rule it returns is the cited one.
\<close>

theorem intake_accepts_exactly:
  assumes "registration_valid registration" "submission_valid dump s" "finite mandated"
  shows "validate_submission uuid5 s registration mandated = Inr r \<longleftrightarrow>
    registered_reasoner_id registration = reasoner_id s
    \<and> cites s registration r
    \<and> derives_asserted uuid5 s registration
    \<and> set (map context_gate_id (gate_contexts s)) = gate_ids registration
    \<and> (mode s = Gate \<longrightarrow> gate_ids registration \<union> mandated \<noteq> {})"
proof -
  have "effective_gate_set registration mandated \<noteq> [] \<longleftrightarrow> gate_ids registration \<union> mandated \<noteq> {}"
    using effective_gate_set_ids [OF assms(3), of registration] by (metis image_is_empty list.set_map set_empty)
  then show ?thesis
    by (simp only: validate_submission_Inr [OF assms(3)] validate_citation_cites [OF assms(1)]
        validate_native_subject_derives [OF assms(1,2)])
qed

theorem intake_accepts_exactly_witness:
  "validate_submission (\<lambda>_ _. 0) (ex_submission Record (Some CHALLENGE) True) ex_registration {}
      = Inr (Some (ex_rule CHALLENGE))
    \<and> validate_submission (\<lambda>_ _. 0) (ex_submission Record (Some BLOCK) True) ex_registration {}
      \<noteq> Inr (Some (ex_rule CHALLENGE))"
proof -
  note iff = intake_accepts_exactly [OF ex_registration_valid ex_submission_valid(1), of Record _ "{}"
      "\<lambda>_ _. 0" True "Some (ex_rule CHALLENGE)"]
  show ?thesis
    using iff [of "Some CHALLENGE"] iff [of "Some BLOCK"]
    by (simp add: ex_parts cites_def derives_asserted_def)
      (simp add: ex_submission_def ex_rules ex_rule_def)
qed

end
