(* ===== verification/Registry.thy ===== *)
theory Registry
  imports Gates Identity_Service
begin

text \<open>
  The reasoners a ledger serves: \<open>app/reasoner_registry.py\<close>, the snapshots and API rows of
  \<open>app/audit/registrations.py\<close>, \<open>build_registry\<close> of \<open>app/plugins.py\<close>, the registry steps of
  \<open>app/bootstrap.py\<close>, and the write of \<open>app/api/registrations.py\<close>. The content address of a
  registration is the parameter \<open>version_of\<close>; \<open>reload\<close> is what reading a stored
  registration back (through \<open>jsonb\<close> and validation) gives. Writes hold the registry's lock, so
  they are one sequence of steps. The process's cache of recorded snapshots only saves
  statements that would change nothing.
\<close>

section \<open>Entries and the two tables\<close>

record registered_reasoner =
  registration_of :: reasoner_registration
  entry_version :: ustr
  source :: ustr
  registered_by :: "ustr option"
  registered_at :: "instant option"
  updated_at :: "instant option"

definition entry_reasoner_id :: "registered_reasoner \<Rightarrow> ustr" where
  "entry_reasoner_id e = registered_reasoner_id (registration_of e)"

definition INLINE_SOURCE :: ustr where
  "INLINE_SOURCE = lit ''inline''"

definition API_SOURCE :: ustr where
  "API_SOURCE = lit ''api''"

type_synonym registry_store = "(ustr \<times> registered_reasoner) list"

record registry_row =
  row_version :: ustr
  row_registered_by :: ustr
  row_registered_at :: instant
  row_updated_at :: instant

type_synonym snapshot_table = "(ustr \<times> ustr) \<rightharpoonup> reasoner_registration \<times> instant"

record registry_db =
  snapshot_rows :: snapshot_table
  registry_rows :: "(ustr \<times> registry_row) list"

record registration_snapshot =
  snapshot_registration :: reasoner_registration
  snapshot_version :: ustr
  first_registered_at :: instant

type_synonym versioning = "reasoner_registration \<Rightarrow> ustr"
type_synonym reloading = "reasoner_registration \<Rightarrow> ustr + reasoner_registration"

section \<open>Snapshots\<close>

definition record_snapshot ::
    "versioning \<Rightarrow> instant \<Rightarrow> reasoner_registration \<Rightarrow> registry_db \<Rightarrow> registry_db" where
  "record_snapshot version_of now r db =
     db\<lparr>snapshot_rows :=
       insert_new (registered_reasoner_id r, version_of r) (r, now) (snapshot_rows db)\<rparr>"

definition get_snapshot ::
    "reloading \<Rightarrow> registry_db \<Rightarrow> ustr \<Rightarrow> ustr \<Rightarrow> ustr + registration_snapshot option" where
  "get_snapshot reload db reasoner version =
     (case snapshot_rows db (reasoner, version) of
        None \<Rightarrow> Inr None
      | Some (payload, first) \<Rightarrow>
          rbind (reload payload) (\<lambda>r.
            Inr (Some \<lparr>snapshot_registration = r, snapshot_version = version,
                       first_registered_at = first\<rparr>)))"

section \<open>Registrations written over the API\<close>

text \<open>\<open>save\<close>: the snapshot and the reasoner's row, in one statement.\<close>

definition save_registration ::
    "versioning \<Rightarrow> instant \<Rightarrow> reasoner_registration \<Rightarrow> ustr \<Rightarrow> registry_db
      \<Rightarrow> registered_reasoner \<times> registry_db" where
  "save_registration version_of now r by db =
     (let i = registered_reasoner_id r;
          since = (case map_of (registry_rows db) i of
                     Some row \<Rightarrow> row_registered_at row | None \<Rightarrow> now);
          db' = record_snapshot version_of now r db
      in (\<lparr>registration_of = r, entry_version = version_of r, source = API_SOURCE,
           registered_by = Some by, registered_at = Some since, updated_at = Some now\<rparr>,
          db'\<lparr>registry_rows := AList.update i
                 \<lparr>row_version = version_of r, row_registered_by = by, row_registered_at = since,
                  row_updated_at = now\<rparr> (registry_rows db)\<rparr>))"

text \<open>\<open>load\<close>: the stored rows, sorted by id, each with its version's snapshot reloaded.\<close>

definition load_row ::
    "versioning \<Rightarrow> reloading \<Rightarrow> registry_db \<Rightarrow> ustr \<times> registry_row
      \<Rightarrow> ustr + registered_reasoner option" where
  "load_row version_of reload db = (\<lambda>(i, row).
     case snapshot_rows db (i, row_version row) of
       None \<Rightarrow> Inr None
     | Some (payload, first) \<Rightarrow>
         rbind (reload payload) (\<lambda>r.
           Inr (Some \<lparr>registration_of = r, entry_version = version_of r, source = API_SOURCE,
                      registered_by = Some (row_registered_by row),
                      registered_at = Some (row_registered_at row),
                      updated_at = Some (row_updated_at row)\<rparr>)))"

definition load_registrations ::
    "versioning \<Rightarrow> reloading \<Rightarrow> registry_db \<Rightarrow> ustr + registered_reasoner list" where
  "load_registrations version_of reload db =
     rbind (rmap (load_row version_of reload db) (sort_key fst (registry_rows db)))
       (\<lambda>found. Inr (map the (filter (\<lambda>x. x \<noteq> None) found)))"

section \<open>The live registry\<close>

datatype registry_error =
    DuplicateReasoner ustr
  | RegisteredTwice ustr ustr
  | RegisteredOverApiAnd ustr ustr
  | DeclaredConfiguration ustr ustr
  | RegistrationUnreadable ustr

fun add_entries :: "registered_reasoner list \<Rightarrow> registry_store \<Rightarrow> registry_error + registry_store" where
  "add_entries [] store = Inr store"
| "add_entries (e # es) store =
     (if entry_reasoner_id e \<in> fst ` set store
      then Inl (DuplicateReasoner (entry_reasoner_id e))
      else add_entries es (store @ [(entry_reasoner_id e, e)]))"

definition declared_entry ::
    "versioning \<Rightarrow> (ustr \<times> ustr) list \<Rightarrow> reasoner_registration \<Rightarrow> registered_reasoner" where
  "declared_entry version_of labels r =
     \<lparr>registration_of = r, entry_version = version_of r,
      source = (case map_of labels (registered_reasoner_id r) of
                  Some label \<Rightarrow> label | None \<Rightarrow> INLINE_SOURCE),
      registered_by = None, registered_at = None, updated_at = None\<rparr>"

definition make_registry ::
    "versioning \<Rightarrow> reasoner_registration list \<Rightarrow> (ustr \<times> ustr) list \<Rightarrow> registered_reasoner list
      \<Rightarrow> registry_error + registry_store" where
  "make_registry version_of registrations labels written =
     add_entries (map (declared_entry version_of labels) registrations @ written) []"

definition registry_entry :: "registry_store \<Rightarrow> ustr \<Rightarrow> registered_reasoner option" where
  "registry_entry store i = map_of store i"

definition get_registration :: "registry_store \<Rightarrow> ustr \<Rightarrow> reasoner_registration option" where
  "get_registration store i = map_option registration_of (registry_entry store i)"

definition registry_entries :: "registry_store \<Rightarrow> registered_reasoner list" where
  "registry_entries store = map snd (sort_key fst store)"

record registry_state =
  live_store :: registry_store
  database :: registry_db

definition register ::
    "versioning \<Rightarrow> instant \<Rightarrow> reasoner_registration \<Rightarrow> ustr \<Rightarrow> registry_state
      \<Rightarrow> registry_error + registry_state" where
  "register version_of now r by st =
     (let i = registered_reasoner_id r;
          current = registry_entry (live_store st) i
      in case current of
           Some e \<Rightarrow>
             if source e \<noteq> API_SOURCE then Inl (DeclaredConfiguration (source e) i)
             else if entry_version e = version_of r then Inr st
             else (case save_registration version_of now r by (database st) of
                     (e', db) \<Rightarrow> Inr \<lparr>live_store = AList.update i e' (live_store st), database = db\<rparr>)
         | None \<Rightarrow>
             (case save_registration version_of now r by (database st) of
                (e', db) \<Rightarrow> Inr \<lparr>live_store = AList.update i e' (live_store st), database = db\<rparr>))"

section \<open>Composing the registry at startup\<close>

text \<open>
  \<open>build_registry\<close>: the plugins' registrations with their module labels, the registration
  file's (already loaded), and the rows written over the API.
\<close>

fun add_file ::
    "ustr \<Rightarrow> reasoner_registration list \<Rightarrow> reasoner_registration list \<Rightarrow> (ustr \<times> ustr) list
      \<Rightarrow> registry_error + (reasoner_registration list \<times> (ustr \<times> ustr) list)" where
  "add_file label [] registrations labels = Inr (registrations, labels)"
| "add_file label (r # rs) registrations labels =
     (case map_of labels (registered_reasoner_id r) of
        Some known \<Rightarrow> Inl (RegisteredTwice (registered_reasoner_id r) known)
      | None \<Rightarrow> add_file label rs (registrations @ [r])
                  (AList.update (registered_reasoner_id r) label labels))"

definition declared_configuration ::
    "(ustr \<times> reasoner_registration) list \<Rightarrow> (ustr \<times> reasoner_registration list) option
      \<Rightarrow> registry_error + (reasoner_registration list \<times> (ustr \<times> ustr) list)" where
  "declared_configuration plugins file =
     (let registrations = map snd plugins;
          labels = fold (\<lambda>(module, r). AList.update (registered_reasoner_id r) (lit ''plugin:'' @ module))
                     plugins []
      in case file of
           None \<Rightarrow> Inr (registrations, labels)
         | Some (path, rs) \<Rightarrow> add_file (lit ''file:'' @ path) rs registrations labels)"

definition build_registry ::
    "versioning \<Rightarrow> (ustr \<times> reasoner_registration) list \<Rightarrow> (ustr \<times> reasoner_registration list) option
      \<Rightarrow> registered_reasoner list \<Rightarrow> registry_error + registry_store" where
  "build_registry version_of plugins file written =
     rbind (declared_configuration plugins file) (\<lambda>(registrations, labels).
       case find (\<lambda>e. entry_reasoner_id e \<in> fst ` set labels) written of
         Some e \<Rightarrow>
           Inl (RegisteredOverApiAnd (entry_reasoner_id e)
             (the (map_of labels (entry_reasoner_id e))))
       | None \<Rightarrow> make_registry version_of registrations labels written)"

datatype startup_error =
    RegistryRefused registry_error
  | NamespaceRefused namespace_conflict

text \<open>The registry steps of \<open>build_framework_services\<close>: load, compose, check, snapshot.\<close>

definition start_registry ::
    "versioning \<Rightarrow> reloading \<Rightarrow> instant \<Rightarrow> (ustr \<times> reasoner_registration) list
      \<Rightarrow> (ustr \<times> reasoner_registration list) option \<Rightarrow> registry_db \<Rightarrow> startup_error + registry_state" where
  "start_registry version_of reload now plugins file db =
     rbind (map_sum (RegistryRefused \<circ> RegistrationUnreadable) id
              (load_registrations version_of reload db)) (\<lambda>written.
     rbind (map_sum RegistryRefused id (build_registry version_of plugins file written)) (\<lambda>store.
     rbind (map_sum NamespaceRefused id
              (declared_namespaces (map registration_of (registry_entries store)))) (\<lambda>_.
     Inr \<lparr>live_store = store,
          database = fold (record_snapshot version_of now)
            (map registration_of (registry_entries store)) db\<rparr>)))"

section \<open>The write of the registrations resource\<close>

datatype write_refusal =
    OperatorRequired
  | NativeNamespaceConflict namespace_conflict
  | GateBindingRefused gate_error
  | RegistrationSourceImmutable ustr
  | RegistryRaised registry_error

definition admit_registration ::
    "gate_map \<Rightarrow> registry_store \<Rightarrow> reasoner_registration \<Rightarrow> write_refusal + unit" where
  "admit_registration gs store r =
     (let i = registered_reasoner_id r;
          others = map registration_of (filter (\<lambda>e. entry_reasoner_id e \<noteq> i) (registry_entries store))
      in rbind (map_sum NativeNamespaceConflict id (declared_namespaces (others @ [r]))) (\<lambda>_.
         map_sum GateBindingRefused id (check_gate_set r gs)))"

text \<open>
  \<open>register_reasoner\<close> on a parsed registration: the entry served now, whether it is the
  reasoner's first, and the state.
\<close>

definition register_reasoner ::
    "versioning \<Rightarrow> instant \<Rightarrow> gate_map \<Rightarrow> bool \<Rightarrow> ustr \<Rightarrow> reasoner_registration \<Rightarrow> registry_state
      \<Rightarrow> write_refusal + (registered_reasoner \<times> bool) \<times> registry_state" where
  "register_reasoner version_of now gs may_resolve label r st =
     (let i = registered_reasoner_id r;
          current = registry_entry (live_store st) i;
          admit = rbind (admit_registration gs (live_store st) r) (\<lambda>_.
            rbind (map_sum RegistryRaised id (register version_of now r label st)) (\<lambda>st'.
            Inr ((the (registry_entry (live_store st') i), current = None), st')))
      in if \<not> may_resolve then Inl OperatorRequired
         else (case current of
                 Some e \<Rightarrow>
                   if source e \<noteq> API_SOURCE then Inl (RegistrationSourceImmutable (source e))
                   else if entry_version e = version_of r then Inr ((e, False), st)
                   else admit
               | None \<Rightarrow> admit))"

end
