(* ===== verification/Registry_Correct.thy ===== *)
theory Registry_Correct
  imports Registry
begin

text \<open>
  The invariants of the registry and its tables: what startup establishes, what every write
  keeps, and what a restart reads back.
\<close>

section \<open>Tables\<close>

definition db_ok :: "versioning \<Rightarrow> registry_db \<Rightarrow> bool" where
  "db_ok version_of db \<longleftrightarrow>
     (\<forall>i v r t. snapshot_rows db (i, v) = Some (r, t) \<longrightarrow> registered_reasoner_id r = i \<and> version_of r = v)
     \<and> distinct (map fst (registry_rows db))
     \<and> (\<forall>(i, row) \<in> set (registry_rows db). snapshot_rows db (i, row_version row) \<noteq> None)"

definition snapshotted :: "registry_db \<Rightarrow> registered_reasoner \<Rightarrow> bool" where
  "snapshotted db e \<longleftrightarrow> snapshot_rows db (entry_reasoner_id e, entry_version e) \<noteq> None"

text \<open>Snapshots are written once: the interface \<open>write_once\<close> on the snapshot table.\<close>

definition put_snapshot ::
    "ustr \<times> ustr \<Rightarrow> reasoner_registration \<times> instant \<Rightarrow> registry_db \<Rightarrow> registry_db" where
  "put_snapshot k v db = db\<lparr>snapshot_rows := insert_new k v (snapshot_rows db)\<rparr>"

interpretation snapshot_table: write_once snapshot_rows put_snapshot
  by unfold_locales (auto simp: put_snapshot_def insert_new_def split: option.splits)

lemma record_snapshot_put:
  "record_snapshot version_of now r = put_snapshot (registered_reasoner_id r, version_of r) (r, now)"
  by (simp add: fun_eq_iff record_snapshot_def put_snapshot_def)

lemma registry_rows_put [simp]: "registry_rows (put_snapshot k v db) = registry_rows db"
  by (simp add: put_snapshot_def)

lemma registry_rows_record [simp]:
  "registry_rows (record_snapshot version_of now r db) = registry_rows db"
  by (simp add: record_snapshot_def)

lemma registry_rows_records [simp]:
  "registry_rows (fold (record_snapshot version_of now) rs db) = registry_rows db"
  by (induction rs arbitrary: db) simp_all

definition keeps_snapshots :: "registry_db \<Rightarrow> registry_db \<Rightarrow> bool" where
  "keeps_snapshots db db' \<longleftrightarrow> (\<forall>k v. snapshot_rows db k = Some v \<longrightarrow> snapshot_rows db' k = Some v)"

lemma keeps_snapshots_refl [simp]: "keeps_snapshots db db"
  and keeps_snapshots_trans: "keeps_snapshots a b \<Longrightarrow> keeps_snapshots b c \<Longrightarrow> keeps_snapshots a c"
  by (auto simp: keeps_snapshots_def)

lemma keeps_snapshots_record: "keeps_snapshots db (record_snapshot version_of now r db)"
  by (simp add: keeps_snapshots_def record_snapshot_put snapshot_table.held_stays)

lemma keeps_snapshots_records: "keeps_snapshots db (fold (record_snapshot version_of now) rs db)"
  by (induction rs arbitrary: db)
    (auto intro: keeps_snapshots_trans [OF keeps_snapshots_record])

lemma recorded_snapshot:
  "snapshot_rows (record_snapshot version_of now r db) (registered_reasoner_id r, version_of r) \<noteq> None"
  by (simp add: record_snapshot_put snapshot_table.look_put)

lemma recorded_snapshots:
  "r \<in> set rs \<Longrightarrow> snapshot_rows (fold (record_snapshot version_of now) rs db)
     (registered_reasoner_id r, version_of r) \<noteq> None"
proof (induction rs arbitrary: db)
  case (Cons x rs)
  show ?case
  proof (cases "r = x")
    case True
    then show ?thesis
      using recorded_snapshot [of version_of now r db]
        keeps_snapshots_records [of "record_snapshot version_of now r db" version_of now rs]
      by (auto simp: keeps_snapshots_def)
  next
    case False
    with Cons show ?thesis by simp
  qed
qed simp

lemma db_ok_record: "db_ok version_of db \<Longrightarrow> db_ok version_of (record_snapshot version_of now r db)"
  by (auto simp: db_ok_def record_snapshot_put snapshot_table.look_put split: if_splits)

lemma db_ok_records: "db_ok version_of db \<Longrightarrow> db_ok version_of (fold (record_snapshot version_of now) rs db)"
  by (induction rs arbitrary: db) (simp_all add: db_ok_record)

lemma snapshotted_later: "snapshotted db e \<Longrightarrow> keeps_snapshots db db' \<Longrightarrow> snapshotted db' e"
  by (auto simp: snapshotted_def keeps_snapshots_def)

lemma set_update_cases: "(j, x) \<in> set (AList.update i y xs) \<Longrightarrow> (j, x) \<in> set xs \<or> (j, x) = (i, y)"
  by (induction xs) (auto split: if_splits)

lemma save_registration_cases:
  assumes "save_registration version_of now r by db = (e, db')"
  shows "registration_of e = r" "entry_version e = version_of r" "source e = API_SOURCE"
    "keeps_snapshots db db'" "snapshotted db' e" "db_ok version_of db \<Longrightarrow> db_ok version_of db'"
    "\<exists>row. registry_rows db' = AList.update (registered_reasoner_id r) row (registry_rows db)
       \<and> row_version row = version_of r \<and> registered_by e = Some (row_registered_by row)
       \<and> registered_at e = Some (row_registered_at row) \<and> updated_at e = Some (row_updated_at row)"
proof -
  let ?i = "registered_reasoner_id r" and ?d = "record_snapshot version_of now r db"
  define row where "row = \<lparr>row_version = version_of r, row_registered_by = by,
    row_registered_at = (case map_of (registry_rows db) ?i of
        Some row \<Rightarrow> row_registered_at row | None \<Rightarrow> now),
    row_updated_at = now\<rparr>"
  have db': "db' = ?d\<lparr>registry_rows := AList.update ?i row (registry_rows db)\<rparr>"
    and row: "row_version row = version_of r" "registered_by e = Some (row_registered_by row)"
      "registered_at e = Some (row_registered_at row)" "updated_at e = Some (row_updated_at row)"
    and e: "registration_of e = r" "entry_version e = version_of r" "source e = API_SOURCE"
    using assms by (auto simp: save_registration_def Let_def row_def)
  have rows: "snapshot_rows db' = snapshot_rows ?d" by (simp add: db')
  show "registration_of e = r" "entry_version e = version_of r" "source e = API_SOURCE" by (fact e)+
  show "keeps_snapshots db db'"
    using keeps_snapshots_record [of db version_of now r] by (simp add: keeps_snapshots_def rows)
  show "snapshotted db' e"
    using recorded_snapshot [of version_of now r db] e by (simp add: snapshotted_def rows entry_reasoner_id_def)
  show "db_ok version_of db'" if "db_ok version_of db"
  proof -
    from that have d: "db_ok version_of ?d" by (rule db_ok_record)
    have "snapshot_rows ?d (j, row_version x) \<noteq> None"
      if "(j, x) \<in> set (AList.update ?i row (registry_rows db))" for j x
    proof (cases "j = ?i \<and> x = row")
      case True
      then show ?thesis using recorded_snapshot row(1) by simp
    next
      case False
      from that have "(j, x) \<in> set (registry_rows db) \<or> j = ?i \<and> x = row"
        by (auto dest: set_update_cases)
      with False d show ?thesis by (auto simp: db_ok_def)
    qed
    with d show ?thesis
      by (auto simp: db_ok_def rows db' distinct_update)
  qed
  show "\<exists>row. registry_rows db' = AList.update (registered_reasoner_id r) row (registry_rows db)
       \<and> row_version row = version_of r \<and> registered_by e = Some (row_registered_by row)
       \<and> registered_at e = Some (row_registered_at row) \<and> updated_at e = Some (row_updated_at row)"
    using row by (auto simp: db')
qed

section \<open>Namespaces\<close>

text \<open>One native namespace means one thing across a set of registrations.\<close>

definition consistent_namespaces :: "reasoner_registration set \<Rightarrow> bool" where
  "consistent_namespaces R \<longleftrightarrow>
     (\<forall>r \<in> R. \<forall>r' \<in> R. \<forall>n \<in> set (native_namespaces r). \<forall>n' \<in> set (native_namespaces r').
        namespace_name n = namespace_name n' \<longrightarrow> n = n')"

definition declares :: "namespace_table \<Rightarrow> native_namespace \<Rightarrow> bool" where
  "declares table n \<longleftrightarrow> map_option fst (table (namespace_name n)) = Some n"

lemma declare_namespaces_Inr:
  "declare_namespaces reasoner ns table = Inr t \<Longrightarrow>
     (\<forall>n \<in> set ns. declares t n) \<and> (\<forall>n. declares table n \<longrightarrow> declares t n)"
proof (induction reasoner ns table rule: declare_namespaces.induct)
  case (2 reasoner n ns table)
  show ?case
  proof (cases "table (namespace_name n)")
    case None
    with 2(3) have run: "declare_namespaces reasoner ns (table(namespace_name n \<mapsto> (n, reasoner))) = Inr t"
      by simp
    from 2(1) [OF None run] have t: "\<forall>m \<in> set ns. declares t m"
      "\<forall>m. declares (table(namespace_name n \<mapsto> (n, reasoner))) m \<longrightarrow> declares t m"
      by blast+
    have "declares (table(namespace_name n \<mapsto> (n, reasoner))) m" if "declares table m \<or> m = n" for m
      using that None by (auto simp: declares_def)
    with t show ?thesis by auto
  next
    case (Some known)
    with 2 show ?thesis by (cases known) (auto simp: declares_def split: if_splits)
  qed
qed simp

lemma declared_from_Inr:
  "declared_from rs table = Inr t \<Longrightarrow>
     (\<forall>r \<in> set rs. \<forall>n \<in> set (native_namespaces r). declares t n)
     \<and> (\<forall>n. declares table n \<longrightarrow> declares t n)"
proof (induction rs table rule: declared_from.induct)
  case (2 r rs table)
  then obtain t' where t': "declare_namespaces (registered_reasoner_id r) (native_namespaces r) table = Inr t'"
    "declared_from rs t' = Inr t" by auto
  with 2(1) [OF t'(2)] declare_namespaces_Inr [OF t'(1)] show ?case by auto
qed simp

section \<open>What startup establishes\<close>

lemma map_sum_Inr_cases: "map_sum f id x = Inr y \<Longrightarrow> (x = Inr y \<Longrightarrow> P) \<Longrightarrow> P"
  by (cases x) auto

definition served_registrations :: "registry_state \<Rightarrow> reasoner_registration set" where
  "served_registrations st = registration_of ` snd ` set (live_store st)"

definition served_ok :: "versioning \<Rightarrow> registry_state \<Rightarrow> bool" where
  "served_ok version_of st \<longleftrightarrow>
     db_ok version_of (database st) \<and> distinct (map fst (live_store st))
     \<and> (\<forall>(i, e) \<in> set (live_store st). entry_reasoner_id e = i
          \<and> entry_version e = version_of (registration_of e) \<and> snapshotted (database st) e)"

definition admitted :: "gate_map \<Rightarrow> registry_state \<Rightarrow> bool" where
  "admitted gs st \<longleftrightarrow>
     consistent_namespaces (served_registrations st)
     \<and> (\<forall>r \<in> served_registrations st. check_gate_set r gs = Inr ())"

lemma add_entries_Inr:
  "distinct (map fst store) \<Longrightarrow> add_entries es store = Inr s \<longleftrightarrow>
     s = store @ map (\<lambda>e. (entry_reasoner_id e, e)) es \<and> distinct (map fst s)"
  by (induction es arbitrary: store) auto

lemma registry_entries_set: "set (registry_entries store) = snd ` set store"
  by (simp add: registry_entries_def)

lemma declared_namespaces_consistent:
  assumes "declared_namespaces rs = Inr table"
  shows "consistent_namespaces (set rs)"
proof -
  from assms obtain t where "declared_from rs Map.empty = Inr t" by (auto simp: declared_namespaces_def)
  then have known: "declares t n" if "r \<in> set rs" "n \<in> set (native_namespaces r)" for r n
    using declared_from_Inr that by blast
  show ?thesis
    unfolding consistent_namespaces_def
  proof (intro ballI impI)
    fix r r' n n' assume "r \<in> set rs" "r' \<in> set rs" "n \<in> set (native_namespaces r)"
      "n' \<in> set (native_namespaces r')" and same: "namespace_name n = namespace_name n'"
    then have "declares t n" "declares t n'" using known by blast+
    then show "n = n'" unfolding declares_def same by simp
  qed
qed

lemma load_row_version:
  "load_row version_of reload db row = Inr (Some e) \<Longrightarrow> entry_version e = version_of (registration_of e)"
  by (auto simp: load_row_def split: option.splits prod.splits)

lemma load_registrations_version:
  assumes "load_registrations version_of reload db = Inr written" "e \<in> set written"
  shows "entry_version e = version_of (registration_of e)"
proof -
  from assms(1) obtain found where
    found: "rmap (load_row version_of reload db) (sort_key fst (registry_rows db)) = Inr found"
      "written = map the (filter (\<lambda>x. x \<noteq> None) found)"
    by (auto simp: load_registrations_def)
  from assms(2) found(2) have "Some e \<in> set found" by auto
  then obtain n where "n < length found" "found ! n = Some e" by (auto simp: in_set_conv_nth)
  with found(1) show ?thesis by (metis load_row_version rmap_Inr_nth)
qed

lemma build_registry_Inr:
  "build_registry version_of plugins file written = Inr store \<longleftrightarrow>
     (\<exists>registrations labels. declared_configuration plugins file = Inr (registrations, labels)
        \<and> (\<forall>e \<in> set written. entry_reasoner_id e \<notin> fst ` set labels)
        \<and> store = map (\<lambda>e. (entry_reasoner_id e, e))
            (map (declared_entry version_of labels) registrations @ written)
        \<and> distinct (map fst store))"
proof -
  have "(case find (\<lambda>e. entry_reasoner_id e \<in> fst ` set labels) written of
         Some e \<Rightarrow>
           Inl (RegisteredOverApiAnd (entry_reasoner_id e)
             (the (map_of labels (entry_reasoner_id e))))
       | None \<Rightarrow> make_registry version_of registrations labels written) = Inr store
     \<longleftrightarrow> (\<forall>e \<in> set written. entry_reasoner_id e \<notin> fst ` set labels)
        \<and> store = map (\<lambda>e. (entry_reasoner_id e, e))
            (map (declared_entry version_of labels) registrations @ written)
        \<and> distinct (map fst store)" for registrations labels
  proof (cases "find (\<lambda>e. entry_reasoner_id e \<in> fst ` set labels) written")
    case None
    then show ?thesis
      using add_entries_Inr [of "[]" "map (declared_entry version_of labels) registrations @ written" store]
      by (simp only: None option.case make_registry_def) (use None in \<open>simp add: find_None_iff\<close>)
  next
    case (Some e)
    then show ?thesis using find_in_set [OF Some] by auto
  qed
  then show ?thesis by (auto simp: build_registry_def)
qed

lemma start_registry_ok:
  assumes "start_registry version_of reload now plugins file db = Inr st" "db_ok version_of db"
  shows "served_ok version_of st" "consistent_namespaces (served_registrations st)"
    "keeps_snapshots db (database st)"
proof -
  from assms(1) obtain written store where
    w: "load_registrations version_of reload db = Inr written"
    and b: "build_registry version_of plugins file written = Inr store"
    and n: "\<exists>t. declared_namespaces (map registration_of (registry_entries store)) = Inr t"
    and st: "st = \<lparr>live_store = store, database = fold (record_snapshot version_of now)
      (map registration_of (registry_entries store)) db\<rparr>"
    by (auto simp: start_registry_def split: sum.splits elim!: map_sum_Inr_cases)
  show "keeps_snapshots db (database st)" by (simp add: st keeps_snapshots_records)
  show "consistent_namespaces (served_registrations st)"
    using n declared_namespaces_consistent [of "map registration_of (registry_entries store)"]
    by (auto simp: served_registrations_def st registry_entries_set)
  from b obtain registrations labels where s:
    "store = map (\<lambda>e. (entry_reasoner_id e, e)) (map (declared_entry version_of labels) registrations @ written)"
    "distinct (map fst store)"
    unfolding build_registry_Inr by blast
  have "entry_reasoner_id e = i \<and> entry_version e = version_of (registration_of e)" if "(i, e) \<in> set store" for i e
    using that load_registrations_version [OF w] by (auto simp: s(1) declared_entry_def)
  moreover have "snapshotted (database st) e" if e: "(i, e) \<in> set store" for i e
  proof -
    have "registration_of e \<in> set (map registration_of (registry_entries store))"
      using e by (force simp: registry_entries_set)
    from recorded_snapshots [OF this] calculation [OF e] show ?thesis
      by (simp add: st snapshotted_def entry_reasoner_id_def)
  qed
  ultimately show "served_ok version_of st"
    using s(2) db_ok_records [OF assms(2)] by (auto simp: served_ok_def st)
qed

section \<open>What every write keeps\<close>

inductive registry_step :: "versioning \<Rightarrow> gate_map \<Rightarrow> registry_state \<Rightarrow> registry_state \<Rightarrow> bool"
  for version_of gs where
  "register_reasoner version_of now gs may_resolve label r st = Inr (view, st')
     \<Longrightarrow> registry_step version_of gs st st'"

text \<open>A write that changes anything stores the registration and serves it in the same step.\<close>

lemma register_reasoner_cases:
  assumes "register_reasoner version_of now gs may_resolve label r st = Inr (view, st')"
  obtains (unchanged) "st' = st"
  | (written) e db where "admit_registration gs (live_store st) r = Inr ()"
      "save_registration version_of now r label (database st) = (e, db)"
      "st' = \<lparr>live_store = AList.update (registered_reasoner_id r) e (live_store st), database = db\<rparr>"
      "\<forall>old. registry_entry (live_store st) (registered_reasoner_id r) = Some old \<longrightarrow> source old = API_SOURCE"
proof -
  let ?i = "registered_reasoner_id r"
  have "st' = st \<or> (admit_registration gs (live_store st) r = Inr ()
      \<and> (\<exists>e db. save_registration version_of now r label (database st) = (e, db)
           \<and> st' = \<lparr>live_store = AList.update ?i e (live_store st), database = db\<rparr>)
      \<and> (\<forall>old. registry_entry (live_store st) ?i = Some old \<longrightarrow> source old = API_SOURCE))"
    using assms
    by (cases "save_registration version_of now r label (database st)")
      (auto simp: register_reasoner_def register_def Let_def split: if_splits option.splits
        elim!: map_sum_Inr_cases)
  with that show ?thesis by blast
qed

lemma map_of_update_store:
  "map_of (AList.update i e store) j = (if j = i then Some e else map_of store j)"
  by (simp add: update_conv')

lemma registry_step_ok:
  assumes "registry_step version_of gs st st'" "served_ok version_of st"
  shows "served_ok version_of st'"
  using assms(1)
proof cases
  case (1 now may_resolve label r view)
  from 1 show ?thesis
  proof (cases rule: register_reasoner_cases)
    case unchanged
    with assms(2) show ?thesis by simp
  next
    case (written e db)
    note facts = save_registration_cases [OF written(2)]
    have "entry_reasoner_id x = j \<and> entry_version x = version_of (registration_of x) \<and> snapshotted db x"
      if x: "(j, x) \<in> set (AList.update (registered_reasoner_id r) e (live_store st))" for j x
    proof (cases "(j, x) = (registered_reasoner_id r, e)")
      case True
      then show ?thesis using facts by (simp add: entry_reasoner_id_def)
    next
      case False
      with set_update_cases [OF x] have "(j, x) \<in> set (live_store st)" by auto
      with assms(2) facts(4) show ?thesis by (auto simp: served_ok_def intro: snapshotted_later)
    qed
    moreover have "distinct (map fst (AList.update (registered_reasoner_id r) e (live_store st)))"
      using assms(2) by (simp add: served_ok_def distinct_update)
    ultimately show ?thesis
      using assms(2) facts(6) written(3) by (auto simp: served_ok_def)
  qed
qed

text \<open>Between two states: no snapshot is lost, and what configuration declares stays.\<close>

definition registry_later :: "registry_state \<Rightarrow> registry_state \<Rightarrow> bool" where
  "registry_later st st' \<longleftrightarrow>
     keeps_snapshots (database st) (database st')
     \<and> (\<forall>i e. registry_entry (live_store st) i = Some e \<longrightarrow>
          (\<exists>e'. registry_entry (live_store st') i = Some e' \<and> (source e \<noteq> API_SOURCE \<longrightarrow> e' = e)
             \<and> (source e = API_SOURCE \<longrightarrow> source e' = API_SOURCE)))"

lemma registry_step_later:
  assumes "registry_step version_of gs st st'"
  shows "registry_later st st'"
  using assms
proof cases
  case (1 now may_resolve label r view)
  from 1 show ?thesis
  proof (cases rule: register_reasoner_cases)
    case (written e db)
    note facts = save_registration_cases [OF written(2)]
    show ?thesis
      unfolding registry_later_def registry_entry_def written(3) using facts(3,4) written(4)
      by (auto simp: map_of_update_store registry_entry_def)
  qed (auto simp: registry_later_def)
qed

lemma registry_later_refl: "registry_later st st"
  by (simp add: registry_later_def)

lemma registry_later_trans: "registry_later s t \<Longrightarrow> registry_later t u \<Longrightarrow> registry_later s u"
proof -
  assume st: "registry_later s t" and tu: "registry_later t u"
  have "\<exists>x. registry_entry (live_store u) i = Some x \<and> (source e \<noteq> API_SOURCE \<longrightarrow> x = e)
      \<and> (source e = API_SOURCE \<longrightarrow> source x = API_SOURCE)"
    if e: "registry_entry (live_store s) i = Some e" for i e
  proof -
    from st e obtain y where y: "registry_entry (live_store t) i = Some y"
      "source e \<noteq> API_SOURCE \<longrightarrow> y = e" "source e = API_SOURCE \<longrightarrow> source y = API_SOURCE"
      by (auto simp: registry_later_def)
    from tu y(1) obtain x where "registry_entry (live_store u) i = Some x"
      "source y \<noteq> API_SOURCE \<longrightarrow> x = y" "source y = API_SOURCE \<longrightarrow> source x = API_SOURCE"
      by (auto simp: registry_later_def)
    with y(2,3) show ?thesis by (cases "source e = API_SOURCE") auto
  qed
  moreover have "keeps_snapshots (database s) (database u)"
    using st tu keeps_snapshots_trans by (auto simp: registry_later_def)
  ultimately show "registry_later s u" by (simp add: registry_later_def)
qed

interpretation registry: kept "registry_step version_of gs" "served_ok version_of" for version_of gs
  by unfold_locales (rule registry_step_ok)

interpretation registry_history: advancing "registry_step version_of gs" registry_later for version_of gs
  by unfold_locales
    (rule registry_later_refl | erule (1) registry_later_trans | erule registry_step_later)+

text \<open>Admission keeps the deployment consistent.\<close>

lemma served_after_write:
  assumes "served_ok version_of st"
    and "save_registration version_of now r label (database st) = (e, db)"
    and "x \<in> served_registrations \<lparr>live_store = AList.update (registered_reasoner_id r) e (live_store st),
      database = db\<rparr>"
  shows "x = r \<or> x \<in> registration_of ` {y \<in> set (registry_entries (live_store st)).
      entry_reasoner_id y \<noteq> registered_reasoner_id r}"
proof -
  let ?i = "registered_reasoner_id r"
  from assms(3) obtain j y where y: "(j, y) \<in> set (AList.update ?i e (live_store st))" "x = registration_of y"
    by (auto simp: served_registrations_def)
  have dist: "distinct (map fst (AList.update ?i e (live_store st)))"
    using assms(1) by (simp add: served_ok_def distinct_update)
  show ?thesis
  proof (cases "j = ?i")
    case True
    with y(1) dist have "y = e" by (metis map_of_eq_Some_iff map_of_update_store option.inject)
    then show ?thesis using y(2) save_registration_cases(1) [OF assms(2)] by simp
  next
    case False
    with set_update_cases [OF y(1)] have "(j, y) \<in> set (live_store st)" by auto
    moreover from this assms(1) False have "entry_reasoner_id y \<noteq> ?i" by (auto simp: served_ok_def)
    ultimately show ?thesis using y(2) by (force simp: registry_entries_set)
  qed
qed

lemma registry_step_consistent:
  assumes "registry_step version_of gs st st'"
    and "served_ok version_of st \<and> consistent_namespaces (served_registrations st)"
  shows "served_ok version_of st' \<and> consistent_namespaces (served_registrations st')"
proof -
  have "consistent_namespaces (served_registrations st')"
    using assms(1)
  proof cases
    case (1 now may_resolve label r view)
    from 1 show ?thesis
    proof (cases rule: register_reasoner_cases)
      case unchanged
      with assms(2) show ?thesis by simp
    next
      case (written e db)
      let ?others = "map registration_of (filter (\<lambda>e. entry_reasoner_id e \<noteq> registered_reasoner_id r)
        (registry_entries (live_store st)))"
      have "consistent_namespaces (set (?others @ [r]))"
        using written(1) declared_namespaces_consistent [of "?others @ [r]"]
        by (auto simp: admit_registration_def Let_def elim!: map_sum_Inr_cases)
      moreover have "served_registrations st' \<subseteq> set (?others @ [r])"
        using served_after_write [OF conjunct1 [OF assms(2)] written(2)] unfolding written(3) by auto
      ultimately show ?thesis unfolding consistent_namespaces_def by blast
    qed
  qed
  with assms registry_step_ok show ?thesis by blast
qed

lemma registry_step_admitted:
  assumes "registry_step version_of gs st st'" "served_ok version_of st \<and> admitted gs st"
  shows "served_ok version_of st' \<and> admitted gs st'"
proof -
  have "check_gate_set x gs = Inr ()" if x: "x \<in> served_registrations st'" for x
    using assms(1)
  proof cases
    case (1 now may_resolve label r view)
    from 1 show ?thesis
    proof (cases rule: register_reasoner_cases)
      case unchanged
      with assms(2) x show ?thesis by (simp add: admitted_def)
    next
      case (written e db)
      have "check_gate_set r gs = Inr ()"
        using written(1) by (auto simp: admit_registration_def Let_def elim!: map_sum_Inr_cases)
      moreover have "x = r \<or> x \<in> served_registrations st"
        using served_after_write [OF conjunct1 [OF assms(2)] written(2)] x unfolding written(3)
        by (auto simp: registry_entries_set served_registrations_def)
      ultimately show ?thesis using assms(2) by (auto simp: admitted_def)
    qed
  qed
  with registry_step_consistent [OF assms(1)] assms(2) show ?thesis by (simp add: admitted_def)
qed

interpretation admission: kept "registry_step version_of gs"
    "\<lambda>st. served_ok version_of st \<and> admitted gs st" for version_of gs
  by unfold_locales (rule registry_step_admitted)

interpretation namespaces: kept "registry_step version_of gs"
    "\<lambda>st. served_ok version_of st \<and> consistent_namespaces (served_registrations st)" for version_of gs
  by unfold_locales (rule registry_step_consistent)

end
