(* ===== verification/Deployment_Claims.thy ===== *)
theory Deployment_Claims
  imports Submit_Claims Registry_Correct
begin

text \<open>
  What a deployment that started is known to have: its gates were composed all or none, every
  mandated gate that a reasoner does not bind takes that reasoner's submissions without a
  configuration, and the subject a lookup reports is the one a decision would record.
\<close>

section \<open>Composition\<close>

lemma rcheck_Inl: "rcheck f xs = Inl e \<Longrightarrow> \<exists>x \<in> set xs. f x = Inl e"
  by (induction xs) (auto simp: rbind_Inl_iff)

definition built_object :: "gate_plugin \<Rightarrow> bool" where
  "built_object p \<longleftrightarrow> (\<exists>obj. plugin_builds p = Inr obj)"

definition built_gate_of :: "gate_plugin \<Rightarrow> bool" where
  "built_gate_of p \<longleftrightarrow> (\<exists>g. plugin_builds p = Inr (AsyncGate g))"

text \<open>Why composition stopped at a plugin without an object of its own to close.\<close>

definition stopped_at :: "gate_plugin list \<Rightarrow> gate_plugin \<Rightarrow> bool" where
  "stopped_at earlier p \<longleftrightarrow>
     (\<exists>err. check_gate_plugin p (plugin_gate_id p) = Inl err)
     \<or> plugin_gate_id p \<in> plugin_gate_id ` set earlier \<or> \<not> built_object p"

lemma compose_gates_Inr:
  "compose_gates mandated plugins composed = Inr gs \<Longrightarrow>
     map fst gs = map fst composed @ map plugin_gate_id plugins
     \<and> list_all built_gate_of plugins
     \<and> ((\<forall>c \<in> snd ` set composed. deployment_mandates c \<longleftrightarrow> composed_gate_id c \<in> mandated) \<longrightarrow>
          (\<forall>c \<in> snd ` set gs. deployment_mandates c \<longleftrightarrow> composed_gate_id c \<in> mandated))"
proof (induction mandated plugins composed rule: compose_gates.induct)
  case (2 mandated p ps composed)
  then obtain g where g: "plugin_builds p = Inr (AsyncGate g)"
    "plugin_gate_id p \<notin> fst ` set composed" "\<exists>q. check_gate_plugin p (plugin_gate_id p) = Inr q"
    by (auto split: sum.splits if_splits gate_object.splits)
  with 2(2) have rec: "compose_gates mandated ps (composed @ [(plugin_gate_id p,
      \<lparr>plugin = p, gate = g, deployment_mandates = (plugin_gate_id p \<in> mandated)\<rparr>)]) = Inr gs"
    by auto
  from g 2(1) [OF _ g(2,1) refl rec] show ?case
    by (auto simp: composed_gate_id_def built_gate_of_def)
qed simp

lemma compose_gates_Inl:
  assumes "compose_gates mandated plugins composed = Inl (BuildFailure err rej so_far)"
    and "map fst composed = map plugin_gate_id earlier"
  shows "\<exists>ps p rest. plugins = ps @ p # rest \<and> map fst so_far = map plugin_gate_id (earlier @ ps)
    \<and> list_all built_gate_of ps
    \<and> (rej = Some (plugin_gate_id p) \<and> built_object p \<and> \<not> built_gate_of p
       \<or> rej = None \<and> stopped_at (earlier @ ps) p)"
  using assms
proof (induction mandated plugins composed arbitrary: earlier rule: compose_gates.induct)
  case (2 mandated p ps composed)
  have ids: "plugin_gate_id p \<in> fst ` set composed \<longleftrightarrow> plugin_gate_id p \<in> plugin_gate_id ` set earlier"
    using 2(3) by (metis list.set_map)
  show ?case
  proof (cases "(\<exists>q. check_gate_plugin p (plugin_gate_id p) = Inr q)
      \<and> plugin_gate_id p \<notin> fst ` set composed \<and> built_gate_of p")
    case True
    then obtain g where g: "plugin_builds p = Inr (AsyncGate g)"
      "plugin_gate_id p \<notin> fst ` set composed" "\<exists>q. check_gate_plugin p (plugin_gate_id p) = Inr q"
      by (auto simp: built_gate_of_def)
    with 2(2) have rec: "compose_gates mandated ps (composed @ [(plugin_gate_id p,
        \<lparr>plugin = p, gate = g, deployment_mandates = (plugin_gate_id p \<in> mandated)\<rparr>)])
        = Inl (BuildFailure err rej so_far)"
      by auto
    have "map fst (composed @ [(plugin_gate_id p,
        \<lparr>plugin = p, gate = g, deployment_mandates = (plugin_gate_id p \<in> mandated)\<rparr>)])
        = map plugin_gate_id (earlier @ [p])"
      using 2(3) by simp
    with g 2(1) [OF _ g(2,1) refl rec] obtain qs q rest where
      "ps = qs @ q # rest" "map fst so_far = map plugin_gate_id ((earlier @ [p]) @ qs)"
      "list_all built_gate_of qs"
      "rej = Some (plugin_gate_id q) \<and> built_object q \<and> \<not> built_gate_of q
       \<or> rej = None \<and> stopped_at ((earlier @ [p]) @ qs) q"
      by blast
    with True show ?thesis by (intro exI [of _ "p # qs"]) auto
  next
    case False
    with 2(2,3) ids show ?thesis
      by (intro exI [of _ "[]"])
        (auto simp: stopped_at_def built_object_def built_gate_of_def
          split: sum.splits if_splits gate_object.splits)
  qed
qed simp

lemma composition_stopped:
  assumes "compose_gates mandated plugins [] = Inl (BuildFailure err rej composed)"
  shows "\<exists>ps rest. plugins = ps @ rest \<and> list_all built_object ps
    \<and> (case rej of Some g \<Rightarrow> [g] | None \<Rightarrow> []) @ rev (map fst composed) = rev (map plugin_gate_id ps)
    \<and> (ps \<noteq> [] \<and> \<not> built_gate_of (last ps) \<or> rest \<noteq> [] \<and> stopped_at ps (hd rest))"
proof -
  obtain ps p rest where parts: "plugins = ps @ p # rest" "map fst composed = map plugin_gate_id ps"
    "list_all built_gate_of ps"
    "rej = Some (plugin_gate_id p) \<and> built_object p \<and> \<not> built_gate_of p \<or> rej = None \<and> stopped_at ps p"
    using compose_gates_Inl [OF assms, of "[]"] by auto
  have built: "list_all built_object ps"
    using parts(3) by (auto simp: list_all_iff built_gate_of_def built_object_def)
  from parts(4) show ?thesis
  proof
    assume "rej = Some (plugin_gate_id p) \<and> built_object p \<and> \<not> built_gate_of p"
    with parts(1,2) built show ?thesis by (intro exI [of _ "ps @ [p]"] exI [of _ rest]) simp
  next
    assume "rej = None \<and> stopped_at ps p"
    with parts(1,2) built show ?thesis by (intro exI [of _ ps] exI [of _ "p # rest"]) simp
  qed
qed

lemma composed_gates_stand:
  assumes "compose_gates mandated plugins [] = Inr gs" "mandated \<subseteq> plugin_gate_id ` set plugins"
  shows "map fst gs = map plugin_gate_id plugins" "gate_map_ok gs" "deployment_mandatory gs = mandated"
    "list_all built_object plugins"
proof -
  note facts = compose_gates_Inr [OF assms(1)]
  show ids: "map fst gs = map plugin_gate_id plugins" using facts by simp
  show ok: "gate_map_ok gs" using compose_gates_ok [OF assms(1)] by (simp add: gate_map_ok_def)
  show "list_all built_object plugins"
    using facts by (auto simp: list_all_iff built_gate_of_def built_object_def)
  have flags: "deployment_mandates c \<longleftrightarrow> g \<in> mandated" if "(g, c) \<in> set gs" for g c
  proof -
    have "c \<in> snd ` set gs" using that by (rule image_eqI [rotated]) simp
    moreover have "composed_gate_id c = g" using ok that by (auto simp: gate_map_ok_def)
    ultimately show ?thesis using facts by auto
  qed
  have "mandated \<subseteq> fst ` set gs" using assms(2) arg_cong [OF ids, of set] by simp
  then have "\<exists>c. (g, c) \<in> set gs" if "g \<in> mandated" for g using that by force
  then have "g \<in> deployment_mandatory gs \<longleftrightarrow> g \<in> mandated" for g
    using flags by (fastforce simp: deployment_mandatory_def image_iff)
  then show "deployment_mandatory gs = mandated" by blast
qed


definition ex_plugin :: gate_plugin where
  "ex_plugin = plugin (ex_gate [7] ALLOW)
     \<lparr>plugin_kind := lit ''rules'', plugin_builds := Inr (AsyncGate (gate (ex_gate [7] ALLOW)))\<rparr>"

lemma ex_plugin_builds: "\<exists>gs. build_gates [ex_plugin] [] {[7]} = Inr gs"
  by (simp add: build_gates_def ex_plugin_def ex_gate_def check_gate_plugin_def KINDS_def)


section \<open>Startup answers for intake\<close>

lemma validate_submission_code:
  "validate_submission uuid5 s registration mandated = Inl (SubmissionContractError who v) \<Longrightarrow>
     \<not> (\<exists>g p bnd. v = GateConfigInvalid g p bnd) \<and> \<not> (\<exists>g e. v = GateConfigUnauthorized g e)"
  by (auto simp: validate_submission_def validate_citation_def validate_native_subject_def Let_def
      rbind_Inl_iff split: if_splits option.splits sum.splits)

lemma unbound_mandate_accepts:
  assumes "check_unbound_mandate c reasoner = Inr ()"
  shows "validate_gate_config c \<lparr>context_gate_id = g, gate_config = None\<rparr> reasoner bnd = Inr ()"
  using assms
  by (auto simp: check_unbound_mandate_def validate_gate_config_def Let_def
      split: sum.splits option.splits)

text \<open>
  Startup answers for intake. In a deployment whose gates were composed for the
  registrations it serves, no submission of a served reasoner is refused over the
  configuration of a gate that the reasoner does not bind: such a gate is mandated by the
  deployment, is sent no configuration, and was asked about that when it was composed.
\<close>

theorem startup_answers_for_intake:
  assumes "build_gates plugins served mandated = Inr (deployed_gates d)" "finite mandated"
    and "registration \<in> set served"
    and "intake d s registration = Inl (SubmissionContractError who v)"
    and "v = GateConfigInvalid g problems bnd \<or> v = GateConfigUnauthorized g err"
  shows "g \<in> gate_ids registration"
proof (rule ccontr)
  assume unbound: "g \<notin> gate_ids registration"
  let ?gs = "deployed_gates d" and ?mandated = "deployment_mandatory (deployed_gates d)"
  let ?check = "\<lambda>b. case map_of ?gs (binding_gate_id b) of
      None \<Rightarrow> Inr ()
    | Some c \<Rightarrow> validate_gate_config c (context_for s (binding_gate_id b)) (reasoner_id s)
        (binding_gate_id b \<in> gate_ids registration)"
  have fin: "finite ?mandated" by (simp add: deployment_mandatory_def)
  have ok: "gate_map_ok ?gs" by (rule build_gates_ok [OF assms(1)])
  have accepted: "check_gate_set registration ?gs = Inr ()"
    using assms(1,3) by (auto simp: build_gates_def Let_def split: if_splits sum.splits build_failure.splits)
  obtain r where valid: "validate_submission (derive d) s registration ?mandated = Inr r"
    and refused: "rcheck ?check (effective_gate_set registration ?mandated)
      = Inl (SubmissionContractError who v)"
    using assms(4,5) validate_submission_code [of "derive d" s registration ?mandated who v]
    by (auto simp: intake_def Let_def rbind_Inl_iff)
  obtain b c where b: "b \<in> set (effective_gate_set registration ?mandated)"
    "map_of ?gs (binding_gate_id b) = Some c"
    "validate_gate_config c (context_for s (binding_gate_id b)) (reasoner_id s)
      (binding_gate_id b \<in> gate_ids registration) = Inl (SubmissionContractError who v)"
    using rcheck_Inl [OF refused] by (auto split: option.splits)
  have "composed_gate_id c = g"
    using b(3) assms(5)
    by (auto simp: validate_gate_config_def Let_def split: sum.splits option.splits)
  then have id: "binding_gate_id b = g"
    using ok map_of_SomeD [OF b(2)] by (auto simp: gate_map_ok_def)
  have "g \<in> ?mandated"
    using b(1) id unbound effective_gate_set_ids [OF fin, of registration] by (metis UnE image_eqI list.set_map)
  then have mandates: "(g, c) \<in> set ?gs" "deployment_mandates c"
    using ok map_of_SomeD [OF b(2)] id
    by (auto simp: deployment_mandatory_def gate_map_ok_def dest: eq_key_imp_eq_value)
  with accepted unbound have "check_unbound_mandate c (registered_reasoner_id registration) = Inr ()"
    by (auto simp: check_gate_set_def Let_def)
  moreover have "registered_reasoner_id registration = reasoner_id s"
    and addressed: "set (map context_gate_id (gate_contexts s)) = gate_ids registration"
    using valid by (simp_all add: validate_submission_Inr [OF fin])
  moreover have "gate_context_of s g = None"
    using addressed unbound by (auto simp: gate_context_of_def find_None_iff)
  ultimately show False
    using b(3) id unbound_mandate_accepts by (simp add: context_for_def)
qed

definition ex_strict :: gate_plugin where
  "ex_strict = ex_plugin\<lparr>config_model := Some (Model (\<lambda>raw. Inl []))\<rparr>"

definition ex_strict_gates :: gate_map where
  "ex_strict_gates = [([7], \<lparr>plugin = ex_strict, gate = gate (ex_gate [7] ALLOW),
     deployment_mandates = False\<rparr>)]"

lemma ex_strict_builds: "build_gates [ex_strict] [ex_registration] {} = Inr ex_strict_gates"
  by (simp add: build_gates_def ex_strict_def ex_strict_gates_def ex_plugin_def ex_gate_def
      check_gate_plugin_def KINDS_def check_gate_set_def check_composed_def check_binding_def
      admit_binding_def ex_registration_def Let_def)

lemma ex_strict_intake:
  "intake (ex_deployment ex_strict_gates) (ex_submission Gate None True) ex_registration
     = Inl (SubmissionContractError [1] (GateConfigInvalid [7] [] True))"
proof -
  have "deployment_mandatory ex_strict_gates = {}"
    by (simp add: deployment_mandatory_def ex_strict_gates_def)
  moreover have "validate_submission (\<lambda>_ _. 0) (ex_submission Gate None True) ex_registration {} = Inr None"
    by (simp add: validate_submission_Inr validate_native_subject_def ex_gate_set ex_parts
        validate_citation_def)
  moreover have "map_of ex_strict_gates [7] = Some \<lparr>plugin = ex_strict, gate = gate (ex_gate [7] ALLOW),
      deployment_mandates = False\<rparr>"
    by (simp add: ex_strict_gates_def)
  ultimately show ?thesis
    by (simp add: intake_def ex_deployment_def ex_gate_set)
      (simp add: ex_registration_def validate_gate_config_def ex_strict_def ex_plugin_def ex_gate_def
        composed_gate_id_def gate_ids_def ex_submission_def Let_def)
qed

theorem startup_answers_for_intake_witness:
  "intake (ex_deployment ex_strict_gates) (ex_submission Gate None True) ex_registration
      = Inl (SubmissionContractError [1] (GateConfigInvalid [7] [] True))
    \<and> [7] \<in> gate_ids ex_registration"
  using startup_answers_for_intake [of "[ex_strict]" "[ex_registration]" "{}"
      "ex_deployment ex_strict_gates", OF _ _ _ ex_strict_intake] ex_strict_builds ex_strict_intake
  by (simp add: ex_deployment_def)

section \<open>The subject a lookup reports\<close>

text \<open>
  A lookup reports the subject a decision would record. When the deployment's reasoners
  declare their namespaces without a conflict, looking up a native subject in a namespace a
  reasoner declares gives the identity that the reasoner's decision about that subject
  records at the same instant, resolved or not.
\<close>

theorem lookup_agrees_with_decisions:
  assumes "declared_namespaces rs = Inr table" "registration \<in> set rs"
    and "native_subject s = Some native"
    and "native_namespace_of registration (subject_namespace native) \<noteq> None"
    and "identify uuid5 wire service now s registration = Inr i"
  shows "\<exists>l. lookup_subject uuid5 wire service now native table = Inr l \<and> found_identity l = Some i"
proof -
  obtain n where n: "native_namespace_of registration (subject_namespace native) = Some n"
    using assms(4) by blast
  then have "n \<in> set (native_namespaces registration)" "namespace_name n = subject_namespace native"
    using native_namespace_of_Some by auto
  then have table: "table (subject_namespace native) = Some n"
    using assms(1,2) declared_from_Inr [of rs Map.empty]
    by (fastforce simp: declared_namespaces_def declares_def)
  from assms(3,5) n obtain outcome where outcome: "consult wire service native = Inr outcome"
    and i: "case outcome of Inr x \<Rightarrow> x = i | Inl why \<Rightarrow> declared_identity uuid5 n native why now = Inr i"
    by (cases "consult wire service native")
      (auto simp: identify_def passthrough_identity_def split: sum.splits)
  show ?thesis
    using outcome i table by (cases outcome) (simp_all add: lookup_subject_def)
qed

theorem lookup_agrees_with_decisions_witness:
  "\<exists>i l. identify (\<lambda>_ _. 5) (wire_identity (ex_deployment [])) \<lparr>active_resolver = None, identity_budget_ms = 50\<rparr> 0
        (ex_submission Gate None True\<lparr>native_subject := Some \<lparr>subject_namespace = [2], native_subject_id = [3]\<rparr>\<rparr>)
        (ex_registration\<lparr>native_namespaces := [\<lparr>namespace_name = [2], namespace_uuid = 1,
           namespace_entity_type = [4]\<rparr>]\<rparr>) = Inr i
    \<and> lookup_subject (\<lambda>_ _. 5) (wire_identity (ex_deployment [])) \<lparr>active_resolver = None, identity_budget_ms = 50\<rparr> 0
        \<lparr>subject_namespace = [2], native_subject_id = [3]\<rparr>
        (\<lambda>name. if name = [2] then Some \<lparr>namespace_name = [2], namespace_uuid = 1,
           namespace_entity_type = [4]\<rparr> else None) = Inr l
    \<and> found_identity l = Some i"
proof -
  let ?n = "\<lparr>namespace_name = [2], namespace_uuid = 1, namespace_entity_type = [4]\<rparr>"
  let ?r = "ex_registration\<lparr>native_namespaces := [?n]\<rparr>"
  let ?native = "\<lparr>subject_namespace = [2], native_subject_id = [3]\<rparr>"
  let ?s = "ex_submission Gate None True\<lparr>native_subject := Some ?native\<rparr>"
  have names: "declared_namespaces [?r] = Inr (\<lambda>name. if name = [2] then Some ?n else None)"
    by (auto simp: declared_namespaces_def)
  obtain i where i: "identify (\<lambda>_ _. 5) (wire_identity (ex_deployment []))
      \<lparr>active_resolver = None, identity_budget_ms = 50\<rparr> 0 ?s ?r = Inr i"
    by (rule that) (simp add: identify_def consult_def passthrough_identity_def native_namespace_of_def
        declared_identity_def derived_id_def derive_entity_id_def construct_identity_def identity_checks)
  have "native_namespace_of ?r (subject_namespace ?native) \<noteq> None"
    by (simp add: native_namespace_of_def)
  from lookup_agrees_with_decisions [OF names _ _ this i] i show ?thesis by simp
qed

end
