(* ===== verification/Identity_Journal.thy ===== *)
theory Identity_Journal
  imports Identity "HOL-Library.Product_Lexorder"
begin

text \<open>
  The second half of \<open>core/identity.py\<close>: the entity journal, its fold into the membership
  projection, and the walk that finds every subject whose decisions belong on a timeline;
  with the checks and the incremental writes of \<open>app/audit/entity_journal.py\<close> and
  \<open>app/audit/store.py\<close>.
\<close>

section \<open>Events and intervals\<close>

datatype event_type = Merge | Detach | Relate | Unrelate

record journal_provenance =
  recorded_by :: ustr
  journal_crosswalk_version :: "ustr option"
  reference :: "ustr option"

record entity_event =
  journal_event_id :: uuid
  event_type :: event_type
  subject_entity_id :: uuid
  object_entity_id :: uuid
  event_relationship :: "ustr option"
  effective_at :: instant
  event_provenance :: journal_provenance

definition typed :: "event_type \<Rightarrow> bool" where
  "typed k \<longleftrightarrow> k \<in> {Relate, Unrelate}"

datatype event_violation = TypeMismatch | SelfLink

definition event_well_formed :: "entity_event \<Rightarrow> event_violation + unit" where
  "event_well_formed e =
     (if typed (event_type e) \<noteq> (event_relationship e \<noteq> None) then Inl TypeMismatch
      else if subject_entity_id e = object_entity_id e then Inl SelfLink
      else Inr ())"

definition event_valid :: "entity_event \<Rightarrow> bool" where
  "event_valid e \<longleftrightarrow> event_well_formed e = Inr () \<and> nonempty (event_relationship e)"

record membership =
  member_subject :: uuid
  member_related :: uuid
  member_type :: "ustr option"
  valid_from :: instant
  valid_to :: "instant option"

datatype interval_violation = EndsBeforeItBegins | LinksItself

definition interval_is_ordered :: "membership \<Rightarrow> interval_violation + unit" where
  "interval_is_ordered m =
     (if \<not> pred_option (\<lambda>t. valid_from m < t) (valid_to m) then Inl EndsBeforeItBegins
      else if member_subject m = member_related m then Inl LinksItself
      else Inr ())"

definition current :: "membership \<Rightarrow> bool" where
  "current m \<longleftrightarrow> valid_to m = None"

section \<open>The fold\<close>

record operation =
  op_at :: instant
  op_rank :: nat
  op_position :: nat
  op_kind :: event_type
  op_subject :: uuid
  op_other :: uuid
  op_type :: "ustr option"

definition identity_operations :: "resolved_identity list \<Rightarrow> operation list" where
  "identity_operations identities =
     concat (map (\<lambda>(position, i). map (\<lambda>r.
         \<lparr>op_at = resolved_at (provenance i), op_rank = 0, op_position = position,
          op_kind = Relate, op_subject = entity_id i, op_other = related_id r,
          op_type = Some (relationship_type r)\<rparr>) (related i))
       (enumerate 0 identities))"

definition event_operations :: "entity_event list \<Rightarrow> operation list" where
  "event_operations events =
     map (\<lambda>(position, e).
         \<lparr>op_at = effective_at e, op_rank = 1, op_position = position,
          op_kind = event_type e, op_subject = subject_entity_id e,
          op_other = object_entity_id e, op_type = event_relationship e\<rparr>)
       (enumerate 0 events)"

definition operations :: "entity_event list \<Rightarrow> resolved_identity list \<Rightarrow> operation list" where
  "operations events identities =
     sort_key (\<lambda>x. (op_at x, op_rank x, op_position x))
       (identity_operations identities @ event_operations events)"

text \<open>A link: typed and directed for a relationship, the unordered pair for a merge.\<close>

datatype link = TypedLink uuid uuid "ustr option" | MergeLink "uuid set"

definition link_of :: "bool \<Rightarrow> uuid \<Rightarrow> uuid \<Rightarrow> ustr option \<Rightarrow> link" where
  "link_of is_typed subject other relationship =
     (if is_typed then TypedLink subject other relationship else MergeLink {subject, other})"

definition op_link :: "operation \<Rightarrow> link" where
  "op_link x = link_of (typed (op_kind x)) (op_subject x) (op_other x) (op_type x)"

definition opens :: "operation \<Rightarrow> bool" where
  "opens x \<longleftrightarrow> op_kind x \<in> {Relate, Merge}"

type_synonym open_start = "uuid \<times> uuid \<times> ustr option \<times> instant"
type_synonym fold_state = "(link \<times> open_start) list \<times> membership list"

definition apply_operation :: "operation \<Rightarrow> fold_state \<Rightarrow> fold_state" where
  "apply_operation x st =
     (let (opened, intervals) = st;
          l = op_link x
      in if opens x then
           (case map_of opened l of
              None \<Rightarrow> (opened @ [(l, (op_subject x, op_other x, op_type x, op_at x))], intervals)
            | Some _ \<Rightarrow> (opened, intervals))
         else
           (case map_of opened l of
              None \<Rightarrow> (opened, intervals)
            | Some (subject, other, relationship, since) \<Rightarrow>
                (AList.delete l opened,
                 if since < op_at x
                 then intervals @ [\<lparr>member_subject = subject, member_related = other,
                        member_type = relationship, valid_from = since, valid_to = Some (op_at x)\<rparr>]
                 else intervals)))"

definition open_interval :: "open_start \<Rightarrow> membership" where
  "open_interval = (\<lambda>(subject, other, relationship, since).
     \<lparr>member_subject = subject, member_related = other, member_type = relationship,
      valid_from = since, valid_to = None\<rparr>)"

definition membership_key :: "membership \<Rightarrow> uuid \<times> uuid \<times> ustr \<times> instant" where
  "membership_key m =
     (member_subject m, member_related m,
      case member_type m of Some t \<Rightarrow> t | None \<Rightarrow> [], valid_from m)"

definition project_membership ::
    "entity_event list \<Rightarrow> resolved_identity list \<Rightarrow> membership list" where
  "project_membership events identities =
     (let (opened, intervals) = fold apply_operation (operations events identities) ([], [])
      in sort_key membership_key (intervals @ map (open_interval \<circ> snd) opened))"

section \<open>When a link holds\<close>

definition member_link :: "membership \<Rightarrow> link" where
  "member_link m =
     link_of (member_type m \<noteq> None) (member_subject m) (member_related m) (member_type m)"

definition covers_instant :: "membership \<Rightarrow> instant \<Rightarrow> bool" where
  "covers_instant m t \<longleftrightarrow> valid_from m \<le> t \<and> pred_option (\<lambda>e. t < e) (valid_to m)"

text \<open>The specification: a link holds when the last operation on it so far opened it.\<close>

definition holds_at :: "operation list \<Rightarrow> link \<Rightarrow> instant \<Rightarrow> bool" where
  "holds_at ops l t =
     (case find (\<lambda>x. op_link x = l \<and> op_at x \<le> t) (rev ops) of
        None \<Rightarrow> False | Some x \<Rightarrow> opens x)"

lemma holds_at_snoc:
  "holds_at (ops @ [x]) l t =
     (if op_link x = l \<and> op_at x \<le> t then opens x else holds_at ops l t)"
  by (simp add: holds_at_def)

text \<open>An operation of a validated source: typed exactly when it names a type, never a self link.\<close>

definition op_ok :: "operation \<Rightarrow> bool" where
  "op_ok x \<longleftrightarrow> (typed (op_kind x) \<longleftrightarrow> op_type x \<noteq> None) \<and> op_subject x \<noteq> op_other x"

definition opening_link :: "open_start \<Rightarrow> link" where
  "opening_link v = member_link (open_interval v)"

definition intervals_of :: "fold_state \<Rightarrow> membership set" where
  "intervals_of st = set (snd st) \<union> (open_interval \<circ> snd) ` set (fst st)"

text \<open>
  What the fold keeps: the state after the operations \<open>ops\<close>, none of them later than \<open>now\<close>.
  Open intervals are filed under their own link and began by \<open>now\<close>; closed ones ended by
  \<open>now\<close>, before their link was opened again; and at every instant a link holds exactly when
  an interval of it covers that instant.
\<close>

definition well_filed :: "instant \<Rightarrow> fold_state \<Rightarrow> bool" where
  "well_filed now st \<longleftrightarrow>
     distinct (map fst (fst st))
     \<and> (\<forall>(l, v) \<in> set (fst st). opening_link v = l \<and> interval_is_ordered (open_interval v) = Inr ()
          \<and> valid_from (open_interval v) \<le> now)
     \<and> (\<forall>m \<in> set (snd st). interval_is_ordered m = Inr () \<and> (\<exists>e. valid_to m = Some e \<and> e \<le> now))"

definition apart :: "membership \<Rightarrow> membership \<Rightarrow> bool" where
  "apart m m' \<longleftrightarrow>
     (\<exists>e. valid_to m = Some e \<and> e \<le> valid_from m') \<or> (\<exists>e. valid_to m' = Some e \<and> e \<le> valid_from m)"

lemma apart_sym: "apart m m' \<longleftrightarrow> apart m' m"
  by (auto simp: apart_def)

definition disjoint_intervals :: "membership set \<Rightarrow> bool" where
  "disjoint_intervals M \<longleftrightarrow>
     (\<forall>m \<in> M. \<forall>m' \<in> M. m \<noteq> m' \<longrightarrow> member_link m = member_link m' \<longrightarrow> apart m m')"

definition represents :: "operation list \<Rightarrow> membership set \<Rightarrow> bool" where
  "represents ops M \<longleftrightarrow>
     (\<forall>l t. holds_at ops l t \<longleftrightarrow> (\<exists>m \<in> M. member_link m = l \<and> covers_instant m t))"

lemma link_of_opening:
  "op_ok x \<Longrightarrow> opens x \<Longrightarrow> opening_link (op_subject x, op_other x, op_type x, op_at x) = op_link x"
  by (simp add: opening_link_def open_interval_def member_link_def op_link_def op_ok_def)

lemma interval_is_ordered_iff:
  "interval_is_ordered m = Inr () \<longleftrightarrow>
     pred_option (\<lambda>t. valid_from m < t) (valid_to m) \<and> member_subject m \<noteq> member_related m"
  by (simp add: interval_is_ordered_def)

lemma open_interval_simps [simp]:
  "valid_to (open_interval v) = None"
  "valid_from (open_interval (s, r, k, t)) = t"
  "member_subject (open_interval (s, r, k, t)) = s"
  "member_related (open_interval (s, r, k, t)) = r"
  "member_type (open_interval (s, r, k, t)) = k"
  by (auto simp: open_interval_def split: prod.split)

lemma well_filed_later: "well_filed now st \<Longrightarrow> now \<le> later \<Longrightarrow> well_filed later st"
  unfolding well_filed_def by (fastforce intro: order_trans)

text \<open>The open interval of a link is the only one of the link still open.\<close>

lemma open_of_link:
  assumes "well_filed now st" "(l, v) \<in> set (fst st)"
  shows "member_link (open_interval v) = l" "valid_from (open_interval v) \<le> now"
    "map_of (fst st) l = Some v" "interval_is_ordered (open_interval v) = Inr ()"
  using assms by (auto simp: well_filed_def opening_link_def)

lemma covers_late:
  assumes "well_filed now st" "now \<le> t" "m \<in> intervals_of st"
  shows "covers_instant m t \<longleftrightarrow> (\<exists>v. (member_link m, v) \<in> set (fst st) \<and> m = open_interval v)"
proof -
  from assms(3) consider "m \<in> set (snd st)" | l v where "(l, v) \<in> set (fst st)" "m = open_interval v"
    by (auto simp: intervals_of_def)
  then show ?thesis
  proof cases
    case 1
    with assms show ?thesis by (fastforce simp: well_filed_def covers_instant_def)
  next
    case 2
    with open_of_link [OF assms(1) 2(1)] assms(2) show ?thesis
      by (cases v) (auto simp: covers_instant_def)
  qed
qed

lemma late_cover_iff:
  assumes "well_filed now st" "now \<le> t"
  shows "(\<exists>m \<in> intervals_of st. member_link m = l \<and> covers_instant m t) \<longleftrightarrow> map_of (fst st) l \<noteq> None"
proof
  assume "\<exists>m \<in> intervals_of st. member_link m = l \<and> covers_instant m t"
  then show "map_of (fst st) l \<noteq> None"
    using covers_late [OF assms] open_of_link(3) [OF assms(1)] by fastforce
next
  assume "map_of (fst st) l \<noteq> None"
  then obtain v where v: "(l, v) \<in> set (fst st)" by (auto dest: map_of_SomeD)
  with open_of_link [OF assms(1) v] assms(2) show
    "\<exists>m \<in> intervals_of st. member_link m = l \<and> covers_instant m t"
    by (intro bexI [of _ "open_interval v"]) (force simp: covers_instant_def intervals_of_def)+
qed

section \<open>One operation\<close>

lemma apply_open_new:
  assumes "opens x" "map_of (fst st) (op_link x) = None"
  shows "apply_operation x st
    = (fst st @ [(op_link x, (op_subject x, op_other x, op_type x, op_at x))], snd st)"
  using assms by (cases st) (simp add: apply_operation_def)

lemma apply_same:
  assumes "opens x \<longleftrightarrow> map_of (fst st) (op_link x) \<noteq> None"
  shows "apply_operation x st = st"
  using assms
  by (cases st; cases "map_of (fst st) (op_link x)") (auto simp: apply_operation_def Let_def)

definition closed_interval :: "open_start \<Rightarrow> instant \<Rightarrow> membership" where
  "closed_interval v e = (open_interval v)\<lparr>valid_to := Some e\<rparr>"

lemma apply_close:
  assumes "\<not> opens x" "map_of (fst st) (op_link x) = Some v"
  shows "apply_operation x st
    = (AList.delete (op_link x) (fst st),
       if valid_from (open_interval v) < op_at x then snd st @ [closed_interval v (op_at x)] else snd st)"
  using assms
  by (cases st; cases v) (simp add: apply_operation_def closed_interval_def open_interval_def)

lemma closed_interval_simps [simp]:
  "member_link (closed_interval v e) = member_link (open_interval v)"
  "valid_from (closed_interval v e) = valid_from (open_interval v)"
  "valid_to (closed_interval v e) = Some e"
  by (simp_all add: closed_interval_def member_link_def)

text \<open>The three ways the set of intervals changes.\<close>

lemma intervals_after:
  assumes "well_filed now st" "op_ok x" "now \<le> op_at x"
  shows "opens x \<Longrightarrow> map_of (fst st) (op_link x) = None \<Longrightarrow>
      intervals_of (apply_operation x st)
      = insert (open_interval (op_subject x, op_other x, op_type x, op_at x)) (intervals_of st)"
    and "\<not> opens x \<Longrightarrow> map_of (fst st) (op_link x) = Some v \<Longrightarrow>
      intervals_of (apply_operation x st)
      = (intervals_of st - {open_interval v})
        \<union> (if valid_from (open_interval v) < op_at x then {closed_interval v (op_at x)} else {})"
proof -
  show "intervals_of (apply_operation x st)
      = insert (open_interval (op_subject x, op_other x, op_type x, op_at x)) (intervals_of st)"
    if "opens x" "map_of (fst st) (op_link x) = None"
    using that by (auto simp: apply_open_new intervals_of_def)
  assume closing: "\<not> opens x" and v: "map_of (fst st) (op_link x) = Some v"
  have v_in: "(op_link x, v) \<in> set (fst st)" using v by (rule map_of_SomeD)
  have others: "(open_interval \<circ> snd) ` set (AList.delete (op_link x) (fst st))
      = (open_interval \<circ> snd) ` set (fst st) - {open_interval v}"
  proof (intro equalityI subsetI)
    fix m assume "m \<in> (open_interval \<circ> snd) ` set (AList.delete (op_link x) (fst st))"
    then obtain l u where u: "(l, u) \<in> set (fst st)" "l \<noteq> op_link x" "m = open_interval u"
      by (auto simp: AList.delete_eq)
    with open_of_link(1) [OF assms(1)] v_in have "m \<noteq> open_interval v" by metis
    with u show "m \<in> (open_interval \<circ> snd) ` set (fst st) - {open_interval v}" by force
  next
    fix m assume m: "m \<in> (open_interval \<circ> snd) ` set (fst st) - {open_interval v}"
    then obtain l u where u: "(l, u) \<in> set (fst st)" "m = open_interval u" by auto
    moreover have "l \<noteq> op_link x"
      using u m v open_of_link(3) [OF assms(1) u(1)] by auto
    ultimately show "m \<in> (open_interval \<circ> snd) ` set (AList.delete (op_link x) (fst st))"
      by (force simp: AList.delete_eq)
  qed
  have "open_interval v \<notin> set (snd st)"
    using assms(1) by (fastforce simp: well_filed_def)
  then show "intervals_of (apply_operation x st)
      = (intervals_of st - {open_interval v})
        \<union> (if valid_from (open_interval v) < op_at x then {closed_interval v (op_at x)} else {})"
    unfolding apply_close [OF closing v] intervals_of_def fst_conv others by auto
qed

lemma map_of_after:
  assumes "well_filed now st"
  shows "map_of (fst (apply_operation x st)) (op_link x) \<noteq> None \<longleftrightarrow> opens x"
proof (cases "opens x \<longleftrightarrow> map_of (fst st) (op_link x) \<noteq> None")
  case True
  then show ?thesis by (simp add: apply_same)
next
  case False
  show ?thesis
  proof (cases "opens x")
    case True
    with False have none: "map_of (fst st) (op_link x) = None" by blast
    with True show ?thesis by (simp add: apply_open_new map_add_def)
  next
    case closing: False
    with False obtain v where "map_of (fst st) (op_link x) = Some v" by auto
    with closing show ?thesis by (simp add: apply_close delete_conv)
  qed
qed

lemma step_well_filed:
  assumes "well_filed now st" "op_ok x" "now \<le> op_at x"
  shows "well_filed (op_at x) (apply_operation x st)"
proof (cases "opens x \<longleftrightarrow> map_of (fst st) (op_link x) \<noteq> None")
  case True
  with assms show ?thesis by (simp add: apply_same well_filed_later)
next
  case False
  note filed = well_filed_later [OF assms(1,3)]
  show ?thesis
  proof (cases "opens x")
    case True
    with False have none: "map_of (fst st) (op_link x) = None" by blast
    then have "op_link x \<notin> fst ` set (fst st)" by (simp add: map_of_eq_None_iff)
    with filed assms(2) True none link_of_opening [OF assms(2) True] show ?thesis
      by (auto simp: apply_open_new well_filed_def interval_is_ordered_iff op_ok_def)
  next
    case closing: False
    with False obtain v where v: "map_of (fst st) (op_link x) = Some v" by auto
    note v_open = open_of_link [OF assms(1) map_of_SomeD [OF v]]
    have "interval_is_ordered (closed_interval v (op_at x)) = Inr ()"
      if "valid_from (open_interval v) < op_at x"
      using that v_open(4) by (simp add: interval_is_ordered_iff closed_interval_def)
    moreover have "distinct (map fst (AList.delete (op_link x) (fst st)))"
      using filed by (simp add: well_filed_def distinct_delete)
    ultimately show ?thesis
      using filed unfolding apply_close [OF closing v] well_filed_def
      by (auto simp: AList.delete_eq)
  qed
qed

lemma step_disjoint:
  assumes "well_filed now st" "op_ok x" "now \<le> op_at x" "disjoint_intervals (intervals_of st)"
  shows "disjoint_intervals (intervals_of (apply_operation x st))"
proof (cases "opens x \<longleftrightarrow> map_of (fst st) (op_link x) \<noteq> None")
  case True
  with assms(4) show ?thesis by (simp add: apply_same)
next
  case False
  show ?thesis
  proof (cases "opens x")
    case True
    with False have none: "map_of (fst st) (op_link x) = None" by blast
    let ?n = "open_interval (op_subject x, op_other x, op_type x, op_at x)"
    have "apart m ?n" if m: "m \<in> intervals_of st" "member_link m = op_link x" for m
    proof -
      from m none have "m \<in> set (snd st)"
        using open_of_link(1,3) [OF assms(1)] by (fastforce simp: intervals_of_def)
      then obtain e where "valid_to m = Some e" "e \<le> now" using assms(1) by (auto simp: well_filed_def)
      with assms(3) show ?thesis by (simp add: apart_def)
    qed
    moreover have "member_link ?n = op_link x"
      using link_of_opening [OF assms(2) True] by (simp add: opening_link_def)
    ultimately show ?thesis
      using assms(4) unfolding intervals_after(1) [OF assms(1-3) True none] disjoint_intervals_def
      by (auto simp: apart_def)
  next
    case closing: False
    with False obtain v where v: "map_of (fst st) (op_link x) = Some v" by auto
    have v_in: "open_interval v \<in> intervals_of st"
      using map_of_SomeD [OF v] by (force simp: intervals_of_def)
    have "apart m (closed_interval v (op_at x))"
      if m: "m \<in> intervals_of st" "m \<noteq> open_interval v" "member_link m = member_link (open_interval v)" for m
    proof -
      have "apart m (open_interval v)" using assms(4) m v_in by (simp add: disjoint_intervals_def)
      then show ?thesis by (auto simp: apart_def)
    qed
    note new = this
    show ?thesis
      unfolding intervals_after(2) [OF assms(1-3) closing v] disjoint_intervals_def
    proof (intro ballI impI)
      let ?c = "closed_interval v (op_at x)"
      let ?M = "(intervals_of st - {open_interval v})
        \<union> (if valid_from (open_interval v) < op_at x then {?c} else {})"
      fix m m' assume m: "m \<in> ?M" "m' \<in> ?M" "m \<noteq> m'" "member_link m = member_link m'"
      have old: "n \<in> intervals_of st \<and> n \<noteq> open_interval v" if "n \<in> ?M" "n \<noteq> ?c" for n
        using that by (auto split: if_splits)
      consider "m = ?c" "m' \<noteq> ?c" | "m \<noteq> ?c" "m' = ?c" | "m \<noteq> ?c" "m' \<noteq> ?c"
        using m(3) by blast
      then show "apart m m'"
      proof cases
        case 1
        then show ?thesis using new [of m'] old [OF m(2)] m(4) by (simp add: apart_sym)
      next
        case 2
        then show ?thesis using new [of m] old [OF m(1)] m(4) by simp
      next
        case 3
        then show ?thesis using old m assms(4) by (meson disjoint_intervals_def)
      qed
    qed
  qed
qed

lemma step_represents:
  assumes "well_filed now st" "op_ok x" "now \<le> op_at x" "represents ops (intervals_of st)"
  shows "represents (ops @ [x]) (intervals_of (apply_operation x st))"
  unfolding represents_def
proof (intro allI)
  fix l t
  let ?M = "intervals_of st" and ?M' = "intervals_of (apply_operation x st)"
  show "holds_at (ops @ [x]) l t \<longleftrightarrow> (\<exists>m \<in> ?M'. member_link m = l \<and> covers_instant m t)"
  proof (cases "op_link x = l \<and> op_at x \<le> t")
    case True
    then show ?thesis
      using late_cover_iff [OF step_well_filed [OF assms(1-3)], of t l] map_of_after [OF assms(1), of x]
      by (simp add: holds_at_snoc)
  next
    case other: False
    have "(\<exists>m \<in> ?M'. member_link m = l \<and> covers_instant m t)
        \<longleftrightarrow> (\<exists>m \<in> ?M. member_link m = l \<and> covers_instant m t)"
    proof (cases "opens x \<longleftrightarrow> map_of (fst st) (op_link x) \<noteq> None")
      case True
      then show ?thesis by (simp add: apply_same)
    next
      case False
      show ?thesis
      proof (cases "opens x")
        case True
        with False have none: "map_of (fst st) (op_link x) = None" by blast
        have "member_link (open_interval (op_subject x, op_other x, op_type x, op_at x)) = op_link x"
          using link_of_opening [OF assms(2) True] by (simp add: opening_link_def)
        with other show ?thesis
          unfolding intervals_after(1) [OF assms(1-3) True none] by (auto simp: covers_instant_def)
      next
        case closing: False
        with False obtain v where v: "map_of (fst st) (op_link x) = Some v" by auto
        have v_in: "open_interval v \<in> ?M"
          using map_of_SomeD [OF v] by (force simp: intervals_of_def)
        have "member_link (open_interval v) = op_link x"
          using open_of_link(1) [OF assms(1) map_of_SomeD [OF v]] .
        with other v_in show ?thesis
          unfolding intervals_after(2) [OF assms(1-3) closing v]
          by (cases "valid_from (open_interval v) < op_at x") (auto simp: covers_instant_def)
      qed
    qed
    with other assms(4) show ?thesis by (auto simp: holds_at_snoc represents_def)
  qed
qed

section \<open>The whole fold\<close>

lemma fold_operations:
  assumes "sorted (map op_at ops)" "\<forall>x \<in> set ops. op_ok x" "\<forall>x \<in> set ops. op_at x \<le> now"
  shows "well_filed now (fold apply_operation ops ([], []))"
    and "disjoint_intervals (intervals_of (fold apply_operation ops ([], [])))"
    and "represents ops (intervals_of (fold apply_operation ops ([], [])))"
  using assms
proof (induction ops arbitrary: now rule: rev_induct)
  case Nil
  {
    case 1
    show ?case by (simp add: well_filed_def)
  next
    case 2
    show ?case by (simp add: disjoint_intervals_def intervals_of_def)
  next
    case 3
    show ?case by (simp add: represents_def intervals_of_def holds_at_def)
  }
next
  case (snoc x ops)
  let ?st = "fold apply_operation ops ([], [])"
  have pre: "sorted (map op_at ops)" "\<forall>y \<in> set ops. op_ok y" "\<forall>y \<in> set ops. op_at y \<le> op_at x" "op_ok x"
    if "sorted (map op_at (ops @ [x]))" "\<forall>y \<in> set (ops @ [x]). op_ok y"
    using that by (auto simp: sorted_append)
  {
    case 1
    note ih = snoc.IH [OF pre(1-3) [OF 1(1,2)]]
    from step_well_filed [OF ih(1) pre(4) [OF 1(1,2)] order_refl] 1(3) show ?case
      by (auto intro: well_filed_later)
  next
    case 2
    note ih = snoc.IH [OF pre(1-3) [OF 2(1,2)]]
    from step_disjoint [OF ih(1) pre(4) [OF 2(1,2)] order_refl ih(2)] show ?case by simp
  next
    case 3
    note ih = snoc.IH [OF pre(1-3) [OF 3(1,2)]]
    from step_represents [OF ih(1) pre(4) [OF 3(1,2)] order_refl ih(3)] show ?case by simp
  }
qed

lemma operations_sorted: "sorted (map op_at (operations events identities))"
proof -
  have "sorted (map (\<lambda>x. (op_at x, op_rank x, op_position x)) (operations events identities))"
    by (simp add: operations_def)
  then show ?thesis unfolding sorted_map by (rule sorted_wrt_mono_rel [rotated]) auto
qed

lemma operations_ok:
  assumes "\<forall>e \<in> set events. event_valid e" "\<forall>i \<in> set identities. identity_valid uuid5 i"
  shows "\<forall>x \<in> set (operations events identities). op_ok x"
proof -
  have "op_ok x" if x: "x \<in> set (event_operations events)" for x
  proof -
    obtain p where "p < length events" "op_kind x = event_type (events ! p)"
      "op_type x = event_relationship (events ! p)"
      "op_subject x = subject_entity_id (events ! p)" "op_other x = object_entity_id (events ! p)"
      using x by (auto simp: event_operations_def in_set_enumerate_eq)
    moreover from this(1) have "event_valid (events ! p)" using assms(1) by simp
    ultimately show ?thesis
      by (auto simp: op_ok_def event_valid_def event_well_formed_def split: if_splits)
  qed
  moreover have "op_ok x" if x: "x \<in> set (identity_operations identities)" for x
  proof -
    obtain p r where "p < length identities" "r \<in> set (related (identities ! p))"
      "op_kind x = Relate" "op_type x = Some (relationship_type r)"
      "op_subject x = entity_id (identities ! p)" "op_other x = related_id r"
      using x by (auto simp: identity_operations_def in_set_enumerate_eq)
    moreover from this(1) have "identity_valid uuid5 (identities ! p)" using assms(2) by simp
    ultimately show ?thesis
      by (auto simp: op_ok_def typed_def identity_valid_def derivation_and_relationships_hold_iff
          relationships_hold_iff)
  qed
  ultimately show ?thesis by (auto simp: operations_def)
qed

lemma project_membership_set:
  "set (project_membership events identities)
   = intervals_of (fold apply_operation (operations events identities) ([], []))"
  by (cases "fold apply_operation (operations events identities) ([], [])")
    (simp add: project_membership_def intervals_of_def)

lemma project_membership_facts:
  assumes "\<forall>e \<in> set events. event_valid e" "\<forall>i \<in> set identities. identity_valid uuid5 i"
  shows "represents (operations events identities) (set (project_membership events identities))"
    and "disjoint_intervals (set (project_membership events identities))"
    and "\<forall>m \<in> set (project_membership events identities). interval_is_ordered m = Inr ()"
proof -
  let ?ops = "operations events identities"
  have now: "\<forall>x \<in> set ?ops. op_at x \<le> Max (insert 0 (op_at ` set ?ops))" by simp
  note facts = fold_operations [OF operations_sorted operations_ok [OF assms] now]
  from facts(2,3) show "represents ?ops (set (project_membership events identities))"
    and "disjoint_intervals (set (project_membership events identities))"
    by (simp_all add: project_membership_set)
  show "\<forall>m \<in> set (project_membership events identities). interval_is_ordered m = Inr ()"
    unfolding project_membership_set intervals_of_def using facts(1)
    by (auto simp: well_filed_def)
qed

end
