(* ===== verification/Linked_Entities.thy ===== *)
theory Linked_Entities
  imports Identity_Journal
begin

text \<open>
  \<open>linked_entities\<close> of \<open>core/identity.py\<close>: the breadth-first walk over the current projection
  that collects the ids of one subject and, on request, of the subjects one relationship
  away. What answers the walk's queries is an \<open>edge_source\<close>: it returns every current
  interval touching the ids it is asked about, and may return more. The bundle store's
  \<open>membership_touching\<close> is one.
\<close>

section \<open>The walk\<close>

type_synonym edge_query = "uuid set \<Rightarrow> membership list"

definition ends :: "membership \<Rightarrow> uuid set" where
  "ends m = {member_subject m, member_related m}"

text \<open>One round: the ids reached from the frontier by a current merge, not seen before.\<close>

definition reached :: "edge_query \<Rightarrow> uuid set \<Rightarrow> uuid set \<Rightarrow> uuid set" where
  "reached edges seen frontier =
     \<Union> (set (map (\<lambda>m. if \<not> current m \<or> member_type m \<noteq> None then {}
                       else if ends m \<inter> frontier \<noteq> {} then ends m - seen else {})
                 (edges frontier)))"

text \<open>\<open>while frontier\<close>: \<open>None\<close> if the loop never ends.\<close>

partial_function (option) merged_loop :: "edge_query \<Rightarrow> uuid set \<Rightarrow> uuid set \<Rightarrow> uuid set option" where
  "merged_loop edges seen frontier =
     (if frontier = {} then Some seen
      else let found = reached edges seen frontier
           in merged_loop edges (seen \<union> found) found)"

definition merged :: "edge_query \<Rightarrow> uuid set \<Rightarrow> uuid set option" where
  "merged edges seeds = merged_loop edges seeds seeds"

definition neighbors :: "edge_query \<Rightarrow> ustr \<Rightarrow> uuid set \<Rightarrow> uuid set" where
  "neighbors edges relationship own =
     \<Union> (set (map (\<lambda>m. if \<not> current m \<or> member_type m \<noteq> Some relationship then {}
                       else if ends m \<inter> own \<noteq> {} then ends m - own else {})
                 (edges own)))"

definition linked_entities ::
    "uuid \<Rightarrow> edge_query \<Rightarrow> ustr option \<Rightarrow> (uuid \<rightharpoonup> ustr option) option" where
  "linked_entities the_id edges include_related =
     Option.bind (merged edges {the_id}) (\<lambda>own.
       let linked = (\<lambda>i. if i \<in> own then Some None else None)
       in case include_related of
            None \<Rightarrow> Some linked
          | Some relationship \<Rightarrow>
              let near = neighbors edges relationship own
              in if near = {} then Some linked
                 else Option.bind (merged edges near) (\<lambda>others.
                   Some (\<lambda>i. if i \<in> others - own then Some (Some relationship) else linked i)))"

section \<open>What an edge source answers\<close>

text \<open>Two ids are one subject: a current merge of the projection \<open>M\<close> links them.\<close>

definition merge_edges :: "membership set \<Rightarrow> (uuid \<times> uuid) set" where
  "merge_edges M = {(a, b). \<exists>m \<in> M. current m \<and> member_type m = None \<and> {a, b} \<subseteq> ends m}"

definition related_edges :: "membership set \<Rightarrow> ustr \<Rightarrow> (uuid \<times> uuid) set" where
  "related_edges M k = {(a, b). \<exists>m \<in> M. current m \<and> member_type m = Some k \<and> {a, b} \<subseteq> ends m}"

lemma sym_merge_edges: "(a, b) \<in> merge_edges M \<Longrightarrow> (b, a) \<in> merge_edges M"
  by (auto simp: merge_edges_def)

definition merge_component :: "membership set \<Rightarrow> uuid set \<Rightarrow> uuid set" where
  "merge_component M seeds = (merge_edges M)\<^sup>* `` seeds"

lemma merge_component_least:
  assumes "seeds \<subseteq> S" "\<And>a b. a \<in> S \<Longrightarrow> (a, b) \<in> merge_edges M \<Longrightarrow> b \<in> S"
  shows "merge_component M seeds \<subseteq> S"
proof
  fix b assume "b \<in> merge_component M seeds"
  then obtain a where "a \<in> seeds" and path: "(a, b) \<in> (merge_edges M)\<^sup>*"
    by (auto simp: merge_component_def)
  then have "a \<in> S" using assms(1) by blast
  with path show "b \<in> S" by (induction rule: rtrancl_induct) (use assms(2) in blast)+
qed

locale edge_source =
  fixes edges :: edge_query
    and M :: "membership set"
  assumes finite_projection: "finite M"
    and edges_known: "m \<in> set (edges ids) \<Longrightarrow> current m \<Longrightarrow> m \<in> M"
    and edges_complete: "m \<in> M \<Longrightarrow> current m \<Longrightarrow> ends m \<inter> ids \<noteq> {} \<Longrightarrow> m \<in> set (edges ids)"
begin

lemma reached_eq:
  "reached edges seen frontier = {b. b \<notin> seen \<and> (\<exists>a \<in> frontier. (a, b) \<in> merge_edges M)}"
proof (intro equalityI subsetI)
  fix b assume "b \<in> reached edges seen frontier"
  then obtain m where "m \<in> set (edges frontier)" "current m" "member_type m = None"
    "ends m \<inter> frontier \<noteq> {}" "b \<in> ends m" "b \<notin> seen"
    by (auto simp: reached_def split: if_splits)
  then show "b \<in> {b. b \<notin> seen \<and> (\<exists>a \<in> frontier. (a, b) \<in> merge_edges M)}"
    using edges_known by (fastforce simp: merge_edges_def)
next
  fix b assume "b \<in> {b. b \<notin> seen \<and> (\<exists>a \<in> frontier. (a, b) \<in> merge_edges M)}"
  then obtain a m where "b \<notin> seen" "a \<in> frontier" "m \<in> M" "current m" "member_type m = None"
    "{a, b} \<subseteq> ends m"
    by (auto simp: merge_edges_def)
  moreover from this have "m \<in> set (edges frontier)" by (intro edges_complete) auto
  ultimately show "b \<in> reached edges seen frontier"
    by (fastforce simp: reached_def)
qed

lemma neighbors_eq:
  "neighbors edges k own = {b. b \<notin> own \<and> (\<exists>a \<in> own. (a, b) \<in> related_edges M k)}"
proof (intro equalityI subsetI)
  fix b assume "b \<in> neighbors edges k own"
  then obtain m where "m \<in> set (edges own)" "current m" "member_type m = Some k"
    "ends m \<inter> own \<noteq> {}" "b \<in> ends m" "b \<notin> own"
    by (auto simp: neighbors_def split: if_splits)
  then show "b \<in> {b. b \<notin> own \<and> (\<exists>a \<in> own. (a, b) \<in> related_edges M k)}"
    using edges_known by (fastforce simp: related_edges_def)
next
  fix b assume "b \<in> {b. b \<notin> own \<and> (\<exists>a \<in> own. (a, b) \<in> related_edges M k)}"
  then obtain a m where "b \<notin> own" "a \<in> own" "m \<in> M" "current m" "member_type m = Some k"
    "{a, b} \<subseteq> ends m"
    by (auto simp: related_edges_def)
  moreover from this have "m \<in> set (edges own)" by (intro edges_complete) auto
  ultimately show "b \<in> neighbors edges k own"
    by (fastforce simp: neighbors_def)
qed

text \<open>
  The walk's invariant: everything seen is connected to the seeds, and the neighbours of
  whatever has left the frontier are seen. Each round that continues sees a new id of the
  finite projection, so the loop ends.
\<close>

definition known_ids :: "uuid set" where
  "known_ids = \<Union> (ends ` M)"

lemma finite_known_ids: "finite known_ids"
  using finite_projection by (auto simp: known_ids_def ends_def)

lemma reached_known: "reached edges seen frontier \<subseteq> known_ids"
  by (auto simp: reached_eq merge_edges_def known_ids_def)

lemma merged_loop_result:
  assumes "seeds \<subseteq> seen" "frontier \<subseteq> seen" "seen \<subseteq> merge_component M seeds"
    and "\<And>a b. a \<in> seen - frontier \<Longrightarrow> (a, b) \<in> merge_edges M \<Longrightarrow> b \<in> seen"
  shows "merged_loop edges seen frontier = Some (merge_component M seeds)"
  using assms
proof (induction "card (known_ids - seen)" arbitrary: seen frontier rule: less_induct)
  case less
  show ?case
  proof (cases "frontier = {}")
    case True
    then have "merge_component M seeds \<subseteq> seen"
      using less.prems(1,4) by (intro merge_component_least) auto
    with less.prems(3) True show ?thesis by (simp add: merged_loop.simps)
  next
    case False
    let ?found = "reached edges seen frontier"
    have found_in: "?found \<subseteq> merge_component M seeds"
    proof
      fix x assume "x \<in> ?found"
      then obtain a where "a \<in> frontier" "(a, x) \<in> merge_edges M" by (auto simp: reached_eq)
      moreover from this less.prems(2,3) have "a \<in> merge_component M seeds" by blast
      ultimately show "x \<in> merge_component M seeds"
        by (auto simp: merge_component_def intro: rtrancl_into_rtrancl)
    qed
    have "merged_loop edges (seen \<union> ?found) ?found = Some (merge_component M seeds)"
    proof (cases "?found = {}")
      case True
      have "b \<in> seen" if "a \<in> seen" "(a, b) \<in> merge_edges M" for a b
        using that less.prems(4) [of a b] True by (cases "a \<in> frontier") (auto simp: reached_eq)
      then have "merge_component M seeds \<subseteq> seen"
        using less.prems(1) by (intro merge_component_least)
      with less.prems(3) True show ?thesis by (simp add: merged_loop.simps)
    next
      case False
      have "known_ids - (seen \<union> ?found) \<subset> known_ids - seen"
        using False reached_known [of seen frontier] by (auto simp: reached_eq)
      then have "card (known_ids - (seen \<union> ?found)) < card (known_ids - seen)"
        by (intro psubset_card_mono) (simp add: finite_known_ids)
      then show ?thesis
      proof (rule less.hyps)
        show "b \<in> seen \<union> ?found"
          if "a \<in> (seen \<union> ?found) - ?found" "(a, b) \<in> merge_edges M" for a b
          using that less.prems(4) [of a b] by (auto simp: reached_eq)
      qed (use less.prems found_in in auto)
    qed
    with False show ?thesis by (simp add: merged_loop.simps [of edges seen] Let_def)
  qed
qed

lemma merged_result: "merged edges seeds = Some (merge_component M seeds)"
  unfolding merged_def by (rule merged_loop_result) (auto simp: merge_component_def)

lemma linked_result:
  "linked_entities the_id edges include_related =
     Some (\<lambda>i.
       if i \<in> merge_component M {the_id} then Some None
       else case include_related of
              None \<Rightarrow> None
            | Some k \<Rightarrow>
                if i \<in> merge_component M
                     {b. \<exists>a \<in> merge_component M {the_id}. (a, b) \<in> related_edges M k}
                then Some (Some k) else None)"
proof -
  let ?own = "merge_component M {the_id}"
  have closed: "b \<in> ?own" if "a \<in> ?own" "(a, b) \<in> (merge_edges M)\<^sup>*" for a b
    using that by (auto simp: merge_component_def intro: rtrancl_trans)
  have same: "merge_component M (neighbors edges k ?own) - ?own
      = merge_component M {b. \<exists>a \<in> ?own. (a, b) \<in> related_edges M k} - ?own" for k
    using closed by (auto simp: merge_component_def neighbors_eq)
  have empty: "merge_component M {} = {}" by (simp add: merge_component_def)
  show ?thesis
  proof (cases include_related)
    case None
    then show ?thesis by (auto simp: linked_entities_def merged_result)
  next
    case (Some k)
    show ?thesis
      using same [of k] empty
      by (auto simp: linked_entities_def merged_result Some Let_def fun_eq_iff)
  qed
qed

end

section \<open>The store's query\<close>

text \<open>\<open>membership_touching\<close> and its \<open>SELECT\<close>: the open rows with an end among the given ids.\<close>

definition membership_touching :: "membership list \<Rightarrow> edge_query" where
  "membership_touching rows ids = filter (\<lambda>m. current m \<and> ends m \<inter> ids \<noteq> {}) rows"

interpretation store_edges: edge_source "membership_touching rows" "set rows" for rows
  by unfold_locales (auto simp: membership_touching_def)

end
