(* ===== verification/Journal_Claims.thy ===== *)
theory Journal_Claims
  imports Linked_Entities
begin

text \<open>
  What the membership projection and the walk over it promise: the projection is the history
  of every link, and the walk finds exactly one subject's ids and, on request, the subjects
  one relationship away.
\<close>

section \<open>The projection\<close>

text \<open>
  C14: The projection is the history of every link. Folding a journal and the identities of
  the bundles gives intervals such that at every instant a link (a typed, directed
  relationship, or an unordered merge) holds, in the sense that the last operation on it by
  then opened it, exactly when one of its intervals covers that instant; intervals of one
  link never overlap, none is empty or links a subject to itself, and they are sorted by
  subject, related id, type and start.
\<close>

theorem projection_is_history:
  assumes "\<forall>e \<in> set events. event_valid e" "\<forall>i \<in> set identities. identity_valid uuid5 i"
  shows "(\<forall>l t. holds_at (operations events identities) l t \<longleftrightarrow>
        (\<exists>m \<in> set (project_membership events identities). member_link m = l \<and> covers_instant m t))
    \<and> disjoint_intervals (set (project_membership events identities))
    \<and> (\<forall>m \<in> set (project_membership events identities). interval_is_ordered m = Inr ())
    \<and> sorted (map membership_key (project_membership events identities))"
proof -
  have "sorted (map membership_key (project_membership events identities))"
    by (cases "fold apply_operation (operations events identities) ([], [])")
      (simp add: project_membership_def)
  with project_membership_facts [OF assms] show ?thesis by (simp add: represents_def)
qed

definition ex_event :: "event_type \<Rightarrow> uuid \<Rightarrow> uuid \<Rightarrow> instant \<Rightarrow> entity_event" where
  "ex_event k a b t =
     \<lparr>journal_event_id = 0, event_type = k, subject_entity_id = a, object_entity_id = b,
      event_relationship = (if typed k then Some [1] else None), effective_at = t,
      event_provenance = \<lparr>recorded_by = [1], journal_crosswalk_version = None, reference = None\<rparr>\<rparr>"

lemma ex_event_valid: "a \<noteq> b \<Longrightarrow> event_valid (ex_event k a b t)"
  by (simp add: event_valid_def event_well_formed_def ex_event_def nonempty_def)

theorem projection_is_history_witness:
  "\<exists>m \<in> set (project_membership [ex_event Merge 1 2 10, ex_event Detach 2 1 20] []).
     member_link m = MergeLink {1, 2} \<and> covers_instant m 15"
proof -
  have "\<forall>e \<in> set [ex_event Merge 1 2 10, ex_event Detach 2 1 20]. event_valid e"
    by (simp add: ex_event_valid)
  note history = projection_is_history [OF this, of "[]"]
  have "holds_at (operations [ex_event Merge 1 2 10, ex_event Detach 2 1 20] []) (MergeLink {1, 2}) 15"
    by (simp add: operations_def identity_operations_def event_operations_def ex_event_def
        holds_at_def op_link_def link_of_def typed_def opens_def insert_commute)
  with history show ?thesis by simp
qed

section \<open>The walk\<close>

text \<open>
  C15: A timeline covers exactly the ids of one subject. Over the store's rows the walk always
  ends; it finds an id as the subject's own exactly when a chain of current merges, in either
  direction, links it; and it finds an id as related exactly when it is not the subject's own
  and some id one current relationship of the requested type away is merged with it.
\<close>

theorem timeline_covers_the_subject:
  "\<exists>linked. linked_entities subject (membership_touching rows) include_related = Some linked
    \<and> (\<forall>i. linked i = Some None \<longleftrightarrow> i \<in> merge_component (set rows) {subject})
    \<and> (\<forall>i k. linked i = Some (Some k) \<longleftrightarrow> include_related = Some k
        \<and> i \<notin> merge_component (set rows) {subject}
        \<and> (\<exists>a \<in> merge_component (set rows) {subject}. \<exists>b. (a, b) \<in> related_edges (set rows) k
             \<and> i \<in> merge_component (set rows) {b}))"
proof -
  have single: "i \<in> merge_component M S \<longleftrightarrow> (\<exists>b \<in> S. i \<in> merge_component M {b})" for i M S
    by (auto simp: merge_component_def)
  show ?thesis
    unfolding store_edges.linked_result
    by (intro exI conjI allI) (rule refl, auto split: option.splits simp: single [of _ _ "{b. _ b}"])
qed

end
