(* ===== verification/Audit_Store.thy ===== *)
theory Audit_Store
  imports Replay Linked_Entities Registry
begin

text \<open>
  \<open>app/audit/store.py\<close> and \<open>app/audit/entity_journal.py\<close>: the bundle table, the journal of
  entity events, the membership projection, replay logs, and the reads over them. Tables are
  lists of rows in insertion order; every statement commits on its own, so an operation
  returns the state it leaves together with its result, also when it raises. Serialization
  (pydantic), \<open>jsonb\<close> and the two UUID parsers are the record \<open>store_wire\<close>.
\<close>

section \<open>Tables\<close>

record bundle_row =
  row_id :: uuid
  row_reasoner :: ustr
  row_entity :: uuid
  row_created :: instant
  row_action :: decision_action
  row_schema :: nat
  row_payload :: json

record replay_log =
  log_decision :: ustr
  log_matched :: bool
  log_diff :: "replay_result option"

record audit_state =
  bundle_rows :: "bundle_row list"
  member_rows :: "membership list"
  event_rows :: "entity_event list"
  replay_logs :: "replay_log list"

text \<open>
  \<open>to_jsonb\<close> is what a \<open>jsonb\<close> column gives back for a document, or \<open>None\<close> when the server
  refuses it; \<open>pg_uuid\<close> reads text as a \<open>uuid\<close> column does and \<open>py_uuid\<close> as Python's
  constructor does; \<open>pg_text\<close> is \<open>->>\<close> on a document that is not a string.
\<close>

record store_wire =
  dump_bundle :: "decision_bundle \<Rightarrow> json"
  parse_bundle :: "json \<Rightarrow> ustr + decision_bundle"
  parse_identity :: "json \<Rightarrow> ustr + resolved_identity"
  dump_event :: "entity_event \<Rightarrow> json"
  to_jsonb :: "json \<Rightarrow> json option"
  pg_uuid :: "ustr \<Rightarrow> uuid option"
  py_uuid :: "ustr \<Rightarrow> uuid option"
  pg_text :: "json \<Rightarrow> ustr"

datatype store_error =
    DoesNotSurviveRoundTrip ustr
  | DatabaseError
  | NotAUuid ustr
  | NoBundle ustr
  | BundleSchemaUnsupported uuid nat
  | PayloadInvalid ustr
  | UnregisteredReasoner ustr
  | RegistrationSnapshotMissing ustr ustr
  | ReplayRaised replay_error
  | UndeclaredRelationship uuid "ustr option"
  | EventHolds uuid storage_issue

definition BUNDLE_SCHEMA_VERSION :: nat where
  "BUNDLE_SCHEMA_VERSION = 2"

text \<open>\<open>executemany\<close> on an autocommit connection: each row is its own statement.\<close>

fun each_row :: "('x \<Rightarrow> 's \<Rightarrow> 's \<times> ('e + 'a)) \<Rightarrow> 'x list \<Rightarrow> 's \<Rightarrow> 's \<times> ('e + 'a list)" where
  "each_row f [] s = (s, Inr [])"
| "each_row f (x # xs) s =
     (case f x s of
        (s', Inl e) \<Rightarrow> (s', Inl e)
      | (s', Inr y) \<Rightarrow>
          (case each_row f xs s' of
             (s'', Inl e) \<Rightarrow> (s'', Inl e)
           | (s'', Inr ys) \<Rightarrow> (s'', Inr (y # ys))))"

section \<open>Writing bundles\<close>

definition relationship_rows :: "decision_bundle \<Rightarrow> (uuid \<times> uuid \<times> ustr \<times> instant) list" where
  "relationship_rows b =
     (case identity b of
        None \<Rightarrow> []
      | Some i \<Rightarrow> map (\<lambda>r. (entity_id i, related_id r, relationship_type r, resolved_at (provenance i)))
                    (related i))"

definition check_row :: "store_wire \<Rightarrow> decision_bundle \<Rightarrow> store_error + unit" where
  "check_row wire b =
     (case parse_bundle wire (dump_bundle wire b) of
        Inl _ \<Rightarrow> Inl (DoesNotSurviveRoundTrip (decision_id b))
      | Inr reloaded \<Rightarrow>
          if reloaded \<noteq> b then Inl (DoesNotSurviveRoundTrip (decision_id b)) else Inr ())"

text \<open>\<open>_INSERT_BUNDLE\<close>: the id of the row when it is new.\<close>

definition insert_bundle ::
    "store_wire \<Rightarrow> decision_bundle \<Rightarrow> audit_state \<Rightarrow> audit_state \<times> (store_error + uuid option)" where
  "insert_bundle wire b st =
     (case (pg_uuid wire (decision_id b), text_problem (reasoner_id (submission b)),
            to_jsonb wire (dump_bundle wire b)) of
        (Some k, None, Some payload) \<Rightarrow>
          if k \<in> row_id ` set (bundle_rows st) then (st, Inr None)
          else (st\<lparr>bundle_rows := bundle_rows st @
                   [\<lparr>row_id = k, row_reasoner = reasoner_id (submission b),
                     row_entity = bundle_entity_id b, row_created = created_at b,
                     row_action = bundle_action b, row_schema = BUNDLE_SCHEMA_VERSION,
                     row_payload = payload\<rparr>]\<rparr>, Inr (Some k))
      | _ \<Rightarrow> (st, Inl DatabaseError))"

text \<open>\<open>_INSERT_RELATIONSHIP\<close>: the table's checks, and the unique index on open links.\<close>

definition insert_relationship ::
    "uuid \<times> uuid \<times> ustr \<times> instant \<Rightarrow> audit_state \<Rightarrow> audit_state \<times> (store_error + unit)" where
  "insert_relationship row st =
     (case row of (subject, other, relationship, since) \<Rightarrow>
        if subject = other \<or> text_problem relationship \<noteq> None then (st, Inl DatabaseError)
        else if \<exists>m \<in> set (member_rows st). current m \<and> member_subject m = subject
                 \<and> member_related m = other \<and> member_type m = Some relationship
        then (st, Inr ())
        else (st\<lparr>member_rows := member_rows st @
                 [\<lparr>member_subject = subject, member_related = other, member_type = Some relationship,
                   valid_from = since, valid_to = None\<rparr>]\<rparr>, Inr ()))"

definition write_bundle ::
    "store_wire \<Rightarrow> decision_bundle \<Rightarrow> audit_state \<Rightarrow> audit_state \<times> (store_error + unit)" where
  "write_bundle wire b st =
     (case check_row wire b of
        Inl e \<Rightarrow> (st, Inl e)
      | Inr _ \<Rightarrow>
          (case insert_bundle wire b st of
             (st', Inl e) \<Rightarrow> (st', Inl e)
           | (st', Inr inserted) \<Rightarrow>
               (case each_row insert_relationship
                       (if inserted \<noteq> None then relationship_rows b else []) st' of
                  (st'', Inl e) \<Rightarrow> (st'', Inl e)
                | (st'', Inr _) \<Rightarrow> (st'', Inr ()))))"

definition newly_written :: "store_wire \<Rightarrow> uuid set \<Rightarrow> decision_bundle \<Rightarrow> store_error + bool" where
  "newly_written wire inserted b =
     (case py_uuid wire (decision_id b) of
        None \<Rightarrow> Inl (NotAUuid (decision_id b)) | Some k \<Rightarrow> Inr (k \<in> inserted))"

definition write_bundles ::
    "store_wire \<Rightarrow> decision_bundle list \<Rightarrow> audit_state \<Rightarrow> audit_state \<times> (store_error + unit)" where
  "write_bundles wire bundles st =
     (case rcheck (check_row wire) bundles of
        Inl e \<Rightarrow> (st, Inl e)
      | Inr _ \<Rightarrow>
          if bundles = [] then (st, Inr ())
          else (case each_row (insert_bundle wire) bundles st of
             (st', Inl e) \<Rightarrow> (st', Inl e)
           | (st', Inr ids) \<Rightarrow>
               let inserted = {k. Some k \<in> set ids}
               in (case rmap (newly_written wire inserted) bundles of
                     Inl e \<Rightarrow> (st', Inl e)
                   | Inr flags \<Rightarrow>
                       (case each_row insert_relationship
                               (concat (map (\<lambda>(b, new). if new then relationship_rows b else [])
                                  (zip bundles flags))) st' of
                          (st'', Inl e) \<Rightarrow> (st'', Inl e)
                        | (st'', Inr _) \<Rightarrow> (st'', Inr ())))))"

section \<open>Reading bundles\<close>

record stored_bundle =
  stored_id :: uuid
  stored_reasoner :: ustr
  stored_schema :: nat
  stored_payload :: json

definition lookup_bundle :: "store_wire \<Rightarrow> audit_state \<Rightarrow> ustr \<Rightarrow> store_error + stored_bundle" where
  "lookup_bundle wire st the_id =
     (case py_uuid wire the_id of
        None \<Rightarrow> Inl (NotAUuid the_id)
      | Some k \<Rightarrow>
          (case find (\<lambda>row. row_id row = k) (bundle_rows st) of
             None \<Rightarrow> Inl (NoBundle the_id)
           | Some row \<Rightarrow>
               Inr \<lparr>stored_id = k, stored_reasoner = row_reasoner row,
                    stored_schema = row_schema row, stored_payload = row_payload row\<rparr>))"

definition as_bundle :: "store_wire \<Rightarrow> stored_bundle \<Rightarrow> store_error + decision_bundle" where
  "as_bundle wire s =
     (if stored_schema s \<noteq> BUNDLE_SCHEMA_VERSION
      then Inl (BundleSchemaUnsupported (stored_id s) (stored_schema s))
      else map_sum PayloadInvalid id (parse_bundle wire (stored_payload s)))"

definition load_bundle :: "store_wire \<Rightarrow> audit_state \<Rightarrow> ustr \<Rightarrow> store_error + decision_bundle" where
  "load_bundle wire st the_id = rbind (lookup_bundle wire st the_id) (as_bundle wire)"

section \<open>Replaying stored bundles\<close>

definition registration_for ::
    "versioning \<Rightarrow> reloading \<Rightarrow> registry_state \<Rightarrow> ustr \<Rightarrow> ustr option
      \<Rightarrow> store_error + reasoner_registration" where
  "registration_for version reload reg reasoner cited =
     (case cited of
        None \<Rightarrow>
          (case get_registration (live_store reg) reasoner of
             None \<Rightarrow> Inl (UnregisteredReasoner reasoner) | Some r \<Rightarrow> Inr r)
      | Some v \<Rightarrow>
          rbind (map_sum PayloadInvalid id (get_snapshot reload (database reg) reasoner v)) (\<lambda>found.
          case found of
            Some snapshot \<Rightarrow> Inr (snapshot_registration snapshot)
          | None \<Rightarrow>
              (case get_registration (live_store reg) reasoner of
                 Some r \<Rightarrow>
                   if version r = v then Inr r else Inl (RegistrationSnapshotMissing reasoner v)
               | None \<Rightarrow> Inl (RegistrationSnapshotMissing reasoner v))))"

definition log_replay :: "replay_result \<Rightarrow> audit_state \<Rightarrow> audit_state" where
  "log_replay result st =
     st\<lparr>replay_logs := replay_logs st @
        [\<lparr>log_decision = replay_decision_id result, log_matched = matched result,
          log_diff = (if matched result then None else Some result)\<rparr>]\<rparr>"

definition replay_stored ::
    "store_wire \<Rightarrow> versioning \<Rightarrow> reloading \<Rightarrow> registry_state \<Rightarrow> audit_state \<Rightarrow> ustr
      \<Rightarrow> audit_state \<times> (store_error + replay_result)" where
  "replay_stored wire version reload reg st the_id =
     (case rbind (lookup_bundle wire st the_id) (\<lambda>s.
           rbind (as_bundle wire s) (\<lambda>b.
           rbind (registration_for version reload reg (stored_reasoner s) (registration_version b)) (\<lambda>r.
           map_sum ReplayRaised id (replay_bundle version b r)))) of
        Inl e \<Rightarrow> (st, Inl e)
      | Inr result \<Rightarrow> (log_replay result st, Inr result))"

section \<open>Timelines\<close>

fun json_get :: "ustr \<Rightarrow> json \<Rightarrow> json option" where
  "json_get key (JObj kvs) = map_of kvs key"
| "json_get key _ = None"

definition json_text :: "store_wire \<Rightarrow> json option \<Rightarrow> ustr option" where
  "json_text wire j =
     (case j of
        None \<Rightarrow> None
      | Some JNull \<Rightarrow> None
      | Some (JStr s) \<Rightarrow> Some s
      | Some other \<Rightarrow> Some (pg_text wire other))"

record decision_summary =
  summary_decision :: uuid
  summary_reasoner :: ustr
  summary_entity :: uuid
  summary_created :: instant
  summary_action :: decision_action
  summary_schema :: nat
  summary_mode :: "ustr option"
  summary_event :: "ustr option"
  summary_entity_type :: "ustr option"
  summary_relationship :: "ustr option"

definition summarize ::
    "store_wire \<Rightarrow> (uuid \<rightharpoonup> ustr option) \<Rightarrow> bundle_row \<Rightarrow> decision_summary" where
  "summarize wire linked row =
     (let sub = json_get (lit ''submission'') (row_payload row);
          path = (\<lambda>j key. json_text wire (Option.bind j (json_get key)));
          typed_as = path (json_get (lit ''identity'') (row_payload row)) (lit ''entity_type'')
      in \<lparr>summary_decision = row_id row, summary_reasoner = row_reasoner row,
          summary_entity = row_entity row, summary_created = row_created row,
          summary_action = row_action row, summary_schema = row_schema row,
          summary_mode = path sub (lit ''mode''), summary_event = path sub (lit ''event_id''),
          summary_entity_type =
            (if typed_as = None then path sub (lit ''entity_type'') else typed_as),
          summary_relationship = (case linked (row_entity row) of Some k \<Rightarrow> k | None \<Rightarrow> None)\<rparr>)"

definition timeline_key :: "bundle_row \<Rightarrow> instant \<times> uuid" where
  "timeline_key row = (row_created row, row_id row)"

definition past_cursor :: "instant option \<Rightarrow> uuid option \<Rightarrow> bundle_row \<Rightarrow> bool" where
  "past_cursor before before_id row \<longleftrightarrow>
     (case before of
        None \<Rightarrow> True
      | Some t \<Rightarrow> row_created row < t
          \<or> (row_created row = t \<and> (case before_id of None \<Rightarrow> False | Some k \<Rightarrow> row_id row < k)))"

text \<open>
  \<open>ORDER BY created_at DESC, decision_id DESC LIMIT\<close>; the primary key makes the order total.
  The outer \<open>option\<close> is \<open>None\<close> only if the walk over the projection never ended.
\<close>

definition entity_decisions ::
    "store_wire \<Rightarrow> audit_state \<Rightarrow> ustr \<Rightarrow> ustr option \<Rightarrow> nat \<Rightarrow> instant option \<Rightarrow> ustr option
      \<Rightarrow> ustr option \<Rightarrow> (store_error + decision_summary list) option" where
  "entity_decisions wire st the_entity reasoner limit before before_id include_related =
     (case py_uuid wire the_entity of
        None \<Rightarrow> Some (Inl (NotAUuid the_entity))
      | Some subject \<Rightarrow>
     (case (case before_id of
              None \<Rightarrow> Inr None
            | Some text \<Rightarrow>
                (case py_uuid wire text of None \<Rightarrow> Inl (NotAUuid text) | Some k \<Rightarrow> Inr (Some k))) of
        Inl e \<Rightarrow> Some (Inl e)
      | Inr cursor_id \<Rightarrow>
          map_option (\<lambda>linked.
            Inr (map (summarize wire linked)
              (take limit (rev (sort_key timeline_key
                (filter (\<lambda>row. row_entity row \<in> dom linked
                   \<and> pred_option (\<lambda>r. row_reasoner row = r) reasoner
                   \<and> past_cursor before cursor_id row) (bundle_rows st)))))))
          (linked_entities subject (membership_touching (member_rows st)) include_related)))"

section \<open>The entity journal\<close>

definition check_event :: "store_wire \<Rightarrow> ustr set \<Rightarrow> entity_event \<Rightarrow> store_error + unit" where
  "check_event wire declared e =
     (if event_type e = Relate \<and> event_relationship e \<notin> Some ` declared
      then Inl (UndeclaredRelationship (journal_event_id e) (event_relationship e))
      else (case storage_problem (dump_event wire e) of
              Some issue \<Rightarrow> Inl (EventHolds (journal_event_id e) issue)
            | None \<Rightarrow> Inr ()))"

definition checked_events ::
    "store_wire \<Rightarrow> ustr set \<Rightarrow> entity_event list \<Rightarrow> store_error + entity_event list" where
  "checked_events wire declared events =
     rbind (rcheck (check_event wire declared) events) (\<lambda>_. Inr events)"

text \<open>\<open>_SELECT_ASSERTING_IDENTITIES\<close>, oldest first; an identity that no longer validates is skipped.\<close>

definition asserted_identity :: "store_wire \<Rightarrow> bundle_row \<Rightarrow> resolved_identity option" where
  "asserted_identity wire row =
     (if row_schema row \<noteq> BUNDLE_SCHEMA_VERSION then None
      else case json_get (lit ''identity'') (row_payload row) of
             None \<Rightarrow> None
           | Some j \<Rightarrow>
               (case json_get (lit ''related'') j of
                  Some (JList (_ # _)) \<Rightarrow>
                    (case parse_identity wire j of Inl _ \<Rightarrow> None | Inr i \<Rightarrow> Some i)
                | _ \<Rightarrow> None))"

definition asserted_identities :: "store_wire \<Rightarrow> bundle_row list \<Rightarrow> resolved_identity list" where
  "asserted_identities wire rows =
     List.map_filter (asserted_identity wire) (sort_key timeline_key rows)"

definition rebuild_membership :: "store_wire \<Rightarrow> audit_state \<Rightarrow> audit_state" where
  "rebuild_membership wire st =
     st\<lparr>member_rows := project_membership (event_rows st) (asserted_identities wire (bundle_rows st))\<rparr>"

text \<open>\<open>append\<close>: one transaction, so a refused or duplicate event leaves everything as it was.\<close>

definition append_events ::
    "store_wire \<Rightarrow> ustr set \<Rightarrow> entity_event list \<Rightarrow> bool \<Rightarrow> audit_state
      \<Rightarrow> audit_state \<times> (store_error + unit)" where
  "append_events wire declared events rebuild st =
     (case checked_events wire declared events of
        Inl e \<Rightarrow> (st, Inl e)
      | Inr batch \<Rightarrow>
          if \<not> distinct (map journal_event_id (event_rows st @ batch)) then (st, Inl DatabaseError)
          else let st' = st\<lparr>event_rows := event_rows st @ batch\<rparr>
               in (if rebuild then rebuild_membership wire st' else st', Inr ()))"

end
