(* ===== verification/Audit_Correct.thy ===== *)
theory Audit_Correct
  imports Audit_Store "HOL-Library.Sublist"
begin

text \<open>
  The steps of the audit ledger, what every one of them keeps (also a step that raises), and
  the facts about reading rows back.
\<close>

section \<open>Steps\<close>

inductive audit_step :: "store_wire \<Rightarrow> audit_state \<Rightarrow> audit_state \<Rightarrow> bool" for wire where
  step_write: "write_bundle wire b st = (st', result) \<Longrightarrow> audit_step wire st st'"
| step_write_many: "write_bundles wire bs st = (st', result) \<Longrightarrow> audit_step wire st st'"
| step_replay: "replay_stored wire version reload reg st the_id = (st', answer) \<Longrightarrow> audit_step wire st st'"
| step_append: "append_events wire declared events rebuild st = (st', result) \<Longrightarrow> audit_step wire st st'"
| step_rebuild: "audit_step wire st (rebuild_membership wire st)"

text \<open>Rows, events and logs are only ever added at the end.\<close>

definition audit_later :: "audit_state \<Rightarrow> audit_state \<Rightarrow> bool" where
  "audit_later st st' \<longleftrightarrow>
     prefix (bundle_rows st) (bundle_rows st') \<and> prefix (event_rows st) (event_rows st')
     \<and> prefix (replay_logs st) (replay_logs st')"

definition tables_ok :: "audit_state \<Rightarrow> bool" where
  "tables_ok st \<longleftrightarrow> distinct (map row_id (bundle_rows st))
     \<and> (\<forall>row \<in> set (bundle_rows st). row_schema row \<noteq> 0)"

lemma audit_later_refl: "audit_later st st"
  by (simp add: audit_later_def)

lemma audit_later_trans: "audit_later s t \<Longrightarrow> audit_later t u \<Longrightarrow> audit_later s u"
  by (auto simp: audit_later_def intro: prefix_order.trans)

lemma each_row_later:
  assumes "\<And>x s s' r. f x s = (s', r) \<Longrightarrow> audit_later s s'"
  shows "each_row f xs s = (s', r) \<Longrightarrow> audit_later s s'"
proof (induction xs arbitrary: s s' r)
  case Nil
  then show ?case by (simp add: audit_later_refl)
next
  case (Cons x xs)
  obtain s1 r1 where x: "f x s = (s1, r1)" by (cases "f x s")
  show ?case
  proof (cases r1)
    case (Inl e)
    with Cons.prems x assms show ?thesis by auto
  next
    case (Inr y)
    obtain s2 r2 where xs: "each_row f xs s1 = (s2, r2)" by (cases "each_row f xs s1")
    then have "s2 = s'" using Cons.prems x Inr by (auto split: sum.splits)
    with Cons.IH [OF xs] assms [OF x] show ?thesis by (auto intro: audit_later_trans)
  qed
qed

lemma each_row_keeps:
  assumes "\<And>x s s' r. f x s = (s', r) \<Longrightarrow> P s \<Longrightarrow> P s'"
  shows "each_row f xs s = (s', r) \<Longrightarrow> P s \<Longrightarrow> P s'"
proof (induction xs arbitrary: s s' r)
  case (Cons x xs)
  obtain s1 r1 where x: "f x s = (s1, r1)" by (cases "f x s")
  show ?case
  proof (cases r1)
    case (Inl e)
    with Cons.prems x assms show ?thesis by auto
  next
    case (Inr y)
    obtain s2 r2 where xs: "each_row f xs s1 = (s2, r2)" by (cases "each_row f xs s1")
    then have "s2 = s'" using Cons.prems x Inr by (auto split: sum.splits)
    with Cons.IH [OF xs] assms [OF x] Cons.prems(2) show ?thesis by auto
  qed
qed simp

text \<open>The insert, case by case.\<close>

lemma insert_bundle_cases:
  assumes "insert_bundle wire b st = (st', r)"
  obtains (refused) "st' = st" "r = Inl DatabaseError"
  | (held) k where "st' = st" "r = Inr None" "pg_uuid wire (decision_id b) = Some k"
      "k \<in> row_id ` set (bundle_rows st)"
  | (new) k payload where "r = Inr (Some k)" "pg_uuid wire (decision_id b) = Some k"
      "k \<notin> row_id ` set (bundle_rows st)" "to_jsonb wire (dump_bundle wire b) = Some payload"
      "st' = st\<lparr>bundle_rows := bundle_rows st @
         [\<lparr>row_id = k, row_reasoner = reasoner_id (submission b), row_entity = bundle_entity_id b,
           row_created = created_at b, row_action = bundle_action b,
           row_schema = BUNDLE_SCHEMA_VERSION, row_payload = payload\<rparr>]\<rparr>"
proof (cases "\<exists>k payload. pg_uuid wire (decision_id b) = Some k
    \<and> text_problem (reasoner_id (submission b)) = None
    \<and> to_jsonb wire (dump_bundle wire b) = Some payload")
  case True
  then obtain k payload where kp: "pg_uuid wire (decision_id b) = Some k"
    "text_problem (reasoner_id (submission b)) = None"
    "to_jsonb wire (dump_bundle wire b) = Some payload" by blast
  show ?thesis
  proof (cases "k \<in> row_id ` set (bundle_rows st)")
    case True
    with assms kp show ?thesis by (intro held [OF _ _ kp(1) True]) (simp_all add: insert_bundle_def)
  next
    case False
    with assms kp show ?thesis by (intro new [OF _ kp(1) False kp(3)]) (simp_all add: insert_bundle_def)
  qed
next
  case False
  then have "insert_bundle wire b st = (st, Inl DatabaseError)"
    by (auto simp: insert_bundle_def split: option.split)
  with assms show ?thesis by (intro refused) simp_all
qed

lemma insert_bundle_later: "insert_bundle wire b st = (st', r) \<Longrightarrow> audit_later st st'"
  by (erule insert_bundle_cases) (auto simp: audit_later_def)

lemma insert_bundle_ok: "insert_bundle wire b st = (st', r) \<Longrightarrow> tables_ok st \<Longrightarrow> tables_ok st'"
  by (erule insert_bundle_cases) (auto simp: tables_ok_def BUNDLE_SCHEMA_VERSION_def)

lemma insert_relationship_rows:
  "insert_relationship x st = (st', r) \<Longrightarrow>
     bundle_rows st' = bundle_rows st \<and> event_rows st' = event_rows st \<and> replay_logs st' = replay_logs st"
  by (auto simp: insert_relationship_def split: prod.splits if_splits)

lemma insert_relationship_later: "insert_relationship x st = (st', r) \<Longrightarrow> audit_later st st'"
  using insert_relationship_rows [of x st st' r] by (auto simp: audit_later_def)

lemma insert_relationship_ok: "insert_relationship x st = (st', r) \<Longrightarrow> tables_ok st \<Longrightarrow> tables_ok st'"
  using insert_relationship_rows [of x st st' r] by (auto simp: tables_ok_def)

text \<open>What a write consists of.\<close>

lemma write_bundle_parts:
  assumes "write_bundle wire b st = (st', r)"
  shows "st' = st \<or> (\<exists>st1 inserted r'. insert_bundle wire b st = (st1, Inr inserted)
    \<and> each_row insert_relationship (if inserted \<noteq> None then relationship_rows b else []) st1 = (st', r'))"
proof (cases "check_row wire b")
  case (Inr u)
  obtain st1 r1 where i: "insert_bundle wire b st = (st1, r1)" by (cases "insert_bundle wire b st")
  show ?thesis
  proof (cases r1)
    case (Inl e)
    have "st1 = st" by (rule insert_bundle_cases [OF i]) (use Inl in auto)
    with assms Inr i Inl show ?thesis by (simp add: write_bundle_def)
  next
    case inserted: (Inr x)
    obtain st2 r2 where "each_row insert_relationship (if x \<noteq> None then relationship_rows b else []) st1 = (st2, r2)"
      by fastforce
    with assms Inr i inserted show ?thesis by (auto simp: write_bundle_def split: sum.splits)
  qed
qed (use assms in \<open>simp add: write_bundle_def\<close>)

lemma write_bundles_parts:
  assumes "write_bundles wire bs st = (st', r)"
    and that: "bs' = (if rcheck (check_row wire) bs = Inr () then bs else [])"
  shows "\<exists>st1 r1 rows r2. each_row (insert_bundle wire) bs' st = (st1, r1)
    \<and> each_row insert_relationship rows st1 = (st', r2)"
proof (cases "rcheck (check_row wire) bs")
  case (Inl e)
  with assms show ?thesis
    by (auto simp: write_bundles_def intro!: exI [of _ "[]"])
next
  case (Inr u)
  obtain st1 r1 where i: "each_row (insert_bundle wire) bs st = (st1, r1)"
    by (cases "each_row (insert_bundle wire) bs st")
  have bs': "bs' = bs" using that Inr by simp
  show ?thesis
  proof (cases "bs = [] \<or> (\<exists>e. r1 = Inl e)
      \<or> (\<exists>ids e. r1 = Inr ids \<and> rmap (newly_written wire {k. Some k \<in> set ids}) bs = Inl e)")
    case True
    then have "st' = st1"
      using assms Inr i by (auto simp: write_bundles_def Let_def split: if_splits)
    with i bs' show ?thesis by (intro exI [of _ st1] exI [of _ r1] exI [of _ "[]"]) simp
  next
    case False
    then obtain ids flags where ids: "r1 = Inr ids"
      "rmap (newly_written wire {k. Some k \<in> set ids}) bs = Inr flags"
      by (metis sum.exhaust)
    obtain st2 r2 where
      "each_row insert_relationship (concat (map (\<lambda>(b, new). if new then relationship_rows b else [])
        (zip bs flags))) st1 = (st2, r2)"
      by fastforce
    with assms Inr i ids False show ?thesis
      unfolding bs' by (auto simp: write_bundles_def Let_def split: sum.splits)
  qed
qed

lemma audit_step_later:
  assumes "audit_step wire st st'"
  shows "audit_later st st'"
  using assms
proof cases
  case (step_write b result)
  from write_bundle_parts [OF this] show ?thesis
    by (auto intro: audit_later_refl audit_later_trans insert_bundle_later
        each_row_later [OF insert_relationship_later])
next
  case (step_write_many bs result)
  from write_bundles_parts [OF this refl] show ?thesis
    by (auto intro: audit_later_trans each_row_later [OF insert_bundle_later]
        each_row_later [OF insert_relationship_later])
next
  case (step_replay version reload reg the_id answer)
  then show ?thesis
    by (auto simp: replay_stored_def log_replay_def audit_later_def split: sum.splits)
next
  case (step_append declared events rebuild result)
  then show ?thesis
    by (auto simp: append_events_def audit_later_def rebuild_membership_def checked_events_def Let_def
        split: sum.splits if_splits)
next
  case step_rebuild
  then show ?thesis by (simp add: audit_later_def rebuild_membership_def)
qed

lemma audit_step_ok:
  assumes "audit_step wire st st'" "tables_ok st"
  shows "tables_ok st'"
  using assms(1)
proof cases
  case (step_write b result)
  from write_bundle_parts [OF this] assms(2) show ?thesis
    by (auto intro: insert_bundle_ok each_row_keeps [OF insert_relationship_ok])
next
  case (step_write_many bs result)
  from write_bundles_parts [OF this refl] assms(2) show ?thesis
    by (auto intro: each_row_keeps [OF insert_bundle_ok] each_row_keeps [OF insert_relationship_ok])
next
  case (step_replay version reload reg the_id answer)
  with assms(2) show ?thesis
    by (auto simp: replay_stored_def log_replay_def tables_ok_def split: sum.splits)
next
  case (step_append declared events rebuild result)
  with assms(2) show ?thesis
    by (auto simp: append_events_def tables_ok_def rebuild_membership_def Let_def
        split: sum.splits if_splits)
next
  case step_rebuild
  with assms(2) show ?thesis by (simp add: tables_ok_def rebuild_membership_def)
qed

interpretation audit_history: advancing "audit_step wire" audit_later for wire
  by unfold_locales (rule audit_later_refl | erule (1) audit_later_trans | erule audit_step_later)+

interpretation audit_tables: kept "audit_step wire" tables_ok for wire
  by unfold_locales (rule audit_step_ok)

end
