(* ===== verification/Registry_Restart.thy ===== *)
theory Registry_Restart
  imports Registry_Correct
begin

text \<open>
  What a restart reads back: the registry's tables mirror what it serves, so composing the
  same configuration with the stored rows gives the same registry.
\<close>

section \<open>Declaring consistent namespaces succeeds\<close>

definition agrees :: "namespace_table \<Rightarrow> native_namespace set \<Rightarrow> bool" where
  "agrees table N \<longleftrightarrow> (\<forall>x \<in> dom table. fst (the (table x)) \<in> N \<and> namespace_name (fst (the (table x))) = x)"

lemma declare_namespaces_runs:
  assumes "agrees table N" "set ns \<subseteq> N" "inj_on namespace_name N"
  shows "\<exists>t. declare_namespaces reasoner ns table = Inr t \<and> agrees t N"
  using assms(1,2)
proof (induction reasoner ns table rule: declare_namespaces.induct)
  case (2 reasoner n ns table)
  show ?case
  proof (cases "table (namespace_name n)")
    case None
    have "agrees (table(namespace_name n \<mapsto> (n, reasoner))) N"
      using 2(3,4) by (auto simp: agrees_def)
    from 2(1) [OF None this] 2(4) show ?thesis by (simp add: None del: fun_upd_apply)
  next
    case (Some known)
    obtain k owner where k: "known = (k, owner)" by (cases known)
    have "k \<in> N" "namespace_name k = namespace_name n"
      using 2(3) Some k by (force simp: agrees_def)+
    then have "k = n" using 2(4) assms(3) by (auto dest: inj_onD)
    with 2(2) [OF Some k [symmetric] _ 2(3)] 2(4) Some k show ?thesis by auto
  qed
qed simp

lemma declared_from_runs:
  assumes "agrees table N" "\<forall>r \<in> set rs. set (native_namespaces r) \<subseteq> N" "inj_on namespace_name N"
  shows "\<exists>t. declared_from rs table = Inr t"
  using assms(1,2)
proof (induction rs table rule: declared_from.induct)
  case (2 r rs table)
  then obtain t where "declare_namespaces (registered_reasoner_id r) (native_namespaces r) table = Inr t"
    "agrees t N"
    using declare_namespaces_runs [OF _ _ assms(3)] by (metis list.set_intros(1))
  with 2 show ?case by auto
qed simp

lemma declared_namespaces_runs:
  assumes "consistent_namespaces (set rs)"
  shows "\<exists>table. declared_namespaces rs = Inr table"
proof -
  let ?N = "\<Union>r \<in> set rs. set (native_namespaces r)"
  have "inj_on namespace_name ?N" using assms by (auto simp: consistent_namespaces_def inj_on_def)
  then obtain t where "declared_from rs Map.empty = Inr t"
    using declared_from_runs [of Map.empty ?N rs] by (auto simp: agrees_def)
  then show ?thesis by (simp add: declared_namespaces_def)
qed

section \<open>The tables mirror what is served\<close>

definition row_matches :: "registry_row \<Rightarrow> registered_reasoner \<Rightarrow> bool" where
  "row_matches row e \<longleftrightarrow>
     source e = API_SOURCE \<and> entry_version e = row_version row
     \<and> registered_by e = Some (row_registered_by row)
     \<and> registered_at e = Some (row_registered_at row) \<and> updated_at e = Some (row_updated_at row)"

definition mirrored ::
    "versioning \<Rightarrow> reasoner_registration list \<Rightarrow> (ustr \<times> ustr) list \<Rightarrow> registry_state \<Rightarrow> bool" where
  "mirrored version_of declared labels st \<longleftrightarrow>
     (\<forall>i. case find (\<lambda>r. registered_reasoner_id r = i) declared of
            Some r \<Rightarrow> map_of (registry_rows (database st)) i = None
              \<and> registry_entry (live_store st) i = Some (declared_entry version_of labels r)
          | None \<Rightarrow> rel_option row_matches (map_of (registry_rows (database st)) i)
              (registry_entry (live_store st) i))"

definition labelled :: "reasoner_registration list \<Rightarrow> (ustr \<times> ustr) list \<Rightarrow> bool" where
  "labelled declared labels \<longleftrightarrow>
     fst ` set labels = registered_reasoner_id ` set declared \<and> API_SOURCE \<notin> snd ` set labels"

lemma update_labelled:
  "labelled declared labels \<Longrightarrow> label \<noteq> API_SOURCE \<Longrightarrow>
     labelled (declared @ [r]) (AList.update (registered_reasoner_id r) label labels)"
  by (auto simp: labelled_def dom_update dest: set_update_cases)

lemma plugins_labelled:
  "labelled declared labels \<Longrightarrow>
     labelled (declared @ map snd plugins)
       (fold (\<lambda>(module, r). AList.update (registered_reasoner_id r) (lit ''plugin:'' @ module)) plugins labels)"
proof (induction plugins arbitrary: declared labels)
  case (Cons p plugins)
  obtain m r where p: "p = (m, r)" by (cases p)
  have "lit ''plugin:'' @ m \<noteq> API_SOURCE" by (simp add: API_SOURCE_def)
  from Cons.IH [OF update_labelled [OF Cons.prems this]] show ?case by (simp add: p)
qed simp

lemma add_file_labelled:
  "add_file label rs declared labels = Inr (declared', labels') \<Longrightarrow>
     label \<noteq> API_SOURCE \<Longrightarrow> labelled declared labels \<Longrightarrow> labelled declared' labels'"
proof (induction label rs declared labels rule: add_file.induct)
  case (2 label r rs declared labels)
  with update_labelled show ?case by (auto split: option.splits)
qed simp

lemma declared_configuration_labelled:
  assumes "declared_configuration plugins file = Inr (declared, labels)"
  shows "labelled declared labels"
proof -
  define ls where "ls = fold (\<lambda>(module, r). AList.update (registered_reasoner_id r) (lit ''plugin:'' @ module))
    plugins []"
  have ls: "labelled (map snd plugins) ls"
    using plugins_labelled [of "[]" "[]" plugins] by (simp add: ls_def labelled_def)
  show ?thesis
  proof (cases "file")
    case None
    with assms ls show ?thesis by (auto simp: declared_configuration_def ls_def)
  next
    case (Some f)
    obtain path rs where f: "f = (path, rs)" by (cases f)
    have "add_file (lit ''file:'' @ path) rs (map snd plugins) ls = Inr (declared, labels)"
      using assms by (simp add: declared_configuration_def ls_def Some f)
    moreover have "lit ''file:'' @ path \<noteq> API_SOURCE" by (simp add: API_SOURCE_def)
    ultimately show ?thesis using ls by (rule add_file_labelled)
  qed
qed

section \<open>The mirror\<close>

text \<open>Every stored snapshot reads back as it was written.\<close>

definition reads_back :: "reloading \<Rightarrow> registry_db \<Rightarrow> bool" where
  "reads_back reload db \<longleftrightarrow> (\<forall>k r t. snapshot_rows db k = Some (r, t) \<longrightarrow> reload r = Inr r)"

definition row_entry :: "versioning \<Rightarrow> registry_db \<Rightarrow> ustr \<Rightarrow> registry_row \<Rightarrow> registered_reasoner" where
  "row_entry version_of db i row =
     (let r = fst (the (snapshot_rows db (i, row_version row)))
      in \<lparr>registration_of = r, entry_version = version_of r, source = API_SOURCE,
          registered_by = Some (row_registered_by row), registered_at = Some (row_registered_at row),
          updated_at = Some (row_updated_at row)\<rparr>)"

lemma row_entry_facts:
  assumes "db_ok version_of db" "(i, row) \<in> set (registry_rows db)"
  shows "entry_reasoner_id (row_entry version_of db i row) = i"
    "row_matches row (row_entry version_of db i row)"
    "\<exists>t. snapshot_rows db (i, row_version row) = Some (registration_of (row_entry version_of db i row), t)"
  using assms by (fastforce simp: db_ok_def row_entry_def row_matches_def entry_reasoner_id_def Let_def)+

lemma load_registrations_rows:
  assumes "db_ok version_of db" "reads_back reload db"
  shows "load_registrations version_of reload db
    = Inr (map (\<lambda>(i, row). row_entry version_of db i row) (sort_key fst (registry_rows db)))"
proof -
  have "load_row version_of reload db x = Inr (Some (case x of (i, row) \<Rightarrow> row_entry version_of db i row))"
    if x: "x \<in> set (sort_key fst (registry_rows db))" for x
  proof -
    obtain i row where ir: "x = (i, row)" by (cases x)
    with x assms(1) obtain r t where "snapshot_rows db (i, row_version row) = Some (r, t)"
      by (fastforce simp: db_ok_def)
    with assms(2) show ?thesis by (auto simp: ir load_row_def row_entry_def reads_back_def)
  qed
  then have "rmap (load_row version_of reload db) (sort_key fst (registry_rows db))
      = Inr (map (\<lambda>x. Some (case x of (i, row) \<Rightarrow> row_entry version_of db i row)) (sort_key fst (registry_rows db)))"
    by (rule rmap_Inr)
  then show ?thesis by (simp add: load_registrations_def comp_def filter_map)
qed

lemma find_declared:
  assumes "distinct (map registered_reasoner_id declared)"
  shows "map_of (map (\<lambda>e. (entry_reasoner_id e, e)) (map (declared_entry version_of labels) declared)) i
    = map_option (declared_entry version_of labels) (find (\<lambda>r. registered_reasoner_id r = i) declared)"
  by (induction declared) (auto simp: declared_entry_def entry_reasoner_id_def)

lemma map_of_rows:
  assumes "\<And>i row. (i, row) \<in> set rows \<Longrightarrow> entry_reasoner_id (f i row) = i"
  shows "map_of (map (\<lambda>e. (entry_reasoner_id e, e)) (map (\<lambda>(i, row). f i row) rows)) i
    = map_option (f i) (map_of rows i)"
  using assms by (induction rows) auto

text \<open>A registry composed with the stored rows, entry by entry.\<close>

lemma build_with_rows:
  assumes "db_ok version_of db" "reads_back reload db"
    and "load_registrations version_of reload db = Inr written"
    and "declared_configuration plugins file = Inr (declared, labels)"
  shows "build_registry version_of plugins file written = Inr store \<longleftrightarrow>
     distinct (map registered_reasoner_id declared)
     \<and> (\<forall>r \<in> set declared. map_of (registry_rows db) (registered_reasoner_id r) = None)
     \<and> store = map (\<lambda>e. (entry_reasoner_id e, e)) (map (declared_entry version_of labels) declared @ written)"
    and "build_registry version_of plugins file written = Inr store \<Longrightarrow>
      registry_entry store i = (case find (\<lambda>r. registered_reasoner_id r = i) declared of
          Some r \<Rightarrow> Some (declared_entry version_of labels r)
        | None \<Rightarrow> map_option (row_entry version_of db i) (map_of (registry_rows db) i))"
proof -
  have w: "written = map (\<lambda>(i, row). row_entry version_of db i row) (sort_key fst (registry_rows db))"
    using assms(3) load_registrations_rows [OF assms(1,2)] by simp
  have dist: "distinct (map fst (registry_rows db))" using assms(1) by (simp add: db_ok_def)
  have ids: "entry_reasoner_id (row_entry version_of db i row) = i"
    if "(i, row) \<in> set (sort_key fst (registry_rows db))" for i row
    using row_entry_facts(1) [OF assms(1)] that by simp
  have keys: "map entry_reasoner_id written = map fst (sort_key fst (registry_rows db))"
    using ids by (auto simp: w)
  have labels: "fst ` set labels = registered_reasoner_id ` set declared"
    using declared_configuration_labelled [OF assms(4)] by (simp add: labelled_def)
  have dkeys: "map entry_reasoner_id (map (declared_entry version_of labels) declared)
      = map registered_reasoner_id declared"
    by (simp add: declared_entry_def entry_reasoner_id_def)
  have dsort: "distinct (map fst (sort_key fst (registry_rows db)))"
    using dist by (simp add: distinct_map)
  show iff: "build_registry version_of plugins file written = Inr store \<longleftrightarrow>
     distinct (map registered_reasoner_id declared)
     \<and> (\<forall>r \<in> set declared. map_of (registry_rows db) (registered_reasoner_id r) = None)
     \<and> store = map (\<lambda>e. (entry_reasoner_id e, e)) (map (declared_entry version_of labels) declared @ written)"
  proof -
    have "set (map entry_reasoner_id written) = fst ` set (registry_rows db)" by (simp only: keys) simp
    then have "(\<forall>e \<in> set written. entry_reasoner_id e \<notin> fst ` set labels)
        \<longleftrightarrow> (\<forall>r \<in> set declared. map_of (registry_rows db) (registered_reasoner_id r) = None)"
    proof -
      assume "set (map entry_reasoner_id written) = fst ` set (registry_rows db)"
      then have same: "entry_reasoner_id ` set written = fst ` set (registry_rows db)" by simp
      have "(\<forall>e \<in> set written. entry_reasoner_id e \<notin> fst ` set labels)
          \<longleftrightarrow> entry_reasoner_id ` set written \<inter> fst ` set labels = {}" by blast
      also have "\<dots> \<longleftrightarrow> (\<forall>r \<in> set declared. map_of (registry_rows db) (registered_reasoner_id r) = None)"
        unfolding same labels map_of_eq_None_iff by (force simp: disjoint_iff)
      finally show ?thesis .
    qed
    moreover have "distinct (map fst (map (\<lambda>e. (entry_reasoner_id e, e))
          (map (declared_entry version_of labels) declared @ written)))
        \<longleftrightarrow> distinct (map registered_reasoner_id declared)
          \<and> (\<forall>e \<in> set written. entry_reasoner_id e \<notin> registered_reasoner_id ` set declared)"
    proof -
      have "map fst (map (\<lambda>e. (entry_reasoner_id e, e)) (map (declared_entry version_of labels) declared @ written))
          = map registered_reasoner_id declared @ map entry_reasoner_id written"
        using dkeys by (simp add: comp_def)
      note eq = this
      have "distinct (map entry_reasoner_id written)" by (simp only: keys dsort)
      then show ?thesis unfolding eq distinct_append by (force simp: disjoint_iff)
    qed
    moreover have "build_registry version_of plugins file written = Inr store \<longleftrightarrow>
        (\<forall>e \<in> set written. entry_reasoner_id e \<notin> fst ` set labels)
        \<and> store = map (\<lambda>e. (entry_reasoner_id e, e)) (map (declared_entry version_of labels) declared @ written)
        \<and> distinct (map fst (map (\<lambda>e. (entry_reasoner_id e, e))
            (map (declared_entry version_of labels) declared @ written)))"
    proof -
      define S where "S rs ls = map (\<lambda>e. (entry_reasoner_id e, e)) (map (declared_entry version_of ls) rs @ written)"
        for rs ls
      show ?thesis unfolding build_registry_Inr assms(4) S_def [symmetric] by auto
    qed
    ultimately show ?thesis unfolding labels by blast
  qed
  assume b: "build_registry version_of plugins file written = Inr store"
  then have store: "store = map (\<lambda>e. (entry_reasoner_id e, e)) (map (declared_entry version_of labels) declared @ written)"
    and d: "distinct (map registered_reasoner_id declared)"
    unfolding iff by blast+
  have "map_of (map (\<lambda>e. (entry_reasoner_id e, e)) written) i
      = map_option (row_entry version_of db i) (map_of (registry_rows db) i)"
    unfolding w by (subst map_of_rows [OF ids]) (simp_all add: map_of_sort_key [OF dist])
  then show "registry_entry store i = (case find (\<lambda>r. registered_reasoner_id r = i) declared of
        Some r \<Rightarrow> Some (declared_entry version_of labels r)
      | None \<Rightarrow> map_option (row_entry version_of db i) (map_of (registry_rows db) i))"
    unfolding registry_entry_def store map_append map_of_append map_add_def
    using find_declared [OF d, of version_of labels i]
    by (cases "find (\<lambda>r. registered_reasoner_id r = i) declared") (auto split: option.splits simp: map_add_def)
qed

lemma start_mirrored:
  assumes "start_registry version_of reload now plugins file db = Inr st" "db_ok version_of db"
    and "reads_back reload db" "declared_configuration plugins file = Inr (declared, labels)"
  shows "mirrored version_of declared labels st"
proof -
  from assms(1) obtain written store where
    w: "load_registrations version_of reload db = Inr written"
    and b: "build_registry version_of plugins file written = Inr store"
    and st: "live_store st = store" "registry_rows (database st) = registry_rows db"
    by (auto simp: start_registry_def split: sum.splits elim!: map_sum_Inr_cases)
  note lookup = build_with_rows(2) [OF assms(2,3) w assms(4) b]
  have none: "map_of (registry_rows db) i = None"
    if "find (\<lambda>r. registered_reasoner_id r = i) declared = Some r" for i r
    using build_with_rows(1) [OF assms(2,3) w assms(4)] b find_in_set [OF that] by auto
  have "rel_option row_matches x (map_option (row_entry version_of db i) x)"
    if "x = map_of (registry_rows db) i" for x i
    using row_entry_facts(2) [OF assms(2)] map_of_SomeD [of "registry_rows db" i] unfolding that
    by (cases "map_of (registry_rows db) i") auto
  then show ?thesis
    unfolding mirrored_def st lookup using none by (auto split: option.split)
qed

lemma registry_step_mirrored:
  assumes "registry_step version_of gs st st'" "mirrored version_of declared labels st"
    "labelled declared labels"
  shows "mirrored version_of declared labels st'"
  using assms(1)
proof cases
  case (1 now may_resolve label r view)
  from 1 show ?thesis
  proof (cases rule: register_reasoner_cases)
    case unchanged
    with assms(2) show ?thesis by simp
  next
    case (written e db)
    let ?i = "registered_reasoner_id r"
    obtain row where row: "registry_rows db = AList.update ?i row (registry_rows (database st))"
      "row_version row = version_of r" "registered_by e = Some (row_registered_by row)"
      "registered_at e = Some (row_registered_at row)" "updated_at e = Some (row_updated_at row)"
      using save_registration_cases(7) [OF written(2)] by blast
    have matches: "row_matches row e"
      using row save_registration_cases(2,3) [OF written(2)] by (simp add: row_matches_def)
    have undeclared: "find (\<lambda>x. registered_reasoner_id x = ?i) declared = None"
    proof (rule ccontr)
      assume "find (\<lambda>x. registered_reasoner_id x = ?i) declared \<noteq> None"
      then obtain x where x: "find (\<lambda>x. registered_reasoner_id x = ?i) declared = Some x" by blast
      then have "registry_entry (live_store st) ?i = Some (declared_entry version_of labels x)"
        using assms(2) by (auto simp: mirrored_def split: option.splits)
      then have "source (declared_entry version_of labels x) = API_SOURCE" using written(4) by blast
      moreover have "registered_reasoner_id x \<in> fst ` set labels"
        using assms(3) find_in_set [OF x] unfolding labelled_def by blast
      then obtain label where label: "map_of labels (registered_reasoner_id x) = Some label"
        by (metis map_of_eq_None_iff not_None_eq)
      then have "label \<in> snd ` set labels" by (metis image_eqI map_of_SomeD snd_conv)
      ultimately show False
        using assms(3) label by (simp add: declared_entry_def labelled_def)
    qed
    show ?thesis
      unfolding mirrored_def written(3) registry_state.simps row(1)
    proof
      fix i
      show "case find (\<lambda>r. registered_reasoner_id r = i) declared of
          Some x \<Rightarrow> map_of (AList.update ?i row (registry_rows (database st))) i = None
            \<and> registry_entry (AList.update ?i e (live_store st)) i = Some (declared_entry version_of labels x)
        | None \<Rightarrow> rel_option row_matches (map_of (AList.update ?i row (registry_rows (database st))) i)
            (registry_entry (AList.update ?i e (live_store st)) i)"
      proof (cases "i = ?i")
        case True
        with undeclared matches show ?thesis by (simp add: map_of_update_store registry_entry_def)
      next
        case False
        with assms(2) [unfolded mirrored_def, rule_format, of i] show ?thesis
          by (simp add: map_of_update_store registry_entry_def split: option.splits)
      qed
    qed
  qed
qed

text \<open>No two registrations the ledger has stored or serves share an id and a version.\<close>

definition collision_free :: "versioning \<Rightarrow> registry_state \<Rightarrow> bool" where
  "collision_free version_of st \<longleftrightarrow>
     inj_on (\<lambda>r. (registered_reasoner_id r, version_of r))
       (served_registrations st \<union> {r. \<exists>k t. snapshot_rows (database st) k = Some (r, t)})"

lemma served_snapshot:
  assumes "served_ok version_of st" "collision_free version_of st"
    "registry_entry (live_store st) i = Some e"
  shows "\<exists>t. snapshot_rows (database st) (i, entry_version e) = Some (registration_of e, t)"
    "entry_reasoner_id e = i" "entry_version e = version_of (registration_of e)"
proof -
  have e: "(i, e) \<in> set (live_store st)" using assms(3) by (simp add: registry_entry_def map_of_SomeD)
  then show ids: "entry_reasoner_id e = i" "entry_version e = version_of (registration_of e)"
    using assms(1) by (auto simp: served_ok_def)
  obtain r t where r: "snapshot_rows (database st) (i, entry_version e) = Some (r, t)"
    using assms(1) e ids by (fastforce simp: served_ok_def snapshotted_def)
  then have "registered_reasoner_id r = i" "version_of r = entry_version e"
    using assms(1) by (auto simp: served_ok_def db_ok_def)
  moreover have "registration_of e \<in> served_registrations st"
    using e by (force simp: served_registrations_def)
  ultimately have "r = registration_of e"
    using r ids
    by (intro inj_onD [OF assms(2) [unfolded collision_free_def]]) (auto simp: entry_reasoner_id_def)
  with r show "\<exists>t. snapshot_rows (database st) (i, entry_version e) = Some (registration_of e, t)" by blast
qed

lemma restart:
  assumes "start_registry version_of reload now plugins file db = Inr st0"
    "db_ok version_of db" "(registry_step version_of gs)\<^sup>*\<^sup>* st0 st"
    "collision_free version_of st" "reads_back reload (database st)"
  shows "\<exists>st'. start_registry version_of reload now' plugins file (database st) = Inr st'
    \<and> (\<forall>i. registry_entry (live_store st') i = registry_entry (live_store st) i)"
proof -
  from assms(1) obtain declared labels where d: "declared_configuration plugins file = Inr (declared, labels)"
    by (auto simp: start_registry_def build_registry_Inr elim!: map_sum_Inr_cases)
  note start = start_registry_ok [OF assms(1,2)]
  have ok: "served_ok version_of st" and consistent: "consistent_namespaces (served_registrations st)"
    using namespaces.along [OF assms(3)] start(1,2) by blast+
  have later: "registry_later st0 st" by (rule registry_history.along [OF assms(3)])
  have "reads_back reload db"
    using assms(5) later start(3) by (fastforce simp: reads_back_def registry_later_def keeps_snapshots_def)
  note mirror0 = start_mirrored [OF assms(1,2) this d]
  have mirror: "mirrored version_of declared labels st"
    using assms(3) mirror0
    by (induction rule: rtranclp_induct)
      (auto intro: registry_step_mirrored [OF _ _ declared_configuration_labelled [OF d]])
  have dbok: "db_ok version_of (database st)" using ok by (simp add: served_ok_def)
  obtain written where w: "load_registrations version_of reload (database st) = Inr written"
    using load_registrations_rows [OF dbok assms(5)] by blast
  have dist: "distinct (map registered_reasoner_id declared)"
    using assms(1) d declared_configuration_labelled
    by (auto simp: start_registry_def build_registry_Inr comp_def declared_entry_def entry_reasoner_id_def
        elim!: map_sum_Inr_cases)
  have "map_of (registry_rows (database st)) (registered_reasoner_id r) = None" if "r \<in> set declared" for r
    using mirror [unfolded mirrored_def, rule_format, of "registered_reasoner_id r"]
      find_unique [OF dist that] by simp
  then obtain store where b: "build_registry version_of plugins file written = Inr store"
    using build_with_rows(1) [OF dbok assms(5) w d] dist by blast
  have same: "registry_entry store i = registry_entry (live_store st) i" for i
  proof -
    note look = build_with_rows(2) [OF dbok assms(5) w d b, of i]
    note mir = mirror [unfolded mirrored_def, rule_format, of i]
    show ?thesis
    proof (cases "find (\<lambda>r. registered_reasoner_id r = i) declared")
      case (Some r)
      with look mir show ?thesis by simp
    next
      case none: None
      show ?thesis
      proof (cases "map_of (registry_rows (database st)) i")
        case None
        with look mir none show ?thesis by simp
      next
        case (Some row)
        with mir none obtain e where e: "registry_entry (live_store st) i = Some e" "row_matches row e"
          by (auto simp: option_rel_Some1)
        have "row_entry version_of (database st) i row = e"
          using served_snapshot [OF ok assms(4) e(1)] e(2)
          by (cases e) (auto simp: row_entry_def row_matches_def Let_def)
        with look none Some e(1) show ?thesis by simp
      qed
    qed
  qed
  have "set (map registration_of (registry_entries store)) = served_registrations st"
  proof -
    have "distinct (map fst store)" using b by (auto simp: build_registry_Inr)
    moreover have "distinct (map fst (live_store st))" using ok by (simp add: served_ok_def)
    ultimately have "set store = set (live_store st)"
      using same by (auto simp: registry_entry_def) (metis map_of_eq_Some_iff)+
    then show ?thesis by (simp add: registry_entries_set served_registrations_def image_image)
  qed
  then obtain table where "declared_namespaces (map registration_of (registry_entries store)) = Inr table"
    using declared_namespaces_runs consistent by metis
  with w b same show ?thesis by (simp add: start_registry_def)
qed

end
