(* ===== verification/Registry_Claims.thy ===== *)
theory Registry_Claims
  imports Registry_Restart Submit_Claims
begin

text \<open>
  What the registry promises over its whole life: every version it serves has its snapshot,
  what configuration declares cannot be replaced, the deployment stays consistent, and a
  restart serves the same reasoners.
\<close>

section \<open>A concrete registry\<close>

definition ex_version :: versioning where
  "ex_version r = registered_reasoner_id r"

definition ex_tenant :: reasoner_registration where
  "ex_tenant = ex_registration\<lparr>registered_reasoner_id := [2], gates := []\<rparr>"

definition ex_empty_db :: registry_db where
  "ex_empty_db = \<lparr>snapshot_rows = Map.empty, registry_rows = []\<rparr>"

definition ex_started :: registry_state where
  "ex_started =
     \<lparr>live_store = [([1], declared_entry ex_version [([1], lit ''plugin:'')] ex_registration)],
      database = record_snapshot ex_version 5 ex_registration ex_empty_db\<rparr>"

definition ex_written :: registry_state where
  "ex_written = \<lparr>live_store = live_store ex_started
       @ [([2], fst (save_registration ex_version 6 ex_tenant [7] (database ex_started)))],
     database = snd (save_registration ex_version 6 ex_tenant [7] (database ex_started))\<rparr>"

lemma ex_ids: "registered_reasoner_id ex_tenant = [2]" "registered_reasoner_id ex_registration = [1]"
  by (simp_all add: ex_tenant_def ex_registration_def)

lemma ex_start:
  "start_registry ex_version Inr 5 [([], ex_registration)] None ex_empty_db = Inr ex_started"
  by (simp add: start_registry_def load_registrations_def ex_empty_db_def build_registry_def
      declared_configuration_def make_registry_def declared_entry_def entry_reasoner_id_def
      registry_entries_def ex_started_def declared_namespaces_def ex_registration_def)

lemma ex_empty_ok: "db_ok ex_version ex_empty_db"
  by (simp add: db_ok_def ex_empty_db_def)

lemma ex_admits: "check_gate_set ex_registration ex_gates = Inr ()" "check_gate_set ex_tenant ex_gates = Inr ()"
  by (simp_all add: check_gate_set_def check_composed_def check_binding_def admit_binding_def ex_gates_def
      ex_gate_def ex_registration_def ex_tenant_def Let_def)

lemma ex_step: "registry_step ex_version ex_gates ex_started ex_written"
proof -
  have "admit_registration ex_gates (live_store ex_started) ex_tenant = Inr ()"
    using ex_admits(2)
    by (simp add: admit_registration_def ex_started_def declared_entry_def entry_reasoner_id_def
        registry_entries_def declared_namespaces_def)
      (simp add: ex_tenant_def ex_registration_def)
  then have "register_reasoner ex_version 6 ex_gates True [7] ex_tenant ex_started
      = Inr ((fst (save_registration ex_version 6 ex_tenant [7] (database ex_started)), True), ex_written)"
    by (simp add: register_reasoner_def register_def registry_entry_def ex_written_def ex_ids split_beta Let_def)
      (simp add: ex_started_def split_beta)
  then show ?thesis by (rule registry_step.intros)
qed

lemma ex_steps: "(registry_step ex_version ex_gates)\<^sup>*\<^sup>* ex_started ex_written"
  using ex_step by (rule r_into_rtranclp [of "registry_step ex_version ex_gates"])

lemma ex_snapshots:
  "snapshot_rows (database ex_written) k = Some (r, t) \<Longrightarrow> r = ex_registration \<or> r = ex_tenant"
  by (auto simp: ex_written_def ex_started_def save_registration_def record_snapshot_def insert_new_def
      ex_empty_db_def Let_def split: if_splits option.splits)

lemma ex_collision_free: "collision_free ex_version ex_written"
proof -
  have "served_registrations ex_written \<subseteq> {ex_registration, ex_tenant}"
    by (auto simp: served_registrations_def ex_written_def ex_started_def declared_entry_def
        save_registration_def Let_def)
  then have "served_registrations ex_written \<union> {r. \<exists>k t. snapshot_rows (database ex_written) k = Some (r, t)}
      \<subseteq> {ex_registration, ex_tenant}"
    using ex_snapshots by blast
  moreover have "inj_on (\<lambda>r. (registered_reasoner_id r, ex_version r)) {ex_registration, ex_tenant}"
    by (simp add: ex_tenant_def ex_registration_def)
  ultimately show ?thesis unfolding collision_free_def by (rule inj_on_subset [rotated])
qed

section \<open>Properties\<close>

text \<open>
  C16: Every version served has its snapshot. After startup and any sequence of writes over
  the API, the registration served for a reasoner is the one its snapshot holds under its
  version, the content address of that registration; and no snapshot that was ever stored
  has changed, so a decision can always be read against the registration it was made under.
\<close>

theorem served_versions_have_snapshots:
  assumes "start_registry version reload now plugins file db = Inr st0" "db_ok version db"
    and "(registry_step version gs)\<^sup>*\<^sup>* st0 st" "collision_free version st"
    and "registry_entry (live_store st) i = Some e"
  shows "entry_version e = version (registration_of e)
    \<and> (\<exists>t. snapshot_rows (database st) (i, entry_version e) = Some (registration_of e, t))
    \<and> (\<forall>k v. snapshot_rows db k = Some v \<longrightarrow> snapshot_rows (database st) k = Some v)"
proof -
  note start = start_registry_ok [OF assms(1,2)]
  have "served_ok version st" by (rule registry.along [OF assms(3) start(1)])
  moreover have "keeps_snapshots db (database st)"
    using registry_history.along [OF assms(3)] start(3) keeps_snapshots_trans
    by (auto simp: registry_later_def)
  ultimately show ?thesis
    using served_snapshot [OF _ assms(4,5)] by (simp add: keeps_snapshots_def)
qed

theorem served_versions_have_snapshots_witness:
  "\<exists>t. snapshot_rows (database ex_written) ([1], [1]) = Some (ex_registration, t)"
proof -
  have "registry_entry (live_store ex_written) [1] = Some (declared_entry ex_version [([1], lit ''plugin:'')] ex_registration)"
    by (simp add: registry_entry_def ex_written_def ex_started_def)
  from served_versions_have_snapshots [OF ex_start ex_empty_ok ex_steps
      ex_collision_free this]
  show ?thesis by (simp add: declared_entry_def ex_version_def ex_registration_def)
qed

text \<open>
  C17: A write never breaks the deployment. Starting from gates that serve every registration,
  any sequence of writes leaves one meaning per native namespace and gates that serve every
  registration served, and the reasoners that plugins and the registration file declare are
  served exactly as declared.
\<close>

theorem writes_keep_the_deployment:
  assumes "start_registry version reload now plugins file db = Inr st0" "db_ok version db"
    and "\<forall>r \<in> served_registrations st0. check_gate_set r gs = Inr ()"
    and "(registry_step version gs)\<^sup>*\<^sup>* st0 st"
  shows "admitted gs st
    \<and> (\<forall>i e. registry_entry (live_store st0) i = Some e \<longrightarrow> source e \<noteq> API_SOURCE \<longrightarrow>
         registry_entry (live_store st) i = Some e)"
proof -
  note start = start_registry_ok [OF assms(1,2)]
  have "served_ok version st0 \<and> admitted gs st0" using start assms(3) by (simp add: admitted_def)
  from admission.along [OF assms(4) this] registry_history.along [OF assms(4)]
  show ?thesis by (auto simp: registry_later_def)
qed

theorem writes_keep_the_deployment_witness:
  "admitted ex_gates ex_written"
proof -
  have "\<forall>r \<in> served_registrations ex_started. check_gate_set r ex_gates = Inr ()"
    using ex_admits(1) by (simp add: served_registrations_def ex_started_def declared_entry_def)
  from writes_keep_the_deployment [OF ex_start ex_empty_ok this ex_steps]
  show ?thesis by simp
qed



end
