(* ===== verification/Audit_Claims.thy ===== *)
theory Audit_Claims
  imports Audit_Correct Registry_Claims
begin

text \<open>
  What the audit ledger promises: nothing stored changes, a decision is read back as it was
  written, every stored decision replays whatever happened since, and a timeline is served
  page by page without gaps or repetitions.
\<close>

section \<open>Reading back\<close>

text \<open>\<open>jsonb\<close> keeps the value of a document it accepts: validation reads back the same bundle.\<close>

definition faithful_jsonb :: "store_wire \<Rightarrow> bool" where
  "faithful_jsonb wire \<longleftrightarrow> (\<forall>j j'. to_jsonb wire j = Some j' \<longrightarrow> parse_bundle wire j' = parse_bundle wire j)"

text \<open>A text that names the decision's row, in any spelling.\<close>

definition names :: "store_wire \<Rightarrow> ustr \<Rightarrow> decision_bundle \<Rightarrow> bool" where
  "names wire spelling b \<longleftrightarrow> py_uuid wire spelling \<noteq> None \<and> py_uuid wire spelling = pg_uuid wire (decision_id b)"

definition recorded :: "store_wire \<Rightarrow> decision_bundle \<Rightarrow> audit_state \<Rightarrow> bool" where
  "recorded wire b st \<longleftrightarrow>
     (\<exists>row \<in> set (bundle_rows st). pg_uuid wire (decision_id b) = Some (row_id row)
        \<and> row_reasoner row = reasoner_id (submission b) \<and> row_entity row = bundle_entity_id b
        \<and> row_created row = created_at b \<and> row_action row = bundle_action b
        \<and> row_schema row = BUNDLE_SCHEMA_VERSION
        \<and> to_jsonb wire (dump_bundle wire b) = Some (row_payload row))"

lemma row_found:
  "tables_ok st \<Longrightarrow> row \<in> set (bundle_rows st) \<Longrightarrow> find (\<lambda>x. row_id x = row_id row) (bundle_rows st) = Some row"
  by (simp add: tables_ok_def find_unique)

lemma recorded_later: "recorded wire b st \<Longrightarrow> audit_later st st' \<Longrightarrow> recorded wire b st'"
  by (auto simp: recorded_def audit_later_def dest: set_mono_prefix)

lemma lookup_later:
  assumes "lookup_bundle wire st text = Inr s" "audit_later st st'" "tables_ok st'"
  shows "lookup_bundle wire st' text = Inr s"
proof -
  obtain k row where k: "py_uuid wire text = Some k"
    and row: "find (\<lambda>x. row_id x = k) (bundle_rows st) = Some row"
    and s: "s = \<lparr>stored_id = k, stored_reasoner = row_reasoner row, stored_schema = row_schema row,
      stored_payload = row_payload row\<rparr>"
    using assms(1) by (auto simp: lookup_bundle_def split: option.splits)
  have "row_id row = k" "row \<in> set (bundle_rows st')"
    using find_in_set [OF row] assms(2) by (auto simp: audit_later_def dest: set_mono_prefix)
  with row_found [OF assms(3)] have "find (\<lambda>x. row_id x = k) (bundle_rows st') = Some row" by blast
  with k s show ?thesis by (simp add: lookup_bundle_def)
qed

lemma write_records:
  assumes "write_bundle wire b st = (st', Inr ())"
    and "\<forall>k. pg_uuid wire (decision_id b) = Some k \<longrightarrow> k \<notin> row_id ` set (bundle_rows st)"
  shows "recorded wire b st'" "check_row wire b = Inr ()"
proof -
  show ok: "check_row wire b = Inr ()"
    using assms(1) by (auto simp: write_bundle_def split: sum.splits)
  obtain st1 r1 where i: "insert_bundle wire b st = (st1, r1)" by (cases "insert_bundle wire b st")
  have "recorded wire b st1 \<and> (\<exists>k. r1 = Inr (Some k))"
  proof (rule insert_bundle_cases [OF i])
    fix k payload
    assume "r1 = Inr (Some k)" "pg_uuid wire (decision_id b) = Some k"
      "to_jsonb wire (dump_bundle wire b) = Some payload"
      "st1 = st\<lparr>bundle_rows := bundle_rows st @
         [\<lparr>row_id = k, row_reasoner = reasoner_id (submission b), row_entity = bundle_entity_id b,
           row_created = created_at b, row_action = bundle_action b,
           row_schema = BUNDLE_SCHEMA_VERSION, row_payload = payload\<rparr>]\<rparr>"
    then show ?thesis by (simp add: recorded_def)
  qed (use assms ok i in \<open>auto simp: write_bundle_def\<close>)
  then obtain k where st1: "recorded wire b st1" and r1: "r1 = Inr (Some k)" by blast
  obtain st2 r2 where rows: "each_row insert_relationship (relationship_rows b) st1 = (st2, r2)"
    by fastforce
  with assms(1) ok i r1 have "st2 = st'" by (auto simp: write_bundle_def split: sum.splits)
  with recorded_later [OF st1 each_row_later [OF insert_relationship_later rows]]
  show "recorded wire b st'" by simp
qed

lemma recorded_reads_back:
  assumes "recorded wire b st" "tables_ok st" "faithful_jsonb wire" "check_row wire b = Inr ()"
    and "names wire spelling b"
  shows "\<exists>s. lookup_bundle wire st spelling = Inr s \<and> as_bundle wire s = Inr b
    \<and> stored_reasoner s = reasoner_id (submission b)"
proof -
  obtain row where row: "row \<in> set (bundle_rows st)" "pg_uuid wire (decision_id b) = Some (row_id row)"
    "row_reasoner row = reasoner_id (submission b)" "row_schema row = BUNDLE_SCHEMA_VERSION"
    "to_jsonb wire (dump_bundle wire b) = Some (row_payload row)"
    using assms(1) by (auto simp: recorded_def)
  have "parse_bundle wire (dump_bundle wire b) = Inr b"
    using assms(4) by (auto simp: check_row_def split: sum.splits if_splits)
  then have "parse_bundle wire (row_payload row) = Inr b"
    using assms(3) row(5) by (auto simp: faithful_jsonb_def)
  with row row_found [OF assms(2) row(1)] assms(5) show ?thesis
    by (auto simp: lookup_bundle_def as_bundle_def names_def)
qed

section \<open>A concrete ledger\<close>

definition ex_wire :: "decision_bundle \<Rightarrow> store_wire" where
  "ex_wire b =
     \<lparr>dump_bundle = (\<lambda>_. JNull), parse_bundle = (\<lambda>_. Inr b), parse_identity = (\<lambda>_. Inl []),
      dump_event = (\<lambda>_. JNull), to_jsonb = Some, pg_uuid = (\<lambda>_. Some 1), py_uuid = (\<lambda>_. Some 1),
      pg_text = (\<lambda>_. [])\<rparr>"

definition ex_ledger :: audit_state where
  "ex_ledger = \<lparr>bundle_rows = [], member_rows = [], event_rows = [], replay_logs = []\<rparr>"

definition ex_served :: deployment where
  "ex_served = (ex_deployment ex_gates)
     \<lparr>registry_get := get_registration (live_store ex_started), version_of := ex_version\<rparr>"

lemma ex_ledger_ok: "tables_ok ex_ledger"
  by (simp add: tables_ok_def ex_ledger_def)

lemma ex_wire_faithful: "faithful_jsonb (ex_wire b)" "names (ex_wire b) spelling b"
  by (simp_all add: faithful_jsonb_def names_def ex_wire_def)

lemma ex_served_simps:
  "registry_get ex_served = get_registration (live_store ex_started)" "version_of ex_served = ex_version"
  "derive ex_served = (\<lambda>_ _. 0)" "wire_identity ex_served = wire_identity (ex_deployment ex_gates)"
  "identity_step ex_served = identity_step (ex_deployment ex_gates)"
  "deployed_gates ex_served = ex_gates"
  "get_registration (live_store ex_started) (reasoner_id (ex_submission m p n)) = Some ex_registration"
  by (simp_all add: ex_served_def ex_deployment_def get_registration_def registry_entry_def ex_started_def
      declared_entry_def ex_submission_def)

lemma ex_started_free: "collision_free ex_version ex_started"
proof -
  have "served_registrations ex_started \<union> {r. \<exists>k t. snapshot_rows (database ex_started) k = Some (r, t)}
      \<subseteq> {ex_registration}"
    by (auto simp: served_registrations_def ex_started_def declared_entry_def record_snapshot_def
        insert_new_def ex_empty_db_def split: if_splits)
  then show ?thesis unfolding collision_free_def by (rule inj_on_subset [rotated]) simp
qed

lemma ex_recorded:
  obtains b st1 where
    "decide ex_served ex_readings (ex_submission Gate None True) 0 [] None None 100 = Inr b"
    "write_bundle (ex_wire b) b ex_ledger = (st1, Inr ())"
proof -
  note ok = ex_deployment_ok [of ex_gates ALLOW HOLD]
  let ?s = "ex_submission Gate None True"
  have shape: "ex_gates = [([7], ex_gate [7] ALLOW), ([8], ex_gate [8] HOLD)]" by (simp add: ex_gates_def)
  have "intake ex_served ?s ex_registration = intake (ex_deployment ex_gates) ?s ex_registration"
    by (simp add: intake_def ex_served_def)
  also have "\<dots> = Inr (None, gates ex_registration)"
    using ex_intake [of Gate None ex_gates ALLOW HOLD True] shape by simp
  finally have accepted: "intake ex_served ?s ex_registration = Inr (None, gates ex_registration)" .
  have "uncancelled ex_served" "gate_map_ok (deployed_gates ex_served)"
    using ok shape by (simp_all add: uncancelled_def ex_served_def ex_deployment_def)
  moreover have "revalidates (derive ex_served) (wire_identity ex_served)"
    "\<not> cancelled (identity_step ex_served) ?s"
    using ok shape by (simp_all add: ex_served_def ex_deployment_def)
  ultimately obtain b where b: "decide ex_served ex_readings ?s 0 [] None None 100 = Inr b"
    using decide_total [OF _ ex_registration_valid ex_submission_valid(2) accepted,
        where budget = 100 and t = ex_readings] by (simp add: ex_served_simps) blast
  obtain reg r gate_set subject where
    "identify (derive ex_served) (wire_identity ex_served) (identity_step ex_served)
      (identified_at ex_readings) ?s reg = Inr subject"
    and i: "submission b = ?s" "identity b = Some subject"
    by (rule decide_Inr [OF b]) blast
  then have "related subject = []"
    by (simp add: ex_served_simps ex_deployment_def identify_def passthrough_identity_def ex_submission_def
        split: option.splits)
  then have "relationship_rows b = []" using i by (simp add: relationship_rows_def)
  moreover have "text_problem (reasoner_id (submission b)) = None"
    using i by (simp add: text_problem_def ex_submission_def surrogate_def)
  moreover from this obtain st1 where "insert_bundle (ex_wire b) b ex_ledger = (st1, Inr (Some 1))"
    by (simp add: insert_bundle_def ex_wire_def ex_ledger_def)
  ultimately have "write_bundle (ex_wire b) b ex_ledger = (st1, Inr ())"
    by (simp add: write_bundle_def check_row_def) (simp add: ex_wire_def)
  with b show ?thesis by (rule that)
qed

section \<open>Properties\<close>

text \<open>
  C19: The ledger is append-only. Whatever sequence of writes, batches, replays, journal
  appends and rebuilds runs, and whether or not each of them raises, every stored row,
  journal event and replay log stays where it is, every lookup that succeeded gives the same
  row, and writing a decision whose id is held changes nothing.
\<close>

theorem ledger_is_append_only:
  assumes "(audit_step wire)\<^sup>*\<^sup>* st st'" "tables_ok st"
  shows "audit_later st st'
    \<and> (\<forall>text s. lookup_bundle wire st text = Inr s \<longrightarrow> lookup_bundle wire st' text = Inr s)
    \<and> (\<forall>b k. pg_uuid wire (decision_id b) = Some k \<longrightarrow> k \<in> row_id ` set (bundle_rows st') \<longrightarrow>
         fst (write_bundle wire b st') = st')"
proof -
  have later: "audit_later st st'" by (rule audit_history.along [OF assms(1)])
  have ok: "tables_ok st'" by (rule audit_tables.along [OF assms])
  have "fst (write_bundle wire b st') = st'"
    if "pg_uuid wire (decision_id b) = Some k" "k \<in> row_id ` set (bundle_rows st')" for b k
  proof -
    have "\<exists>r. insert_bundle wire b st' = (st', r) \<and> (\<forall>x. r \<noteq> Inr (Some x))"
      using that by (auto simp: insert_bundle_def split: option.split)
    then show ?thesis by (auto simp: write_bundle_def split: sum.split)
  qed
  then show ?thesis using later lookup_later [OF _ later ok] by blast
qed

theorem ledger_is_append_only_witness:
  "\<exists>b st. (audit_step (ex_wire b))\<^sup>*\<^sup>* ex_ledger st \<and> st \<noteq> ex_ledger
    \<and> fst (write_bundle (ex_wire b) b st) = st"
proof -
  obtain b st1 where b: "decide ex_served ex_readings (ex_submission Gate None True) 0 [] None None 100 = Inr b"
    and w: "write_bundle (ex_wire b) b ex_ledger = (st1, Inr ())" by (rule ex_recorded)
  have run: "(audit_step (ex_wire b))\<^sup>*\<^sup>* ex_ledger st1"
    using step_write [OF w] by (rule r_into_rtranclp [of "audit_step (ex_wire b)"])
  have "recorded (ex_wire b) b st1" by (rule write_records [OF w]) (simp add: ex_ledger_def)
  then have held: "1 \<in> row_id ` set (bundle_rows st1)" by (auto simp: recorded_def ex_wire_def)
  then have "st1 \<noteq> ex_ledger" by (auto simp: ex_ledger_def)
  moreover have "pg_uuid (ex_wire b) (decision_id b) = Some 1" by (simp add: ex_wire_def)
  ultimately show ?thesis
    using ledger_is_append_only [OF run ex_ledger_ok] held run by blast
qed





end
