(* ===== verification/Json_Text.thy ===== *)
theory Json_Text
  imports Storable
begin

text \<open>
  The text the sources address content by: \<open>json.dumps(value, sort_keys=True,
  separators=(",", ":"), ensure_ascii=False).encode("utf-8")\<close>, of \<open>registration_version\<close>
  (\<open>core/observation/registration.py\<close>) and \<open>canonical_json\<close> (\<open>rules_gate/ruleset.py\<close>). The
  printer and the UTF-8 encoder are those of Python's standard library; \<open>repr\<close> of a finite
  float is the parameter \<open>float_repr\<close> (the model's float has no negative zero).
\<close>

section \<open>Printers\<close>

text \<open>
  The interface of a printer whose texts end where they say they do: reading one off the
  front of a text gives back what was printed and what follows it. \<open>ok\<close> is what it prints.
\<close>

locale self_delimiting =
  fixes ok :: "'a \<Rightarrow> bool" and put :: "'a \<Rightarrow> 'c list"
  assumes delimits: "put x @ r = put y @ s \<Longrightarrow> ok x \<Longrightarrow> ok y \<Longrightarrow> x = y \<and> r = s"
    and put_nonempty: "ok x \<Longrightarrow> put x \<noteq> []"
begin

lemma put_inj: "put x = put y \<Longrightarrow> ok x \<Longrightarrow> ok y \<Longrightarrow> x = y"
  using delimits [of x "[]" y "[]"] by simp

text \<open>A sequence of such texts, ended by a text that starts with none of them.\<close>

lemma delimits_sequence:
  assumes "concat (map put xs) @ r = concat (map put ys) @ s"
    and "list_all ok xs" "list_all ok ys"
    and "\<And>x t. ok x \<Longrightarrow> put x @ t \<noteq> r" "\<And>x t. ok x \<Longrightarrow> put x @ t \<noteq> s"
  shows "xs = ys \<and> r = s"
  using assms
proof (induction xs arbitrary: ys)
  case Nil
  have "ys = []"
  proof (rule ccontr)
    assume "ys \<noteq> []"
    then obtain y ys' where "ys = y # ys'" by (cases ys) auto
    with Nil.prems(1,3) Nil.prems(4) [of y "concat (map put ys') @ s"] show False by simp
  qed
  with Nil.prems(1) show ?case by simp
next
  case (Cons x xs)
  have "ys \<noteq> []"
  proof
    assume "ys = []"
    with Cons.prems(1,2) Cons.prems(5) [of x "concat (map put xs) @ r"] show False by simp
  qed
  then obtain y ys' where ys: "ys = y # ys'" by (cases ys) auto
  with Cons.prems have "x = y \<and> concat (map put xs) @ r = concat (map put ys') @ s"
    by (intro delimits) auto
  with Cons.IH [of ys'] Cons.prems ys show ?case by auto
qed

lemma sequence_inj:
  assumes "concat (map put xs) = concat (map put ys)" "list_all ok xs" "list_all ok ys"
  shows "xs = ys"
  using delimits_sequence [of xs "[]" ys "[]"] assms put_nonempty by auto

end

section \<open>Strings\<close>

definition hex_digit :: "nat \<Rightarrow> nat" where
  "hex_digit n = (if n < 10 then 48 + n else 87 + n)"

definition escape_char :: "nat \<Rightarrow> ustr" where
  "escape_char c =
     (if c = 34 then [92, 34] else if c = 92 then [92, 92] else if c = 8 then [92, 98]
      else if c = 9 then [92, 116] else if c = 10 then [92, 110] else if c = 12 then [92, 102]
      else if c = 13 then [92, 114]
      else if c < 32 then [92, 117, 48, 48, hex_digit (c div 16), hex_digit (c mod 16)]
      else [c])"

definition quote :: "ustr \<Rightarrow> ustr" where
  "quote s = 34 # concat (map escape_char s) @ [34]"

text \<open>Reading one character back.\<close>

definition unhex :: "nat \<Rightarrow> nat" where
  "unhex d = (if d < 58 then d - 48 else d - 87)"

lemma unhex_hex_digit [simp]: "n < 16 \<Longrightarrow> unhex (hex_digit n) = n"
  by (simp add: unhex_def hex_digit_def)

definition unescape :: "ustr \<Rightarrow> nat \<times> ustr" where
  "unescape t =
     (if hd t \<noteq> 92 then (hd t, tl t)
      else if t ! 1 = 117 then (16 * unhex (t ! 4) + unhex (t ! 5), drop 6 t)
      else (if t ! 1 = 98 then 8 else if t ! 1 = 116 then 9 else if t ! 1 = 110 then 10
            else if t ! 1 = 102 then 12 else if t ! 1 = 114 then 13 else t ! 1, drop 2 t))"

lemma unescape_escape_char: "unescape (escape_char c @ r) = (c, r)"
proof (cases "c \<in> {8, 9, 10, 12, 13, 34, 92}")
  case True
  then have "\<exists>k. escape_char c = [92, k] \<and> k \<noteq> 117
      \<and> c = (if k = 98 then 8 else if k = 116 then 9 else if k = 110 then 10
             else if k = 102 then 12 else if k = 114 then 13 else k)"
    by (elim insertE) (simp_all add: escape_char_def)
  then show ?thesis by (auto simp: unescape_def)
next
  case False
  show ?thesis
  proof (cases "c < 32")
    case True
    with False have "escape_char c = [92, 117, 48, 48, hex_digit (c div 16), hex_digit (c mod 16)]"
      by (simp add: escape_char_def)
    moreover have "unhex (hex_digit (c div 16)) = c div 16" "unhex (hex_digit (c mod 16)) = c mod 16"
      using True by simp_all
    ultimately show ?thesis by (simp add: unescape_def)
  next
    case 2: False
    with False have "escape_char c = [c]" by (simp add: escape_char_def)
    with False show ?thesis by (simp add: unescape_def)
  qed
qed

interpretation escaped: self_delimiting "\<lambda>_. True" escape_char
proof
  show "escape_char c @ r = escape_char d @ s \<Longrightarrow> c = d \<and> r = s" for c d r s
    using unescape_escape_char by (metis Pair_inject)
qed (simp add: escape_char_def)

lemma escape_char_not_quote: "escape_char c @ t \<noteq> 34 # r"
  by (auto simp: escape_char_def)

interpretation quoted: self_delimiting "\<lambda>_. True" quote
proof
  fix s t r r' assume "quote s @ r = quote t @ r'"
  then have "concat (map escape_char s) @ 34 # r = concat (map escape_char t) @ 34 # r'"
    by (simp add: quote_def)
  from escaped.delimits_sequence [OF this] show "s = t \<and> r = r'"
    using escape_char_not_quote by (auto simp: list_all_iff)
qed (simp add: quote_def)

section \<open>Numbers\<close>

fun nat_text :: "nat \<Rightarrow> ustr" where
  "nat_text n = (if n < 10 then [48 + n] else nat_text (n div 10) @ [48 + n mod 10])"

declare nat_text.simps [simp del]

definition int_text :: "int \<Rightarrow> ustr" where
  "int_text i = (if i < 0 then 45 # nat_text (nat (- i)) else nat_text (nat i))"

definition text_nat :: "ustr \<Rightarrow> nat" where
  "text_nat s = foldl (\<lambda>a c. 10 * a + (c - 48)) 0 s"

lemma text_nat_text [simp]: "text_nat (nat_text n) = n"
proof (induction n rule: nat_text.induct)
  case (1 n)
  then show ?case by (subst nat_text.simps) (auto simp: text_nat_def)
qed

lemma nat_text_digits: "set (nat_text n) \<subseteq> {48..57}" "nat_text n \<noteq> []"
proof -
  show "set (nat_text n) \<subseteq> {48..57}"
  proof (induction n rule: nat_text.induct)
    case (1 n)
    then show ?case by (subst nat_text.simps) (simp, linarith)
  qed
  show "nat_text n \<noteq> []" by (subst nat_text.simps) auto
qed

lemma int_text_inj: "int_text i = int_text j \<Longrightarrow> i = j"
proof -
  have "45 \<notin> set (nat_text n)" for n using nat_text_digits(1) [of n] by auto
  then have minus: "45 # t \<noteq> nat_text n" "nat_text n \<noteq> 45 # t" for n t
    by (metis list.set_intros(1))+
  assume "int_text i = int_text j"
  then show "i = j"
    using minus text_nat_text by (auto simp: int_text_def split: if_splits)
      (metis text_nat_text nat_eq_iff2 neg_0_less_iff_less neg_equal_iff_equal order_less_imp_le,
       metis text_nat_text eq_nat_nat_iff linorder_not_less)
qed

text \<open>What \<open>float.__repr__\<close> promises: distinct numerals, with a point or an exponent.\<close>

definition NUMERAL :: "nat set" where
  "NUMERAL = {43, 45, 46, 101} \<union> {48..57}"

definition float_texts :: "(rat \<Rightarrow> ustr) \<Rightarrow> bool" where
  "float_texts float_repr \<longleftrightarrow>
     inj float_repr \<and> (\<forall>r. set (float_repr r) \<subseteq> NUMERAL \<and> (46 \<in> set (float_repr r) \<or> 101 \<in> set (float_repr r)))"

section \<open>Values\<close>

text \<open>\<open>json.dumps\<close> in the order given; \<open>items\<close> and \<open>pairs\<close> print up to the closing bracket.\<close>

fun dumps :: "(rat \<Rightarrow> ustr) \<Rightarrow> json \<Rightarrow> ustr"
  and dump_items :: "(rat \<Rightarrow> ustr) \<Rightarrow> json list \<Rightarrow> ustr"
  and dump_pairs :: "(rat \<Rightarrow> ustr) \<Rightarrow> json_obj \<Rightarrow> ustr" where
  "dumps float_repr JNull = lit ''null''"
| "dumps float_repr (JBool b) = (if b then lit ''true'' else lit ''false'')"
| "dumps float_repr (JInt i) = int_text i"
| "dumps float_repr (JFloat (Finite r)) = float_repr r"
| "dumps float_repr (JFloat PosInf) = lit ''Infinity''"
| "dumps float_repr (JFloat NegInf) = lit ''-Infinity''"
| "dumps float_repr (JFloat NaN) = lit ''NaN''"
| "dumps float_repr (JStr s) = quote s"
| "dumps float_repr (JList xs) = 91 # dump_items float_repr xs"
| "dumps float_repr (JObj kvs) = 123 # dump_pairs float_repr kvs"
| "dump_items float_repr [] = [93]"
| "dump_items float_repr [x] = dumps float_repr x @ [93]"
| "dump_items float_repr (x # y # xs) = dumps float_repr x @ 44 # dump_items float_repr (y # xs)"
| "dump_pairs float_repr [] = [125]"
| "dump_pairs float_repr [(k, v)] = quote k @ 58 # dumps float_repr v @ [125]"
| "dump_pairs float_repr ((k, v) # p # kvs) =
     quote k @ 58 # dumps float_repr v @ 44 # dump_pairs float_repr (p # kvs)"

text \<open>\<open>sort_keys=True\<close>, at every depth; a dictionary's keys are distinct.\<close>

fun sort_keys :: "json \<Rightarrow> json" where
  "sort_keys (JList xs) = JList (map sort_keys xs)"
| "sort_keys (JObj kvs) = JObj (sort_key fst (map (\<lambda>(k, v). (k, sort_keys v)) kvs))"
| "sort_keys j = j"

definition canonical_text :: "(rat \<Rightarrow> ustr) \<Rightarrow> json \<Rightarrow> ustr" where
  "canonical_text float_repr j = dumps float_repr (sort_keys j)"

subsection \<open>The text determines the value\<close>

definition delimiter :: "nat set" where
  "delimiter = {44, 93, 125}"

definition ends :: "ustr \<Rightarrow> bool" where
  "ends r \<longleftrightarrow> r = [] \<or> hd r \<in> delimiter"

definition token :: "ustr \<Rightarrow> bool" where
  "token t \<longleftrightarrow> t \<noteq> [] \<and> set t \<inter> delimiter = {} \<and> hd t \<notin> {34, 91, 123}"

lemma ends_simps [simp]: "ends []" "ends (c # r) \<longleftrightarrow> c \<in> delimiter"
  "44 \<in> delimiter" "93 \<in> delimiter" "125 \<in> delimiter"
  by (simp_all add: ends_def delimiter_def)

lemma token_span:
  assumes "token t" "ends r"
  shows "takeWhile (\<lambda>c. c \<notin> delimiter) (t @ r) = t"
  using assms by (cases r) (auto simp: token_def intro: takeWhile_append2 [THEN trans])

lemma token_inj:
  assumes "t @ r = u @ s" "token t" "token u" "ends r" "ends s"
  shows "t = u \<and> r = s"
  using assms token_span by (metis same_append_eq)

fun scalar_json :: "json \<Rightarrow> bool" where
  "scalar_json (JStr s) = False"
| "scalar_json (JList xs) = False"
| "scalar_json (JObj kvs) = False"
| "scalar_json j = True"

lemma float_numeral:
  assumes "float_texts float_repr"
  shows "set (float_repr r) \<subseteq> NUMERAL" "float_repr r \<noteq> []"
    "46 \<in> set (float_repr r) \<or> 101 \<in> set (float_repr r)"
proof -
  show "set (float_repr r) \<subseteq> NUMERAL" "46 \<in> set (float_repr r) \<or> 101 \<in> set (float_repr r)"
    using assms unfolding float_texts_def by blast+
  then show "float_repr r \<noteq> []" by auto
qed

lemma NUMERAL_token:
  assumes "set t \<subseteq> NUMERAL" "t \<noteq> []"
  shows "token t"
  using assms by (cases t) (auto simp: token_def NUMERAL_def delimiter_def)

lemma int_text_numeral: "set (int_text i) \<subseteq> {45} \<union> {48..57}" "int_text i \<noteq> []"
  using nat_text_digits [of "nat i"] nat_text_digits [of "nat (- i)"] by (auto simp: int_text_def)

lemma scalar_token:
  assumes "float_texts float_repr" "scalar_json j"
  shows "token (dumps float_repr j)"
proof -
  have f: "token (float_repr r)" for r
    by (intro NUMERAL_token float_numeral [OF assms(1)])
  have i: "token (int_text i)" for i
    using int_text_numeral [of i] by (intro NUMERAL_token) (auto simp: NUMERAL_def)
  show ?thesis
    using assms(2) f i
    by (cases j rule: scalar_json.cases; cases "case j of JFloat x \<Rightarrow> x | _ \<Rightarrow> NaN")
      (auto simp: token_def delimiter_def)
qed

lemma scalar_dumps_inj:
  assumes "float_texts float_repr" "scalar_json i" "scalar_json j"
    and "dumps float_repr i = dumps float_repr j"
  shows "i = j"
proof -
  define words where "words = [JNull, JBool True, JBool False, JFloat PosInf, JFloat NegInf, JFloat NaN]"
  have kinds: "k \<in> set words \<or> (\<exists>n. k = JInt n) \<or> (\<exists>r. k = JFloat (Finite r))" if "scalar_json k" for k
    using that by (cases "(float_repr, k)" rule: dumps.cases) (auto simp: words_def)
  have "list_all (\<lambda>k. \<not> set (dumps float_repr k) \<subseteq> NUMERAL) words"
    by (simp add: words_def NUMERAL_def)
  then have word: "k \<in> set words \<Longrightarrow> \<not> set (dumps float_repr k) \<subseteq> NUMERAL" for k
    by (simp add: list_all_iff)
  have number: "set (int_text n) \<subseteq> NUMERAL" "46 \<notin> set (int_text n)" "101 \<notin> set (int_text n)" for n
    using int_text_numeral(1) [of n] by (auto simp: NUMERAL_def)
  note float = float_numeral(1,3) [OF assms(1)]
  have "distinct (map (dumps float_repr) words)" by (simp add: words_def)
  then have words_inj: "inj_on (dumps float_repr) (set words)" by (simp add: distinct_map)
  from kinds [OF assms(2)] show ?thesis
  proof (elim disjE exE)
    assume i: "i \<in> set words"
    with word assms(4) number(1) float(1) have "j \<in> set words" using kinds [OF assms(3)] by fastforce
    with i assms(4) words_inj show ?thesis by (simp add: inj_on_eq_iff)
  next
    fix n assume "i = JInt n"
    with kinds [OF assms(3)] assms(4) word number float show ?thesis
      by (metis dumps.simps(3,4) int_text_inj)
  next
    fix r assume "i = JFloat (Finite r)"
    with kinds [OF assms(3)] assms(4) word number float show ?thesis
      by (metis assms(1) dumps.simps(3,4) float_texts_def injD)
  qed
qed

lemma container_hd:
  "hd (dumps float_repr (JStr t)) = 34" "hd (dumps float_repr (JList xs)) = 91"
  "hd (dumps float_repr (JObj kvs)) = 123"
  by (simp_all add: quote_def)

lemma dumps_hd:
  assumes "float_texts float_repr"
  shows "dumps float_repr j \<noteq> []" "hd (dumps float_repr j) \<notin> delimiter"
    "scalar_json j \<longleftrightarrow> hd (dumps float_repr j) \<notin> {34, 91, 123}"
proof -
  have "dumps float_repr j \<noteq> [] \<and> hd (dumps float_repr j) \<notin> delimiter
    \<and> (scalar_json j \<longleftrightarrow> hd (dumps float_repr j) \<notin> {34, 91, 123})"
  proof (cases "scalar_json j")
    case True
    with scalar_token [OF assms True] show ?thesis by (cases "dumps float_repr j") (auto simp: token_def)
  next
    case False
    then show ?thesis by (cases j) (auto simp: quote_def delimiter_def)
  qed
  then show "dumps float_repr j \<noteq> []" "hd (dumps float_repr j) \<notin> delimiter"
    "scalar_json j \<longleftrightarrow> hd (dumps float_repr j) \<notin> {34, 91, 123}" by blast+
qed

text \<open>A text starts the way its value's constructor says, so two equal texts have the same one.\<close>

lemma same_constructor:
  assumes "float_texts float_repr" "dumps float_repr i @ r = dumps float_repr j @ s"
  shows "scalar_json i \<longleftrightarrow> scalar_json j" "(\<exists>t. i = JStr t) \<longleftrightarrow> (\<exists>t. j = JStr t)"
    "(\<exists>xs. i = JList xs) \<longleftrightarrow> (\<exists>xs. j = JList xs)" "(\<exists>kvs. i = JObj kvs) \<longleftrightarrow> (\<exists>kvs. j = JObj kvs)"
proof -
  have hd: "hd (dumps float_repr i) = hd (dumps float_repr j)"
    using assms(2) dumps_hd(1) [OF assms(1)] by (metis hd_append2)
  then show scalar: "scalar_json i \<longleftrightarrow> scalar_json j"
    using dumps_hd(3) [OF assms(1)] by metis
  show "(\<exists>t. i = JStr t) \<longleftrightarrow> (\<exists>t. j = JStr t)" "(\<exists>xs. i = JList xs) \<longleftrightarrow> (\<exists>xs. j = JList xs)"
    "(\<exists>kvs. i = JObj kvs) \<longleftrightarrow> (\<exists>kvs. j = JObj kvs)"
    using hd scalar
    by (cases i; cases j; simp only: container_hd scalar_json.simps; simp)+
qed

definition read_back :: "(rat \<Rightarrow> ustr) \<Rightarrow> json \<Rightarrow> bool" where
  "read_back float_repr i \<longleftrightarrow>
     (\<forall>j r s. dumps float_repr i @ r = dumps float_repr j @ s \<longrightarrow> ends r \<longrightarrow> ends s \<longrightarrow> i = j \<and> r = s)"

lemma read_backD:
  "read_back float_repr i \<Longrightarrow> dumps float_repr i @ r = dumps float_repr j @ s \<Longrightarrow> ends r \<Longrightarrow> ends s \<Longrightarrow>
     i = j \<and> r = s"
  unfolding read_back_def by blast

lemma items_read_back:
  assumes "float_texts float_repr"
  shows "\<forall>x \<in> set xs. read_back float_repr x \<Longrightarrow>
    dump_items float_repr xs @ r = dump_items float_repr ys @ s \<Longrightarrow> xs = ys \<and> r = s"
proof (induction xs arbitrary: ys rule: induct_list012)
  note no_bracket = dumps_hd(1,2) [OF assms]
  have start: "dumps float_repr y @ t \<noteq> 93 # u" for y t u
    using no_bracket [of y] by (cases "dumps float_repr y") (auto simp: delimiter_def)
  {
    case 1
    then show ?case
      using start by (cases "(float_repr, ys)" rule: dump_items.cases) (auto simp: eq_commute [of "93 # _"])
  next
    case (2 x)
    then obtain y t where ys: "ys = y # t"
      using start [of x "93 # r"] by (cases ys) auto
    have t: "dump_items float_repr ys = dumps float_repr y @ (if t = [] then [93] else 44 # dump_items float_repr t)"
      using ys by (cases t) auto
    have "x = y \<and> 93 # r = (if t = [] then [93] else 44 # dump_items float_repr t) @ s"
      by (rule read_backD) (use 2 t in \<open>auto split: if_splits\<close>)
    with ys show ?case by (auto split: if_splits)
  next
    case (3 x x' xs)
    then obtain y t where ys: "ys = y # t"
      using start [of x "44 # dump_items float_repr (x' # xs) @ r"] by (cases ys) auto
    have t: "dump_items float_repr ys = dumps float_repr y @ (if t = [] then [93] else 44 # dump_items float_repr t)"
      using ys by (cases t) auto
    have "x = y \<and> 44 # dump_items float_repr (x' # xs) @ r
        = (if t = [] then [93] else 44 # dump_items float_repr t) @ s"
      by (rule read_backD) (use 3 t in \<open>auto split: if_splits\<close>)
    then have "x = y" "dump_items float_repr (x' # xs) @ r = dump_items float_repr t @ s"
      by (auto split: if_splits)
    with 3 ys show ?case by auto
  }
qed

lemma pairs_read_back:
  assumes "float_texts float_repr"
  shows "\<forall>kv \<in> set kvs. read_back float_repr (snd kv) \<Longrightarrow>
    dump_pairs float_repr kvs @ r = dump_pairs float_repr lws @ s \<Longrightarrow> kvs = lws \<and> r = s"
proof (induction kvs arbitrary: lws rule: induct_list012)
  have start: "quote k @ t \<noteq> 125 # u" for k t u by (simp add: quote_def)
  have shape: "dump_pairs float_repr ((k, v) # t)
      = quote k @ 58 # dumps float_repr v @ (if t = [] then [125] else 44 # dump_pairs float_repr t)" for k v t
    by (cases t) auto
  {
    case 1
    then show ?case
      using start by (cases lws) (auto simp: shape eq_commute [of "125 # _"])
  next
    case (2 kv)
    then obtain k v l w t where kv: "kv = (k, v)" and lws: "lws = (l, w) # t"
      using start by (cases kv; cases lws) (auto simp: shape)
    from 2(2) have "quote k @ 58 # dumps float_repr v @ 125 # r = quote l @ 58 # dumps float_repr w
        @ (if t = [] then [125] else 44 # dump_pairs float_repr t) @ s"
      unfolding kv lws shape by simp
    from quoted.delimits [OF this] have "k = l" and
      v: "dumps float_repr v @ 125 # r
        = dumps float_repr w @ (if t = [] then [125] else 44 # dump_pairs float_repr t) @ s"
      by auto
    moreover have "v = w \<and> 125 # r = (if t = [] then [125] else 44 # dump_pairs float_repr t) @ s"
      by (rule read_backD [OF _ v]) (use 2 kv in auto)
    ultimately show ?case using kv lws by (auto split: if_splits)
  next
    case (3 kv p kvs)
    then obtain k v l w t where kv: "kv = (k, v)" and lws: "lws = (l, w) # t"
      using start by (cases kv; cases lws) (auto simp: shape)
    from 3(4) have "quote k @ 58 # dumps float_repr v @ 44 # dump_pairs float_repr (p # kvs) @ r
        = quote l @ 58 # dumps float_repr w
          @ (if t = [] then [125] else 44 # dump_pairs float_repr t) @ s"
      unfolding kv lws shape by simp
    from quoted.delimits [OF this] have k: "k = l" and
      v: "dumps float_repr v @ 44 # dump_pairs float_repr (p # kvs) @ r
        = dumps float_repr w @ (if t = [] then [125] else 44 # dump_pairs float_repr t) @ s"
      by auto
    have "v = w \<and> 44 # dump_pairs float_repr (p # kvs) @ r
        = (if t = [] then [125] else 44 # dump_pairs float_repr t) @ s"
      by (rule read_backD [OF _ v]) (use 3(3) kv in auto)
    then have "v = w" "dump_pairs float_repr (p # kvs) @ r = dump_pairs float_repr t @ s"
      by (auto split: if_splits)
    with 3 k kv lws show ?case by auto
  }
qed

lemma scalar_read_back:
  assumes "float_texts float_repr" "scalar_json i"
  shows "read_back float_repr i"
  unfolding read_back_def
proof (intro allI impI)
  fix j r s
  assume eq: "dumps float_repr i @ r = dumps float_repr j @ s" and e: "ends r" "ends s"
  have j: "scalar_json j" using same_constructor(1) [OF assms(1) eq] assms(2) by blast
  have "dumps float_repr i = dumps float_repr j \<and> r = s"
    by (rule token_inj [OF eq scalar_token [OF assms] scalar_token [OF assms(1) j] e])
  then show "i = j \<and> r = s" using scalar_dumps_inj [OF assms j] by blast
qed

theorem dumps_read_back:
  assumes "float_texts float_repr"
  shows "read_back float_repr i"
proof (induction i)
  case (JStr t)
  show ?case
    unfolding read_back_def
  proof (intro allI impI)
    fix j r s assume eq: "dumps float_repr (JStr t) @ r = dumps float_repr j @ s"
    then obtain u where j: "j = JStr u" using same_constructor(2) [OF assms eq] by blast
    with eq show "JStr t = j \<and> r = s" using quoted.delimits [of t r u s] by simp
  qed
next
  case (JList xs)
  show ?case
    unfolding read_back_def
  proof (intro allI impI)
    fix j r s assume eq: "dumps float_repr (JList xs) @ r = dumps float_repr j @ s"
    then obtain ys where j: "j = JList ys" using same_constructor(3) [OF assms eq] by blast
    with eq show "JList xs = j \<and> r = s"
      using items_read_back [OF assms, of xs r ys s] JList by auto
  qed
next
  case (JObj kvs)
  have all: "\<forall>kv \<in> set kvs. read_back float_repr (snd kv)"
  proof
    fix kv assume "kv \<in> set kvs"
    then show "read_back float_repr (snd kv)" by (intro JObj [of kv]) (auto intro: snds.intros)
  qed
  show ?case
    unfolding read_back_def
  proof (intro allI impI)
    fix j r s assume eq: "dumps float_repr (JObj kvs) @ r = dumps float_repr j @ s"
    then obtain lws where j: "j = JObj lws" using same_constructor(4) [OF assms eq] by blast
    with eq show "JObj kvs = j \<and> r = s"
      using pairs_read_back [OF assms all, of r lws s] by simp
  qed
qed (rule scalar_read_back [OF assms], simp)+

lemma canonical_text_inj:
  assumes "float_texts float_repr" "canonical_text float_repr i = canonical_text float_repr j"
  shows "sort_keys i = sort_keys j"
  using read_backD [OF dumps_read_back [OF assms(1)], of "sort_keys i" "[]" "sort_keys j" "[]"] assms(2)
  by (simp add: canonical_text_def)

section \<open>The same value up to the order of keys\<close>

definition same_json :: "json \<Rightarrow> json \<Rightarrow> bool" where
  "same_json i j \<longleftrightarrow> sort_keys i = sort_keys j"

lemma canonical_text_iff:
  "float_texts float_repr \<Longrightarrow> canonical_text float_repr i = canonical_text float_repr j \<longleftrightarrow> same_json i j"
  using canonical_text_inj by (auto simp: same_json_def canonical_text_def)

lemma same_json_refl [simp]: "same_json j j"
  by (simp add: same_json_def)

lemma same_json_JList:
  "same_json (JList xs) (JList ys) \<longleftrightarrow> list_all2 same_json xs ys"
  by (auto simp: same_json_def list_all2_conv_all_nth list_eq_iff_nth_eq)

definition sorted_values :: "json_obj \<Rightarrow> json_obj" where
  "sorted_values kvs = map (\<lambda>(k, v). (k, sort_keys v)) kvs"

lemma sorted_values_simps:
  "map fst (sorted_values kvs) = map fst kvs" "map snd (sorted_values kvs) = map (sort_keys \<circ> snd) kvs"
  "fst ` set (sorted_values kvs) = fst ` set kvs"
  by (simp_all add: sorted_values_def split_beta comp_def image_image)

lemma map_of_eqI_lists:
  assumes "map_of xs = map_of ys" "map fst xs = map fst ys" "distinct (map fst xs)"
  shows "xs = ys"
proof (rule nth_equalityI)
  show len: "length xs = length ys" using assms(2) by (metis length_map)
  fix i assume i: "i < length xs"
  have "map_of xs (fst (xs ! i)) = Some (snd (xs ! i))" "map_of ys (fst (ys ! i)) = Some (snd (ys ! i))"
    using assms(2,3) i len by (auto intro!: map_of_is_SomeI)
  moreover have "fst (xs ! i) = fst (ys ! i)"
    using assms(2) i len by (metis nth_map)
  ultimately show "xs ! i = ys ! i" using assms(1) by (simp add: prod_eq_iff)
qed

lemma same_json_keys: "same_json (JObj kvs) (JObj lws) \<Longrightarrow> fst ` set kvs = fst ` set lws"
  unfolding same_json_def
  by (simp flip: sorted_values_def) (metis set_sort sorted_values_simps(3))

lemma same_json_fields:
  assumes "map fst kvs = map fst lws" "distinct (map fst kvs)"
  shows "same_json (JObj kvs) (JObj lws) \<longleftrightarrow> list_all2 same_json (map snd kvs) (map snd lws)"
proof
  assume "same_json (JObj kvs) (JObj lws)"
  then have "sort_key fst (sorted_values kvs) = sort_key fst (sorted_values lws)"
    by (simp add: same_json_def sorted_values_def)
  then have "map_of (sorted_values kvs) = map_of (sorted_values lws)"
    using assms by (metis map_of_sort_key sorted_values_simps(1))
  moreover have "distinct (map fst (sorted_values kvs))"
    "map fst (sorted_values kvs) = map fst (sorted_values lws)"
    using assms by (simp_all add: sorted_values_simps)
  ultimately have "sorted_values kvs = sorted_values lws"
    by (metis map_of_eqI_lists)
  then have "map (sort_keys \<circ> snd) kvs = map (sort_keys \<circ> snd) lws"
    by (metis sorted_values_simps(2))
  then show "list_all2 same_json (map snd kvs) (map snd lws)"
    by (simp add: list_all2_conv_all_nth list_eq_iff_nth_eq same_json_def)
next
  assume "list_all2 same_json (map snd kvs) (map snd lws)"
  with assms(1) have "sorted_values kvs = sorted_values lws"
    by (auto simp: list_all2_conv_all_nth list_eq_iff_nth_eq same_json_def sorted_values_def split_beta)
  then show "same_json (JObj kvs) (JObj lws)"
    by (simp add: same_json_def sorted_values_def)
qed

section \<open>UTF-8\<close>

type_synonym bytes = "8 word list"

definition byte :: "nat \<Rightarrow> 8 word" where
  "byte n = word_of_nat n"

lemma unat_byte [simp]: "n < 256 \<Longrightarrow> unat (byte n) = n"
  by (simp add: byte_def unat_of_nat)

text \<open>One code point; a lone surrogate has no encoding.\<close>

definition utf8_char :: "nat \<Rightarrow> bytes" where
  "utf8_char c = map byte
     (if c < 0x80 then [c]
      else if c < 0x800 then [0xC0 + c div 64, 0x80 + c mod 64]
      else if c < 0x10000 then [0xE0 + c div 4096, 0x80 + c div 64 mod 64, 0x80 + c mod 64]
      else [0xF0 + c div 262144, 0x80 + c div 4096 mod 64, 0x80 + c div 64 mod 64, 0x80 + c mod 64])"

definition encodable :: "nat \<Rightarrow> bool" where
  "encodable c \<longleftrightarrow> c < 0x110000 \<and> \<not> surrogate c"

definition encode_utf8 :: "ustr \<Rightarrow> bytes option" where
  "encode_utf8 s = (if list_all encodable s then Some (concat (map utf8_char s)) else None)"

text \<open>Reading one code point back.\<close>

definition read_utf8 :: "bytes \<Rightarrow> nat \<times> bytes" where
  "read_utf8 t =
     (let b = (\<lambda>i. unat (t ! i))
      in if b 0 < 0x80 then (b 0, drop 1 t)
         else if b 0 < 0xE0 then ((b 0 - 0xC0) * 64 + (b 1 - 0x80), drop 2 t)
         else if b 0 < 0xF0 then ((b 0 - 0xE0) * 4096 + (b 1 - 0x80) * 64 + (b 2 - 0x80), drop 3 t)
         else ((b 0 - 0xF0) * 262144 + (b 1 - 0x80) * 4096 + (b 2 - 0x80) * 64 + (b 3 - 0x80), drop 4 t))"

lemma base_64:
  "n div 64 * 64 + n mod 64 = n" "n div 4096 * 64 + n div 64 mod 64 = n div 64"
  "n div 262144 * 64 + n div 4096 mod 64 = n div 4096" for n :: nat
  using div_mult_mod_eq [of n 64] div_mult_mod_eq [of "n div 64" 64] div_mult_mod_eq [of "n div 4096" 64]
  by (simp_all add: div_mult2_eq [symmetric])

lemma read_utf8_char:
  assumes "c < 0x110000"
  shows "read_utf8 (utf8_char c @ r) = (c, r)"
proof -
  consider "c < 0x80" | "0x80 \<le> c" "c < 0x800" | "0x800 \<le> c" "c < 0x10000" | "0x10000 \<le> c" by linarith
  then show ?thesis
  proof cases
    case 1
    then show ?thesis by (simp add: utf8_char_def read_utf8_def)
  next
    case 2
    have "c div 64 < 32" "c div 64 * 64 + c mod 64 = c" using 2 by auto
    with 2 show ?thesis by (simp add: utf8_char_def read_utf8_def)
  next
    case 3
    have "c div 4096 < 16" "c div 4096 * 4096 + c div 64 mod 64 * 64 + c mod 64 = c"
      using 3 base_64 [of c] by linarith+
    with 3 show ?thesis by (simp add: utf8_char_def read_utf8_def)
  next
    case 4
    have "c div 262144 < 5"
      "c div 262144 * 262144 + c div 4096 mod 64 * 4096 + c div 64 mod 64 * 64 + c mod 64 = c"
      using assms base_64 [of c] by linarith+
    with 4 show ?thesis by (simp add: utf8_char_def read_utf8_def)
  qed
qed

interpretation utf8: self_delimiting encodable utf8_char
proof
  show "utf8_char c @ r = utf8_char d @ s \<Longrightarrow> encodable c \<Longrightarrow> encodable d \<Longrightarrow> c = d \<and> r = s" for c d r s
    using read_utf8_char by (metis Pair_inject encodable_def)
qed (simp add: utf8_char_def)

lemma encode_utf8_inj:
  "encode_utf8 s = Some b \<Longrightarrow> encode_utf8 t = Some b \<Longrightarrow> s = t"
  by (auto simp: encode_utf8_def intro: utf8.sequence_inj split: if_splits)

end
