(* ===== verification/Python_Text.thy ===== *)
theory Python_Text
  imports Prelude
begin

text \<open>
  The operations of \<open>str\<close> the services use on configuration and wire text: \<open>isspace\<close>, \<open>strip\<close>,
  \<open>split\<close> on one character and \<open>partition\<close>.
\<close>

definition whitespace :: "nat set" where
  "whitespace = {9, 10, 11, 12, 13, 28, 29, 30, 31, 32, 0x85, 0xA0, 0x1680, 0x2000, 0x2001, 0x2002,
     0x2003, 0x2004, 0x2005, 0x2006, 0x2007, 0x2008, 0x2009, 0x200A, 0x2028, 0x2029, 0x202F, 0x205F,
     0x3000}"

text \<open>\<open>not s.strip()\<close>\<close>

definition blank :: "ustr \<Rightarrow> bool" where
  "blank s \<longleftrightarrow> list_all (\<lambda>c. c \<in> whitespace) s"

definition strip :: "ustr \<Rightarrow> ustr" where
  "strip s = rev (dropWhile (\<lambda>c. c \<in> whitespace) (rev (dropWhile (\<lambda>c. c \<in> whitespace) s)))"

lemma dropWhile_rejected: "list_all P (dropWhile P s) \<longleftrightarrow> list_all P s"
  by (induction s) auto

lemma dropWhile_Nil_iff: "dropWhile P s = [] \<longleftrightarrow> list_all P s"
  by (simp add: dropWhile_eq_Nil_conv list_all_iff)

lemma list_all_rev: "list_all P (rev s) \<longleftrightarrow> list_all P s"
  by (simp add: list_all_iff)

lemma strip_Nil_iff [simp]: "strip s = [] \<longleftrightarrow> blank s"
  by (simp only: strip_def blank_def dropWhile_Nil_iff list_all_rev dropWhile_rejected rev_is_Nil_conv)

lemma blank_strip [simp]: "blank (strip s) \<longleftrightarrow> blank s"
  by (simp only: strip_def blank_def list_all_rev dropWhile_rejected)

text \<open>\<open>s.split(sep)\<close>\<close>

fun split_on :: "nat \<Rightarrow> ustr \<Rightarrow> ustr list" where
  "split_on sep [] = [[]]"
| "split_on sep (c # cs) =
     (if c = sep then [] # split_on sep cs
      else (case split_on sep cs of [] \<Rightarrow> [[c]] | w # ws \<Rightarrow> (c # w) # ws))"

text \<open>\<open>s.partition(sep)\<close>: the text before the first separator and, if there is one, the text after.\<close>

fun partition_on :: "nat \<Rightarrow> ustr \<Rightarrow> ustr \<times> ustr option" where
  "partition_on sep [] = ([], None)"
| "partition_on sep (c # cs) =
     (if c = sep then ([], Some cs)
      else (case partition_on sep cs of (before, rest) \<Rightarrow> (c # before, rest)))"

lemma partition_on_text:
  "partition_on sep s = (before, rest) \<Longrightarrow>
     sep \<notin> set before \<and> s = before @ (case rest of None \<Rightarrow> [] | Some t \<Rightarrow> sep # t)"
  by (induction s arbitrary: before) (auto split: if_splits prod.splits)

end
