(* ===== verification/Escrow.thy ===== *)
theory Escrow
  imports Json_Text Gate_Contract Python_Text
begin

text \<open>
  \<open>app/audit/artifacts.py\<close>: the evidence escrow, bytes kept once under their SHA-256 digest,
  and the interface a gate uses it through (\<open>EvidenceEscrow\<close> of \<open>rules_gate/gate.py\<close>).
  SHA-256 is a parameter; the table's checks pin every key to its content.
\<close>

section \<open>The store\<close>

record artifact =
  media_type :: ustr
  byte_length :: nat
  artifact_bytes :: bytes
  first_decision_id :: ustr
  first_gate_id :: ustr

type_synonym artifact_table = "ustr \<rightharpoonup> artifact"

type_synonym digest = "bytes \<Rightarrow> ustr"

datatype escrow_error = BlankField string | EscrowStatementFailed

text \<open>\<open>_INSERT_ARTIFACT\<close>; a text parameter Postgres cannot take fails the statement.\<close>

definition insert_artifact ::
    "ustr \<Rightarrow> artifact \<Rightarrow> artifact_table \<Rightarrow> artifact_table \<times> (escrow_error + unit)" where
  "insert_artifact key row table =
     (if text_problem (media_type row) \<noteq> None \<or> text_problem (first_decision_id row) \<noteq> None
         \<or> text_problem (first_gate_id row) \<noteq> None
      then (table, Inl EscrowStatementFailed)
      else (insert_new key row table, Inr ()))"

definition put_artifact ::
    "digest \<Rightarrow> bool \<Rightarrow> bytes \<Rightarrow> ustr \<Rightarrow> ustr \<Rightarrow> ustr \<Rightarrow> artifact_table
      \<Rightarrow> artifact_table \<times> (escrow_error + ustr option)" where
  "put_artifact sha256 enabled content media decision gate table =
     (if blank media then (table, Inl (BlankField ''media_type''))
      else if blank decision then (table, Inl (BlankField ''decision_id''))
      else if blank gate then (table, Inl (BlankField ''gate_id''))
      else if \<not> enabled then (table, Inr None)
      else (case insert_artifact (sha256 content)
                   \<lparr>media_type = media, byte_length = length content, artifact_bytes = content,
                    first_decision_id = decision, first_gate_id = gate\<rparr> table of
              (table', Inl e) \<Rightarrow> (table', Inl e)
            | (table', Inr _) \<Rightarrow> (table', Inr (Some (sha256 content)))))"

definition get_artifact :: "artifact_table \<Rightarrow> ustr \<Rightarrow> bytes option" where
  "get_artifact table h = (if sha256_hex h then map_option artifact_bytes (table h) else None)"

definition held_artifacts :: "artifact_table \<Rightarrow> ustr set \<Rightarrow> ustr set" where
  "held_artifacts table hashes = {h \<in> hashes. sha256_hex h} \<inter> dom table"

section \<open>The interface gates rely on\<close>

locale evidence_escrow =
  fixes put :: "bytes \<Rightarrow> ustr \<Rightarrow> ustr \<Rightarrow> ustr \<Rightarrow> 's \<Rightarrow> 's \<times> (escrow_error + ustr option)"
    and get :: "'s \<Rightarrow> ustr \<Rightarrow> bytes option"
    and sound :: "'s \<Rightarrow> bool"
    and address :: "bytes \<Rightarrow> ustr"
  assumes put_sound: "put c m d g s = (s', r) \<Longrightarrow> sound s \<Longrightarrow> sound s'"
    and put_keeps: "put c m d g s = (s', r) \<Longrightarrow> get s h = Some b \<Longrightarrow> get s' h = Some b"
    and put_holds: "put c m d g s = (s', Inr (Some h)) \<Longrightarrow> sound s \<Longrightarrow>
      h = address c \<and> get s' h \<noteq> None"
    and get_addressed: "sound s \<Longrightarrow> get s h = Some b \<Longrightarrow> address b = h"
begin

text \<open>What was escrowed can be read back ever after, as content with the same address.\<close>

lemma kept_along:
  "(\<lambda>s t. \<exists>c m d g r. put c m d g s = (t, r))\<^sup>*\<^sup>* s t \<Longrightarrow>
     (sound s \<longrightarrow> sound t) \<and> (\<forall>h b. get s h = Some b \<longrightarrow> get t h = Some b)"
  by (induction rule: rtranclp_induct) (blast intro: put_sound put_keeps)+

lemma escrowed_is_held:
  assumes "put c m d g s = (s1, Inr (Some h))" "sound s"
    and "(\<lambda>s t. \<exists>c m d g r. put c m d g s = (t, r))\<^sup>*\<^sup>* s1 s2"
  shows "\<exists>b. get s2 h = Some b \<and> address b = address c"
proof -
  from put_holds [OF assms(1,2)] obtain b where h: "h = address c" "get s1 h = Some b" by auto
  then have "get s2 h = Some b" using kept_along [OF assms(3)] by blast
  then show ?thesis using get_addressed [OF put_sound [OF assms(1,2)] h(2)] h(1) by auto
qed

end

text \<open>The table's checks: every row lies under the digest of its bytes, with their length.\<close>

definition addressed :: "digest \<Rightarrow> artifact_table \<Rightarrow> bool" where
  "addressed sha256 table \<longleftrightarrow> (\<forall>c. sha256_hex (sha256 c))
     \<and> (\<forall>h row. table h = Some row \<longrightarrow> h = sha256 (artifact_bytes row)
          \<and> byte_length row = length (artifact_bytes row))"

lemma put_artifact_cases:
  assumes "put_artifact sha256 enabled c m d g table = (table', r)"
  shows "table' = table \<and> (\<nexists>h. r = Inr (Some h))
    \<or> r = Inr (Some (sha256 c)) \<and> table' = insert_new (sha256 c)
        \<lparr>media_type = m, byte_length = length c, artifact_bytes = c, first_decision_id = d,
         first_gate_id = g\<rparr> table"
  using assms by (auto simp: put_artifact_def insert_artifact_def split: if_splits)

interpretation escrow: evidence_escrow "put_artifact sha256 enabled" get_artifact "addressed sha256" sha256
  for sha256 enabled
proof
  fix c m d g s s' r h b
  {
    assume "put_artifact sha256 enabled c m d g s = (s', r)" "addressed sha256 s"
    from put_artifact_cases [OF this(1)] this(2) show "addressed sha256 s'"
      by (auto simp: addressed_def insert_new_def split: option.splits if_splits)
  next
    assume "put_artifact sha256 enabled c m d g s = (s', r)" "get_artifact s h = Some b"
    from put_artifact_cases [OF this(1)] this(2) show "get_artifact s' h = Some b"
      by (auto simp: get_artifact_def row_map.held_stays split: if_splits)
  next
    assume "put_artifact sha256 enabled c m d g s = (s', Inr (Some h))" "addressed sha256 s"
    from put_artifact_cases [OF this(1)] this(2) show "h = sha256 c \<and> get_artifact s' h \<noteq> None"
      by (auto simp: get_artifact_def addressed_def insert_new_def split: option.splits)
  next
    assume "addressed sha256 s" "get_artifact s h = Some b"
    then show "sha256 b = h" by (auto simp: get_artifact_def addressed_def split: if_splits)
  }
qed

end
