(* ===== verification/Registration_Version.thy ===== *)
theory Registration_Version
  imports Json_Text Registration "HOL-Library.Multiset"
begin

text \<open>
  The canonical form and the version of a registration (\<open>canonical_registration\<close> and
  \<open>registration_version\<close> of \<open>core/observation/registration.py\<close>), with the JSON form of what a
  registration holds. SHA-256, as the hexadecimal digest of some bytes, is a parameter.
\<close>

section \<open>JSON forms\<close>

fun action_text :: "decision_action \<Rightarrow> ustr" where
  "action_text ALLOW = lit ''ALLOW''"
| "action_text CHALLENGE = lit ''CHALLENGE''"
| "action_text HOLD = lit ''HOLD''"
| "action_text BLOCK = lit ''BLOCK''"

fun op_text :: "compare_op \<Rightarrow> ustr" where
  "op_text Eq = lit ''eq''"
| "op_text Ne = lit ''ne''"
| "op_text Lt = lit ''lt''"
| "op_text Le = lit ''le''"
| "op_text Gt = lit ''gt''"
| "op_text Ge = lit ''ge''"
| "op_text In = lit ''in''"
| "op_text NotIn = lit ''not_in''"

fun dump_scalar :: "scalar \<Rightarrow> json" where
  "dump_scalar (SBool b) = JBool b"
| "dump_scalar (SInt i) = JInt i"
| "dump_scalar (SFloat r) = JFloat (Finite r)"
| "dump_scalar (SStr s) = JStr s"

fun dump_value :: "compare_value \<Rightarrow> json" where
  "dump_value (VScalar s) = dump_scalar s"
| "dump_value (VList xs) = JList (map dump_scalar xs)"

fun dump_predicate :: "predicate \<Rightarrow> json" where
  "dump_predicate (Compare f op v) =
     JObj [(lit ''kind'', JStr (lit ''compare'')), (lit ''field'', JStr f), (lit ''op'', JStr (op_text op)),
           (lit ''value'', dump_value v)]"
| "dump_predicate (AllOf ps) =
     JObj [(lit ''kind'', JStr (lit ''all'')), (lit ''predicates'', JList (map dump_predicate ps))]"
| "dump_predicate (AnyOf ps) =
     JObj [(lit ''kind'', JStr (lit ''any'')), (lit ''predicates'', JList (map dump_predicate ps))]"
| "dump_predicate (NotP p) =
     JObj [(lit ''kind'', JStr (lit ''not'')), (lit ''predicate'', dump_predicate p)]"

text \<open>\<open>str(uuid)\<close>.\<close>

fun hex_text :: "nat \<Rightarrow> nat \<Rightarrow> ustr" where
  "hex_text 0 n = []"
| "hex_text (Suc k) n = hex_text k (n div 16) @ [hex_digit (n mod 16)]"

definition uuid_text :: "uuid \<Rightarrow> ustr" where
  "uuid_text u =
     (let h = hex_text 32 (unat u)
      in take 8 h @ 45 # take 4 (drop 8 h) @ 45 # take 4 (drop 12 h) @ 45 # take 4 (drop 16 h)
         @ 45 # drop 20 h)"

definition dump_binding :: "gate_binding \<Rightarrow> json" where
  "dump_binding b =
     JObj ([(lit ''gate_id'', JStr (binding_gate_id b)), (lit ''mandatory'', JBool (mandatory b))]
       @ (if config b = [] then [] else [(lit ''config'', JObj (config b))]))"

definition dump_rule :: "bypass_rule \<Rightarrow> json" where
  "dump_rule r =
     JObj [(lit ''rule_id'', JStr (rule_id r)), (lit ''version'', JStr (rule_version r)),
           (lit ''description'', JStr (rule_description r)),
           (lit ''predicate'', dump_predicate (rule_predicate r)),
           (lit ''action'', JStr (action_text (rule_action r)))]"

definition dump_namespace :: "native_namespace \<Rightarrow> json" where
  "dump_namespace n =
     JObj [(lit ''native_namespace'', JStr (namespace_name n)),
           (lit ''namespace_uuid'', JStr (uuid_text (namespace_uuid n))),
           (lit ''entity_type'', JStr (namespace_entity_type n))]"

definition dump_text :: "ustr option \<Rightarrow> json" where
  "dump_text t = (case t of None \<Rightarrow> JNull | Some s \<Rightarrow> JStr s)"

definition sorted_texts :: "ustr set \<Rightarrow> json" where
  "sorted_texts A = JList (map JStr (sorted_list_of_set A))"

definition canonical_registration :: "reasoner_registration \<Rightarrow> json_obj" where
  "canonical_registration r =
     [(lit ''reasoner_id'', JStr (registered_reasoner_id r)),
      (lit ''reasoner_name'', JStr (registered_reasoner_name r)),
      (lit ''gates'', JList (map dump_binding (gates r))),
      (lit ''bypass_rules'', JList (map dump_rule (bypass_rules r))),
      (lit ''recordable_actions'', sorted_texts (action_text ` recordable_actions r))]
     @ (if native_namespaces r = [] then []
        else [(lit ''native_namespaces'',
               JList (map dump_namespace (sort_key namespace_name (native_namespaces r))))])
     @ [(lit ''novel_entity_feature'', dump_text (novel_entity_feature r)),
        (lit ''jurisdiction_conflict_groups'',
         JList (map sorted_texts (jurisdiction_conflict_groups r)))]"

definition REGISTRATION_VERSION_LENGTH :: nat where
  "REGISTRATION_VERSION_LENGTH = 16"

text \<open>\<open>None\<close> is the \<open>UnicodeEncodeError\<close> of a text with a lone surrogate.\<close>

definition canonical_bytes :: "(rat \<Rightarrow> ustr) \<Rightarrow> json \<Rightarrow> bytes option" where
  "canonical_bytes float_repr j = encode_utf8 (canonical_text float_repr j)"

definition registration_version ::
    "(rat \<Rightarrow> ustr) \<Rightarrow> (bytes \<Rightarrow> ustr) \<Rightarrow> reasoner_registration \<Rightarrow> ustr option" where
  "registration_version float_repr sha256 r =
     map_option (\<lambda>b. take REGISTRATION_VERSION_LENGTH (sha256 b))
       (canonical_bytes float_repr (JObj (canonical_registration r)))"

lemma canonical_bytes_iff:
  assumes "float_texts float_repr" "canonical_bytes float_repr i = Some b" "canonical_bytes float_repr j = Some c"
  shows "b = c \<longleftrightarrow> same_json i j"
  using assms encode_utf8_inj canonical_text_iff [OF assms(1), of i j]
  by (auto simp: canonical_bytes_def)

lemma canonical_bytes_same:
  "same_json i j \<Longrightarrow> canonical_bytes float_repr i = canonical_bytes float_repr j"
  by (simp add: canonical_bytes_def canonical_text_def same_json_def)

section \<open>What the form determines\<close>

lemma op_text_inj: "op_text a = op_text b \<longleftrightarrow> a = b"
  by (cases a; cases b) simp_all

lemma action_text_inj: "action_text a = action_text b \<longleftrightarrow> a = b"
  by (cases a; cases b) simp_all

lemma dump_scalar_inj: "same_json (dump_scalar a) (dump_scalar b) \<longleftrightarrow> a = b"
  by (cases a; cases b) (simp_all add: same_json_def)

lemma same_json_simps [simp]:
  "same_json (JStr s) (JStr t) \<longleftrightarrow> s = t" "same_json (JBool p) (JBool q) \<longleftrightarrow> p = q"
  "\<not> same_json (JStr s) JNull" "\<not> same_json JNull (JStr s)"
  "\<not> same_json (dump_scalar a) (JList xs)" "\<not> same_json (JList xs) (dump_scalar a)"
  by (simp_all add: same_json_def) (cases a; simp)+

lemma same_json_map:
  assumes "\<And>x y. x \<in> set xs \<Longrightarrow> same_json (f x) (f y) \<longleftrightarrow> x = y"
  shows "same_json (JList (map f xs)) (JList (map f ys)) \<longleftrightarrow> xs = ys"
  using assms by (auto simp: same_json_JList list_all2_conv_all_nth list_eq_iff_nth_eq)

lemma dump_value_inj: "same_json (dump_value v) (dump_value w) \<longleftrightarrow> v = w"
  by (cases v; cases w) (simp_all add: dump_scalar_inj same_json_map)

lemma dump_predicate_inj: "same_json (dump_predicate p) (dump_predicate q) \<longleftrightarrow> p = q"
proof (induction p arbitrary: q)
  case (Compare f op v)
  then show ?case
    by (cases q) (auto simp: same_json_fields op_text_inj dump_value_inj set_eq_subset dest!: same_json_keys)
next
  case (AllOf ps)
  then show ?case by (cases q) (auto simp: same_json_fields same_json_map set_eq_subset dest!: same_json_keys)
next
  case (AnyOf ps)
  then show ?case by (cases q) (auto simp: same_json_fields same_json_map set_eq_subset dest!: same_json_keys)
next
  case (NotP p)
  then show ?case by (cases q) (auto simp: same_json_fields set_eq_subset dest!: same_json_keys)
qed

text \<open>Two bindings are the same when their configurations differ in the order of keys only.\<close>

definition same_binding :: "gate_binding \<Rightarrow> gate_binding \<Rightarrow> bool" where
  "same_binding b c \<longleftrightarrow> binding_gate_id b = binding_gate_id c \<and> (mandatory b \<longleftrightarrow> mandatory c)
     \<and> same_json (JObj (config b)) (JObj (config c))"

lemma same_json_empty: "same_json (JObj []) (JObj kvs) \<longleftrightarrow> kvs = []" "same_json (JObj kvs) (JObj []) \<longleftrightarrow> kvs = []"
  by (auto dest: same_json_keys)

lemma dump_binding_same: "same_json (dump_binding b) (dump_binding c) \<longleftrightarrow> same_binding b c"
proof (cases "config b = [] \<longleftrightarrow> config c = []")
  case True
  then show ?thesis
    by (auto simp: dump_binding_def same_binding_def same_json_fields)
next
  case False
  have "\<not> same_json (dump_binding b) (dump_binding c)"
  proof
    assume "same_json (dump_binding b) (dump_binding c)"
    from same_json_keys [OF this [unfolded dump_binding_def]] False show False
      by (cases "config b = []"; cases "config c = []"; simp add: set_eq_subset)
  qed
  moreover have "\<not> same_binding b c"
    using False by (auto simp: same_binding_def same_json_empty)
  ultimately show ?thesis by simp
qed

lemma dump_rule_inj: "same_json (dump_rule r) (dump_rule s) \<longleftrightarrow> r = s"
  by (cases r; cases s)
    (simp add: dump_rule_def same_json_fields dump_predicate_inj action_text_inj conj_ac)

lemma hex_text_length [simp]: "length (hex_text k n) = k"
  by (induction k arbitrary: n) auto

lemma hex_text_inj:
  "m < 16 ^ k \<Longrightarrow> n < 16 ^ k \<Longrightarrow> hex_text k m = hex_text k n \<Longrightarrow> m = n"
proof (induction k arbitrary: m n)
  case (Suc k)
  then have "hex_text k (m div 16) = hex_text k (n div 16)" "m mod 16 = n mod 16"
    by (simp_all) (metis unhex_hex_digit mod_less_divisor zero_less_numeral)
  moreover have "m div 16 < 16 ^ k" "n div 16 < 16 ^ k"
    using Suc.prems(1,2) by (simp_all add: less_mult_imp_div_less mult.commute)
  ultimately have "m div 16 = n div 16" "m mod 16 = n mod 16" using Suc.IH by blast+
  then show ?case by (metis div_mult_mod_eq)
qed simp

lemma uuid_text_inj: "uuid_text u = uuid_text v \<longleftrightarrow> u = v"
proof
  assume eq: "uuid_text u = uuid_text v"
  let ?h = "hex_text 32 (unat u)" and ?k = "hex_text 32 (unat v)"
  have "take 8 ?h = take 8 ?k" "take 4 (drop 8 ?h) = take 4 (drop 8 ?k)"
    "take 4 (drop 12 ?h) = take 4 (drop 12 ?k)" "take 4 (drop 16 ?h) = take 4 (drop 16 ?k)"
    "drop 20 ?h = drop 20 ?k"
    using eq by (simp_all add: uuid_text_def Let_def append_eq_append_conv)
  moreover have "t = take 8 t @ take 4 (drop 8 t) @ take 4 (drop 12 t) @ take 4 (drop 16 t) @ drop 20 t"
    for t :: ustr
    using append_take_drop_id [of 8 t] append_take_drop_id [of 4 "drop 8 t"]
      append_take_drop_id [of 4 "drop 12 t"] append_take_drop_id [of 4 "drop 16 t"]
    by (simp only: drop_drop) (simp del: append_take_drop_id)
  ultimately have "?h = ?k" by metis
  moreover have "unat w < 16 ^ 32" for w :: uuid
    using unsigned_less [of w] by simp
  ultimately show "u = v" using hex_text_inj word_unat_eq_iff by metis
qed simp

lemma dump_namespace_inj: "same_json (dump_namespace m) (dump_namespace n) \<longleftrightarrow> m = n"
  by (cases m; cases n) (simp add: dump_namespace_def same_json_fields uuid_text_inj)

lemma sorted_texts_inj:
  "finite A \<Longrightarrow> finite B \<Longrightarrow> same_json (sorted_texts A) (sorted_texts B) \<longleftrightarrow> A = B"
  unfolding sorted_texts_def by (subst same_json_map) (auto dest: arg_cong [where f = set])

lemma sort_namespaces:
  assumes "distinct (map namespace_name xs)"
  shows "sort_key namespace_name xs = sort_key namespace_name ys \<longleftrightarrow> mset xs = mset ys"
proof
  show "sort_key namespace_name xs = sort_key namespace_name ys \<Longrightarrow> mset xs = mset ys"
    by (metis mset_sort)
  assume "mset xs = mset ys"
  with assms show "sort_key namespace_name xs = sort_key namespace_name ys"
    by (intro sort_key_inj_key_eq) (auto simp: distinct_map)
qed

section \<open>Content addressing\<close>

text \<open>
  The same registration: equal but for the order of keys in a binding's configuration and the
  order of namespace declarations, which mean nothing.
\<close>

definition same_registration :: "reasoner_registration \<Rightarrow> reasoner_registration \<Rightarrow> bool" where
  "same_registration r s \<longleftrightarrow>
     registered_reasoner_id r = registered_reasoner_id s
     \<and> registered_reasoner_name r = registered_reasoner_name s
     \<and> list_all2 same_binding (gates r) (gates s) \<and> bypass_rules r = bypass_rules s
     \<and> recordable_actions r = recordable_actions s
     \<and> mset (native_namespaces r) = mset (native_namespaces s)
     \<and> novel_entity_feature r = novel_entity_feature s
     \<and> jurisdiction_conflict_groups r = jurisdiction_conflict_groups s"

lemma dump_text_inj: "same_json (dump_text s) (dump_text t) \<longleftrightarrow> s = t"
  by (cases s; cases t) (simp_all add: dump_text_def)

lemma canonical_registration_same:
  assumes "list_all finite (jurisdiction_conflict_groups r)" "list_all finite (jurisdiction_conflict_groups s)"
    and "distinct (map namespace_name (native_namespaces r))"
  shows "same_json (JObj (canonical_registration r)) (JObj (canonical_registration s)) \<longleftrightarrow> same_registration r s"
proof -
  have groups: "same_json (JList (map sorted_texts (jurisdiction_conflict_groups r)))
      (JList (map sorted_texts (jurisdiction_conflict_groups s)))
    \<longleftrightarrow> jurisdiction_conflict_groups r = jurisdiction_conflict_groups s"
    using assms(1,2)
    by (auto simp: same_json_JList list_all2_conv_all_nth list_eq_iff_nth_eq list_all_iff sorted_texts_inj)
  have actions: "finite (A :: decision_action set)" for A
    by (rule finite_subset [of _ "{ALLOW, CHALLENGE, HOLD, BLOCK}"]) (auto intro: decision_action.exhaust)
  have recordable: "same_json (sorted_texts (action_text ` A)) (sorted_texts (action_text ` B)) \<longleftrightarrow> A = B" for A B
    using actions by (subst sorted_texts_inj) (auto simp: inj_image_eq_iff inj_def action_text_inj)
  have bindings: "same_json (JList (map dump_binding xs)) (JList (map dump_binding ys))
    \<longleftrightarrow> list_all2 same_binding xs ys" for xs ys
    by (simp add: same_json_JList list_all2_map1 list_all2_map2 dump_binding_same)
  have namespaces: "same_json (JList (map dump_namespace (sort_key namespace_name (native_namespaces r))))
      (JList (map dump_namespace (sort_key namespace_name (native_namespaces s))))
    \<longleftrightarrow> mset (native_namespaces r) = mset (native_namespaces s)"
    using sort_namespaces [OF assms(3)] by (simp add: same_json_map dump_namespace_inj)
  have empty: "(native_namespaces r = [] \<longleftrightarrow> native_namespaces s = [])"
    if "mset (native_namespaces r) = mset (native_namespaces s)"
    using that by (metis mset_zero_iff)
  show ?thesis
  proof (cases "native_namespaces r = [] \<longleftrightarrow> native_namespaces s = []")
    case True
    then show ?thesis
      using groups recordable bindings namespaces
      by (auto simp: canonical_registration_def same_registration_def same_json_fields dump_text_inj
          same_json_map dump_rule_inj)
  next
    case False
    then have "fst ` set (canonical_registration r) \<noteq> fst ` set (canonical_registration s)"
      by (auto simp: canonical_registration_def set_eq_subset)
    then have "\<not> same_json (JObj (canonical_registration r)) (JObj (canonical_registration s))"
      using same_json_keys by blast
    moreover have "\<not> same_registration r s"
      using False empty by (auto simp: same_registration_def)
    ultimately show ?thesis by simp
  qed
qed

section \<open>What can be encoded\<close>

lemma encodable_ascii: "c < 128 \<Longrightarrow> encodable c"
  by (simp add: encodable_def surrogate_def)

lemma hex_digit_ascii: "n < 16 \<Longrightarrow> hex_digit n < 128"
  by (simp add: hex_digit_def)

lemma quote_encodable:
  assumes "list_all encodable s"
  shows "list_all encodable (quote s)"
proof -
  have "list_all encodable (escape_char c)" if "encodable c" for c
  proof (cases "c < 32")
    case True
    then have "encodable (hex_digit (c div 16))" "encodable (hex_digit (c mod 16))"
      by (simp_all add: encodable_ascii hex_digit_ascii)
    with that show ?thesis by (simp add: escape_char_def encodable_ascii)
  qed (use that in \<open>simp add: escape_char_def encodable_ascii\<close>)
  with assms show ?thesis by (auto simp: quote_def list_all_iff encodable_ascii)
qed

lemma numeral_encodable: "set t \<subseteq> NUMERAL \<Longrightarrow> list_all encodable t"
  by (auto simp: NUMERAL_def list_all_iff intro!: encodable_ascii)

lemma dumps_encodable:
  assumes "float_texts float_repr"
  shows "\<forall>s \<in> strings_of j. list_all encodable s \<Longrightarrow> list_all encodable (dumps float_repr j)"
proof (induction j)
  case (JFloat x)
  show ?case
    using numeral_encodable [OF float_numeral(1) [OF assms]]
    by (cases x) (auto intro!: encodable_ascii)
next
  case (JInt i)
  have "set (int_text i) \<subseteq> NUMERAL" using int_text_numeral(1) [of i] by (auto simp: NUMERAL_def)
  from numeral_encodable [OF this] show ?case by simp
next
  case (JStr s)
  then show ?case by (simp add: quote_encodable)
next
  case (JList xs)
  have "list_all encodable (dump_items float_repr ys)" if "set ys \<subseteq> set xs" for ys
    using that JList by (induction ys rule: induct_list012) (auto intro!: encodable_ascii)
  then show ?case by (simp add: encodable_ascii)
next
  case (JObj kvs)
  have one: "list_all encodable (quote k)" "list_all encodable (dumps float_repr v)" if "(k, v) \<in> set kvs" for k v
    using that JObj.prems JObj.IH [of "(k, v)" v] by (force intro!: quote_encodable)+
  have "list_all encodable (dump_pairs float_repr lws)" if "set lws \<subseteq> set kvs" for lws
    using that
  proof (induction lws rule: induct_list012)
    case (2 kv)
    then show ?case using one [of "fst kv" "snd kv"] by (cases kv) (simp add: encodable_ascii)
  next
    case (3 kv p lws)
    then show ?case using one [of "fst kv" "snd kv"] by (cases kv) (simp add: encodable_ascii)
  qed (simp add: encodable_ascii)
  then show ?case by (simp add: encodable_ascii)
qed (simp_all add: encodable_ascii)

lemma strings_of_sort_keys: "strings_of (sort_keys j) = strings_of j"
proof (induction j)
  case (JObj kvs)
  have "strings_of (sort_keys (snd kv)) = strings_of (snd kv)" if "kv \<in> set kvs" for kv
    by (rule JObj [OF that]) (simp add: prod_set_defs)
  then show ?case by (simp add: split_beta image_image)
qed simp_all

lemma canonical_bytes_encodes:
  assumes "float_texts float_repr" "\<And>s. s \<in> strings_of j \<Longrightarrow> list_all encodable s"
  shows "canonical_bytes float_repr j \<noteq> None"
  using dumps_encodable [OF assms(1), of "sort_keys j"] assms(2)
  by (simp add: canonical_bytes_def canonical_text_def encode_utf8_def strings_of_sort_keys)

section \<open>Properties\<close>

text \<open>A registration whose texts the claims below evaluate, and a \<open>repr\<close> that distinguishes floats.\<close>

definition ex_repr :: "rat \<Rightarrow> ustr" where
  "ex_repr r = (case quotient_of r of (p, q) \<Rightarrow> int_text p @ 46 # int_text q)"

lemma ex_repr_ok: "float_texts ex_repr"
proof -
  have no_point: "46 \<notin> set (int_text i)" for i using int_text_numeral(1) [of i] by auto
  have "inj ex_repr"
  proof (rule injI)
    fix r s assume eq: "ex_repr r = ex_repr s"
    obtain p q where r: "quotient_of r = (p, q)" by (cases "quotient_of r")
    obtain p' q' where s: "quotient_of s = (p', q')" by (cases "quotient_of s")
    from eq have "int_text p @ 46 # int_text q = int_text p' @ 46 # int_text q'"
      by (simp add: ex_repr_def r s)
    with no_point have "int_text p = int_text p' \<and> int_text q = int_text q'"
      by (auto simp: append_Cons_eq_iff)
    with r s show "r = s" by (metis int_text_inj quotient_of_div)
  qed
  moreover have "set (ex_repr r) \<subseteq> NUMERAL \<and> 46 \<in> set (ex_repr r)" for r
    using int_text_numeral(1) [of "fst (quotient_of r)"] int_text_numeral(1) [of "snd (quotient_of r)"]
    by (auto simp: ex_repr_def NUMERAL_def split_beta)
  ultimately show ?thesis by (auto simp: float_texts_def)
qed

definition ex_bound :: "json \<Rightarrow> reasoner_registration" where
  "ex_bound setting =
     \<lparr>registered_reasoner_id = [97], registered_reasoner_name = [98],
      gates = [\<lparr>binding_gate_id = [103], mandatory = True, config = [([107], setting)]\<rparr>],
      bypass_rules = [], recordable_actions = {ALLOW}, native_namespaces = [],
      novel_entity_feature = None, jurisdiction_conflict_groups = []\<rparr>"

lemma ex_encodes:
  "canonical_bytes ex_repr (JObj (canonical_registration (ex_bound (JObj [([1], JNull), ([2], JNull)])))) \<noteq> None"
  "canonical_bytes ex_repr (JObj (canonical_registration (ex_bound (JObj [([2], JNull), ([1], JNull)])))) \<noteq> None"
  "canonical_bytes ex_repr (JObj (canonical_registration (ex_bound (JInt 1)))) \<noteq> None"
proof -
  note shape = canonical_registration_def ex_bound_def dump_binding_def sorted_texts_def dump_text_def
  have encodes: "canonical_bytes ex_repr (JObj (canonical_registration (ex_bound j))) \<noteq> None"
    if "\<forall>s \<in> strings_of j. list_all encodable s" for j
    by (rule canonical_bytes_encodes [OF ex_repr_ok])
      (use that in \<open>auto simp: shape encodable_ascii\<close>)
  show "canonical_bytes ex_repr (JObj (canonical_registration (ex_bound (JObj [([1], JNull), ([2], JNull)])))) \<noteq> None"
    "canonical_bytes ex_repr (JObj (canonical_registration (ex_bound (JObj [([2], JNull), ([1], JNull)])))) \<noteq> None"
    "canonical_bytes ex_repr (JObj (canonical_registration (ex_bound (JInt 1)))) \<noteq> None"
    by (rule encodes, simp add: encodable_ascii)+
qed

text \<open>
  C22: A registration's version addresses its content. Two valid registrations have the same
  canonical bytes exactly when they are the same registration, up to the order of keys in a
  configuration and of namespace declarations; so the version never depends on either, and
  two other registrations share it only if their canonical bytes collide.
\<close>

theorem version_addresses_content:
  assumes "float_texts float_repr" "registration_valid r"
    and "list_all finite (jurisdiction_conflict_groups r)" "list_all finite (jurisdiction_conflict_groups s)"
    and "registration_version float_repr sha256 r = Some v" "registration_version float_repr sha256 s = Some w"
  shows "(same_registration r s \<longrightarrow> v = w)
    \<and> (v = w \<longrightarrow> same_registration r s
       \<or> (\<exists>b c. canonical_bytes float_repr (JObj (canonical_registration r)) = Some b
            \<and> canonical_bytes float_repr (JObj (canonical_registration s)) = Some c \<and> b \<noteq> c
            \<and> take REGISTRATION_VERSION_LENGTH (sha256 b) = take REGISTRATION_VERSION_LENGTH (sha256 c)))"
proof -
  have same: "same_json (JObj (canonical_registration r)) (JObj (canonical_registration s)) \<longleftrightarrow> same_registration r s"
    by (rule canonical_registration_same [OF assms(3,4) registration_validD(3) [OF assms(2)]])
  obtain b c where b: "canonical_bytes float_repr (JObj (canonical_registration r)) = Some b"
      "v = take REGISTRATION_VERSION_LENGTH (sha256 b)"
    and c: "canonical_bytes float_repr (JObj (canonical_registration s)) = Some c"
      "w = take REGISTRATION_VERSION_LENGTH (sha256 c)"
    using assms(5,6) by (auto simp: registration_version_def)
  with canonical_bytes_iff [OF assms(1) b(1) c(1)] same show ?thesis by auto
qed

theorem version_addresses_content_witness:
  "registration_version ex_repr (\<lambda>_. []) (ex_bound (JObj [([1], JNull), ([2], JNull)]))
   = registration_version ex_repr (\<lambda>_. []) (ex_bound (JObj [([2], JNull), ([1], JNull)]))"
proof -
  let ?r = "ex_bound (JObj [([1], JNull), ([2], JNull)])" and ?s = "ex_bound (JObj [([2], JNull), ([1], JNull)])"
  have "same_registration ?r ?s"
    by (simp add: same_registration_def ex_bound_def same_binding_def same_json_def)
  moreover have "registration_valid ?r"
    by (simp add: ex_bound_def registration_valid_def consistent_iff binding_valid_def)
  moreover from ex_encodes(1,2) obtain v w where "registration_version ex_repr (\<lambda>_. []) ?r = Some v"
    "registration_version ex_repr (\<lambda>_. []) ?s = Some w"
    by (auto simp: registration_version_def)
  ultimately show ?thesis
    using version_addresses_content [OF ex_repr_ok, of ?r ?s "\<lambda>_. []" v w] by (simp add: ex_bound_def)
qed

section \<open>Equal registrations with different versions\<close>

text \<open>
  Python compares numbers by value (\<open>1 == 1.0 == True\<close>), the canonical text does not: two
  configurations, and so two registrations, can be equal and have different canonical bytes.
\<close>

fun by_value :: "json \<Rightarrow> json" where
  "by_value (JBool b) = JFloat (Finite (if b then 1 else 0))"
| "by_value (JInt i) = JFloat (Finite (of_int i))"
| "by_value (JList xs) = JList (map by_value xs)"
| "by_value (JObj kvs) = JObj (map (\<lambda>(k, v). (k, by_value v)) kvs)"
| "by_value j = j"

definition equal_bindings :: "gate_binding \<Rightarrow> gate_binding \<Rightarrow> bool" where
  "equal_bindings b c \<longleftrightarrow> binding_gate_id b = binding_gate_id c \<and> (mandatory b \<longleftrightarrow> mandatory c)
     \<and> same_json (by_value (JObj (config b))) (by_value (JObj (config c)))"

theorem equal_registrations_two_versions:
  "list_all2 equal_bindings (gates (ex_bound (JInt 1))) (gates (ex_bound (JFloat (Finite 1))))
   \<and> ex_bound (JInt 1) = (ex_bound (JFloat (Finite 1)))\<lparr>gates := gates (ex_bound (JInt 1))\<rparr>
   \<and> canonical_bytes ex_repr (JObj (canonical_registration (ex_bound (JInt 1))))
     \<noteq> canonical_bytes ex_repr (JObj (canonical_registration (ex_bound (JFloat (Finite 1)))))"
proof -
  have "\<not> same_registration (ex_bound (JInt 1)) (ex_bound (JFloat (Finite 1)))"
    by (simp add: same_registration_def ex_bound_def same_binding_def same_json_def)
  then have "\<not> same_json (JObj (canonical_registration (ex_bound (JInt 1))))
      (JObj (canonical_registration (ex_bound (JFloat (Finite 1)))))"
    by (subst canonical_registration_same) (simp_all add: ex_bound_def)
  then have "canonical_bytes ex_repr (JObj (canonical_registration (ex_bound (JInt 1)))) = Some b \<Longrightarrow>
      canonical_bytes ex_repr (JObj (canonical_registration (ex_bound (JFloat (Finite 1))))) = Some b \<Longrightarrow> False" for b
    using canonical_bytes_iff [OF ex_repr_ok] by blast
  moreover have "\<exists>b. canonical_bytes ex_repr (JObj (canonical_registration (ex_bound (JInt 1)))) = Some b"
    using ex_encodes(3) by auto
  ultimately show ?thesis
    by (auto simp: ex_bound_def equal_bindings_def same_json_def)
qed

end
