(* ===== verification/Rules_Gate.thy ===== *)
theory Rules_Gate
  imports Escrow Registration_Version Gates
begin

text \<open>
  The rules gate (\<open>gates/rules/src/rules_gate\<close>: \<open>ruleset.py\<close>, \<open>gate.py\<close>, \<open>plugin.py\<close>): rule sets and
  their loading, the evaluation of one submission, and the verification of an output's
  evidence. YAML, pydantic's lax parsing of a file and of a stored snapshot, SHA-256 and the
  wording of a failure are the record \<open>rules_wire\<close>; the escrow is the ledger's.
\<close>

section \<open>Rule sets\<close>

record gate_rule =
  gate_rule_id :: ustr
  gate_rule_description :: ustr
  gate_rule_when :: predicate
  gate_rule_action :: decision_action
  gate_rule_controls :: "ustr list"

record ruleset =
  ruleset_id :: ustr
  ruleset_version :: ustr
  ruleset_reasoner :: ustr
  ruleset_description :: ustr
  default_action :: decision_action
  ruleset_rules :: "gate_rule list"

definition rule_ids_are_unique :: "ruleset \<Rightarrow> (ustr \<times> ustr list) + unit" where
  "rule_ids_are_unique rs =
     (let duplicates = repeated (map gate_rule_id (ruleset_rules rs))
      in if duplicates \<noteq> [] then Inl (ruleset_id rs, duplicates) else Inr ())"

definition gate_rule_valid :: "gate_rule \<Rightarrow> bool" where
  "gate_rule_valid r \<longleftrightarrow> gate_rule_id r \<noteq> [] \<and> predicate_valid (gate_rule_when r)"

definition ruleset_valid :: "ruleset \<Rightarrow> bool" where
  "ruleset_valid rs \<longleftrightarrow>
     ruleset_id rs \<noteq> [] \<and> ruleset_version rs \<noteq> [] \<and> ruleset_reasoner rs \<noteq> []
     \<and> ruleset_rules rs \<noteq> [] \<and> list_all gate_rule_valid (ruleset_rules rs)
     \<and> rule_ids_are_unique rs = Inr ()"

definition ruleset_ref :: "ruleset \<Rightarrow> ustr" where
  "ruleset_ref rs = ruleset_id rs @ 64 # ruleset_version rs"

definition dump_gate_rule :: "gate_rule \<Rightarrow> json" where
  "dump_gate_rule r =
     JObj [(lit ''rule_id'', JStr (gate_rule_id r)), (lit ''description'', JStr (gate_rule_description r)),
           (lit ''when'', dump_predicate (gate_rule_when r)),
           (lit ''action'', JStr (action_text (gate_rule_action r))),
           (lit ''required_controls'', JList (map JStr (gate_rule_controls r)))]"

definition dump_ruleset :: "ruleset \<Rightarrow> json" where
  "dump_ruleset rs =
     JObj [(lit ''ruleset_id'', JStr (ruleset_id rs)), (lit ''version'', JStr (ruleset_version rs)),
           (lit ''reasoner_id'', JStr (ruleset_reasoner rs)),
           (lit ''description'', JStr (ruleset_description rs)),
           (lit ''default_action'', JStr (action_text (default_action rs))),
           (lit ''rules'', JList (map dump_gate_rule (ruleset_rules rs)))]"

section \<open>The gate\<close>

datatype rules_gate_failure = UnknownRuleset | RulesetReasonerMismatch | PredicateFailure

datatype rules_detail =
    NotRegistered ustr
  | RegisteredForAnother ustr ustr
  | PredicateReason predicate_reason

record rules_snapshot =
  snapshot_ruleset_id :: ustr
  snapshot_ruleset :: "json option"
  matched_rule_ids :: "ustr list"
  default_applied :: bool
  snapshot_observed :: "(ustr \<times> scalar) list"
  ruleset_hash :: "ustr option"

record rules_wire =
  float_repr_of :: "rat \<Rightarrow> ustr"
  sha256_of :: digest
  parse_snapshot :: "json \<Rightarrow> rules_snapshot option"
  detail_text :: "rules_detail \<Rightarrow> ustr"
  read_yaml :: "ustr \<Rightarrow> ustr + json"
  parse_ruleset :: "json \<Rightarrow> ustr + ruleset"

definition dump_snapshot :: "rules_snapshot \<Rightarrow> json" where
  "dump_snapshot s =
     JObj [(lit ''ruleset_id'', JStr (snapshot_ruleset_id s)),
           (lit ''ruleset'', case snapshot_ruleset s of None \<Rightarrow> JNull | Some j \<Rightarrow> j),
           (lit ''matched_rule_ids'', JList (map JStr (matched_rule_ids s))),
           (lit ''default_applied'', JBool (default_applied s)),
           (lit ''observed'', JObj (map (\<lambda>(f, v). (f, dump_scalar v)) (snapshot_observed s))),
           (lit ''ruleset_hash'', dump_text (ruleset_hash s))]"

definition canonical_ruleset :: "rules_wire \<Rightarrow> ruleset \<Rightarrow> bytes option" where
  "canonical_ruleset wire rs = canonical_bytes (float_repr_of wire) (dump_ruleset rs)"

subsection \<open>Loading\<close>

datatype ruleset_error =
    RulesetUnreadable ustr
  | RulesetNotMapping ustr
  | RulesetInvalid ustr
  | DirectoryNotFound
  | DuplicateRuleset ustr ustr ustr

definition read_ruleset :: "rules_wire \<Rightarrow> ustr \<Rightarrow> ruleset_error + ruleset" where
  "read_ruleset wire path =
     rbind (map_sum RulesetUnreadable id (read_yaml wire path)) (\<lambda>data.
     case data of
       JObj kvs \<Rightarrow> map_sum RulesetInvalid id (parse_ruleset wire (JObj kvs))
     | _ \<Rightarrow> Inl (RulesetNotMapping path))"

record loaded_ruleset =
  loaded :: ruleset
  origin :: ustr

text \<open>
  The directory is the names of its \<open>*.yaml\<close> and \<open>*.yml\<close> files, or \<open>None\<close> when it does not
  exist; the dictionary is in insertion order.
\<close>

fun load_files ::
    "(ustr \<Rightarrow> ruleset_error + ruleset) \<Rightarrow> ustr list \<Rightarrow> (ustr \<times> loaded_ruleset) list
      \<Rightarrow> ruleset_error + (ustr \<times> loaded_ruleset) list" where
  "load_files read [] so_far = Inr so_far"
| "load_files read (name # names) so_far =
     rbind (read name) (\<lambda>rs.
       case map_of so_far (ruleset_id rs) of
         Some earlier \<Rightarrow> Inl (DuplicateRuleset (ruleset_id rs) name (origin earlier))
       | None \<Rightarrow> load_files read names (so_far @ [(ruleset_id rs, \<lparr>loaded = rs, origin = name\<rparr>)]))"

definition load_rulesets ::
    "(ustr \<Rightarrow> ruleset_error + ruleset) \<Rightarrow> ustr list option
      \<Rightarrow> ruleset_error + (ustr \<times> loaded_ruleset) list" where
  "load_rulesets read directory =
     (case directory of
        None \<Rightarrow> Inl DirectoryNotFound
      | Some names \<Rightarrow> load_files read (sort names) [])"

record rules_gate =
  rulesets :: "(ustr \<times> ruleset) list"
  origins :: "(ustr \<times> ustr) list"
  escrows :: "bool option"

text \<open>
  \<open>build\<close>: no directory registers no rule set; \<open>escrows\<close> is whether the framework's escrow,
  when there is one, is on.
\<close>

definition build_rules_gate ::
    "rules_wire \<Rightarrow> ustr list option option \<Rightarrow> bool option \<Rightarrow> ruleset_error + rules_gate" where
  "build_rules_gate wire directory framework =
     rbind (case directory of None \<Rightarrow> Inr [] | Some d \<Rightarrow> load_rulesets (read_ruleset wire) d) (\<lambda>found.
       Inr \<lparr>rulesets = map (\<lambda>(k, entry). (k, loaded entry)) found,
            origins = map (\<lambda>(k, entry). (k, origin entry)) found, escrows = framework\<rparr>)"

subsection \<open>Evaluation\<close>

text \<open>\<open>RulesGateConfig\<close>: exactly one key, a non-empty string.\<close>

definition rules_config :: "json_obj option \<Rightarrow> ustr option" where
  "rules_config given =
     (case given of
        Some [(k, JStr s)] \<Rightarrow> if k = lit ''ruleset_id'' \<and> s \<noteq> [] then Some s else None
      | _ \<Rightarrow> None)"

definition RULES_GATE_ID :: ustr where
  "RULES_GATE_ID = lit ''rules''"

datatype rules_error =
    ConfigInvalid
  | RaisedTypeError
  | RaisedEncodeError
  | EscrowRaised escrow_error

fun failure_text :: "rules_gate_failure \<Rightarrow> ustr" where
  "failure_text UnknownRuleset = lit ''unknown_ruleset''"
| "failure_text RulesetReasonerMismatch = lit ''ruleset_reasoner_mismatch''"
| "failure_text PredicateFailure = lit ''predicate_error''"

definition rules_failed ::
    "rules_wire \<Rightarrow> rules_gate_failure \<Rightarrow> rules_detail \<Rightarrow> ustr \<Rightarrow> ruleset option
      \<Rightarrow> (ustr \<times> scalar) list \<Rightarrow> gate_output" where
  "rules_failed wire why detail the_id rs seen =
     \<lparr>output_gate_id = RULES_GATE_ID, deterministic = True, verdict = None, evidence = [],
      evidence_snapshot = dump_snapshot
        \<lparr>snapshot_ruleset_id = the_id, snapshot_ruleset = map_option dump_ruleset rs,
         matched_rule_ids = [], default_applied = False, snapshot_observed = seen,
         ruleset_hash = None\<rparr>,
      extra = [(lit ''failure'', JStr (failure_text why)),
               (lit ''detail'', JStr (detail_text wire detail))]\<rparr>"

text \<open>\<open>[rule for rule in rules if evaluate_predicate(rule.when, subject)]\<close>\<close>

fun matching_rules ::
    "gate_rule list \<Rightarrow> 'a predicate_subject_scheme \<Rightarrow> gate_rule list predicate_result" where
  "matching_rules [] subject = Inr []"
| "matching_rules (r # rs) subject =
     rbind (evaluate_predicate (gate_rule_when r) subject) (\<lambda>b.
     rbind (matching_rules rs subject) (\<lambda>matched. Inr (if b then r # matched else matched)))"

definition observed_values ::
    "ruleset \<Rightarrow> 'a predicate_subject_scheme \<Rightarrow> (ustr \<times> scalar) list" where
  "observed_values rs subject =
     observe (sort (remdups (concat (map (referenced_fields \<circ> gate_rule_when) (ruleset_rules rs)))))
       subject"

definition rules_evidence ::
    "ruleset \<Rightarrow> gate_rule list \<Rightarrow> ustr \<Rightarrow> ustr option \<Rightarrow> evidence_ref list" where
  "rules_evidence rs matched the_hash artifact =
     map (\<lambda>l. \<lparr>source_id = ruleset_ref rs, locator = Some l, jurisdictions = {},
               content_hash = Some the_hash, artifact_hash = artifact\<rparr>)
       (if matched = [] then [lit ''default_action''] else map gate_rule_id matched)"

definition rules_verdict :: "ruleset \<Rightarrow> gate_rule list \<Rightarrow> gate_verdict" where
  "rules_verdict rs matched =
     \<lparr>verdict_gate_id = RULES_GATE_ID,
      permitted_actions = (if matched = [] then [default_action rs] else map gate_rule_action matched),
      required_controls = sorted_list_of_set (set (concat (map gate_rule_controls matched))),
      confidence = 1, escalate_to_human = False, escalation_reason = None\<rparr>"

definition rules_output ::
    "rules_wire \<Rightarrow> ruleset \<Rightarrow> gate_rule list \<Rightarrow> (ustr \<times> scalar) list \<Rightarrow> bytes \<Rightarrow> ustr option \<Rightarrow> gate_output" where
  "rules_output wire rs matched seen applied artifact =
     \<lparr>output_gate_id = RULES_GATE_ID, deterministic = True,
      verdict = Some (rules_verdict rs matched),
      evidence = rules_evidence rs matched (sha256_of wire applied) artifact,
      evidence_snapshot = dump_snapshot
        \<lparr>snapshot_ruleset_id = ruleset_id rs, snapshot_ruleset = Some (dump_ruleset rs),
         matched_rule_ids = map gate_rule_id matched, default_applied = (matched = []),
         snapshot_observed = seen, ruleset_hash = Some (sha256_of wire applied)\<rparr>,
      extra = []\<rparr>"

definition escrow_ruleset ::
    "rules_wire \<Rightarrow> rules_gate \<Rightarrow> bytes \<Rightarrow> ustr \<Rightarrow> artifact_table
      \<Rightarrow> artifact_table \<times> (escrow_error + ustr option)" where
  "escrow_ruleset wire g applied decision table =
     (case escrows g of
        None \<Rightarrow> (table, Inr None)
      | Some enabled \<Rightarrow>
          put_artifact (sha256_of wire) enabled applied (lit ''application/json'') decision RULES_GATE_ID table)"

definition rules_evaluate ::
    "rules_wire \<Rightarrow> rules_gate \<Rightarrow> gate_request \<Rightarrow> artifact_table
      \<Rightarrow> artifact_table \<times> (rules_error + gate_output)" where
  "rules_evaluate wire g request table =
     (case rules_config (gate_config (request_context request)) of
        None \<Rightarrow> (table, Inl ConfigInvalid)
      | Some wanted \<Rightarrow>
     (let subject = reasoner_context (request_submission request)
      in case map_of (rulesets g) wanted of
        None \<Rightarrow> (table, Inr (rules_failed wire UnknownRuleset (NotRegistered wanted) wanted None []))
      | Some rs \<Rightarrow>
     if ruleset_reasoner rs \<noteq> context_reasoner_id subject then
       (table, Inr (rules_failed wire RulesetReasonerMismatch
          (RegisteredForAnother (ruleset_id rs) (context_reasoner_id subject)) (ruleset_id rs) None []))
     else (case matching_rules (ruleset_rules rs) subject of
        Inl (PredicateError reason) \<Rightarrow>
          (table, Inr (rules_failed wire PredicateFailure (PredicateReason reason) (ruleset_id rs)
             (Some rs) (observed_values rs subject)))
      | Inl PyTypeError \<Rightarrow> (table, Inl RaisedTypeError)
      | Inr matched \<Rightarrow>
     (case canonical_ruleset wire rs of
        None \<Rightarrow> (table, Inl RaisedEncodeError)
      | Some applied \<Rightarrow>
     (case escrow_ruleset wire g applied (request_decision_id request) table of
        (table', Inl e) \<Rightarrow> (table', Inl (EscrowRaised e))
      | (table', Inr artifact) \<Rightarrow>
          (table', Inr (rules_output wire rs matched (observed_values rs subject) applied artifact)))))))"

subsection \<open>Verification\<close>

definition stored_snapshot :: "rules_wire \<Rightarrow> gate_output \<Rightarrow> rules_snapshot option" where
  "stored_snapshot wire out =
     (case evidence_snapshot out of
        JObj kvs \<Rightarrow> parse_snapshot wire (JObj kvs)
      | _ \<Rightarrow> None)"

definition stored_status ::
    "rules_wire \<Rightarrow> rules_gate \<Rightarrow> artifact_table \<Rightarrow> evidence_ref \<Rightarrow> ustr \<Rightarrow> evidence_status" where
  "stored_status wire g table ref recorded =
     (if artifact_hash ref = None \<or> escrows g = None then NotVerifiable
      else (case get_artifact table (the (artifact_hash ref)) of
              None \<Rightarrow> NotVerifiable
            | Some content \<Rightarrow> if sha256_of wire content = recorded then Intact else SourceChanged))"

definition status_now :: "rules_wire \<Rightarrow> rules_gate \<Rightarrow> ustr \<Rightarrow> ustr \<Rightarrow> evidence_status" where
  "status_now wire g the_id recorded =
     (case map_of (origins g) the_id of
        None \<Rightarrow> SourceUnavailable
      | Some path \<Rightarrow>
          (case read_ruleset wire path of
             Inl _ \<Rightarrow> SourceUnavailable
           | Inr now \<Rightarrow>
               (case canonical_ruleset wire now of
                  None \<Rightarrow> SourceUnavailable
                | Some content \<Rightarrow>
                    if sha256_of wire content = recorded then Intact else SourceChanged)))"

definition rules_verify ::
    "rules_wire \<Rightarrow> rules_gate \<Rightarrow> artifact_table \<Rightarrow> gate_output \<Rightarrow> bool \<Rightarrow> evidence_status list" where
  "rules_verify wire g table out live =
     (let snapshot = stored_snapshot wire out;
          recorded = Option.bind snapshot ruleset_hash
      in map (\<lambda>ref.
           case (snapshot, recorded) of
             (Some s, Some h) \<Rightarrow>
               if content_hash ref \<noteq> Some h then NotVerifiable
               else if live then status_now wire g (snapshot_ruleset_id s) h
               else stored_status wire g table ref h
           | _ \<Rightarrow> NotVerifiable)
         (evidence out))"

end
