(* ===== verification/Rules_Claims.thy ===== *)
theory Rules_Claims
  imports Rules_Gate Enforcement_Claims Core_Claims
begin

text \<open>
  What the rules gate promises: the action enforcement takes on its answer is the strictest
  action of the rules that hold, it holds the decision whenever it cannot tell, its snapshot is
  enough to evaluate the rules again, and its evidence verifies exactly as long as it should.
\<close>

section \<open>Evaluation\<close>

text \<open>The rule set a request is held to: the one it names, if it is the reasoner's own.\<close>

definition selected_ruleset :: "rules_gate \<Rightarrow> gate_request \<Rightarrow> ruleset option" where
  "selected_ruleset g request =
     (case Option.bind (rules_config (gate_config (request_context request))) (map_of (rulesets g)) of
        None \<Rightarrow> None
      | Some rs \<Rightarrow>
          if ruleset_reasoner rs = context_reasoner_id (reasoner_context (request_submission request))
          then Some rs else None)"

text \<open>What the rules say about a subject.\<close>

definition ruled_actions :: "ruleset \<Rightarrow> 'a predicate_subject_scheme \<Rightarrow> decision_action set" where
  "ruled_actions rs subject =
     gate_rule_action ` {r \<in> set (ruleset_rules rs). evaluate_predicate (gate_rule_when r) subject = Inr True}"

definition undecided :: "ruleset \<Rightarrow> 'a predicate_subject_scheme \<Rightarrow> bool" where
  "undecided rs subject \<longleftrightarrow>
     (\<exists>r \<in> set (ruleset_rules rs). \<exists>e. evaluate_predicate (gate_rule_when r) subject = Inl e)"

definition ruled_action :: "rules_gate \<Rightarrow> gate_request \<Rightarrow> decision_action" where
  "ruled_action g request =
     (let subject = reasoner_context (request_submission request)
      in case selected_ruleset g request of
        None \<Rightarrow> HOLD
      | Some rs \<Rightarrow>
          if undecided rs subject then HOLD
          else if ruled_actions rs subject = {} then default_action rs
          else Max (ruled_actions rs subject))"

lemma matching_rules_Inr:
  "matching_rules rules subject = Inr hits \<longleftrightarrow>
     (\<forall>r \<in> set rules. \<exists>b. evaluate_predicate (gate_rule_when r) subject = Inr b)
     \<and> hits = filter (\<lambda>r. evaluate_predicate (gate_rule_when r) subject = Inr True) rules"
proof (induction rules arbitrary: hits)
  case (Cons r rules)
  then show ?case by (cases "evaluate_predicate (gate_rule_when r) subject") auto
qed auto

lemma matching_rules_Inl:
  "matching_rules rules subject = Inl e \<Longrightarrow>
     \<exists>r \<in> set rules. evaluate_predicate (gate_rule_when r) subject = Inl e"
  by (induction rules) (auto simp: rbind_Inl_iff)

lemma rules_evaluate_output:
  assumes "rules_evaluate wire g request table = (table', Inr out)"
  obtains (no_verdict) why detail the_id rs seen where "out = rules_failed wire why detail the_id rs seen"
      "table' = table" "ruled_action g request = HOLD"
  | (decided) rs hits applied artifact where "selected_ruleset g request = Some rs"
      "matching_rules (ruleset_rules rs) (reasoner_context (request_submission request)) = Inr hits"
      "canonical_ruleset wire rs = Some applied"
      "escrow_ruleset wire g applied (request_decision_id request) table = (table', Inr artifact)"
      "out = rules_output wire rs hits (observed_values rs (reasoner_context (request_submission request))) applied artifact"
proof -
  let ?subject = "reasoner_context (request_submission request)"
  obtain wanted where wanted: "rules_config (gate_config (request_context request)) = Some wanted"
    using assms by (auto simp: rules_evaluate_def split: option.splits)
  show ?thesis
  proof (cases "selected_ruleset g request")
    case None
    then have "ruled_action g request = HOLD" by (simp add: ruled_action_def)
    moreover have "\<exists>why detail the_id rs seen. out = rules_failed wire why detail the_id rs seen \<and> table' = table"
      using assms None wanted
      by (auto simp: rules_evaluate_def selected_ruleset_def Let_def split: option.splits if_splits) blast+
    ultimately show ?thesis using no_verdict by blast
  next
    case (Some rs)
    then have rs: "map_of (rulesets g) wanted = Some rs" "ruleset_reasoner rs = context_reasoner_id ?subject"
      using wanted by (auto simp: selected_ruleset_def split: option.splits if_splits)
    show ?thesis
    proof (cases "matching_rules (ruleset_rules rs) ?subject")
      case (Inl e)
      then have "undecided rs ?subject"
        using matching_rules_Inl unfolding undecided_def by blast
      then have hold: "ruled_action g request = HOLD" by (simp add: ruled_action_def Some)
      have "out = rules_failed wire PredicateFailure (PredicateReason (case e of PredicateError reason \<Rightarrow> reason))
          (ruleset_id rs) (Some rs) (observed_values rs ?subject) \<and> table' = table"
        using assms wanted rs Inl by (cases e) (simp_all add: rules_evaluate_def Let_def)
      then show ?thesis using no_verdict hold by blast
    next
      case (Inr hits)
      with assms wanted rs obtain applied where applied: "canonical_ruleset wire rs = Some applied"
        by (auto simp: rules_evaluate_def Let_def split: option.splits)
      obtain t r where put: "escrow_ruleset wire g applied (request_decision_id request) table = (t, r)"
        by (cases "escrow_ruleset wire g applied (request_decision_id request) table")
      obtain artifact where "r = Inr artifact"
        using assms wanted rs Inr applied put by (cases r) (auto simp: rules_evaluate_def Let_def)
      with decided [OF Some Inr applied] assms wanted rs Inr applied put show ?thesis
        by (auto simp: rules_evaluate_def Let_def)
    qed
  qed
qed

lemma rules_evaluate_decided:
  assumes "selected_ruleset g request = Some rs"
    and "matching_rules (ruleset_rules rs) (reasoner_context (request_submission request)) = Inr hits"
    and "canonical_ruleset wire rs = Some applied"
    and "escrow_ruleset wire g applied (request_decision_id request) table = (table', Inr artifact)"
  shows "rules_evaluate wire g request table = (table', Inr (rules_output wire rs hits
    (observed_values rs (reasoner_context (request_submission request))) applied artifact))"
  using assms
  by (auto simp: rules_evaluate_def selected_ruleset_def bind_eq_Some_conv Let_def split: option.splits if_splits)

text \<open>Enforcement on a deterministic answer without jurisdictions: its most conservative action.\<close>

lemma resolve_deterministic:
  assumes "deterministic out" "evidence_jurisdictions out = {}" "verdict out = Some v"
  shows "decision_action (resolve_gate_output (Some out) registration because)
    = most_conservative (permitted_actions v)"
  using assms by (simp add: resolve_gate_output_def Let_def)

lemma ruled_most_conservative:
  assumes "matching_rules (ruleset_rules rs) subject = Inr hits"
  shows "most_conservative (permitted_actions (rules_verdict rs hits))
    = (if ruled_actions rs subject = {} then default_action rs else Max (ruled_actions rs subject))"
proof -
  have "set (map gate_rule_action hits) = ruled_actions rs subject"
    using assms by (auto simp: matching_rules_Inr ruled_actions_def)
  then show ?thesis
    by (auto simp: rules_verdict_def most_conservative_Max)
qed


section \<open>A concrete rules gate\<close>

definition ex_ruleset :: ruleset where
  "ex_ruleset =
     \<lparr>ruleset_id = [114], ruleset_version = [49], ruleset_reasoner = [1], ruleset_description = [],
      default_action = ALLOW,
      ruleset_rules = [\<lparr>gate_rule_id = [98], gate_rule_description = [],
        gate_rule_when = Compare LABEL_FIELD Eq (VScalar (SInt 1)), gate_rule_action = BLOCK,
        gate_rule_controls = []\<rparr>]\<rparr>"

definition ex_parse_snapshot :: "json \<Rightarrow> rules_snapshot option" where
  "ex_parse_snapshot j =
     (case j of
        JObj ((_, JStr the_id) # kvs) \<Rightarrow>
          Some \<lparr>snapshot_ruleset_id = the_id, snapshot_ruleset = None, matched_rule_ids = [],
            default_applied = False, snapshot_observed = [],
            ruleset_hash = (case map_of kvs (lit ''ruleset_hash'') of Some (JStr h) \<Rightarrow> Some h | _ \<Rightarrow> None)\<rparr>
      | _ \<Rightarrow> None)"

definition ex_rules_wire :: rules_wire where
  "ex_rules_wire =
     \<lparr>float_repr_of = ex_repr, sha256_of = (\<lambda>_. replicate 64 48), parse_snapshot = ex_parse_snapshot,
      detail_text = (\<lambda>_. []), read_yaml = (\<lambda>_. Inl []), parse_ruleset = (\<lambda>_. Inr ex_ruleset)\<rparr>"

definition ex_rules_gate :: rules_gate where
  "ex_rules_gate = \<lparr>rulesets = [([114], ex_ruleset)], origins = [([114], [102])], escrows = Some True\<rparr>"

definition ex_request :: gate_request where
  "ex_request =
     \<lparr>request_decision_id = [100], request_submission = ex_submission Gate None True,
      request_context = \<lparr>context_gate_id = RULES_GATE_ID,
        gate_config = Some [(lit ''ruleset_id'', JStr [114])]\<rparr>,
      budget_ms = 100, request_identity = None, binding_config = []\<rparr>"

lemma ex_selected: "selected_ruleset ex_rules_gate ex_request = Some ex_ruleset"
  by (simp add: selected_ruleset_def ex_rules_gate_def ex_request_def rules_config_def ex_ruleset_def
      ex_context_def)

lemma ex_matching: "matching_rules (ruleset_rules ex_ruleset) (ex_context True) = Inr (ruleset_rules ex_ruleset)"
  by (simp add: ex_ruleset_def resolve_field_def ex_context_def compare_scalar_def scalar_equal_def)

lemma ex_rules_output:
  obtains table out where "rules_evaluate ex_rules_wire ex_rules_gate ex_request Map.empty = (table, Inr out)"
    "verdict out \<noteq> None" "storable (evidence_snapshot out)" "length (evidence out) = 1"
proof -
  have "canonical_bytes ex_repr (dump_ruleset ex_ruleset) \<noteq> None"
    by (rule canonical_bytes_encodes [OF ex_repr_ok])
      (auto simp: dump_ruleset_def ex_ruleset_def dump_gate_rule_def LABEL_FIELD_def encodable_ascii)
  then obtain applied where applied: "canonical_ruleset ex_rules_wire ex_ruleset = Some applied"
    by (auto simp: canonical_ruleset_def ex_rules_wire_def)
  obtain table artifact where
    "escrow_ruleset ex_rules_wire ex_rules_gate applied [100] Map.empty = (table, Inr artifact)"
    by (simp add: escrow_ruleset_def ex_rules_gate_def put_artifact_def insert_artifact_def blank_def
        whitespace_def RULES_GATE_ID_def text_problem_def surrogate_def)
  with rules_evaluate_decided [OF ex_selected _ applied] ex_matching
  have "rules_evaluate ex_rules_wire ex_rules_gate ex_request Map.empty = (table, Inr
      (rules_output ex_rules_wire ex_ruleset (ruleset_rules ex_ruleset)
        (observed_values ex_ruleset (ex_context True)) applied artifact))"
    by (simp add: ex_request_def)
  then show ?thesis
    by (rule that)
      (auto simp: rules_output_def rules_evidence_def ex_ruleset_def storable_def dump_snapshot_def
        storable_string_def surrogate_def dump_ruleset_def dump_gate_rule_def observed_values_def observe_def
        resolve_field_def ex_context_def dump_text_def ex_rules_wire_def LABEL_FIELD_def)
qed

section \<open>Verification\<close>

lemma dump_gate_rule_inj: "same_json (dump_gate_rule r) (dump_gate_rule s) \<longleftrightarrow> r = s"
  by (cases r; cases s)
    (simp add: dump_gate_rule_def same_json_fields dump_predicate_inj action_text_inj same_json_map conj_ac)

lemma dump_ruleset_inj: "same_json (dump_ruleset a) (dump_ruleset b) \<longleftrightarrow> a = b"
  by (cases a; cases b)
    (simp add: dump_ruleset_def same_json_fields action_text_inj same_json_map dump_gate_rule_inj conj_ac)

text \<open>Two rule sets whose digests agree although their canonical bytes do not.\<close>

definition collide :: "rules_wire \<Rightarrow> ruleset \<Rightarrow> ruleset \<Rightarrow> bool" where
  "collide wire a b \<longleftrightarrow>
     (\<exists>x y. canonical_ruleset wire a = Some x \<and> canonical_ruleset wire b = Some y \<and> x \<noteq> y
        \<and> sha256_of wire x = sha256_of wire y)"

text \<open>Pydantic reads back the id and the digest of a storable snapshot.\<close>

definition parses_snapshots :: "rules_wire \<Rightarrow> bool" where
  "parses_snapshots wire \<longleftrightarrow>
     (\<forall>s. storable (dump_snapshot s) \<longrightarrow> pred_option sha256_hex (ruleset_hash s) \<longrightarrow>
        (\<exists>t. parse_snapshot wire (dump_snapshot s) = Some t
           \<and> snapshot_ruleset_id t = snapshot_ruleset_id s \<and> ruleset_hash t = ruleset_hash s))"

lemma digests_agree:
  assumes "float_texts (float_repr_of wire)" "canonical_ruleset wire a = Some x"
    and "canonical_ruleset wire b = Some y"
  shows "sha256_of wire x = sha256_of wire y \<longleftrightarrow> a = b \<or> collide wire a b"
  using canonical_bytes_iff [OF assms(1), of "dump_ruleset a" x "dump_ruleset b" y] assms(2,3)
  by (auto simp: canonical_ruleset_def collide_def dump_ruleset_inj)

lemma rules_verdict_output:
  assumes "rules_evaluate wire g request table = (table', Inr out)" "verdict out \<noteq> None"
  obtains rs hits applied artifact s where "selected_ruleset g request = Some rs"
    "canonical_ruleset wire rs = Some applied"
    "escrow_ruleset wire g applied (request_decision_id request) table = (table', Inr artifact)"
    "evidence out = rules_evidence rs hits (sha256_of wire applied) artifact"
    "evidence_snapshot out = dump_snapshot s" "snapshot_ruleset_id s = ruleset_id rs"
    "ruleset_hash s = Some (sha256_of wire applied)"
  using assms(1)
  by (rule rules_evaluate_output) (use assms(2) in \<open>auto simp: rules_failed_def rules_output_def intro: that\<close>)

lemma rules_verify_all:
  assumes "stored_snapshot wire out = Some s" "ruleset_hash s = Some h"
    and "evidence out = rules_evidence rs hits h artifact"
  shows "rules_verify wire g table out live
    = map (\<lambda>ref. if live then status_now wire g (snapshot_ruleset_id s) h
             else stored_status wire g table ref h) (evidence out)"
  unfolding rules_verify_def Let_def
  by (rule map_cong) (auto simp: assms rules_evidence_def)

text \<open>
  C24: Evidence verifies as long as it should. Every reference of an answer with a verdict is
  intact in the ledger's own copy for as long as the ledger keeps it, if the gate escrows, and
  not verifiable otherwise; verified live, it is intact exactly when the rule set's file still
  holds the rules applied, up to a collision of the digest.
\<close>

theorem rules_evidence_verifies:
  assumes "rules_evaluate wire g request table = (table1, Inr out)" "verdict out \<noteq> None"
    and "addressed (sha256_of wire) table" "parses_snapshots wire" "storable (evidence_snapshot out)"
    and "float_texts (float_repr_of wire)"
    and "(\<lambda>s t. \<exists>c m d k r. put_artifact (sha256_of wire) enabled c m d k s = (t, r))\<^sup>*\<^sup>* table1 table2"
  shows "(\<forall>status \<in> set (rules_verify wire g table2 out False).
            status = (if escrows g = Some True then Intact else NotVerifiable))
    \<and> (\<forall>status \<in> set (rules_verify (wire\<lparr>read_yaml := files\<rparr>) g table2 out True).
         status = Intact \<longleftrightarrow>
           (\<exists>rs path now. selected_ruleset g request = Some rs
              \<and> map_of (origins g) (ruleset_id rs) = Some path
              \<and> read_ruleset (wire\<lparr>read_yaml := files\<rparr>) path = Inr now
              \<and> (now = rs \<or> collide wire now rs)))"
proof (rule rules_verdict_output [OF assms(1,2)])
  fix rs hits applied artifact s
  assume rs: "selected_ruleset g request = Some rs" and applied: "canonical_ruleset wire rs = Some applied"
    and put: "escrow_ruleset wire g applied (request_decision_id request) table = (table1, Inr artifact)"
    and evidence: "evidence out = rules_evidence rs hits (sha256_of wire applied) artifact"
    and snap: "evidence_snapshot out = dump_snapshot s"
    and s: "snapshot_ruleset_id s = ruleset_id rs" "ruleset_hash s = Some (sha256_of wire applied)"
  let ?w = "wire\<lparr>read_yaml := files\<rparr>"
  have hex: "sha256_hex (sha256_of wire applied)" using assms(3) by (simp add: addressed_def)
  then obtain t where "parse_snapshot wire (dump_snapshot s) = Some t"
    and t: "snapshot_ruleset_id t = ruleset_id rs" "ruleset_hash t = Some (sha256_of wire applied)"
    using assms(4,5) snap s by (auto simp: parses_snapshots_def)
  then have stored: "stored_snapshot wire out = Some t" "stored_snapshot ?w out = Some t"
    using snap by (simp_all add: stored_snapshot_def dump_snapshot_def)
  note all = rules_verify_all [OF stored(1) t(2) evidence] rules_verify_all [OF stored(2) t(2) evidence]
  have "stored_status wire g table2 ref (sha256_of wire applied)
      = (if escrows g = Some True then Intact else NotVerifiable)" if "ref \<in> set (evidence out)" for ref
  proof -
    have ref: "artifact_hash ref = artifact" using that evidence by (auto simp: rules_evidence_def)
    show ?thesis
    proof (cases "escrows g = Some True")
      case False
      then have "artifact = None"
        using put by (cases "escrows g") (auto simp: escrow_ruleset_def put_artifact_def split: if_splits)
      with ref False show ?thesis by (simp add: stored_status_def)
    next
      case True
      with put have p: "put_artifact (sha256_of wire) True applied (lit ''application/json'')
          (request_decision_id request) RULES_GATE_ID table = (table1, Inr artifact)"
        by (simp add: escrow_ruleset_def)
      with put_artifact_cases [OF p] have a: "artifact = Some (sha256_of wire applied)"
        by (auto simp: put_artifact_def split: if_splits prod.splits sum.splits)
      have "\<exists>b. get_artifact table2 (sha256_of wire applied) = Some b \<and> sha256_of wire b = sha256_of wire applied"
      proof -
        obtain b where b: "get_artifact table1 (sha256_of wire applied) = Some b"
          using escrow.put_holds [OF p [unfolded a] assms(3)] by auto
        have "addressed (sha256_of wire) table1" by (rule escrow.put_sound [OF p assms(3)])
        with b escrow.kept_along [OF assms(7)] escrow.get_addressed [of "sha256_of wire" table1]
        show ?thesis by blast
      qed
      with ref a True show ?thesis by (auto simp: stored_status_def)
    qed
  qed
  moreover have "status_now ?w g (ruleset_id rs) (sha256_of wire applied) = Intact \<longleftrightarrow>
      (\<exists>path now. map_of (origins g) (ruleset_id rs) = Some path \<and> read_ruleset ?w path = Inr now
         \<and> (now = rs \<or> collide wire now rs))"
  proof -
    have same: "canonical_ruleset ?w = canonical_ruleset wire" "sha256_of ?w = sha256_of wire"
      by (auto simp: canonical_ruleset_def fun_eq_iff)
    have "(\<exists>c. canonical_ruleset wire now = Some c \<and> sha256_of wire c = sha256_of wire applied)
        \<longleftrightarrow> now = rs \<or> collide wire now rs" for now
      using digests_agree [OF assms(6) _ applied, of now] applied by (auto simp: collide_def)
    moreover have "(case canonical_ruleset wire now of None \<Rightarrow> SourceUnavailable
          | Some c \<Rightarrow> if sha256_of wire c = sha256_of wire applied then Intact else SourceChanged) = Intact
        \<longleftrightarrow> (\<exists>c. canonical_ruleset wire now = Some c \<and> sha256_of wire c = sha256_of wire applied)" for now
      by (simp split: option.split)
    ultimately show ?thesis
      unfolding status_now_def same by (simp split: option.split sum.split)
  qed
  ultimately show ?thesis
    using all t(1) rs by simp
qed

section \<open>Witnesses\<close>


theorem rules_evidence_verifies_witness:
  "\<exists>table out. rules_evaluate ex_rules_wire ex_rules_gate ex_request Map.empty = (table, Inr out)
    \<and> evidence out \<noteq> [] \<and> set (rules_verify ex_rules_wire ex_rules_gate table out False) = {Intact}"
proof -
  obtain table out where out: "rules_evaluate ex_rules_wire ex_rules_gate ex_request Map.empty = (table, Inr out)"
    "verdict out \<noteq> None" "storable (evidence_snapshot out)" "length (evidence out) = 1"
    by (rule ex_rules_output)
  have "addressed (sha256_of ex_rules_wire) Map.empty"
    by (simp add: addressed_def ex_rules_wire_def sha256_hex_def list_all_iff)
  moreover have "parses_snapshots ex_rules_wire"
    by (auto simp: parses_snapshots_def ex_rules_wire_def ex_parse_snapshot_def dump_snapshot_def dump_text_def
        split: option.splits)
  moreover have on: "escrows ex_rules_gate = Some True" by (simp add: ex_rules_gate_def)
  moreover have "float_texts (float_repr_of ex_rules_wire)"
    using ex_repr_ok by (simp add: ex_rules_wire_def)
  ultimately have "\<forall>status \<in> set (rules_verify ex_rules_wire ex_rules_gate table out False). status = Intact"
    using rules_evidence_verifies [OF out(1,2) _ _ out(3) _ rtranclp.rtrancl_refl] on by simp
  moreover have "length (rules_verify ex_rules_wire ex_rules_gate table out False) = 1"
    using out(4) by (simp add: rules_verify_def Let_def)
  ultimately have "set (rules_verify ex_rules_wire ex_rules_gate table out False) = {Intact}"
    by (cases "rules_verify ex_rules_wire ex_rules_gate table out False") auto
  moreover have "evidence out \<noteq> []" using out(4) by auto
  ultimately show ?thesis using out(1) by blast
qed

end
