(* ===== verification/Auth.thy ===== *)
theory Auth
  imports Json_Text Python_Text
begin

text \<open>
  \<open>app/auth.py\<close>: API keys and the principals they act as. The key ring indexes keys by the
  SHA-256 of their UTF-8 text (a parameter); the YAML of a key file arrives parsed.
\<close>

section \<open>Principals\<close>

datatype principal_kind = ReasonerKind | OperatorKind | TrustedKind

record principal =
  kind :: principal_kind
  principal_reasoner :: "ustr option"

definition for_reasoner :: "ustr \<Rightarrow> principal" where
  "for_reasoner r = \<lparr>kind = ReasonerKind, principal_reasoner = Some r\<rparr>"

definition TRUSTED :: principal where
  "TRUSTED = \<lparr>kind = TrustedKind, principal_reasoner = None\<rparr>"

definition OPERATOR :: principal where
  "OPERATOR = \<lparr>kind = OperatorKind, principal_reasoner = None\<rparr>"

definition may_submit_for :: "principal \<Rightarrow> ustr \<Rightarrow> bool" where
  "may_submit_for p r \<longleftrightarrow>
     kind p = TrustedKind \<or> (kind p = ReasonerKind \<and> principal_reasoner p = Some r)"

definition may_read :: "principal \<Rightarrow> ustr \<Rightarrow> bool" where
  "may_read p r \<longleftrightarrow> kind p \<in> {TrustedKind, OperatorKind} \<or> principal_reasoner p = Some r"

definition may_resolve :: "principal \<Rightarrow> bool" where
  "may_resolve p \<longleftrightarrow> kind p \<in> {TrustedKind, OperatorKind}"

text \<open>What an unauthorized caller is told.\<close>

datatype auth_problem =
    Unauthenticated
  | ReasonerKeyRequired
  | ReasonerMismatch ustr "ustr option"
  | OperatorKeyRequired

definition require_submitter :: "principal \<Rightarrow> ustr \<Rightarrow> auth_problem + unit" where
  "require_submitter p r =
     (if may_submit_for p r then Inr ()
      else if kind p = OperatorKind then Inl ReasonerKeyRequired
      else Inl (ReasonerMismatch r (principal_reasoner p)))"

definition require_operator :: "principal \<Rightarrow> auth_problem + unit" where
  "require_operator p = (if \<not> may_resolve p then Inl OperatorKeyRequired else Inr ())"

section \<open>The key ring\<close>

text \<open>Every failure of building the ring is a \<open>ValueError\<close>, \<open>UnicodeEncodeError\<close> included.\<close>

datatype key_error =
    BlankKey principal
  | SharedKey principal principal
  | UnencodableKey
  | MalformedPair
  | KeyFileUnreadable
  | KeyFileNotYaml
  | KeyFileNotMapping
  | KeyFileNonText ustr

type_synonym key_ring = "ustr \<rightharpoonup> principal"

definition key_digest :: "(bytes \<Rightarrow> ustr) \<Rightarrow> ustr \<Rightarrow> ustr option" where
  "key_digest sha256 key = map_option sha256 (encode_utf8 key)"

definition add_key :: "(bytes \<Rightarrow> ustr) \<Rightarrow> ustr \<times> principal \<Rightarrow> key_ring \<Rightarrow> key_error + key_ring" where
  "add_key sha256 entry ring =
     (case entry of (key, p) \<Rightarrow>
        if blank key then Inl (BlankKey p)
        else (case key_digest sha256 key of
                None \<Rightarrow> Inl UnencodableKey
              | Some d \<Rightarrow>
                  (case ring d of
                     Some holder \<Rightarrow> if holder \<noteq> p then Inl (SharedKey holder p) else Inr (ring(d \<mapsto> p))
                   | None \<Rightarrow> Inr (ring(d \<mapsto> p)))))"

fun add_keys ::
    "(bytes \<Rightarrow> ustr) \<Rightarrow> (ustr \<times> principal) list \<Rightarrow> key_ring \<Rightarrow> key_error + key_ring" where
  "add_keys sha256 [] ring = Inr ring"
| "add_keys sha256 (entry # entries) ring = rbind (add_key sha256 entry ring) (add_keys sha256 entries)"

definition configured_keys ::
    "(ustr \<times> ustr list) list \<Rightarrow> ustr option \<Rightarrow> (ustr \<times> principal) list" where
  "configured_keys reasoner_keys operator_key =
     concat (map (\<lambda>(r, keys). map (\<lambda>k. (k, for_reasoner r)) keys) reasoner_keys)
     @ (case operator_key of None \<Rightarrow> [] | Some k \<Rightarrow> if k = [] then [] else [(k, OPERATOR)])"

definition make_key_ring ::
    "(bytes \<Rightarrow> ustr) \<Rightarrow> (ustr \<times> ustr list) list \<Rightarrow> ustr option \<Rightarrow> key_error + key_ring" where
  "make_key_ring sha256 reasoner_keys operator_key =
     add_keys sha256 (configured_keys reasoner_keys operator_key) Map.empty"

text \<open>\<open>KeyRing.principal\<close>; a header Starlette decodes always has a UTF-8 encoding.\<close>

definition ring_principal :: "(bytes \<Rightarrow> ustr) \<Rightarrow> key_ring \<Rightarrow> ustr option \<Rightarrow> principal option" where
  "ring_principal sha256 ring key =
     (case key of
        None \<Rightarrow> None
      | Some k \<Rightarrow> if k = [] then None else Option.bind (key_digest sha256 k) ring)"

definition authenticate ::
    "(bytes \<Rightarrow> ustr) \<Rightarrow> key_ring \<Rightarrow> ustr option \<Rightarrow> auth_problem + principal" where
  "authenticate sha256 ring key =
     (if key = None \<or> key = Some [] then Inl Unauthenticated
      else (case ring_principal sha256 ring key of
              None \<Rightarrow> Inl Unauthenticated | Some p \<Rightarrow> Inr p))"

section \<open>Configuration\<close>

text \<open>\<open>keys.setdefault(reasoner_id, []).extend(values)\<close>\<close>

definition extend_keys :: "ustr \<Rightarrow> ustr list \<Rightarrow> (ustr \<times> ustr list) list \<Rightarrow> (ustr \<times> ustr list) list" where
  "extend_keys r values keys =
     (case map_of keys r of
        None \<Rightarrow> keys @ [(r, values)]
      | Some held \<Rightarrow> AList.update r (held @ values) keys)"

fun parse_pairs :: "ustr list \<Rightarrow> (ustr \<times> ustr list) list \<Rightarrow> key_error + (ustr \<times> ustr list) list" where
  "parse_pairs [] keys = Inr keys"
| "parse_pairs (raw # rest) keys =
     (let pair = strip raw
      in if pair = [] then parse_pairs rest keys
         else (case partition_on 58 pair of
                 (_, None) \<Rightarrow> Inl MalformedPair
               | (r, Some key) \<Rightarrow>
                   if blank r \<or> blank key then Inl MalformedPair
                   else parse_pairs rest (extend_keys (strip r) [strip key] keys)))"

definition parse_api_keys :: "ustr \<Rightarrow> key_error + (ustr \<times> ustr list) list" where
  "parse_api_keys setting = parse_pairs (split_on 44 setting) []"

text \<open>A key file as read: not there, not YAML, or its data, mapping keys already as text.\<close>

datatype key_file = Unreadable | NotYaml | Parsed json

fun falsy :: "json \<Rightarrow> bool" where
  "falsy JNull = True"
| "falsy (JBool b) = (\<not> b)"
| "falsy (JInt i) = (i = 0)"
| "falsy (JFloat x) = (x = Finite 0)"
| "falsy (JStr s) = (s = [])"
| "falsy (JList xs) = (xs = [])"
| "falsy (JObj kvs) = (kvs = [])"

fun file_key :: "json \<Rightarrow> ustr option" where
  "file_key (JStr s) = (if blank s then None else Some (strip s))"
| "file_key _ = None"

fun file_entries :: "json_obj \<Rightarrow> (ustr \<times> ustr list) list \<Rightarrow> key_error + (ustr \<times> ustr list) list" where
  "file_entries [] keys = Inr keys"
| "file_entries ((r, entry) # rest) keys =
     (let values = map file_key (case entry of JList xs \<Rightarrow> xs | _ \<Rightarrow> [entry])
      in if None \<in> set values then Inl (KeyFileNonText r)
         else file_entries rest (AList.update r (map the values) keys))"

definition load_api_keys_file :: "key_file \<Rightarrow> key_error + (ustr \<times> ustr list) list" where
  "load_api_keys_file found =
     (case found of
        Unreadable \<Rightarrow> Inl KeyFileUnreadable
      | NotYaml \<Rightarrow> Inl KeyFileNotYaml
      | Parsed data \<Rightarrow>
          (case (if falsy data then JObj [] else data) of
             JObj kvs \<Rightarrow> file_entries kvs []
           | _ \<Rightarrow> Inl KeyFileNotMapping))"

definition key_ring_from_settings ::
    "(bytes \<Rightarrow> ustr) \<Rightarrow> ustr \<Rightarrow> key_file option \<Rightarrow> ustr \<Rightarrow> key_error + key_ring" where
  "key_ring_from_settings sha256 api_keys mounted operator_key =
     rbind (parse_api_keys api_keys) (\<lambda>given.
     rbind (case mounted of None \<Rightarrow> Inr [] | Some f \<Rightarrow> load_api_keys_file f) (\<lambda>more.
     make_key_ring sha256 (fold (\<lambda>(r, ks). extend_keys r ks) more given)
       (if blank operator_key then None else Some (strip operator_key))))"

section \<open>Whom a key acts as\<close>

lemma add_key_Inr:
  assumes "add_key sha256 (key, p) ring = Inr ring'"
  obtains d where "key_digest sha256 key = Some d" "ring' = ring(d \<mapsto> p)" "ring d = None \<or> ring d = Some p"
    "\<not> blank key"
  using assms by (auto simp: add_key_def split: option.splits if_splits)

lemma add_keys_Inr:
  "add_keys sha256 entries ring = Inr ring' \<Longrightarrow>
     (\<forall>d p. ring d = Some p \<longrightarrow> ring' d = Some p)
     \<and> (\<forall>(key, p) \<in> set entries. \<not> blank key \<and> Option.bind (key_digest sha256 key) ring' = Some p)
     \<and> (\<forall>d p. ring' d = Some p \<longrightarrow> ring d = Some p
          \<or> (\<exists>key. (key, p) \<in> set entries \<and> key_digest sha256 key = Some d))"
proof (induction entries arbitrary: ring)
  case (Cons entry entries)
  obtain key p where entry: "entry = (key, p)" by (cases entry)
  with Cons.prems obtain ring1 where add: "add_key sha256 (key, p) ring = Inr ring1"
    and rest: "add_keys sha256 entries ring1 = Inr ring'" by auto
  from add obtain d where d: "key_digest sha256 key = Some d" "ring1 = ring(d \<mapsto> p)"
    "ring d = None \<or> ring d = Some p" "\<not> blank key"
    by (rule add_key_Inr)
  note IH = Cons.IH [OF rest]
  have "ring' d = Some p" using IH d(2) by simp
  moreover have "ring' c = Some q" if "ring c = Some q" for c q
    using IH that d(2,3) by (cases "c = d") auto
  moreover have "ring c = Some q \<or> (\<exists>key. (key, q) \<in> set (entry # entries) \<and> key_digest sha256 key = Some c)"
    if "ring' c = Some q" for c q
  proof -
    from IH that have "ring1 c = Some q \<or> (\<exists>key. (key, q) \<in> set entries \<and> key_digest sha256 key = Some c)"
      by blast
    then show ?thesis using d(1,2) entry by (cases "c = d") auto
  qed
  ultimately show ?case using IH d(1,4) entry by auto
qed simp

lemma configured_keys_principals:
  "(key, p) \<in> set (configured_keys reasoner_keys operator_key) \<longleftrightarrow>
     (\<exists>r ks. (r, ks) \<in> set reasoner_keys \<and> key \<in> set ks \<and> p = for_reasoner r)
     \<or> (operator_key = Some key \<and> key \<noteq> [] \<and> p = OPERATOR)"
  by (auto simp: configured_keys_def split: option.splits if_splits)

text \<open>
  C25: A key acts as its own principal and no other. When a key ring is built, every key of a
  reasoner authenticates as that reasoner and the operator key as the operator; whatever key
  authenticates has the digest of a key configured for the principal it acts as; and no key
  ever acts as the trusted in-process caller.
\<close>

theorem keys_act_as_their_principal:
  assumes "make_key_ring sha256 reasoner_keys operator_key = Inr ring"
  shows "(\<forall>(r, ks) \<in> set reasoner_keys. \<forall>k \<in> set ks.
            authenticate sha256 ring (Some k) = Inr (for_reasoner r))
    \<and> (\<forall>k. operator_key = Some k \<longrightarrow> k \<noteq> [] \<longrightarrow> authenticate sha256 ring (Some k) = Inr OPERATOR)
    \<and> (\<forall>k p. authenticate sha256 ring k = Inr p \<longrightarrow> p \<noteq> TRUSTED
         \<and> (\<exists>given held. k = Some given \<and> key_digest sha256 held = key_digest sha256 given
              \<and> (held, p) \<in> set (configured_keys reasoner_keys operator_key)))"
proof -
  note ring = add_keys_Inr [OF assms [unfolded make_key_ring_def]]
  have acts: "authenticate sha256 ring (Some k) = Inr p"
    if "(k, p) \<in> set (configured_keys reasoner_keys operator_key)" for k p
  proof -
    have "\<not> blank k" "Option.bind (key_digest sha256 k) ring = Some p" using ring that by auto
    moreover have "k \<noteq> []" using \<open>\<not> blank k\<close> by (auto simp: blank_def)
    ultimately show ?thesis by (simp add: authenticate_def ring_principal_def)
  qed
  have "p \<noteq> TRUSTED \<and> (\<exists>given held. k = Some given \<and> key_digest sha256 held = key_digest sha256 given
      \<and> (held, p) \<in> set (configured_keys reasoner_keys operator_key))"
    if auth: "authenticate sha256 ring k = Inr p" for k p
  proof -
    from auth obtain given d where k: "k = Some given" "key_digest sha256 given = Some d" "ring d = Some p"
      by (auto simp: authenticate_def ring_principal_def bind_eq_Some_conv split: option.splits if_splits)
    then obtain held where held: "(held, p) \<in> set (configured_keys reasoner_keys operator_key)"
      "key_digest sha256 held = Some d"
      using ring by (metis option.distinct(1))
    then have "p \<noteq> TRUSTED"
      by (auto simp: configured_keys_principals for_reasoner_def OPERATOR_def TRUSTED_def)
    with held k show ?thesis by auto
  qed
  moreover have "authenticate sha256 ring (Some k) = Inr (for_reasoner r)"
    if "(r, ks) \<in> set reasoner_keys" "k \<in> set ks" for r ks k
    by (rule acts) (use that in \<open>auto simp: configured_keys_principals\<close>)
  moreover have "authenticate sha256 ring (Some k) = Inr OPERATOR" if "operator_key = Some k" "k \<noteq> []" for k
    by (rule acts) (use that in \<open>auto simp: configured_keys_principals\<close>)
  ultimately show ?thesis by blast
qed

theorem keys_act_as_their_principal_witness:
  "\<exists>ring. make_key_ring (map unat) [([97], [[49]])] (Some [50]) = Inr ring
    \<and> authenticate (map unat) ring (Some [49]) = Inr (for_reasoner [97])
    \<and> authenticate (map unat) ring (Some [50]) = Inr OPERATOR"
proof -
  have "encode_utf8 [49] = Some [byte 49]" "encode_utf8 [50] = Some [byte 50]"
    by (simp_all add: encode_utf8_def encodable_def surrogate_def utf8_char_def)
  then obtain ring where ring: "make_key_ring (map unat) [([97], [[49]])] (Some [50]) = Inr ring"
    by (simp add: make_key_ring_def configured_keys_def add_key_def key_digest_def blank_def whitespace_def)
  from keys_act_as_their_principal [OF ring] have
    "authenticate (map unat) ring (Some [49]) = Inr (for_reasoner [97])"
    "authenticate (map unat) ring (Some [50]) = Inr OPERATOR" by simp_all
  with ring show ?thesis by blast
qed

end
