(* ===== verification/Api_Problems.thy ===== *)
theory Api_Problems
  imports Auth Audit_Store Submit
begin

text \<open>
  What the API's operations share: the problems they raise (\<open>core/exceptions.py\<close>,
  \<open>app/api/errors.py\<close>), the bound on a body, and the rule that a caller reads only the rows
  it may see (\<open>app/api/decisions.py\<close>). An operation returns \<open>Inl\<close> a problem; an exception
  that is no \<open>LedgerError\<close> is rendered as \<open>InternalError\<close>.
\<close>

section \<open>Problems\<close>

datatype ledger_error =
    NotAuthorized auth_problem
  | BodyTooLarge nat
  | BatchTooLarge nat
  | BatchEmpty
  | SubmissionInvalid
  | BatchRecordOnly
  | ReasonerNotRegistered ustr
  | ContractViolated ustr submission_violation
  | DecisionNotFound ustr
  | BundleUnreadable ustr nat
  | SchemaUnsupported uuid nat
  | ReasonerNotComposed ustr ustr
  | SnapshotMissing ustr ustr
  | ResolutionInvalid
  | ResolutionsUnavailable
  | DecisionNotResolvable ustr decision_action
  | DecisionAlreadyResolved ustr
  | ResolutionConflict ustr
  | RequestInvalid string
  | EntityIdInvalid ustr
  | InternalError

fun auth_status :: "auth_problem \<Rightarrow> nat" where
  "auth_status Unauthenticated = 401"
| "auth_status ReasonerKeyRequired = 403"
| "auth_status (ReasonerMismatch _ _) = 403"
| "auth_status OperatorKeyRequired = 403"

fun auth_code :: "auth_problem \<Rightarrow> string" where
  "auth_code Unauthenticated = ''UNAUTHENTICATED''"
| "auth_code ReasonerKeyRequired = ''REASONER_KEY_REQUIRED''"
| "auth_code (ReasonerMismatch _ _) = ''REASONER_MISMATCH''"
| "auth_code OperatorKeyRequired = ''OPERATOR_REQUIRED''"

text \<open>The \<open>status\<close> and \<open>code\<close> each problem is served with.\<close>

fun problem_status :: "ledger_error \<Rightarrow> nat" where
  "problem_status (NotAuthorized p) = auth_status p"
| "problem_status (BodyTooLarge _) = 413"
| "problem_status (BatchTooLarge _) = 413"
| "problem_status BatchEmpty = 422"
| "problem_status SubmissionInvalid = 422"
| "problem_status BatchRecordOnly = 422"
| "problem_status (ReasonerNotRegistered _) = 422"
| "problem_status (ContractViolated _ _) = 422"
| "problem_status (DecisionNotFound _) = 404"
| "problem_status (BundleUnreadable _ _) = 500"
| "problem_status (SchemaUnsupported _ _) = 409"
| "problem_status (ReasonerNotComposed _ _) = 409"
| "problem_status (SnapshotMissing _ _) = 409"
| "problem_status ResolutionInvalid = 422"
| "problem_status ResolutionsUnavailable = 503"
| "problem_status (DecisionNotResolvable _ _) = 409"
| "problem_status (DecisionAlreadyResolved _) = 409"
| "problem_status (ResolutionConflict _) = 409"
| "problem_status (RequestInvalid _) = 422"
| "problem_status (EntityIdInvalid _) = 422"
| "problem_status InternalError = 500"

fun problem_code :: "ledger_error \<Rightarrow> string" where
  "problem_code (NotAuthorized p) = auth_code p"
| "problem_code (BodyTooLarge _) = ''BODY_TOO_LARGE''"
| "problem_code (BatchTooLarge _) = ''BATCH_TOO_LARGE''"
| "problem_code BatchEmpty = ''BATCH_EMPTY''"
| "problem_code SubmissionInvalid = ''SUBMISSION_INVALID''"
| "problem_code BatchRecordOnly = ''BATCH_RECORD_ONLY''"
| "problem_code (ReasonerNotRegistered _) = ''REASONER_NOT_REGISTERED''"
| "problem_code (ContractViolated _ v) = violation_code v"
| "problem_code (DecisionNotFound _) = ''DECISION_NOT_FOUND''"
| "problem_code (BundleUnreadable _ _) = ''BUNDLE_UNREADABLE''"
| "problem_code (SchemaUnsupported _ _) = ''BUNDLE_SCHEMA_UNSUPPORTED''"
| "problem_code (ReasonerNotComposed _ _) = ''REASONER_NOT_COMPOSED''"
| "problem_code (SnapshotMissing _ _) = ''REGISTRATION_SNAPSHOT_MISSING''"
| "problem_code ResolutionInvalid = ''RESOLUTION_INVALID''"
| "problem_code ResolutionsUnavailable = ''RESOLUTIONS_UNAVAILABLE''"
| "problem_code (DecisionNotResolvable _ _) = ''DECISION_NOT_RESOLVABLE''"
| "problem_code (DecisionAlreadyResolved _) = ''DECISION_ALREADY_RESOLVED''"
| "problem_code (ResolutionConflict _) = ''RESOLUTION_CONFLICT''"
| "problem_code (RequestInvalid _) = ''REQUEST_INVALID''"
| "problem_code (EntityIdInvalid _) = ''ENTITY_ID_INVALID''"
| "problem_code InternalError = ''INTERNAL_ERROR''"

text \<open>An authorization check, as the operation raises it.\<close>

definition authorized :: "auth_problem + unit \<Rightarrow> ledger_error + unit" where
  "authorized r = map_sum NotAuthorized id r"

section \<open>Bodies\<close>

datatype wire_body = BytesBody bytes | TextBody ustr

definition MAX_SUBMISSION_BYTES :: nat where
  "MAX_SUBMISSION_BYTES = 2 ^ 20"

definition MAX_BATCH_BYTES :: nat where
  "MAX_BATCH_BYTES = 64 * 2 ^ 20"

definition bounded :: "wire_body \<Rightarrow> nat \<Rightarrow> ledger_error + bytes" where
  "bounded body limit =
     (case (case body of BytesBody data \<Rightarrow> Some data | TextBody s \<Rightarrow> encode_utf8 s) of
        None \<Rightarrow> Inl InternalError
      | Some data \<Rightarrow> if limit < length data then Inl (BodyTooLarge limit) else Inr data)"

text \<open>
  \<open>read_body\<close>: the declared length, when there is one, then the chunks as they arrive; the
  size read so far is the first argument of the loop.
\<close>

fun read_chunks :: "nat \<Rightarrow> nat \<Rightarrow> bytes list \<Rightarrow> ledger_error + bytes" where
  "read_chunks limit so_far [] = Inr []"
| "read_chunks limit so_far (chunk # chunks) =
     (if limit < so_far + length chunk then Inl (BodyTooLarge limit)
      else rbind (read_chunks limit (so_far + length chunk) chunks) (\<lambda>rest. Inr (chunk @ rest)))"

definition read_body :: "nat option \<Rightarrow> bytes list \<Rightarrow> nat \<Rightarrow> ledger_error + bytes" where
  "read_body declared chunks limit =
     (case declared of
        Some n \<Rightarrow> if limit < n then Inl (BodyTooLarge limit) else read_chunks limit 0 chunks
      | None \<Rightarrow> read_chunks limit 0 chunks)"

lemma read_chunks_bounded:
  "read_chunks limit so_far chunks =
     (if chunks \<noteq> [] \<and> limit < so_far + length (concat chunks) then Inl (BodyTooLarge limit)
      else Inr (concat chunks))"
  by (induction chunks arbitrary: so_far) auto

section \<open>Rows a caller may read\<close>

definition readable ::
    "store_wire \<Rightarrow> audit_state \<Rightarrow> principal \<Rightarrow> ustr \<Rightarrow> ledger_error + stored_bundle" where
  "readable wire st p the_id =
     (case lookup_bundle wire st the_id of
        Inl _ \<Rightarrow> Inl (DecisionNotFound the_id)
      | Inr stored \<Rightarrow>
          if \<not> may_read p (stored_reasoner stored) then Inl (DecisionNotFound the_id)
          else Inr stored)"

text \<open>The ledger as a caller sees it: the rows it may read.\<close>

definition visible_to :: "principal \<Rightarrow> audit_state \<Rightarrow> audit_state" where
  "visible_to p st = st\<lparr>bundle_rows := filter (\<lambda>row. may_read p (row_reasoner row)) (bundle_rows st)\<rparr>"

end
