(* ===== verification/Resolution.thy ===== *)
theory Resolution
  imports Api_Problems Registration_Version Audit_Correct
begin

text \<open>
  Resolutions of held and challenged decisions: the attempt records (\<open>core/resolution/\<close>), the
  journal that appends them (\<open>app/audit/resolution_journal.py\<close>) and the API operation that
  resolves a decision (\<open>resolve_decision\<close> of \<open>app/api/decisions.py\<close>). The operation issues
  four statements on an autocommit connection, and requests run on worker threads, so it is
  written as a machine that advances by one statement; a request that runs alone is four
  advances in a row.
\<close>

section \<open>Attempts\<close>

datatype resolver_kind =
    HumanKind | SlaDefaultKind | StepUpAuth | AutomatedOutreach | SecondOpinion | ExternalTicket
  | SelfService | Override | Escalation

datatype resolution_status = Pending | Completed | Escalated | Expired

text \<open>The fields of the subclasses; \<open>PlainAttempt\<close> is the base class itself.\<close>

datatype resolver =
    HumanReview (reviewer_role: "ustr option") (reference_ticket: "ustr option")
  | SlaDefault (entity_tier: ustr) (sla_window_seconds: nat)
  | PlainAttempt resolver_kind

record resolution_attempt =
  attempt_decision :: ustr
  attempt_id :: ustr
  attempt_sequence :: nat
  started_at :: instant
  completed_at :: "instant option"
  attempt_resolver :: resolver
  attempt_resolver_id :: ustr
  attempt_status :: resolution_status
  resolution_action :: "decision_action option"
  attempt_note :: ustr

definition TERMINAL :: "decision_action set" where
  "TERMINAL = {ALLOW, BLOCK}"

definition RESOLVABLE :: "decision_action set" where
  "RESOLVABLE = {CHALLENGE, HOLD}"

lemma resolvable_iff [simp]: "a \<in> RESOLVABLE \<longleftrightarrow> a \<notin> TERMINAL"
  by (cases a) (simp_all add: RESOLVABLE_def TERMINAL_def)

section \<open>The journal\<close>

text \<open>A row: its keys, the denormalized columns as the attempt gave them, and the payload.\<close>

record attempt_row =
  row_attempt :: uuid
  row_of :: uuid
  row_sequence :: nat
  row_columns :: resolution_attempt
  row_document :: json

record attempt_wire =
  dump_attempt :: "resolution_attempt \<Rightarrow> json"
  parse_attempt :: "json \<Rightarrow> ustr + resolution_attempt"

datatype journal_error = UniqueViolation | JournalStatementFailed | AttemptUnreadable ustr

text \<open>
  The insert: an \<open>integer\<close> sequence, storable text, unique keys, and a decision that is stored.
\<close>

definition record_attempt ::
    "store_wire \<Rightarrow> attempt_wire \<Rightarrow> audit_state \<Rightarrow> resolution_attempt \<Rightarrow> attempt_row list
      \<Rightarrow> attempt_row list \<times> (journal_error + unit)" where
  "record_attempt wire aw st a rows =
     (case (pg_uuid wire (attempt_id a), pg_uuid wire (attempt_decision a),
            to_jsonb wire (dump_attempt aw a)) of
        (Some key, Some decision, Some document) \<Rightarrow>
          if 2 ^ 31 \<le> attempt_sequence a \<or> text_problem (attempt_resolver_id a) \<noteq> None
             \<or> text_problem (attempt_note a) \<noteq> None
          then (rows, Inl JournalStatementFailed)
          else if \<exists>row \<in> set rows. row_attempt row = key
             \<or> (row_of row = decision \<and> row_sequence row = attempt_sequence a)
          then (rows, Inl UniqueViolation)
          else if decision \<notin> row_id ` set (bundle_rows st) then (rows, Inl JournalStatementFailed)
          else (rows @ [\<lparr>row_attempt = key, row_of = decision, row_sequence = attempt_sequence a,
                         row_columns = a, row_document = document\<rparr>], Inr ())
      | _ \<Rightarrow> (rows, Inl JournalStatementFailed))"

definition rows_of :: "uuid \<Rightarrow> attempt_row list \<Rightarrow> attempt_row list" where
  "rows_of decision rows = filter (\<lambda>row. row_of row = decision) rows"

definition load_attempts ::
    "store_wire \<Rightarrow> attempt_wire \<Rightarrow> attempt_row list \<Rightarrow> ustr \<Rightarrow> journal_error + resolution_attempt list" where
  "load_attempts wire aw rows decision =
     (case pg_uuid wire decision of
        None \<Rightarrow> Inl JournalStatementFailed
      | Some k \<Rightarrow>
          rmap (\<lambda>row. map_sum AttemptUnreadable id (parse_attempt aw (row_document row)))
            (sort_key row_sequence (rows_of k rows)))"

definition realized_action ::
    "store_wire \<Rightarrow> attempt_wire \<Rightarrow> attempt_row list \<Rightarrow> ustr \<Rightarrow> decision_action
      \<Rightarrow> journal_error + decision_action option" where
  "realized_action wire aw rows decision action =
     (if action \<in> TERMINAL then Inr (Some action)
      else rbind (load_attempts wire aw rows decision) (\<lambda>chain.
             Inr (Option.bind (find (\<lambda>a. resolution_action a \<in> Some ` TERMINAL) chain)
                    resolution_action)))"

definition latest_status ::
    "store_wire \<Rightarrow> attempt_wire \<Rightarrow> attempt_row list \<Rightarrow> ustr \<Rightarrow> journal_error + resolution_status option" where
  "latest_status wire aw rows decision =
     rbind (load_attempts wire aw rows decision) (\<lambda>chain.
       Inr (if chain = [] then None else Some (attempt_status (last chain))))"

section \<open>Resolving over the API\<close>

record resolution_request =
  request_resolver :: ustr
  request_action :: decision_action
  request_note :: ustr
  request_role :: "ustr option"
  request_ticket :: "ustr option"

definition optional_text :: "ustr option \<Rightarrow> json" where
  "optional_text s = (case s of None \<Rightarrow> JNull | Some t \<Rightarrow> JStr t)"

definition dump_request :: "resolution_request \<Rightarrow> json" where
  "dump_request r =
     JObj [(lit ''resolver_id'', JStr (request_resolver r)),
           (lit ''resolution_action'', JStr (action_text (request_action r))),
           (lit ''note'', JStr (request_note r)),
           (lit ''reviewer_role'', optional_text (request_role r)),
           (lit ''reference_ticket_id'', optional_text (request_ticket r))]"

definition request_valid :: "resolution_request \<Rightarrow> bool" where
  "request_valid r \<longleftrightarrow> request_resolver r \<noteq> [] \<and> request_note r \<noteq> []
     \<and> request_action r \<in> TERMINAL \<and> storage_problem (dump_request r) = None"

text \<open>\<open>read_request\<close> is pydantic's reading of the JSON text into the request's fields.\<close>

record resolution_env =
  env_wire :: store_wire
  env_attempts :: attempt_wire
  read_request :: "bytes \<Rightarrow> resolution_request option"
  journal_composed :: bool

text \<open>\<open>DecisionAction(payload.get("decision_action"))\<close>\<close>

definition stored_action :: "json \<Rightarrow> decision_action option" where
  "stored_action payload =
     (case json_get (lit ''decision_action'') payload of
        Some (JStr s) \<Rightarrow> find (\<lambda>a. action_text a = s) [ALLOW, CHALLENGE, HOLD, BLOCK]
      | _ \<Rightarrow> None)"

record resolution_receipt =
  receipt_attempt :: resolution_attempt
  receipt_realized :: "decision_action option"

datatype resolve_progress =
    Asked ustr decision_action resolution_request
  | Unresolved ustr decision_action resolution_request
  | Prepared resolution_attempt decision_action
  | Appended resolution_attempt decision_action
  | Answered "ledger_error + resolution_receipt"

definition parse_request :: "resolution_env \<Rightarrow> bytes \<Rightarrow> ledger_error + resolution_request" where
  "parse_request env data =
     (case read_request env data of
        None \<Rightarrow> Inl ResolutionInvalid
      | Some r \<Rightarrow> if request_valid r then Inr r else Inl ResolutionInvalid)"

definition action_to_resolve ::
    "store_wire \<Rightarrow> audit_state \<Rightarrow> principal \<Rightarrow> ustr \<Rightarrow> ledger_error + decision_action" where
  "action_to_resolve wire st p decision =
     rbind (readable wire st p decision) (\<lambda>stored.
       case stored_action (stored_payload stored) of
         None \<Rightarrow> Inl (BundleUnreadable decision (stored_schema stored))
       | Some a \<Rightarrow> if a \<notin> RESOLVABLE then Inl (DecisionNotResolvable decision a) else Inr a)"

text \<open>Up to the first read of the journal.\<close>

definition ask_resolution ::
    "resolution_env \<Rightarrow> audit_state \<Rightarrow> principal \<Rightarrow> ustr \<Rightarrow> wire_body \<Rightarrow> ledger_error + resolve_progress" where
  "ask_resolution env st p decision body =
     rbind (authorized (require_operator p)) (\<lambda>_.
     rbind (bounded body MAX_SUBMISSION_BYTES) (\<lambda>data.
     rbind (parse_request env data) (\<lambda>r.
       if \<not> journal_composed env then Inl ResolutionsUnavailable
       else rbind (action_to_resolve (env_wire env) st p decision) (\<lambda>a.
              Inr (Asked decision a r)))))"

definition human_attempt ::
    "ustr \<Rightarrow> instant \<Rightarrow> ustr \<Rightarrow> resolution_request \<Rightarrow> nat \<Rightarrow> resolution_attempt" where
  "human_attempt fresh now decision r n =
     \<lparr>attempt_decision = decision, attempt_id = fresh, attempt_sequence = n, started_at = now,
      completed_at = Some now, attempt_resolver = HumanReview (request_role r) (request_ticket r),
      attempt_resolver_id = request_resolver r, attempt_status = Completed,
      resolution_action = Some (request_action r), attempt_note = request_note r\<rparr>"

text \<open>One statement: is it resolved, how long is the chain, append, read the outcome back.\<close>

fun advance ::
    "resolution_env \<Rightarrow> ustr \<Rightarrow> instant \<Rightarrow> audit_state \<Rightarrow> attempt_row list \<Rightarrow> resolve_progress
      \<Rightarrow> attempt_row list \<times> resolve_progress" where
  "advance env fresh now st rows (Asked decision a r) =
     (rows, case realized_action (env_wire env) (env_attempts env) rows decision a of
              Inl _ \<Rightarrow> Answered (Inl InternalError)
            | Inr (Some _) \<Rightarrow> Answered (Inl (DecisionAlreadyResolved decision))
            | Inr None \<Rightarrow> Unresolved decision a r)"
| "advance env fresh now st rows (Unresolved decision a r) =
     (rows, case load_attempts (env_wire env) (env_attempts env) rows decision of
              Inl _ \<Rightarrow> Answered (Inl InternalError)
            | Inr chain \<Rightarrow> Prepared (human_attempt fresh now decision r (length chain)) a)"
| "advance env fresh now st rows (Prepared attempt a) =
     (case record_attempt (env_wire env) (env_attempts env) st attempt rows of
        (rows', Inl UniqueViolation) \<Rightarrow>
          (rows', Answered (Inl (ResolutionConflict (attempt_decision attempt))))
      | (rows', Inl _) \<Rightarrow> (rows', Answered (Inl InternalError))
      | (rows', Inr _) \<Rightarrow> (rows', Appended attempt a))"
| "advance env fresh now st rows (Appended attempt a) =
     (rows, case realized_action (env_wire env) (env_attempts env) rows (attempt_decision attempt) a of
              Inl _ \<Rightarrow> Answered (Inl InternalError)
            | Inr realized \<Rightarrow>
                Answered (Inr \<lparr>receipt_attempt = attempt, receipt_realized = realized\<rparr>))"
| "advance env fresh now st rows (Answered result) = (rows, Answered result)"

definition resolve_over_api ::
    "resolution_env \<Rightarrow> ustr \<Rightarrow> instant \<Rightarrow> audit_state \<Rightarrow> attempt_row list \<Rightarrow> principal \<Rightarrow> ustr \<Rightarrow> wire_body
      \<Rightarrow> attempt_row list \<times> resolve_progress" where
  "resolve_over_api env fresh now st rows p decision body =
     (case ask_resolution env st p decision body of
        Inl e \<Rightarrow> (rows, Answered (Inl e))
      | Inr asked \<Rightarrow> ((\<lambda>(rows, progress). advance env fresh now st rows progress) ^^ 4) (rows, asked))"

section \<open>Many requests at once\<close>

record resolving =
  ledger :: audit_state
  attempts :: "attempt_row list"
  requests :: "resolve_progress list"

inductive resolve_step :: "resolution_env \<Rightarrow> resolving \<Rightarrow> resolving \<Rightarrow> bool" for env where
  step_ask: "ask_resolution env (ledger s) p decision body = Inr asked \<Longrightarrow>
     resolve_step env s (s\<lparr>requests := requests s @ [asked]\<rparr>)"
| step_advance: "i < length (requests s) \<Longrightarrow>
     advance env fresh now (ledger s) (attempts s) (requests s ! i) = (rows, progress) \<Longrightarrow>
     resolve_step env s (s\<lparr>attempts := rows, requests := (requests s)[i := progress]\<rparr>)"
| step_ledger: "audit_step (env_wire env) (ledger s) st \<Longrightarrow> resolve_step env s (s\<lparr>ledger := st\<rparr>)"

end
