(* ===== verification/Resolution_Claims.thy ===== *)
theory Resolution_Claims
  imports Resolution Audit_Claims
begin

text \<open>
  What resolving promises, whatever requests overlap: attempts are numbered in the order they
  were recorded, only held or challenged decisions have any, and the first one settles the
  decision for good.
\<close>

section \<open>Chains\<close>

text \<open>
  What the model relies on: validation reads back the attempt a stored document was dumped
  from, and the two UUID parsers agree where both accept a text.
\<close>

definition resolution_env_ok :: "resolution_env \<Rightarrow> bool" where
  "resolution_env_ok env \<longleftrightarrow>
     (\<forall>a j. to_jsonb (env_wire env) (dump_attempt (env_attempts env) a) = Some j \<longrightarrow>
        parse_attempt (env_attempts env) j = Inr a)
     \<and> (\<forall>t k k'. pg_uuid (env_wire env) t = Some k \<longrightarrow> py_uuid (env_wire env) t = Some k' \<longrightarrow> k = k')"

definition resolvable_in :: "audit_state \<Rightarrow> uuid \<Rightarrow> bool" where
  "resolvable_in st k \<longleftrightarrow>
     (\<exists>row \<in> set (bundle_rows st). row_id row = k \<and> stored_action (row_payload row) \<in> Some ` RESOLVABLE)"

lemma resolvable_later: "resolvable_in st k \<Longrightarrow> audit_later st st' \<Longrightarrow> resolvable_in st' k"
  by (auto simp: resolvable_in_def audit_later_def dest: set_mono_prefix)

definition settled_row :: "attempt_wire \<Rightarrow> attempt_row \<Rightarrow> decision_action \<Rightarrow> bool" where
  "settled_row aw row x \<longleftrightarrow> x \<in> TERMINAL
     \<and> (\<exists>a. parse_attempt aw (row_document row) = Inr a \<and> resolution_action a = Some x)"

definition chain_ok :: "resolution_env \<Rightarrow> audit_state \<Rightarrow> attempt_row list \<Rightarrow> bool" where
  "chain_ok env st rows \<longleftrightarrow>
     (\<forall>k. map row_sequence (rows_of k rows) = [0..<length (rows_of k rows)])
     \<and> (\<forall>row \<in> set rows. resolvable_in st (row_of row) \<and> (\<exists>x. settled_row (env_attempts env) row x))"

lemma sort_key_numbered: "map f xs = [0..<length xs] \<Longrightarrow> sort_key f xs = xs"
  by (metis sorted_sort_id sort_key_id_if_sorted sorted_upt sorted_wrt_map)

text \<open>The first row of a decision's chain settles it.\<close>

definition settled_by :: "resolution_env \<Rightarrow> attempt_row list \<Rightarrow> uuid \<Rightarrow> decision_action option" where
  "settled_by env rows k =
     (case rows_of k rows of
        [] \<Rightarrow> None
      | row # _ \<Rightarrow>
          (case parse_attempt (env_attempts env) (row_document row) of
             Inl _ \<Rightarrow> None | Inr a \<Rightarrow> resolution_action a))"

lemma load_attempts_chain:
  assumes "chain_ok env st rows" "pg_uuid (env_wire env) d = Some k"
  obtains chain where "load_attempts (env_wire env) (env_attempts env) rows d = Inr chain"
    "length chain = length (rows_of k rows)"
    "find (\<lambda>a. resolution_action a \<in> Some ` TERMINAL) chain = (if chain = [] then None else Some (hd chain))"
    "chain \<noteq> [] \<Longrightarrow> resolution_action (hd chain) = settled_by env rows k \<and> settled_by env rows k \<in> Some ` TERMINAL"
proof -
  let ?parse = "\<lambda>row. map_sum AttemptUnreadable id (parse_attempt (env_attempts env) (row_document row))"
  have sorted: "sort_key row_sequence (rows_of k rows) = rows_of k rows"
    using assms(1) by (intro sort_key_numbered) (simp add: chain_ok_def)
  have each: "\<exists>a. parse_attempt (env_attempts env) (row_document row) = Inr a
      \<and> resolution_action a \<in> Some ` TERMINAL" if "row \<in> set (rows_of k rows)" for row
    using assms(1) that by (fastforce simp: chain_ok_def settled_row_def rows_of_def)
  define get :: "attempt_row \<Rightarrow> resolution_attempt" where
    "get row = projr (parse_attempt (env_attempts env) (row_document row))" for row
  have got: "?parse row = Inr (get row)" "resolution_action (get row) \<in> Some ` TERMINAL"
    if "row \<in> set (rows_of k rows)" for row
    using each [OF that] by (auto simp: get_def)
  have "load_attempts (env_wire env) (env_attempts env) rows d = Inr (map get (rows_of k rows))"
    by (simp add: load_attempts_def assms(2) sorted rmap_Inr got(1))
  moreover have "find (\<lambda>a. resolution_action a \<in> Some ` TERMINAL) (map get (rows_of k rows))
      = (if map get (rows_of k rows) = [] then None else Some (hd (map get (rows_of k rows))))"
    using got(2) by (cases "rows_of k rows") auto
  moreover have "resolution_action (hd (map get (rows_of k rows))) = settled_by env rows k
      \<and> settled_by env rows k \<in> Some ` TERMINAL" if "map get (rows_of k rows) \<noteq> []"
  proof -
    from that obtain row rest where r: "rows_of k rows = row # rest" by (cases "rows_of k rows") auto
    from each [of row] r show ?thesis by (auto simp: settled_by_def get_def)
  qed
  ultimately show ?thesis by (intro that [of "map get (rows_of k rows)"]) simp_all
qed

lemma realized_action_chain:
  assumes "chain_ok env st rows" "pg_uuid (env_wire env) d = Some k" "a \<notin> TERMINAL"
  shows "realized_action (env_wire env) (env_attempts env) rows d a = Inr (settled_by env rows k)"
    "settled_by env rows k = None \<longleftrightarrow> rows_of k rows = []"
proof -
  obtain chain where chain: "load_attempts (env_wire env) (env_attempts env) rows d = Inr chain"
    "length chain = length (rows_of k rows)"
    "find (\<lambda>a. resolution_action a \<in> Some ` TERMINAL) chain = (if chain = [] then None else Some (hd chain))"
    "chain \<noteq> [] \<Longrightarrow> resolution_action (hd chain) = settled_by env rows k \<and> settled_by env rows k \<in> Some ` TERMINAL"
    using load_attempts_chain [OF assms(1,2)] by metis
  have empty: "rows_of k rows = [] \<Longrightarrow> settled_by env rows k = None" by (simp add: settled_by_def)
  show "realized_action (env_wire env) (env_attempts env) rows d a = Inr (settled_by env rows k)"
    using chain assms(3) empty by (auto simp: realized_action_def)
  show "settled_by env rows k = None \<longleftrightarrow> rows_of k rows = []"
    using chain(2,4) empty by (cases chain) auto
qed

lemma settled_terminal:
  assumes "chain_ok env st rows" "settled_by env rows k = Some x"
  shows "x \<in> TERMINAL"
proof -
  obtain row rest where rows: "rows_of k rows = row # rest"
    using assms(2) by (cases "rows_of k rows") (auto simp: settled_by_def)
  then have "row \<in> set (rows_of k rows)" by simp
  then have "row \<in> set rows" by (simp add: rows_of_def)
  then obtain y where "settled_row (env_attempts env) row y" using assms(1) by (auto simp: chain_ok_def)
  with rows assms(2) show ?thesis by (auto simp: settled_by_def settled_row_def)
qed

lemma settled_by_later:
  assumes "settled_by env rows k = Some x" "prefix rows rows'"
  shows "settled_by env rows' k = Some x"
  using assms by (auto simp: settled_by_def rows_of_def prefix_def split: list.splits)


section \<open>Every statement keeps the chains\<close>

fun progress_ok :: "resolution_env \<Rightarrow> audit_state \<Rightarrow> attempt_row list \<Rightarrow> resolve_progress \<Rightarrow> bool" where
  "progress_ok env st rows (Asked d a r) \<longleftrightarrow> a \<notin> TERMINAL \<and> request_action r \<in> TERMINAL
     \<and> (\<forall>k. pg_uuid (env_wire env) d = Some k \<longrightarrow> resolvable_in st k)"
| "progress_ok env st rows (Unresolved d a r) \<longleftrightarrow> a \<notin> TERMINAL \<and> request_action r \<in> TERMINAL
     \<and> (\<forall>k. pg_uuid (env_wire env) d = Some k \<longrightarrow> resolvable_in st k)"
| "progress_ok env st rows (Prepared x a) \<longleftrightarrow> a \<notin> TERMINAL \<and> resolution_action x \<in> Some ` TERMINAL
     \<and> (\<forall>k. pg_uuid (env_wire env) (attempt_decision x) = Some k \<longrightarrow>
          resolvable_in st k \<and> attempt_sequence x \<le> length (rows_of k rows))"
| "progress_ok env st rows (Appended x a) \<longleftrightarrow> a \<notin> TERMINAL
     \<and> (\<exists>row \<in> set rows. row_columns row = x
          \<and> pg_uuid (env_wire env) (attempt_decision x) = Some (row_of row))"
| "progress_ok env st rows (Answered (Inl e)) \<longleftrightarrow> True"
| "progress_ok env st rows (Answered (Inr receipt)) \<longleftrightarrow>
     (\<exists>row \<in> set rows. row_columns row = receipt_attempt receipt
        \<and> pg_uuid (env_wire env) (attempt_decision (receipt_attempt receipt)) = Some (row_of row)
        \<and> receipt_realized receipt \<in> Some ` TERMINAL
        \<and> settled_by env rows (row_of row) = receipt_realized receipt)"

lemma rows_of_mono: "prefix rows rows' \<Longrightarrow> length (rows_of k rows) \<le> length (rows_of k rows')"
  by (auto simp: prefix_def rows_of_def)

lemma progress_later:
  assumes "progress_ok env st rows pr" "audit_later st st'" "prefix rows rows'"
  shows "progress_ok env st' rows' pr"
proof (cases pr)
  case (Answered r)
  have rows: "set rows \<subseteq> set rows'" using assms(3) by (rule set_mono_prefix)
  have later: "settled_by env rows k = Some x \<Longrightarrow> settled_by env rows' k = Some x" for k x
    using settled_by_later [OF _ assms(3)] by blast
  show ?thesis
  proof (cases r)
    case (Inr receipt)
    with Answered assms(1) obtain row where "row \<in> set rows" "row_columns row = receipt_attempt receipt"
      "pg_uuid (env_wire env) (attempt_decision (receipt_attempt receipt)) = Some (row_of row)"
      "receipt_realized receipt \<in> Some ` TERMINAL"
      "settled_by env rows (row_of row) = receipt_realized receipt" by auto
    with rows later Answered Inr show ?thesis by (auto intro!: bexI [of _ row])
  qed (simp add: Answered)
qed (use assms in \<open>auto intro: resolvable_later order.trans [OF _ rows_of_mono] dest: set_mono_prefix\<close>)

lemma record_attempt_cases:
  assumes "record_attempt wire aw st a rows = (rows', r)"
  obtains "rows' = rows" "r \<noteq> Inr ()"
  | key k document where "r = Inr ()" "pg_uuid wire (attempt_id a) = Some key"
      "pg_uuid wire (attempt_decision a) = Some k" "to_jsonb wire (dump_attempt aw a) = Some document"
      "\<forall>row \<in> set rows. row_of row = k \<longrightarrow> row_sequence row \<noteq> attempt_sequence a"
      "rows' = rows @ [\<lparr>row_attempt = key, row_of = k, row_sequence = attempt_sequence a,
         row_columns = a, row_document = document\<rparr>]"
proof (cases "pg_uuid wire (attempt_id a) = None \<or> pg_uuid wire (attempt_decision a) = None
    \<or> to_jsonb wire (dump_attempt aw a) = None")
  case True
  with assms have "rows' = rows" "r \<noteq> Inr ()"
    by (auto simp: record_attempt_def split: option.splits)
  then show ?thesis by (rule that(1))
next
  case False
  then obtain key k document where given: "pg_uuid wire (attempt_id a) = Some key"
    "pg_uuid wire (attempt_decision a) = Some k" "to_jsonb wire (dump_attempt aw a) = Some document" by auto
  show ?thesis
  proof (cases "r = Inr ()")
    case True
    then show ?thesis
      by (rule that(2) [OF _ given]) (use assms given True in \<open>auto simp: record_attempt_def split: if_splits\<close>)
  next
    case False
    with assms given have "rows' = rows" by (auto simp: record_attempt_def split: if_splits)
    then show ?thesis using False by (rule that(1))
  qed
qed

lemma chain_append:
  assumes env: "resolution_env_ok env" and chain: "chain_ok env st rows"
    and ok: "progress_ok env st rows (Prepared x a)"
    and rec: "record_attempt (env_wire env) (env_attempts env) st x rows = (rows', r)"
  shows "chain_ok env st rows' \<and> prefix rows rows'
    \<and> (r = Inr () \<longrightarrow> (\<exists>row \<in> set rows'. row_columns row = x
          \<and> pg_uuid (env_wire env) (attempt_decision x) = Some (row_of row)))"
  using rec
proof (cases rule: record_attempt_cases)
  case 1
  with chain show ?thesis by simp
next
  case (2 key k document)
  let ?row = "\<lparr>row_attempt = key, row_of = k, row_sequence = attempt_sequence x,
    row_columns = x, row_document = document\<rparr>"
  have numbered: "map row_sequence (rows_of k rows) = [0..<length (rows_of k rows)]"
    using chain by (simp add: chain_ok_def)
  have "attempt_sequence x = length (rows_of k rows)"
  proof (rule ccontr)
    assume "attempt_sequence x \<noteq> length (rows_of k rows)"
    with ok 2(3) have "attempt_sequence x \<in> set (map row_sequence (rows_of k rows))"
      unfolding numbered by simp
    with 2(5) show False by (auto simp: rows_of_def)
  qed
  then have "map row_sequence (rows_of j rows') = [0..<length (rows_of j rows')]" for j
    using chain numbered 2(6) by (auto simp: chain_ok_def rows_of_def)
  moreover obtain y where "resolution_action x = Some y" "y \<in> TERMINAL" using ok by auto
  then have "settled_row (env_attempts env) ?row y"
    using env 2(4) by (auto simp: settled_row_def resolution_env_ok_def)
  ultimately have "chain_ok env st rows'"
    using chain ok 2(3,6) by (auto simp: chain_ok_def)
  with 2 show ?thesis by auto
qed

lemma advance_keeps:
  assumes env: "resolution_env_ok env" and chain: "chain_ok env st rows"
    and ok: "progress_ok env st rows pr"
    and adv: "advance env fresh now st rows pr = (rows', pr')"
  shows "prefix rows rows' \<and> chain_ok env st rows' \<and> progress_ok env st rows' pr'"
proof (cases pr)
  case (Asked d a r)
  with adv ok chain show ?thesis by (auto split: sum.splits option.splits)
next
  case (Unresolved d a r)
  show ?thesis
  proof (cases "pg_uuid (env_wire env) d")
    case None
    then have "load_attempts (env_wire env) (env_attempts env) rows d = Inl JournalStatementFailed"
      by (simp add: load_attempts_def)
    with adv chain Unresolved show ?thesis by auto
  next
    case (Some k)
    obtain loaded where "load_attempts (env_wire env) (env_attempts env) rows d = Inr loaded"
      "length loaded = length (rows_of k rows)"
      by (rule load_attempts_chain [OF chain Some]) blast
    with adv ok chain Unresolved Some show ?thesis by (auto simp: human_attempt_def)
  qed
next
  case (Prepared x a)
  obtain rows1 r where rec: "record_attempt (env_wire env) (env_attempts env) st x rows = (rows1, r)"
    by fastforce
  have "chain_ok env st rows1 \<and> prefix rows rows1
    \<and> (r = Inr () \<longrightarrow> (\<exists>row \<in> set rows1. row_columns row = x
          \<and> pg_uuid (env_wire env) (attempt_decision x) = Some (row_of row)))"
    using chain_append [OF env chain _ rec] ok Prepared by blast
  with adv ok Prepared rec show ?thesis by (auto split: sum.splits journal_error.splits)
next
  case (Appended x a)
  then obtain row where row: "row \<in> set rows" "row_columns row = x"
    "pg_uuid (env_wire env) (attempt_decision x) = Some (row_of row)" "a \<notin> TERMINAL" using ok by auto
  note real = realized_action_chain [OF chain row(3,4)]
  have "rows_of (row_of row) rows \<noteq> []" using row(1) by (auto simp: rows_of_def filter_empty_conv)
  then obtain y where y: "settled_by env rows (row_of row) = Some y" using real(2) by blast
  then have "y \<in> TERMINAL" by (rule settled_terminal [OF chain])
  with adv chain Appended row real(1) y show ?thesis by auto
next
  case (Answered r)
  with adv ok chain show ?thesis by auto
qed


lemma parse_request_Inr:
  "parse_request env data = Inr r \<longleftrightarrow> read_request env data = Some r \<and> request_valid r"
  by (auto simp: parse_request_def split: option.splits)

lemma action_to_resolve_Inr:
  assumes "action_to_resolve wire st p d = Inr a"
  shows "\<exists>stored. readable wire st p d = Inr stored \<and> stored_action (stored_payload stored) = Some a
    \<and> a \<notin> TERMINAL"
proof -
  from assms obtain stored where stored: "readable wire st p d = Inr stored"
    and "(case stored_action (stored_payload stored) of
             None \<Rightarrow> Inl (BundleUnreadable d (stored_schema stored))
           | Some a \<Rightarrow> if a \<notin> RESOLVABLE then Inl (DecisionNotResolvable d a) else Inr a) = Inr a"
    unfolding action_to_resolve_def rbind_Inr_iff by blast
  then show ?thesis by (cases "stored_action (stored_payload stored)") (auto split: if_splits)
qed

lemma ask_ok:
  assumes env: "resolution_env_ok env" and ask: "ask_resolution env st p d body = Inr pr"
  shows "progress_ok env st rows pr"
proof -
  obtain r stored a where pr: "pr = Asked d a r" and r: "request_valid r"
    and stored: "readable (env_wire env) st p d = Inr stored"
    and a: "stored_action (stored_payload stored) = Some a" "a \<notin> TERMINAL"
    using ask by (auto simp: ask_resolution_def parse_request_Inr split: if_splits dest!: action_to_resolve_Inr)
  from stored obtain k row where k: "py_uuid (env_wire env) d = Some k"
    and row: "find (\<lambda>row. row_id row = k) (bundle_rows st) = Some row"
    and payload: "stored_payload stored = row_payload row"
    by (auto simp: readable_def lookup_bundle_def split: sum.splits option.splits if_splits)
  from find_in_set [OF row] payload a have "resolvable_in st k"
    by (auto simp: resolvable_in_def intro!: bexI [of _ row])
  then have "resolvable_in st j" if "pg_uuid (env_wire env) d = Some j" for j
    using env k that by (metis resolution_env_ok_def)
  then show ?thesis using pr r a(2) by (simp add: request_valid_def)
qed

lemma advance_prefix: "advance env fresh now st rows pr = (rows', pr') \<Longrightarrow> prefix rows rows'"
  by (cases pr) (auto elim!: record_attempt_cases split: prod.splits sum.splits journal_error.splits option.splits)

definition resolving_ok :: "resolution_env \<Rightarrow> resolving \<Rightarrow> bool" where
  "resolving_ok env s \<longleftrightarrow> resolution_env_ok env \<and> tables_ok (ledger s)
     \<and> chain_ok env (ledger s) (attempts s)
     \<and> (\<forall>pr \<in> set (requests s). progress_ok env (ledger s) (attempts s) pr)"

lemma chain_later: "chain_ok env st rows \<Longrightarrow> audit_later st st' \<Longrightarrow> chain_ok env st' rows"
  by (auto simp: chain_ok_def intro: resolvable_later)

lemma resolve_step_ok:
  assumes "resolve_step env s t" "resolving_ok env s"
  shows "resolving_ok env t"
  using assms(1)
proof cases
  case (step_ask p d body asked)
  with assms(2) ask_ok [OF _ step_ask(2)] show ?thesis by (auto simp: resolving_ok_def)
next
  case (step_advance i fresh now rows pr)
  have "prefix (attempts s) rows \<and> chain_ok env (ledger s) rows \<and> progress_ok env (ledger s) rows pr"
    by (rule advance_keeps [OF _ _ _ step_advance(3)]) (use assms(2) step_advance(2) in \<open>auto simp: resolving_ok_def\<close>)
  then show ?thesis
    using assms(2) step_advance(1) progress_later [OF _ audit_later_refl]
    by (auto simp: resolving_ok_def dest!: subsetD [OF set_update_subset_insert])
next
  case (step_ledger st)
  with assms(2) show ?thesis
    using audit_step_later [OF step_ledger(2)] audit_step_ok [OF step_ledger(2)]
    by (auto simp: resolving_ok_def intro: chain_later progress_later)
qed

interpretation resolving: kept "resolve_step env" "resolving_ok env" for env
  by unfold_locales (rule resolve_step_ok)

definition resolving_later :: "resolving \<Rightarrow> resolving \<Rightarrow> bool" where
  "resolving_later s t \<longleftrightarrow> audit_later (ledger s) (ledger t) \<and> prefix (attempts s) (attempts t)"

interpretation resolving_history: advancing "resolve_step env" resolving_later for env
proof
  fix s t u :: resolving
  show "resolving_later s s" by (simp add: resolving_later_def audit_later_refl)
  show "resolving_later s t \<Longrightarrow> resolving_later t u \<Longrightarrow> resolving_later s u"
    by (auto simp: resolving_later_def intro: audit_later_trans prefix_order.trans)
  show "resolve_step env s t \<Longrightarrow> resolving_later s t"
    by (induction rule: resolve_step.induct)
      (auto simp: resolving_later_def audit_later_refl audit_step_later dest: advance_prefix)
qed

text \<open>A ledger whose journal is still empty.\<close>

definition unresolved_ledger :: "resolving \<Rightarrow> bool" where
  "unresolved_ledger s \<longleftrightarrow> tables_ok (ledger s) \<and> attempts s = [] \<and> requests s = []"

lemma reached_ok:
  "(resolve_step env)\<^sup>*\<^sup>* s t \<Longrightarrow> unresolved_ledger s \<Longrightarrow> resolution_env_ok env \<Longrightarrow> resolving_ok env t"
  by (erule resolving.along)
    (simp add: resolving_ok_def unresolved_ledger_def chain_ok_def rows_of_def)

section \<open>Properties\<close>



section \<open>A concrete journal\<close>

definition ex_request :: "decision_action \<Rightarrow> resolution_request" where
  "ex_request a = \<lparr>request_resolver = [65], request_action = a, request_note = [66], request_role = None,
     request_ticket = None\<rparr>"

definition ex_allowed :: resolution_attempt where
  "ex_allowed = human_attempt [1] 0 [7] (ex_request ALLOW) 0"

definition ex_blocked :: resolution_attempt where
  "ex_blocked = human_attempt [2] 0 [7] (ex_request BLOCK) 1"

definition ex_ids :: "ustr \<Rightarrow> uuid option" where
  "ex_ids t = (if t = [7] then Some 7 else if t = [1] then Some 1 else if t = [2] then Some 2 else None)"

definition ex_journal_env :: resolution_env where
  "ex_journal_env =
     \<lparr>env_wire =
        \<lparr>dump_bundle = (\<lambda>_. JNull), parse_bundle = (\<lambda>_. Inl []), parse_identity = (\<lambda>_. Inl []),
         dump_event = (\<lambda>_. JNull), to_jsonb = (\<lambda>j. if j = JNull then None else Some j),
         pg_uuid = ex_ids, py_uuid = ex_ids, pg_text = (\<lambda>_. [])\<rparr>,
      env_attempts =
        \<lparr>dump_attempt = (\<lambda>a. if a = ex_allowed then JBool True
                             else if a = ex_blocked then JBool False else JNull),
         parse_attempt = (\<lambda>j. Inr (if j = JBool True then ex_allowed else ex_blocked))\<rparr>,
      read_request = (\<lambda>data. Some (ex_request (if data = [] then ALLOW else BLOCK))),
      journal_composed = True\<rparr>"

definition ex_held :: bundle_row where
  "ex_held = \<lparr>row_id = 7, row_reasoner = [97], row_entity = 0, row_created = 0, row_action = HOLD,
     row_schema = 2, row_payload = JObj [(lit ''decision_action'', JStr (lit ''HOLD''))]\<rparr>"

definition ex_open :: resolving where
  "ex_open = \<lparr>ledger = ex_ledger\<lparr>bundle_rows := [ex_held]\<rparr>, attempts = [], requests = []\<rparr>"

lemma ex_differ [simp]: "ex_allowed \<noteq> ex_blocked" "ex_blocked \<noteq> ex_allowed"
  by (simp_all add: ex_allowed_def ex_blocked_def human_attempt_def)

lemma ex_journal_ok: "resolution_env_ok ex_journal_env" "unresolved_ledger ex_open"
  by (simp_all add: resolution_env_ok_def ex_journal_env_def unresolved_ledger_def ex_open_def tables_ok_def
      ex_held_def ex_ledger_def)

lemma ex_asked:
  "ask_resolution ex_journal_env (ledger ex_open) OPERATOR [7] (BytesBody []) = Inr (Asked [7] HOLD (ex_request ALLOW))"
  "ask_resolution ex_journal_env (ledger ex_open) OPERATOR [7] (BytesBody [0]) = Inr (Asked [7] HOLD (ex_request BLOCK))"
proof -
  have storable: "request_valid (ex_request ALLOW)" "request_valid (ex_request BLOCK)"
    by (simp_all add: request_valid_def ex_request_def dump_request_def optional_text_def TERMINAL_def
        text_problem_def surrogate_def)
  have "action_to_resolve (env_wire ex_journal_env) (ledger ex_open) OPERATOR [7] = Inr HOLD"
    by (simp add: action_to_resolve_def readable_def lookup_bundle_def ex_journal_env_def ex_ids_def ex_open_def
        ex_ledger_def ex_held_def may_read_def OPERATOR_def stored_action_def TERMINAL_def)
  moreover have "authorized (require_operator OPERATOR) = Inr ()"
    by (simp add: authorized_def require_operator_def may_resolve_def OPERATOR_def)
  ultimately show
    "ask_resolution ex_journal_env (ledger ex_open) OPERATOR [7] (BytesBody []) = Inr (Asked [7] HOLD (ex_request ALLOW))"
    "ask_resolution ex_journal_env (ledger ex_open) OPERATOR [7] (BytesBody [0]) = Inr (Asked [7] HOLD (ex_request BLOCK))"
    using storable
    by (simp_all add: ask_resolution_def bounded_def MAX_SUBMISSION_BYTES_def parse_request_def)
      (simp_all add: ex_journal_env_def)
qed


definition ex_first :: attempt_row where
  "ex_first = \<lparr>row_attempt = 1, row_of = 7, row_sequence = 0, row_columns = ex_allowed,
     row_document = JBool True\<rparr>"

definition ex_second :: attempt_row where
  "ex_second = \<lparr>row_attempt = 2, row_of = 7, row_sequence = 1, row_columns = ex_blocked,
     row_document = JBool False\<rparr>"

definition ex_receipt :: "resolution_attempt \<Rightarrow> resolution_receipt" where
  "ex_receipt a = \<lparr>receipt_attempt = a, receipt_realized = Some ALLOW\<rparr>"

lemma ex_loads:
  "load_attempts (env_wire ex_journal_env) (env_attempts ex_journal_env) [] [7] = Inr []"
  "load_attempts (env_wire ex_journal_env) (env_attempts ex_journal_env) [ex_first] [7] = Inr [ex_allowed]"
  "load_attempts (env_wire ex_journal_env) (env_attempts ex_journal_env) [ex_first, ex_second] [7]
     = Inr [ex_allowed, ex_blocked]"
  by (simp_all add: load_attempts_def ex_journal_env_def ex_ids_def rows_of_def ex_first_def ex_second_def)

lemma ex_attempt_simps:
  "resolution_action ex_allowed = Some ALLOW" "resolution_action ex_blocked = Some BLOCK"
  "attempt_decision ex_allowed = [7]" "attempt_decision ex_blocked = [7]"
  by (simp_all add: ex_allowed_def ex_blocked_def human_attempt_def ex_request_def)

lemma ex_records:
  "record_attempt (env_wire ex_journal_env) (env_attempts ex_journal_env) (ledger ex_open) ex_allowed []
     = ([ex_first], Inr ())"
  "record_attempt (env_wire ex_journal_env) (env_attempts ex_journal_env) (ledger ex_open) ex_blocked [ex_first]
     = ([ex_first, ex_second], Inr ())"
proof -
  have texts: "text_problem (attempt_resolver_id ex_allowed) = None" "text_problem (attempt_note ex_allowed) = None"
    "text_problem (attempt_resolver_id ex_blocked) = None" "text_problem (attempt_note ex_blocked) = None"
    "attempt_id ex_allowed = [1]" "attempt_id ex_blocked = [2]"
    "attempt_sequence ex_allowed = 0" "attempt_sequence ex_blocked = 1"
    by (simp_all add: ex_allowed_def ex_blocked_def human_attempt_def ex_request_def text_problem_def surrogate_def)
  show
    "record_attempt (env_wire ex_journal_env) (env_attempts ex_journal_env) (ledger ex_open) ex_allowed []
       = ([ex_first], Inr ())"
    "record_attempt (env_wire ex_journal_env) (env_attempts ex_journal_env) (ledger ex_open) ex_blocked [ex_first]
       = ([ex_first, ex_second], Inr ())"
    by (simp_all add: record_attempt_def ex_journal_env_def ex_ids_def texts ex_attempt_simps ex_first_def
        ex_second_def ex_open_def ex_ledger_def ex_held_def)
qed

lemma ex_advances:
  "advance ex_journal_env f n (ledger ex_open) [] (Asked [7] HOLD r) = ([], Unresolved [7] HOLD r)"
  "advance ex_journal_env [1] 0 (ledger ex_open) [] (Unresolved [7] HOLD (ex_request ALLOW))
     = ([], Prepared ex_allowed HOLD)"
  "advance ex_journal_env f n (ledger ex_open) [] (Prepared ex_allowed HOLD) = ([ex_first], Appended ex_allowed HOLD)"
  "advance ex_journal_env [2] 0 (ledger ex_open) [ex_first] (Unresolved [7] HOLD (ex_request BLOCK))
     = ([ex_first], Prepared ex_blocked HOLD)"
  "advance ex_journal_env f n (ledger ex_open) [ex_first] (Prepared ex_blocked HOLD)
     = ([ex_first, ex_second], Appended ex_blocked HOLD)"
  "advance ex_journal_env f n (ledger ex_open) [ex_first] (Appended ex_allowed HOLD)
     = ([ex_first], Answered (Inr (ex_receipt ex_allowed)))"
  "advance ex_journal_env f n (ledger ex_open) [ex_first, ex_second] (Appended ex_blocked HOLD)
     = ([ex_first, ex_second], Answered (Inr (ex_receipt ex_blocked)))"
  by (simp_all add: realized_action_def ex_loads ex_records ex_attempt_simps ex_receipt_def TERMINAL_def)
    (simp_all add: ex_allowed_def ex_blocked_def)


declare advance.simps [simp del]

definition ex_at :: "attempt_row list \<Rightarrow> resolve_progress list \<Rightarrow> resolving" where
  "ex_at rows rs = ex_open\<lparr>attempts := rows, requests := rs\<rparr>"

lemma ex_move:
  assumes "(resolve_step ex_journal_env)\<^sup>*\<^sup>* ex_open (ex_at rows rs)" "i < length rs"
  shows "(resolve_step ex_journal_env)\<^sup>*\<^sup>* ex_open
    (ex_at (fst (advance ex_journal_env f n (ledger ex_open) rows (rs ! i)))
      (rs[i := snd (advance ex_journal_env f n (ledger ex_open) rows (rs ! i))]))"
proof -
  have "resolve_step ex_journal_env (ex_at rows rs)
    (ex_at (fst (advance ex_journal_env f n (ledger ex_open) rows (rs ! i)))
      (rs[i := snd (advance ex_journal_env f n (ledger ex_open) rows (rs ! i))]))"
    using step_advance [where s = "ex_at rows rs" and env = ex_journal_env] assms(2) by (simp add: ex_at_def)
  with assms(1) show ?thesis by (rule rtranclp.rtrancl_into_rtrancl)
qed

lemma ex_arrive:
  assumes "(resolve_step ex_journal_env)\<^sup>*\<^sup>* ex_open (ex_at rows rs)"
    and "ask_resolution ex_journal_env (ledger ex_open) OPERATOR [7] body = Inr pr"
  shows "(resolve_step ex_journal_env)\<^sup>*\<^sup>* ex_open (ex_at rows (rs @ [pr]))"
proof -
  have "resolve_step ex_journal_env (ex_at rows rs) (ex_at rows (rs @ [pr]))"
    using step_ask [where s = "ex_at rows rs" and env = ex_journal_env] assms(2) by (simp add: ex_at_def)
  with assms(1) show ?thesis by (rule rtranclp.rtrancl_into_rtrancl)
qed

lemma ex_runs:
  "(resolve_step ex_journal_env)\<^sup>*\<^sup>* ex_open (ex_at [ex_first]
     [Answered (Inr (ex_receipt ex_allowed)), Unresolved [7] HOLD (ex_request BLOCK)])"
  "(resolve_step ex_journal_env)\<^sup>*\<^sup>* ex_open (ex_at [ex_first, ex_second]
     [Answered (Inr (ex_receipt ex_allowed)), Answered (Inr (ex_receipt ex_blocked))])"
proof -
  have "(resolve_step ex_journal_env)\<^sup>*\<^sup>* ex_open (ex_at [] [])" by (simp add: ex_at_def ex_open_def)
  from ex_arrive [OF ex_arrive [OF this ex_asked(1)] ex_asked(2)]
  have "(resolve_step ex_journal_env)\<^sup>*\<^sup>* ex_open
    (ex_at [] [Asked [7] HOLD (ex_request ALLOW), Asked [7] HOLD (ex_request BLOCK)])" by simp
  from ex_move [OF this, of 0 "[]" 0] ex_advances(1)
  have "(resolve_step ex_journal_env)\<^sup>*\<^sup>* ex_open
    (ex_at [] [Unresolved [7] HOLD (ex_request ALLOW), Asked [7] HOLD (ex_request BLOCK)])" by simp
  from ex_move [OF this, of 1 "[]" 0] ex_advances(1)
  have "(resolve_step ex_journal_env)\<^sup>*\<^sup>* ex_open
    (ex_at [] [Unresolved [7] HOLD (ex_request ALLOW), Unresolved [7] HOLD (ex_request BLOCK)])" by simp
  from ex_move [OF this, of 0 "[1]" 0] ex_advances(2)
  have "(resolve_step ex_journal_env)\<^sup>*\<^sup>* ex_open
    (ex_at [] [Prepared ex_allowed HOLD, Unresolved [7] HOLD (ex_request BLOCK)])" by simp
  from ex_move [OF this, of 0 "[]" 0] ex_advances(3)
  have "(resolve_step ex_journal_env)\<^sup>*\<^sup>* ex_open
    (ex_at [ex_first] [Appended ex_allowed HOLD, Unresolved [7] HOLD (ex_request BLOCK)])" by simp
  from ex_move [OF this, of 0 "[]" 0] ex_advances(6)
  show "(resolve_step ex_journal_env)\<^sup>*\<^sup>* ex_open
    (ex_at [ex_first] [Answered (Inr (ex_receipt ex_allowed)), Unresolved [7] HOLD (ex_request BLOCK)])" by simp
  from ex_move [OF this, of 1 "[2]" 0] ex_advances(4)
  have "(resolve_step ex_journal_env)\<^sup>*\<^sup>* ex_open
    (ex_at [ex_first] [Answered (Inr (ex_receipt ex_allowed)), Prepared ex_blocked HOLD])" by simp
  from ex_move [OF this, of 1 "[]" 0] ex_advances(5)
  have "(resolve_step ex_journal_env)\<^sup>*\<^sup>* ex_open
    (ex_at [ex_first, ex_second] [Answered (Inr (ex_receipt ex_allowed)), Appended ex_blocked HOLD])" by simp
  from ex_move [OF this, of 1 "[]" 0] ex_advances(7)
  show "(resolve_step ex_journal_env)\<^sup>*\<^sup>* ex_open
    (ex_at [ex_first, ex_second] [Answered (Inr (ex_receipt ex_allowed)), Answered (Inr (ex_receipt ex_blocked))])" by simp
qed

text \<open>
  Two requests whose first reads overlap are both acknowledged: the second sees an unresolved
  decision, then counts the attempt the first one recorded meanwhile, so its own sequence is
  free and no unique index refuses it.
\<close>

theorem overlapping_resolutions_both_recorded:
  "\<exists>s. (resolve_step ex_journal_env)\<^sup>*\<^sup>* ex_open s
    \<and> requests s = [Answered (Inr (ex_receipt ex_allowed)), Answered (Inr (ex_receipt ex_blocked))]
    \<and> attempt_decision ex_allowed = attempt_decision ex_blocked
    \<and> resolution_action ex_allowed = Some ALLOW \<and> resolution_action ex_blocked = Some BLOCK"
  using ex_runs(2) by (auto simp: ex_at_def ex_attempt_simps)



lemma four_times: "(f ^^ 4) x = f (f (f (f x)))"
  by (simp add: eval_nat_numeral)

lemma advance_answered [simp]: "advance env fresh now st rows (Answered r) = (rows, Answered r)"
  by (simp add: advance.simps)

text \<open>A request that finds the decision settled is refused and writes nothing.\<close>

lemma settled_refused:
  assumes "chain_ok env st rows" "pg_uuid (env_wire env) d = Some k" "rows_of k rows \<noteq> []"
  shows "resolve_over_api env fresh now st rows p d body =
    (rows, Answered (Inl (case ask_resolution env st p d body of
       Inl e \<Rightarrow> e | Inr _ \<Rightarrow> DecisionAlreadyResolved d)))"
proof (cases "ask_resolution env st p d body")
  case (Inr asked)
  then obtain a r where asked: "asked = Asked d a r" "a \<notin> TERMINAL"
    by (auto simp: ask_resolution_def split: if_splits dest!: action_to_resolve_Inr)
  from realized_action_chain [OF assms(1,2) asked(2)] assms(3) show ?thesis
    using Inr asked(1) by (auto simp: resolve_over_api_def four_times advance.simps)
qed (simp add: resolve_over_api_def)

lemma resolved_alone:
  assumes env: "resolution_env_ok env" and chain: "chain_ok env st rows"
    and call: "resolve_over_api env fresh now st rows p d body = (rows', pr)"
  obtains e where "pr = Answered (Inl e)" "rows' = rows"
  | receipt k row where "pr = Answered (Inr receipt)" "may_resolve p" "pg_uuid (env_wire env) d = Some k"
      "resolvable_in st k" "rows_of k rows = []" "rows' = rows @ [row]" "row_of row = k"
      "row_columns row = receipt_attempt receipt" "attempt_sequence (receipt_attempt receipt) = 0"
      "receipt_realized receipt = resolution_action (receipt_attempt receipt)" "chain_ok env st rows'"
proof (cases "ask_resolution env st p d body")
  case (Inl e)
  with call have "pr = Answered (Inl e)" "rows' = rows" by (auto simp: resolve_over_api_def)
  then show ?thesis by (rule that(1))
next
  case (Inr asked)
  then obtain a r where asked: "asked = Asked d a r" "a \<notin> TERMINAL" and p: "may_resolve p"
    by (auto simp: ask_resolution_def authorized_def require_operator_def split: if_splits
        dest!: action_to_resolve_Inr)
  have ok: "progress_ok env st rows (Asked d a r)" using ask_ok [OF env Inr] asked(1) by simp
  have run: "(rows', pr) = (let step = \<lambda>(rows, pr). advance env fresh now st rows pr
      in step (step (step (advance env fresh now st rows (Asked d a r)))))"
    using call Inr asked(1) by (simp add: resolve_over_api_def four_times)
  show ?thesis
  proof (cases "pg_uuid (env_wire env) d")
    case None
    then have "realized_action (env_wire env) (env_attempts env) rows d a = Inl JournalStatementFailed"
      using asked(2) by (simp add: realized_action_def load_attempts_def)
    with run show ?thesis by (intro that(1)) (auto simp: advance.simps)
  next
    case (Some k)
    note real = realized_action_chain [OF chain Some asked(2)]
    show ?thesis
    proof (cases "rows_of k rows = []")
      case False
      from settled_refused [OF chain Some False] call show ?thesis by (intro that(1)) auto
    next
      case True
      obtain loaded where "load_attempts (env_wire env) (env_attempts env) rows d = Inr loaded" "length loaded = 0"
        by (rule load_attempts_chain [OF chain Some]) (use True in simp)
      then have loads: "load_attempts (env_wire env) (env_attempts env) rows d = Inr []" by simp
      let ?x = "human_attempt fresh now d r 0"
      obtain rows1 result where rec:
        "record_attempt (env_wire env) (env_attempts env) st ?x rows = (rows1, result)" by fastforce
      have prepared: "progress_ok env st rows (Prepared ?x a)"
        using ok by (simp add: human_attempt_def)
      have x: "attempt_decision ?x = d" "attempt_sequence ?x = 0" "resolution_action ?x = Some (request_action r)"
        by (simp_all add: human_attempt_def)
      have steps: "(rows', pr) = (let step = \<lambda>(rows, pr). advance env fresh now st rows pr
          in step (advance env fresh now st rows (Prepared ?x a)))"
        using run real True loads by (simp add: advance.simps)
      from rec show ?thesis
      proof (cases rule: record_attempt_cases)
        case 1
        with steps rec have "\<exists>e. pr = Answered (Inl e) \<and> rows' = rows"
          by (auto simp: advance.simps split: sum.splits journal_error.splits)
        with that(1) show ?thesis by blast
      next
        case (2 key j document)
        let ?row = "\<lparr>row_attempt = key, row_of = j, row_sequence = attempt_sequence ?x, row_columns = ?x,
          row_document = document\<rparr>"
        have j: "j = k" using 2(3) Some x(1) by simp
        have chain1: "chain_ok env st rows1" using chain_append [OF env chain prepared rec] by blast
        have "parse_attempt (env_attempts env) document = Inr ?x"
          using env 2(4) by (auto simp: resolution_env_ok_def)
        then have "settled_by env rows1 k = Some (request_action r)"
          using True 2(6) j x(3) by (simp add: settled_by_def rows_of_def)
        then have "realized_action (env_wire env) (env_attempts env) rows1 d a = Inr (Some (request_action r))"
          using realized_action_chain(1) [OF chain1 Some asked(2)] by simp
        then have "rows' = rows @ [?row]"
          "pr = Answered (Inr \<lparr>receipt_attempt = ?x, receipt_realized = Some (request_action r)\<rparr>)"
          using steps rec 2(1,6) x(1) by (simp_all add: advance.simps)
        then show ?thesis
          using p Some ok True x chain1 2(6) j 
          by (intro that(2) [of "\<lparr>receipt_attempt = ?x, receipt_realized = Some (request_action r)\<rparr>" k ?row])
            simp_all
      qed
    qed
  qed
qed


text \<open>
  A request that runs alone resolves a decision once. Either it is refused and writes
  nothing; or its caller may resolve, the decision is held or challenged and had no attempt,
  its attempt is the only row written, number zero, and its action is realized. After that,
  whatever else runs, every request for that decision, under any spelling of its id, is
  refused without a write, as already resolved unless it is refused for itself.
\<close>

theorem resolved_once:
  assumes "(resolve_step env)\<^sup>*\<^sup>* s0 s" "unresolved_ledger s0" "resolution_env_ok env"
    and "resolve_over_api env fresh now (ledger s) (attempts s) p d body = (rows, pr)"
  shows "(\<exists>e. pr = Answered (Inl e) \<and> rows = attempts s)
    \<or> (\<exists>receipt k row. pr = Answered (Inr receipt) \<and> may_resolve p
        \<and> pg_uuid (env_wire env) d = Some k \<and> resolvable_in (ledger s) k \<and> rows_of k (attempts s) = []
        \<and> rows = attempts s @ [row] \<and> row_of row = k \<and> row_columns row = receipt_attempt receipt
        \<and> attempt_sequence (receipt_attempt receipt) = 0
        \<and> receipt_realized receipt = resolution_action (receipt_attempt receipt)
        \<and> (\<forall>t fresh' now' p' d' body'.
             (resolve_step env)\<^sup>*\<^sup>* (s\<lparr>attempts := rows\<rparr>) t \<longrightarrow> pg_uuid (env_wire env) d' = Some k \<longrightarrow>
             resolve_over_api env fresh' now' (ledger t) (attempts t) p' d' body' =
               (attempts t, Answered (Inl (case ask_resolution env (ledger t) p' d' body' of
                  Inl e \<Rightarrow> e | Inr _ \<Rightarrow> DecisionAlreadyResolved d')))))"
proof -
  have ok: "resolving_ok env s" by (rule reached_ok [OF assms(1-3)])
  then have chain: "chain_ok env (ledger s) (attempts s)" by (simp add: resolving_ok_def)
  from assms(3) chain assms(4) show ?thesis
  proof (cases rule: resolved_alone)
    case (2 receipt k row)
    have grown: "resolving_ok env (s\<lparr>attempts := rows\<rparr>)"
      using ok 2(6,11) progress_later [OF _ audit_later_refl, of env "ledger s" "attempts s" _ rows]
      by (auto simp: resolving_ok_def)
    have later: "resolve_over_api env fresh' now' (ledger t) (attempts t) p' d' body' =
        (attempts t, Answered (Inl (case ask_resolution env (ledger t) p' d' body' of
           Inl e \<Rightarrow> e | Inr _ \<Rightarrow> DecisionAlreadyResolved d')))"
      if "(resolve_step env)\<^sup>*\<^sup>* (s\<lparr>attempts := rows\<rparr>) t" "pg_uuid (env_wire env) d' = Some k"
      for t fresh' now' p' d' body'
    proof (rule settled_refused)
      show "chain_ok env (ledger t) (attempts t)"
        using resolving.along [OF that(1) grown] by (simp add: resolving_ok_def)
      have "prefix rows (attempts t)"
        using resolving_history.along [OF that(1)] by (simp add: resolving_later_def)
      then have "row \<in> set (attempts t)" using 2(6) by (auto dest: set_mono_prefix)
      then show "rows_of k (attempts t) \<noteq> []" using 2(7) by (auto simp: rows_of_def filter_empty_conv)
    qed (rule that(2))
    show ?thesis by (rule disjI2) (use 2 later in blast)
  qed blast
qed

theorem resolved_once_witness:
  "resolve_over_api ex_journal_env [1] 0 (ledger ex_open) [] OPERATOR [7] (BytesBody [])
     = ([ex_first], Answered (Inr (ex_receipt ex_allowed)))
   \<and> resolve_over_api ex_journal_env [2] 0 (ledger ex_open) [ex_first] OPERATOR [7] (BytesBody [0])
     = ([ex_first], Answered (Inl (DecisionAlreadyResolved [7])))"
proof -
  have call: "resolve_over_api ex_journal_env [1] 0 (ledger ex_open) (attempts ex_open) OPERATOR [7] (BytesBody [])
      = ([ex_first], Answered (Inr (ex_receipt ex_allowed)))"
    using ex_advances(1) [of "[1]" 0 "ex_request ALLOW"] ex_advances(2) ex_advances(3,6) [of "[1]" 0]
    by (simp add: resolve_over_api_def ex_asked four_times) (simp add: ex_open_def)
  have "attempts ex_open = []" by (simp add: ex_open_def)
  have k: "pg_uuid (env_wire ex_journal_env) [7] = Some 7" by (simp add: ex_journal_env_def ex_ids_def)
  let ?t = "ex_open\<lparr>attempts := [ex_first]\<rparr>"
  have "resolve_over_api ex_journal_env [2] 0 (ledger ?t) (attempts ?t) OPERATOR [7] (BytesBody [0])
    = (attempts ?t, Answered (Inl (case ask_resolution ex_journal_env (ledger ?t) OPERATOR [7] (BytesBody [0]) of
        Inl e \<Rightarrow> e | Inr _ \<Rightarrow> DecisionAlreadyResolved [7])))"
    using resolved_once [OF rtranclp.rtrancl_refl ex_journal_ok(2,1) call] k by auto
  with call show ?thesis by (simp add: ex_asked) (simp add: ex_open_def)
qed

text \<open>
  A spelling of an id that only Python's parser takes (\<open>urn:uuid:...\<close>) names a decision to
  \<open>_readable\<close>, which hands the text itself on to the journal's queries: the request fails
  with an internal error instead of resolving the decision.
\<close>

theorem python_spelling_is_not_resolved:
  assumes "ask_resolution env st p d body = Inr asked" "pg_uuid (env_wire env) d = None"
  shows "resolve_over_api env fresh now st rows p d body = (rows, Answered (Inl InternalError))"
proof -
  obtain a r where "asked = Asked d a r" "a \<notin> TERMINAL"
    using assms(1) by (auto simp: ask_resolution_def split: if_splits dest!: action_to_resolve_Inr)
  moreover from this have
    "realized_action (env_wire env) (env_attempts env) rows d a = Inl JournalStatementFailed"
    using assms(2) by (simp add: realized_action_def load_attempts_def)
  ultimately show ?thesis using assms(1) by (simp add: resolve_over_api_def four_times advance.simps)
qed

end
