(* ===== verification/Decisions_Api.thy ===== *)
theory Decisions_Api
  imports Api_Problems Escrow
begin

text \<open>
  The operations of \<open>app/api/decisions.py\<close> and \<open>app/api/entities.py\<close>: deciding one
  submission, recording a batch, and reading a decision, its replay, its evidence and a
  subject's timeline. Pydantic's reading of a JSON text is the parameter \<open>read_submission\<close>.
\<close>

section \<open>Deciding one submission\<close>

record decisions_env =
  served :: deployment
  stored_through :: store_wire
  read_submission :: "bytes \<Rightarrow> submission option"
  dump_submission :: "submission \<Rightarrow> json"

definition DEFAULT_GATE_BUDGET_MS :: nat where
  "DEFAULT_GATE_BUDGET_MS = 45000"

definition parse_submission :: "decisions_env \<Rightarrow> bytes \<Rightarrow> ledger_error + submission" where
  "parse_submission api data =
     (case read_submission api data of
        None \<Rightarrow> Inl SubmissionInvalid
      | Some s \<Rightarrow> if submission_valid (dump_submission api) s then Inr s else Inl SubmissionInvalid)"

text \<open>The two exceptions of \<open>decide\<close> the operations translate; any other is the server's failure.\<close>

fun decide_problem :: "decide_error \<Rightarrow> ledger_error" where
  "decide_problem (UnregisteredReasonerError r) = ReasonerNotRegistered r"
| "decide_problem (IntakeRaised (SubmissionContractError r v)) = ContractViolated r v"
| "decide_problem _ = InternalError"

definition decide_over_api ::
    "decisions_env \<Rightarrow> readings \<Rightarrow> instant \<Rightarrow> submission \<Rightarrow> ledger_error + decision_bundle" where
  "decide_over_api api t received s =
     map_sum decide_problem id (decide (served api) t s received [] None None DEFAULT_GATE_BUDGET_MS)"

definition create_decision ::
    "decisions_env \<Rightarrow> readings \<Rightarrow> instant \<Rightarrow> principal \<Rightarrow> wire_body \<Rightarrow> audit_state
      \<Rightarrow> audit_state \<times> (ledger_error + decision_bundle)" where
  "create_decision api t received p body st =
     (case rbind (bounded body MAX_SUBMISSION_BYTES) (\<lambda>data.
           rbind (parse_submission api data) (\<lambda>s.
           rbind (authorized (require_submitter p (reasoner_id s))) (\<lambda>_.
           decide_over_api api t received s))) of
        Inl e \<Rightarrow> (st, Inl e)
      | Inr b \<Rightarrow>
          (case write_bundle (stored_through api) b st of
             (st', Inl _) \<Rightarrow> (st', Inl InternalError)
           | (st', Inr _) \<Rightarrow> (st', Inr b)))"

section \<open>Batches\<close>

definition MAX_BATCH_LINES :: nat where
  "MAX_BATCH_LINES = 10000"

text \<open>The bytes up to the first line feed and, if there is one, those after it.\<close>

fun line_break :: "bytes \<Rightarrow> bytes \<times> bytes option" where
  "line_break [] = ([], None)"
| "line_break (b # data) =
     (if b = 10 then ([], Some data)
      else (case line_break data of (line, rest) \<Rightarrow> (b # line, rest)))"

lemma line_break_shorter: "line_break data = (line, Some rest) \<Longrightarrow> length rest < length data"
  by (induction data arbitrary: line) (auto split: if_splits prod.splits)

definition drop_return :: "bytes \<Rightarrow> bytes" where
  "drop_return line = (if line \<noteq> [] \<and> last line = 13 then butlast line else line)"

definition blank_bytes :: "bytes \<Rightarrow> bool" where
  "blank_bytes line \<longleftrightarrow> set line \<subseteq> {9, 10, 11, 12, 13, 32}"

text \<open>The scan: the number of the next line, the lines held so far, and the bytes left.\<close>

function ndjson_from :: "nat \<Rightarrow> nat \<Rightarrow> bytes \<Rightarrow> ledger_error + (nat \<times> bytes) list" where
  "ndjson_from number held data =
     (case line_break data of
        (raw, rest) \<Rightarrow>
          let line = drop_return raw; keep = \<not> blank_bytes line
          in if keep \<and> MAX_BATCH_LINES \<le> held then Inl (BatchTooLarge MAX_BATCH_LINES)
             else rbind (case rest of
                           None \<Rightarrow> Inr []
                         | Some left \<Rightarrow> ndjson_from (number + 1) (if keep then held + 1 else held) left)
                    (\<lambda>lines. Inr (if keep then (number, line) # lines else lines)))"
  by pat_completeness auto
termination
  by (relation "measure (\<lambda>(_, _, data). length data)") (auto dest: line_break_shorter [OF sym])

declare ndjson_from.simps [simp del]

definition ndjson_lines :: "bytes \<Rightarrow> ledger_error + (nat \<times> bytes) list" where
  "ndjson_lines data = ndjson_from 1 0 data"

datatype line_result =
    LineRecorded nat decision_bundle
  | LineRejected nat "ustr option" ledger_error

text \<open>
  One line's outcome, given the clock and ids its decision reads: an exception that is not
  an intake error fails the whole batch.
\<close>

definition line_outcome ::
    "decisions_env \<Rightarrow> (nat \<Rightarrow> readings) \<Rightarrow> instant \<Rightarrow> nat \<times> (ledger_error + submission)
      \<Rightarrow> ledger_error + line_result" where
  "line_outcome api ts received entry =
     (case entry of
        (n, Inl e) \<Rightarrow> Inr (LineRejected n None e)
      | (n, Inr s) \<Rightarrow>
          if mode s \<noteq> Record then Inr (LineRejected n (Some (event_id s)) BatchRecordOnly)
          else (case decide_over_api api (ts n) received s of
                  Inr b \<Rightarrow> Inr (LineRecorded n b)
                | Inl InternalError \<Rightarrow> Inl InternalError
                | Inl e \<Rightarrow> Inr (LineRejected n (Some (event_id s)) e)))"

fun recorded_bundle :: "line_result \<Rightarrow> decision_bundle option" where
  "recorded_bundle (LineRecorded n b) = Some b"
| "recorded_bundle (LineRejected n e problem) = None"

record batch_result =
  batch_recorded :: nat
  batch_rejected :: nat
  batch_lines :: "line_result list"

definition batch_summary :: "line_result list \<Rightarrow> batch_result" where
  "batch_summary results =
     (let n = length (List.map_filter recorded_bundle results)
      in \<lparr>batch_recorded = n, batch_rejected = length results - n, batch_lines = results\<rparr>)"

definition submitter_checked :: "principal \<Rightarrow> nat \<times> (ledger_error + submission) \<Rightarrow> ledger_error + unit" where
  "submitter_checked p entry =
     (case snd entry of Inl _ \<Rightarrow> Inr () | Inr s \<Rightarrow> authorized (require_submitter p (reasoner_id s)))"

definition batch_outcomes ::
    "decisions_env \<Rightarrow> (nat \<Rightarrow> readings) \<Rightarrow> instant \<Rightarrow> principal \<Rightarrow> wire_body \<Rightarrow> ledger_error + line_result list" where
  "batch_outcomes api ts received p body =
     rbind (bounded body MAX_BATCH_BYTES) (\<lambda>data.
     rbind (ndjson_lines data) (\<lambda>lines.
       if lines = [] then Inl BatchEmpty
       else let parsed = map (\<lambda>(n, line). (n, parse_submission api line)) lines
            in rbind (rcheck (submitter_checked p) parsed) (\<lambda>_.
               rmap (line_outcome api ts received) parsed)))"

definition record_batch ::
    "decisions_env \<Rightarrow> (nat \<Rightarrow> readings) \<Rightarrow> instant \<Rightarrow> principal \<Rightarrow> wire_body \<Rightarrow> audit_state
      \<Rightarrow> audit_state \<times> (ledger_error + batch_result)" where
  "record_batch api ts received p body st =
     (case batch_outcomes api ts received p body of
        Inl e \<Rightarrow> (st, Inl e)
      | Inr results \<Rightarrow>
          (case write_bundles (stored_through api) (List.map_filter recorded_bundle results) st of
             (st', Inl _) \<Rightarrow> (st', Inl InternalError)
           | (st', Inr _) \<Rightarrow> (st', Inr (batch_summary results))))"


section \<open>Receipts\<close>

record gate_summary =
  summary_gate :: ustr
  summary_mandatory :: bool
  summary_status :: gate_status
  summary_enforced :: "decision_action option"
  summary_reason :: "record_reason option"

record decision_receipt =
  receipt_decision :: ustr
  receipt_reasoner :: ustr
  receipt_event :: ustr
  receipt_entity :: uuid
  receipt_entity_type :: ustr
  receipt_mode :: submission_mode
  receipt_action :: decision_action
  receipt_level_rule :: "ustr option"
  receipt_credited :: "ustr option"
  receipt_bypass :: "ustr option"
  receipt_holds :: "bool option"
  receipt_version :: "ustr option"
  receipt_gates :: "gate_summary list"
  receipt_latency :: "(ustr \<times> rat) list"
  receipt_created :: instant

definition receipt_of :: "decision_bundle \<Rightarrow> decision_receipt" where
  "receipt_of b =
     \<lparr>receipt_decision = decision_id b, receipt_reasoner = reasoner_id (submission b),
      receipt_event = event_id (submission b), receipt_entity = bundle_entity_id b,
      receipt_entity_type = bundle_entity_type b, receipt_mode = mode (submission b),
      receipt_action = bundle_action b, receipt_level_rule = decision_level_rule b,
      receipt_credited = credited_rule b,
      receipt_bypass = map_option cited_rule_id (bypass (submission b)),
      receipt_holds = bypass_rule_holds b, receipt_version = registration_version b,
      receipt_gates =
        map (\<lambda>r. \<lparr>summary_gate = record_gate_id r, summary_mandatory = record_mandatory r,
                   summary_status = status r, summary_enforced = enforced_action r,
                   summary_reason = record_reason r\<rparr>) (bundle_gates b),
      receipt_latency = latency_breakdown b, receipt_created = created_at b\<rparr>"

section \<open>Reading a decision\<close>

definition lookup_decision ::
    "store_wire \<Rightarrow> audit_state \<Rightarrow> principal \<Rightarrow> ustr \<Rightarrow> ledger_error + json" where
  "lookup_decision wire st p the_id =
     rbind (readable wire st p the_id) (\<lambda>stored.
       case as_bundle wire stored of
         Inr b \<Rightarrow> Inr (dump_bundle wire b)
       | Inl (BundleSchemaUnsupported k n) \<Rightarrow>
           (case stored_payload stored of
              JObj kvs \<Rightarrow> Inr (JObj (AList.update (lit ''schema_version'') (JInt (int (stored_schema stored))) kvs))
            | _ \<Rightarrow> Inl InternalError)
       | Inl _ \<Rightarrow> Inl (BundleUnreadable the_id (stored_schema stored)))"

fun replay_problem :: "ustr \<Rightarrow> store_error \<Rightarrow> ledger_error" where
  "replay_problem the_id (NotAUuid _) = DecisionNotFound the_id"
| "replay_problem the_id (NoBundle _) = DecisionNotFound the_id"
| "replay_problem the_id (BundleSchemaUnsupported k n) = SchemaUnsupported k n"
| "replay_problem the_id (UnregisteredReasoner r) = ReasonerNotComposed the_id r"
| "replay_problem the_id (RegistrationSnapshotMissing r v) = SnapshotMissing r v"
| "replay_problem the_id (PayloadInvalid _) = BundleUnreadable the_id BUNDLE_SCHEMA_VERSION"
| "replay_problem the_id _ = InternalError"

definition replay_decision ::
    "store_wire \<Rightarrow> versioning \<Rightarrow> reloading \<Rightarrow> registry_state \<Rightarrow> audit_state \<Rightarrow> principal \<Rightarrow> ustr
      \<Rightarrow> audit_state \<times> (ledger_error + replay_result)" where
  "replay_decision wire version reload reg st p the_id =
     (case readable wire st p the_id of
        Inl e \<Rightarrow> (st, Inl e)
      | Inr _ \<Rightarrow>
          (case replay_stored wire version reload reg st the_id of
             (st', Inl e) \<Rightarrow> (st', Inl (replay_problem the_id e))
           | (st', Inr result) \<Rightarrow> (st', Inr result)))"

section \<open>Verifying the evidence of a decision\<close>

datatype escrow_status = NoArtifact | ArtifactPresent | ArtifactMissing

record verified_reference =
  verified_gate :: ustr
  verified_ref :: evidence_ref
  verified_escrow :: escrow_status
  verified_status :: evidence_status

definition escrow_status_of :: "ustr set \<Rightarrow> evidence_ref \<Rightarrow> escrow_status" where
  "escrow_status_of held ref =
     (case artifact_hash ref of
        None \<Rightarrow> NoArtifact
      | Some h \<Rightarrow> if h \<in> held then ArtifactPresent else ArtifactMissing)"

text \<open>\<open>zip(..., strict=True)\<close> over one gate's references and the statuses it is given.\<close>

definition verify_gate ::
    "gate_map \<Rightarrow> bool \<Rightarrow> ustr set \<Rightarrow> ustr \<times> gate_output \<Rightarrow> cancelled_call + verified_reference list" where
  "verify_gate gs live held entry =
     (case entry of (g, out) \<Rightarrow>
        rbind (verify_evidence (map_of gs g) out live DEFAULT_GATE_BUDGET_MS) (\<lambda>statuses.
          Inr (map (\<lambda>(ref, s). \<lparr>verified_gate = g, verified_ref = ref,
                 verified_escrow = escrow_status_of held ref, verified_status = s\<rparr>)
               (zip (evidence out) statuses))))"

definition gates_that_ran :: "decision_bundle \<Rightarrow> (ustr \<times> gate_output) list" where
  "gates_that_ran b =
     List.map_filter (\<lambda>r. map_option (\<lambda>out. (record_gate_id r, out)) (gate_output_of r)) (bundle_gates b)"

record verification_summary =
  count_intact :: nat
  count_changed :: nat
  count_unavailable :: nat
  count_not_verifiable :: nat
  count_escrow_missing :: nat

definition summarize_verification :: "verified_reference list \<Rightarrow> verification_summary" where
  "summarize_verification refs =
     \<lparr>count_intact = length (filter (\<lambda>r. verified_status r = Intact) refs),
      count_changed = length (filter (\<lambda>r. verified_status r = SourceChanged) refs),
      count_unavailable = length (filter (\<lambda>r. verified_status r = SourceUnavailable) refs),
      count_not_verifiable = length (filter (\<lambda>r. verified_status r = NotVerifiable) refs),
      count_escrow_missing = length (filter (\<lambda>r. verified_escrow r = ArtifactMissing) refs)\<rparr>"

definition verify_bundle ::
    "gate_map \<Rightarrow> artifact_table \<Rightarrow> bool \<Rightarrow> decision_bundle
      \<Rightarrow> cancelled_call + verified_reference list \<times> verification_summary" where
  "verify_bundle gs table live b =
     (let ran = gates_that_ran b;
          named = concat (map (\<lambda>(_, out). List.map_filter artifact_hash (evidence out)) ran);
          held = held_artifacts table (set named)
      in rbind (rmap (verify_gate gs live held) ran) (\<lambda>refs.
           Inr (concat refs, summarize_verification (concat refs))))"

definition verify_decision ::
    "store_wire \<Rightarrow> gate_map \<Rightarrow> artifact_table \<Rightarrow> audit_state \<Rightarrow> principal \<Rightarrow> bool \<Rightarrow> ustr
      \<Rightarrow> ledger_error + (cancelled_call + verified_reference list \<times> verification_summary)" where
  "verify_decision wire gs table st p live the_id =
     rbind (readable wire st p the_id) (\<lambda>stored.
       case as_bundle wire stored of
         Inr b \<Rightarrow> Inr (verify_bundle gs table live b)
       | Inl (BundleSchemaUnsupported k n) \<Rightarrow> Inl (SchemaUnsupported k n)
       | Inl _ \<Rightarrow> Inl (BundleUnreadable the_id (stored_schema stored)))"

section \<open>A subject's timeline\<close>

definition MAX_LIMIT :: int where
  "MAX_LIMIT = 500"

text \<open>The outer \<open>option\<close> is the walk's, as in \<open>entity_decisions\<close>.\<close>

definition timeline_over_api ::
    "store_wire \<Rightarrow> audit_state \<Rightarrow> principal \<Rightarrow> ustr \<Rightarrow> ustr option \<Rightarrow> int \<Rightarrow> instant option \<Rightarrow> ustr option
      \<Rightarrow> ustr option \<Rightarrow> (ledger_error + decision_summary list) option" where
  "timeline_over_api wire st p the_entity reasoner limit before before_id include_related =
     (if \<not> (1 \<le> limit \<and> limit \<le> MAX_LIMIT) then Some (Inl (RequestInvalid ''limit''))
      else if pred_option blank include_related \<and> include_related \<noteq> None then Some (Inl (RequestInvalid ''include_related''))
      else if before_id \<noteq> None \<and> before = None then Some (Inl (RequestInvalid ''before''))
      else if kind p = ReasonerKind \<and> reasoner \<noteq> None \<and> reasoner \<noteq> principal_reasoner p
      then Some (Inl (NotAuthorized (ReasonerMismatch (the reasoner) (principal_reasoner p))))
      else if \<not> pred_option (\<lambda>t. py_uuid wire t \<noteq> None) before_id
      then Some (Inl (RequestInvalid ''before_id''))
      else map_option (map_sum (\<lambda>_. EntityIdInvalid the_entity) id)
             (entity_decisions wire st the_entity
                (if kind p = ReasonerKind then principal_reasoner p else reasoner)
                (nat limit) before before_id include_related))"

end
