(* ===== verification/Api_Claims.thy ===== *)
theory Api_Claims
  imports Decisions_Api Audit_Claims
begin

text \<open>
  What the decision routes promise: a batch is its lines, each decided as a single record
  would be, and a tenant sees and writes its own decisions only.
\<close>

section \<open>NDJSON\<close>

text \<open>The lines of a body, at every line feed; the reference the scan is compared with.\<close>

fun split_lf :: "bytes \<Rightarrow> bytes list" where
  "split_lf [] = [[]]"
| "split_lf (b # data) =
     (if b = 10 then [] # split_lf data
      else (case split_lf data of [] \<Rightarrow> [[b]] | line # rest \<Rightarrow> (b # line) # rest))"

definition nonblank_from :: "nat \<Rightarrow> bytes \<Rightarrow> (nat \<times> bytes) list" where
  "nonblank_from number data =
     filter (\<lambda>(n, line). \<not> blank_bytes line) (enumerate number (map drop_return (split_lf data)))"

lemma split_lf_line_break:
  "split_lf data =
     (case line_break data of (line, None) \<Rightarrow> [line] | (line, Some rest) \<Rightarrow> line # split_lf rest)"
  by (induction data) (auto split: prod.splits option.splits)

lemma nonblank_from_break:
  "nonblank_from number data =
     (case line_break data of (raw, rest) \<Rightarrow>
        (if blank_bytes (drop_return raw) then [] else [(number, drop_return raw)])
        @ (case rest of None \<Rightarrow> [] | Some left \<Rightarrow> nonblank_from (number + 1) left))"
  by (simp add: nonblank_from_def split_lf_line_break [of data] split: prod.splits option.splits)

lemma ndjson_from_spec:
  "held \<le> MAX_BATCH_LINES \<Longrightarrow>
   ndjson_from number held data =
     (if MAX_BATCH_LINES < held + length (nonblank_from number data) then Inl (BatchTooLarge MAX_BATCH_LINES)
      else Inr (nonblank_from number data))"
proof (induction number held data rule: ndjson_from.induct)
  case (1 number held data)
  obtain raw rest where lb: "line_break data = (raw, rest)" by fastforce
  note spec = ndjson_from.simps [of number held data] nonblank_from_break [of number data] lb
  show ?case
  proof (cases rest)
    case None
    with spec show ?thesis using "1.prems" by (auto simp: Let_def)
  next
    case (Some left)
    let ?keep = "\<not> blank_bytes (drop_return raw)"
    show ?thesis
    proof (cases "?keep \<and> MAX_BATCH_LINES \<le> held")
      case True
      with spec show ?thesis by (simp add: Let_def)
    next
      case False
      have "ndjson_from (number + 1) (if ?keep then held + 1 else held) left =
          (if MAX_BATCH_LINES < (if ?keep then held + 1 else held) + length (nonblank_from (number + 1) left)
           then Inl (BatchTooLarge MAX_BATCH_LINES) else Inr (nonblank_from (number + 1) left))"
        by (rule "1.IH" [OF lb [symmetric] refl refl False Some]) (use False "1.prems" in auto)
      with spec Some False show ?thesis by (auto simp: Let_def)
    qed
  qed
qed

lemma ndjson_lines_spec:
  "ndjson_lines data =
     (if MAX_BATCH_LINES < length (nonblank_from 1 data) then Inl (BatchTooLarge MAX_BATCH_LINES)
      else Inr (nonblank_from 1 data))"
  by (simp add: ndjson_lines_def ndjson_from_spec)

lemma nonblank_distinct: "distinct (map fst (nonblank_from number data))"
proof -
  have "map fst (nonblank_from number data) = filter (\<lambda>_. True) (map fst (nonblank_from number data))" by simp
  moreover have "distinct (map fst (filter P (enumerate n xs)))" for P n and xs :: "bytes list"
    by (rule distinct_map_filter) simp
  ultimately show ?thesis by (simp add: nonblank_from_def)
qed

section \<open>Batches\<close>

text \<open>A line's result, on its own.\<close>

definition line_alone ::
    "decisions_env \<Rightarrow> (nat \<Rightarrow> readings) \<Rightarrow> instant \<Rightarrow> nat \<times> bytes \<Rightarrow> line_result" where
  "line_alone api ts received entry =
     (case entry of (n, line) \<Rightarrow>
        case parse_submission api line of
          Inl e \<Rightarrow> LineRejected n None e
        | Inr s \<Rightarrow>
            if mode s \<noteq> Record then LineRejected n (Some (event_id s)) BatchRecordOnly
            else (case decide_over_api api (ts n) received s of
                    Inl e \<Rightarrow> LineRejected n (Some (event_id s)) e
                  | Inr b \<Rightarrow> LineRecorded n b))"

lemma line_outcome_alone:
  assumes "line_outcome api ts received (n, parse_submission api line) = Inr x"
  shows "x = line_alone api ts received (n, line)" "\<forall>ev. x \<noteq> LineRejected n ev InternalError"
  using assms
  by (auto simp: line_outcome_def line_alone_def parse_submission_def
      split: sum.splits if_splits ledger_error.splits option.splits)


lemma batch_outcomes_Inr:
  assumes "batch_outcomes api ts received p (BytesBody data) = Inr results"
  shows "nonblank_from 1 data \<noteq> []" "results = map (line_alone api ts received) (nonblank_from 1 data)"
    "(n, line) \<in> set (nonblank_from 1 data) \<Longrightarrow> parse_submission api line = Inr s \<Longrightarrow>
       may_submit_for p (reasoner_id s)"
    "(n, line) \<in> set (nonblank_from 1 data) \<Longrightarrow> line_alone api ts received (n, line) \<noteq> LineRejected m ev InternalError"
proof -
  let ?parse = "\<lambda>(n, line). (n, parse_submission api line)" and ?lines = "nonblank_from 1 data"
  have lines: "?lines \<noteq> []"
    and checked: "rcheck (submitter_checked p) (map ?parse ?lines) = Inr ()"
    and each: "rmap (line_outcome api ts received) (map ?parse ?lines) = Inr results"
    using assms
    by (auto simp: batch_outcomes_def bounded_def ndjson_lines_spec Let_def simp del: One_nat_def
        split: if_splits)
  show "?lines \<noteq> []" by (rule lines)
  show "may_submit_for p (reasoner_id s)"
    if "(n, line) \<in> set ?lines" "parse_submission api line = Inr s" for n line s
  proof -
    have "submitter_checked p (n, parse_submission api line) = Inr ()"
      using checked that(1) by auto
    with that(2) show ?thesis
      by (auto simp: submitter_checked_def authorized_def require_submitter_def split: if_splits)
  qed
  have n: "length ?lines = length results"
    and nth: "\<And>i. i < length ?lines \<Longrightarrow>
      line_outcome api ts received (?parse (?lines ! i)) = Inr (results ! i)"
    using each by (simp_all add: rmap_Inr_nth)
  have outcome: "results ! i = line_alone api ts received (?lines ! i)
      \<and> (\<forall>ev. results ! i \<noteq> LineRejected (fst (?lines ! i)) ev InternalError)" if "i < length ?lines" for i
    using line_outcome_alone [of api ts received "fst (?lines ! i)" "snd (?lines ! i)"] nth [OF that]
    by (simp add: case_prod_beta)
  show results: "results = map (line_alone api ts received) ?lines"
    by (rule nth_equalityI) (use n outcome in auto)
  show "line_alone api ts received (n, line) \<noteq> LineRejected m ev InternalError"
    if "(n, line) \<in> set ?lines" for n line m ev
  proof -
    obtain i where i: "i < length ?lines" "?lines ! i = (n, line)" using \<open>(n, line) \<in> _\<close> by (auto simp: in_set_conv_nth)
    with outcome [OF i(1)] show ?thesis
      by (auto simp: line_alone_def split: sum.splits if_splits)
  qed
qed

lemma create_decision_alone:
  assumes "length line \<le> MAX_SUBMISSION_BYTES"
    and "\<And>s. parse_submission api line = Inr s \<Longrightarrow> may_submit_for p (reasoner_id s)"
  shows "line_alone api ts received (n, line) = LineRecorded m b \<Longrightarrow>
      create_decision api (ts n) received p (BytesBody line) st =
        (case write_bundle (stored_through api) b st of
           (st', Inl _) \<Rightarrow> (st', Inl InternalError) | (st', Inr _) \<Rightarrow> (st', Inr b))"
    and "line_alone api ts received (n, line) = LineRejected m ev e \<Longrightarrow> e \<noteq> BatchRecordOnly \<Longrightarrow>
      create_decision api (ts n) received p (BytesBody line) st = (st, Inl e)"
  using assms
  by (auto simp: line_alone_def create_decision_def bounded_def authorized_def require_submitter_def
      split: sum.splits if_splits)

text \<open>
  C27: A batch is its lines. A batch that is accepted has one result per non-blank line, lines
  ending at a line feed only, in order and under its line number; every reasoner its lines
  name is one the caller may write for; and what is written are the recorded bundles, in line
  order. A line's result is what the same submission alone gets from the single-decision
  route, its bundle or its refusal, except that a gated one is refused. A batch that is
  refused for its content writes nothing.
\<close>

theorem batch_lines_decided_alike:
  assumes "record_batch api ts received p (BytesBody data) st = (st', r)"
  shows "(\<forall>e. r = Inl e \<longrightarrow> e \<noteq> InternalError \<longrightarrow> st' = st)
    \<and> (\<forall>result. r = Inr result \<longrightarrow>
        batch_lines result = map (line_alone api ts received) (nonblank_from 1 data)
        \<and> (\<forall>(n, line) \<in> set (nonblank_from 1 data). \<forall>s. parse_submission api line = Inr s \<longrightarrow>
             may_submit_for p (reasoner_id s))
        \<and> write_bundles (stored_through api) (List.map_filter recorded_bundle (batch_lines result)) st
            = (st', Inr ())
        \<and> batch_recorded result + batch_rejected result = length (nonblank_from 1 data)
        \<and> (\<forall>(n, line) \<in> set (nonblank_from 1 data). length line \<le> MAX_SUBMISSION_BYTES \<longrightarrow> (\<forall>st0.
             (\<forall>m b. line_alone api ts received (n, line) = LineRecorded m b \<longrightarrow>
                create_decision api (ts n) received p (BytesBody line) st0 =
                  (case write_bundle (stored_through api) b st0 of
                     (st1, Inl _) \<Rightarrow> (st1, Inl InternalError) | (st1, Inr _) \<Rightarrow> (st1, Inr b)))
             \<and> (\<forall>m ev e. line_alone api ts received (n, line) = LineRejected m ev e \<longrightarrow> e \<noteq> BatchRecordOnly \<longrightarrow>
                  create_decision api (ts n) received p (BytesBody line) st0 = (st0, Inl e)))))"
proof (cases "batch_outcomes api ts received p (BytesBody data)")
  case (Inl e)
  with assms have "st' = st" "r = Inl e" by (simp_all add: record_batch_def)
  then show ?thesis by simp
next
  case (Inr results)
  note accepted = Inr
  note outcomes = batch_outcomes_Inr [OF Inr]
  obtain st1 r1 where wrote:
    "write_bundles (stored_through api) (List.map_filter recorded_bundle results) st = (st1, r1)" by fastforce
  show ?thesis
  proof (cases r1)
    case (Inl e)
    with assms accepted Inr wrote show ?thesis by (auto simp: record_batch_def)
  next
    case (Inr u)
    with assms accepted wrote have r: "st' = st1" "r = Inr (batch_summary results)"
      by (auto simp: record_batch_def)
    have "length (List.map_filter recorded_bundle results) \<le> length results"
      by (simp add: map_filter_def)
    then have "batch_recorded (batch_summary results) + batch_rejected (batch_summary results)
        = length (nonblank_from 1 data)" "batch_lines (batch_summary results) = results"
      using outcomes(2) by (simp_all add: batch_summary_def Let_def)
    moreover have "\<forall>(n, line) \<in> set (nonblank_from 1 data). length line \<le> MAX_SUBMISSION_BYTES \<longrightarrow> (\<forall>st0.
             (\<forall>m b. line_alone api ts received (n, line) = LineRecorded m b \<longrightarrow>
                create_decision api (ts n) received p (BytesBody line) st0 =
                  (case write_bundle (stored_through api) b st0 of
                     (st1, Inl _) \<Rightarrow> (st1, Inl InternalError) | (st1, Inr _) \<Rightarrow> (st1, Inr b)))
             \<and> (\<forall>m ev e. line_alone api ts received (n, line) = LineRejected m ev e \<longrightarrow> e \<noteq> BatchRecordOnly \<longrightarrow>
                  create_decision api (ts n) received p (BytesBody line) st0 = (st0, Inl e)))"
      using create_decision_alone [of _ api p ts received] outcomes(3) by blast
    ultimately show ?thesis using r wrote Inr outcomes(2,3) by auto
  qed
qed


definition ex_api :: "decision_bundle \<Rightarrow> decisions_env" where
  "ex_api b =
     \<lparr>served = ex_deployment ex_gates, stored_through = ex_wire b,
      read_submission =
        (\<lambda>data. if data = [1] then Some (ex_submission Record (Some CHALLENGE) True) else None),
      dump_submission = (\<lambda>_. JNull)\<rparr>"

lemma ex_batch_decided:
  obtains b st1 where
    "decide_over_api (ex_api x) ex_readings 0 (ex_submission Record (Some CHALLENGE) True) = Inr b"
    "write_bundles (ex_wire b) [b] ex_ledger = (st1, Inr ())"
proof -
  let ?s = "ex_submission Record (Some CHALLENGE) True" and ?d = "ex_deployment ex_gates"
  have shape: "ex_gates = [([7], ex_gate [7] ALLOW), ([8], ex_gate [8] HOLD)]" by (simp add: ex_gates_def)
  note ok = ex_deployment_ok [of ex_gates ALLOW HOLD]
  have valid: "submission_valid (\<lambda>_. JNull) ?s" by (rule ex_submission_valid) simp_all
  have "registry_get ?d (reasoner_id ?s) = Some ex_registration"
    by (simp add: ex_deployment_def)
  moreover have "intake ?d ?s ex_registration = Inr (Some (ex_rule CHALLENGE), gates ex_registration)"
    using ex_intake [of Record "Some CHALLENGE" ex_gates ALLOW HOLD True] shape by simp
  ultimately obtain b where b: "decide ?d ex_readings ?s 0 [] None None DEFAULT_GATE_BUDGET_MS = Inr b"
    using decide_total [OF _ ex_registration_valid valid _ ok(1-4),
        where budget = DEFAULT_GATE_BUDGET_MS and t = ex_readings] shape
    by (simp add: DEFAULT_GATE_BUDGET_MS_def) blast
  obtain reg r gate_set subject where
    "identify (derive ?d) (wire_identity ?d) (identity_step ?d) (identified_at ex_readings) ?s reg = Inr subject"
    and i: "submission b = ?s" "identity b = Some subject"
    by (rule decide_Inr [OF b]) blast
  then have "related subject = []"
    by (simp add: ex_deployment_def identify_def passthrough_identity_def ex_submission_def
        split: option.splits)
  then have rows: "relationship_rows b = []" using i by (simp add: relationship_rows_def)
  have storable: "text_problem (reasoner_id (submission b)) = None"
    using i by (simp add: text_problem_def ex_submission_def surrogate_def)
  then obtain st1 where "insert_bundle (ex_wire b) b ex_ledger = (st1, Inr (Some 1))"
    by (simp add: insert_bundle_def ex_wire_def ex_ledger_def)
  moreover have "check_row (ex_wire b) b = Inr ()" "newly_written (ex_wire b) {1} b = Inr True"
    by (simp_all add: check_row_def newly_written_def ex_wire_def)
  ultimately have "write_bundles (ex_wire b) [b] ex_ledger = (st1, Inr ())"
    using rows by (simp add: write_bundles_def Let_def)
  with b show ?thesis by (intro that [of b st1]) (simp_all add: decide_over_api_def ex_api_def)
qed

theorem batch_lines_decided_alike_witness:
  "\<exists>b st result. record_batch (ex_api b) (\<lambda>_. ex_readings) 0 TRUSTED (BytesBody [1, 10, 32, 10, 2]) ex_ledger
      = (st, Inr result)
    \<and> batch_lines result = [LineRecorded 1 b, LineRejected 3 None SubmissionInvalid]
    \<and> write_bundles (ex_wire b) [b] ex_ledger = (st, Inr ())"
proof -
  obtain b st where decided:
    "\<And>x. decide_over_api (ex_api x) ex_readings 0 (ex_submission Record (Some CHALLENGE) True) = Inr b"
    and wrote: "write_bundles (ex_wire b) [b] ex_ledger = (st, Inr ())"
    by (rule ex_batch_decided) (auto simp: decide_over_api_def ex_api_def)
  have data: "nonblank_from 1 [1, 10, 32, 10, 2] = [(1, [1]), (3, [2])]"
    by (simp add: nonblank_from_def drop_return_def blank_bytes_def)
  have parsed: "parse_submission (ex_api b) [1] = Inr (ex_submission Record (Some CHALLENGE) True)"
    "parse_submission (ex_api b) [2] = Inl SubmissionInvalid"
    using ex_submission_valid(1) [of Record "Some CHALLENGE" True]
    by (simp_all add: parse_submission_def ex_api_def)
  have mode: "mode (ex_submission Record (Some CHALLENGE) True) = Record" by (simp add: ex_submission_def)
  have lines: "map (line_alone (ex_api b) (\<lambda>_. ex_readings) 0) (nonblank_from 1 [1, 10, 32, 10, 2])
      = [LineRecorded 1 b, LineRejected 3 None SubmissionInvalid]"
    unfolding data by (simp add: line_alone_def parsed decided mode)
  have "batch_outcomes (ex_api b) (\<lambda>_. ex_readings) 0 TRUSTED (BytesBody [1, 10, 32, 10, 2])
      = Inr [LineRecorded 1 b, LineRejected 3 None SubmissionInvalid]"
    using data
    by (simp add: batch_outcomes_def bounded_def MAX_BATCH_BYTES_def ndjson_lines_spec MAX_BATCH_LINES_def
        parsed submitter_checked_def authorized_def require_submitter_def may_submit_for_def TRUSTED_def
        line_outcome_def mode decided del: One_nat_def)
  with wrote obtain result where batch:
    "record_batch (ex_api b) (\<lambda>_. ex_readings) 0 TRUSTED (BytesBody [1, 10, 32, 10, 2]) ex_ledger = (st, Inr result)"
    by (simp add: record_batch_def ex_api_def map_filter_def)
  from batch_lines_decided_alike [OF batch] lines have
    "batch_lines result = [LineRecorded 1 b, LineRejected 3 None SubmissionInvalid]" by simp
  with batch wrote show ?thesis by blast
qed


section \<open>Tenants\<close>

lemma find_filter:
  "distinct (map f xs) \<Longrightarrow> find (\<lambda>x. f x = k) (filter P xs) =
     (case find (\<lambda>x. f x = k) xs of None \<Rightarrow> None | Some x \<Rightarrow> if P x then Some x else None)"
proof (induction xs)
  case (Cons x xs)
  show ?case
  proof (cases "f x = k")
    case True
    with Cons.prems have "\<forall>y \<in> set xs. f y \<noteq> k" by (metis distinct.simps(2) image_eqI list.simps(9) set_map)
    then have "find (\<lambda>x. f x = k) (filter P xs) = None" by (simp add: find_None_iff)
    with True show ?thesis by simp
  qed (use Cons in simp)
qed simp

lemma lookup_visible:
  assumes "tables_ok st"
  shows "readable wire (visible_to p st) p the_id = readable wire st p the_id"
    and "readable wire st p the_id = Inr stored \<Longrightarrow>
      lookup_bundle wire (visible_to p st) the_id = Inr stored \<and> lookup_bundle wire st the_id = Inr stored"
proof -
  have "distinct (map row_id (bundle_rows st))" using assms by (simp add: tables_ok_def)
  note seen = find_filter [OF this, where P = "\<lambda>row. may_read p (row_reasoner row)"]
  show "readable wire (visible_to p st) p the_id = readable wire st p the_id"
    by (auto simp: readable_def lookup_bundle_def visible_to_def seen split: option.splits)
  show "lookup_bundle wire (visible_to p st) the_id = Inr stored \<and> lookup_bundle wire st the_id = Inr stored"
    if "readable wire st p the_id = Inr stored"
    using that by (auto simp: readable_def lookup_bundle_def visible_to_def seen split: option.splits if_splits)
qed

lemma replay_visible:
  assumes "tables_ok st"
  shows "snd (replay_decision wire version reload reg (visible_to p st) p the_id)
    = snd (replay_decision wire version reload reg st p the_id)"
proof (cases "readable wire st p the_id")
  case (Inr stored)
  with lookup_visible [OF assms] show ?thesis
    by (auto simp: replay_decision_def replay_stored_def split: sum.splits)
qed (simp add: replay_decision_def lookup_visible(1) [OF assms])

lemma timeline_visible:
  assumes "kind p = ReasonerKind" "principal_reasoner p = Some r"
  shows "timeline_over_api wire (visible_to p st) p e reasoner limit before before_id include_related
    = timeline_over_api wire st p e reasoner limit before before_id include_related"
proof -
  have "may_read p x \<longleftrightarrow> x = r" for x using assms by (auto simp: may_read_def)
  then have same: "entity_decisions wire (visible_to p st) e (Some r) n before before_id include_related
      = entity_decisions wire st e (Some r) n before before_id include_related" for n
    by (auto simp: entity_decisions_def visible_to_def conj_ac cong: filter_cong option.case_cong sum.case_cong)
  show ?thesis unfolding timeline_over_api_def assms by (simp only: simp_thms if_True same)
qed

text \<open>
  C28: A tenant sees and writes its own decisions only. To the key of a reasoner the ledger
  behaves, in every lookup, replay, verification and timeline, as if it held that reasoner's
  rows alone, so another tenant's decision cannot be told from none; and every decision the
  key writes, on its own or in a batch, is one of that reasoner's.
\<close>

theorem tenants_are_isolated:
  assumes "tables_ok st" "p = for_reasoner r"
  shows "lookup_decision wire st p the_id = lookup_decision wire (visible_to p st) p the_id
    \<and> snd (replay_decision wire version reload reg st p the_id)
        = snd (replay_decision wire version reload reg (visible_to p st) p the_id)
    \<and> verify_decision wire gs table st p live the_id
        = verify_decision wire gs table (visible_to p st) p live the_id
    \<and> timeline_over_api wire st p the_entity reasoner limit before before_id include_related
        = timeline_over_api wire (visible_to p st) p the_entity reasoner limit before before_id include_related
    \<and> (\<forall>row \<in> set (bundle_rows (visible_to p st)). row_reasoner row = r)
    \<and> (\<forall>row \<in> set (bundle_rows st). row_reasoner row \<noteq> r \<longrightarrow> py_uuid wire the_id = Some (row_id row) \<longrightarrow>
         lookup_decision wire st p the_id = Inl (DecisionNotFound the_id))
    \<and> (\<forall>api t received body st0 st' b. create_decision api t received p body st0 = (st', Inr b) \<longrightarrow>
         reasoner_id (submission b) = r)
    \<and> (\<forall>api ts received body st0 st' result n b.
         record_batch api ts received p (BytesBody body) st0 = (st', Inr result) \<longrightarrow>
         LineRecorded n b \<in> set (batch_lines result) \<longrightarrow> reasoner_id (submission b) = r)"
proof -
  have p: "kind p = ReasonerKind" "principal_reasoner p = Some r"
    and reads: "may_read p x \<longleftrightarrow> x = r" and submits: "may_submit_for p x \<longleftrightarrow> x = r" for x
    using assms(2) by (auto simp: for_reasoner_def may_read_def may_submit_for_def)
  note same = lookup_visible(1) [OF assms(1)]
  have own: "reasoner_id (submission b) = r"
    if "decide_over_api api t received s = Inr b" "may_submit_for p (reasoner_id s)" for api t received s b
  proof -
    have "decide (served api) t s received [] None None DEFAULT_GATE_BUDGET_MS = Inr b"
      using that(1) by (auto simp: decide_over_api_def map_sum_def split: sum.splits)
    then have "submission b = s" by (rule decide_Inr) blast
    with that(2) submits show ?thesis by simp
  qed
  have hidden: "lookup_decision wire st p the_id = Inl (DecisionNotFound the_id)"
    if "row \<in> set (bundle_rows st)" "row_reasoner row \<noteq> r" "py_uuid wire the_id = Some (row_id row)" for row
    using row_found [OF assms(1) that(1)] that reads
    by (simp add: lookup_decision_def readable_def lookup_bundle_def)
  have created: "reasoner_id (submission b) = r"
    if "create_decision api t received p body st0 = (st', Inr b)" for api t received body st0 st' b
    using that own
    by (fastforce simp: create_decision_def authorized_def require_submitter_def split: sum.splits prod.splits if_splits)
  have batched: "reasoner_id (submission b) = r"
    if batch: "record_batch api ts received p (BytesBody body) st0 = (st', Inr result)"
      and line: "LineRecorded n b \<in> set (batch_lines result)" for api ts received body st0 st' result n b
  proof -
    from batch obtain results where results: "batch_outcomes api ts received p (BytesBody body) = Inr results"
      "batch_lines result = results"
      by (auto simp: record_batch_def batch_summary_def Let_def split: sum.splits prod.splits)
    note outcomes = batch_outcomes_Inr [OF results(1)]
    from line obtain m bytes where "(m, bytes) \<in> set (nonblank_from 1 body)"
      "line_alone api ts received (m, bytes) = LineRecorded n b"
      using outcomes(2) results(2) by auto
    with outcomes(3) own show ?thesis
      by (fastforce simp: line_alone_def split: sum.splits if_splits)
  qed
  show ?thesis
    using same replay_visible [OF assms(1)] timeline_visible [OF p] hidden created batched reads
    by (simp add: lookup_decision_def verify_decision_def) (auto simp: visible_to_def)
qed

theorem tenants_are_isolated_witness:
  "\<forall>x. lookup_decision ((ex_wire x)\<lparr>py_uuid := (\<lambda>_. Some 7)\<rparr>)
     (ex_ledger\<lparr>bundle_rows := [\<lparr>row_id = 7, row_reasoner = [98], row_entity = 0, row_created = 0,
        row_action = HOLD, row_schema = 2, row_payload = JNull\<rparr>]\<rparr>) (for_reasoner [97]) [7]
   = Inl (DecisionNotFound [7])"
proof
  fix x
  let ?row = "\<lparr>row_id = 7, row_reasoner = [98], row_entity = 0, row_created = 0,
    row_action = HOLD, row_schema = 2, row_payload = JNull\<rparr>"
  let ?st = "ex_ledger\<lparr>bundle_rows := [?row]\<rparr>" and ?wire = "(ex_wire x)\<lparr>py_uuid := (\<lambda>_. Some 7)\<rparr>"
  have "tables_ok ?st" by (simp add: tables_ok_def)
  note isolated = tenants_are_isolated [OF this refl, where r = "[97]" and the_id = "[7]" and wire = ?wire,
    THEN conjunct2, THEN conjunct2, THEN conjunct2, THEN conjunct2, THEN conjunct2, THEN conjunct1]
  have "\<forall>row \<in> set (bundle_rows ?st). row_reasoner row \<noteq> [97] \<longrightarrow> py_uuid ?wire [7] = Some (row_id row) \<longrightarrow>
    lookup_decision ?wire ?st (for_reasoner [97]) [7] = Inl (DecisionNotFound [7])" by (rule isolated)
  then show "lookup_decision ?wire ?st (for_reasoner [97]) [7] = Inl (DecisionNotFound [7])" by simp
qed

end
