(* ===== verification/Policy_Corpus.thy ===== *)
theory Policy_Corpus
  imports Escrow Registration_Version
begin

text \<open>
  The data of the RAG policy gate (\<open>gates/policy_rag/src/policy_rag_gate\<close>): corpus references
  and bindings (\<open>corpus.py\<close>), the evidence contract (\<open>models/context.py\<close>), what a provider
  answers (\<open>providers/protocol.py\<close>) and the gate's snapshot (\<open>models/snapshot.py\<close>,
  \<open>models/prompt.py\<close>). SHA-256 is a parameter; times are in tenths of a millisecond.
\<close>

lemma map_sum_Inr_iff: "map_sum f id x = Inr y \<longleftrightarrow> x = Inr y"
  by (cases x) simp_all

section \<open>Provenance\<close>

datatype provenance_level = TextOnly | UriAndHash | PinnedVersion

definition PROVENANCE_ORDER :: "provenance_level list" where
  "PROVENANCE_ORDER = [TextOnly, UriAndHash, PinnedVersion]"

text \<open>\<open>tuple.index\<close> of a member\<close>

fun index_of :: "'a \<Rightarrow> 'a list \<Rightarrow> nat" where
  "index_of x [] = 0"
| "index_of x (y # ys) = (if x = y then 0 else index_of x ys + 1)"

definition provenance_at_least :: "provenance_level \<Rightarrow> provenance_level \<Rightarrow> bool" where
  "provenance_at_least level minimum \<longleftrightarrow>
     index_of minimum PROVENANCE_ORDER \<le> index_of level PROVENANCE_ORDER"

fun provenance_text :: "provenance_level \<Rightarrow> ustr" where
  "provenance_text TextOnly = lit ''text_only''"
| "provenance_text UriAndHash = lit ''uri_and_hash''"
| "provenance_text PinnedVersion = lit ''pinned_version''"

text \<open>The levels are linearly ordered, weakest first.\<close>

instantiation provenance_level :: linorder
begin

definition less_eq_provenance_level :: "provenance_level \<Rightarrow> provenance_level \<Rightarrow> bool" where
  "less_eq_provenance_level a b \<longleftrightarrow> index_of a PROVENANCE_ORDER \<le> index_of b PROVENANCE_ORDER"

definition less_provenance_level :: "provenance_level \<Rightarrow> provenance_level \<Rightarrow> bool" where
  "less_provenance_level a b \<longleftrightarrow> index_of a PROVENANCE_ORDER < index_of b PROVENANCE_ORDER"

instance
proof
  fix a b :: provenance_level
  show "a \<le> b \<Longrightarrow> b \<le> a \<Longrightarrow> a = b"
    by (cases a; cases b) (simp_all add: less_eq_provenance_level_def PROVENANCE_ORDER_def)
qed (auto simp: less_eq_provenance_level_def less_provenance_level_def)

end

lemma provenance_at_least_iff [simp]: "provenance_at_least level minimum \<longleftrightarrow> minimum \<le> level"
  by (simp add: provenance_at_least_def less_eq_provenance_level_def)

lemma PinnedVersion_top [simp]: "level \<le> PinnedVersion"
  by (cases level) (simp_all add: less_eq_provenance_level_def PROVENANCE_ORDER_def)

section \<open>Corpus references and bindings\<close>

definition DEFAULT_K_PER_CORPUS :: nat where
  "DEFAULT_K_PER_CORPUS = 5"

definition MAX_K_PER_CORPUS :: nat where
  "MAX_K_PER_CORPUS = 50"

text \<open>\<open>_ID_PATTERN\<close>\<close>

definition letter_or_digit :: "nat \<Rightarrow> bool" where
  "letter_or_digit c \<longleftrightarrow> (48 \<le> c \<and> c \<le> 57) \<or> (65 \<le> c \<and> c \<le> 90) \<or> (97 \<le> c \<and> c \<le> 122)"

definition is_id :: "ustr \<Rightarrow> bool" where
  "is_id s \<longleftrightarrow> (case s of
     [] \<Rightarrow> False
   | c # cs \<Rightarrow> letter_or_digit c \<and> list_all (\<lambda>d. letter_or_digit d \<or> d \<in> {45, 46, 95}) cs)"

record corpus_ref =
  corpus_id :: ustr
  corpus_provider :: ustr
  corpus_resource :: "ustr option"
  corpus_tier :: nat
  corpus_reads :: "ustr set"
  min_provenance :: provenance_level

definition corpus_ref_valid :: "corpus_ref \<Rightarrow> bool" where
  "corpus_ref_valid c \<longleftrightarrow>
     is_id (corpus_id c) \<and> length (corpus_id c) \<le> 128
     \<and> is_id (corpus_provider c) \<and> length (corpus_provider c) \<le> 64
     \<and> corpus_resource c \<noteq> Some [] \<and> 1 \<le> corpus_tier c
     \<and> finite (corpus_reads c) \<and> [] \<notin> corpus_reads c"

record policy_binding =
  corpora :: "corpus_ref list"
  k_per_corpus :: nat

text \<open>\<open>_each_corpus_once\<close>: the corpora bound more than once.\<close>

definition each_corpus_once :: "policy_binding \<Rightarrow> ustr list + unit" where
  "each_corpus_once b =
     (let twice = repeated (map corpus_id (corpora b))
      in if twice \<noteq> [] then Inl twice else Inr ())"

definition binding_valid :: "policy_binding \<Rightarrow> bool" where
  "binding_valid b \<longleftrightarrow>
     corpora b \<noteq> [] \<and> list_all corpus_ref_valid (corpora b)
     \<and> 1 \<le> k_per_corpus b \<and> k_per_corpus b \<le> MAX_K_PER_CORPUS
     \<and> each_corpus_once b = Inr ()"

definition tiers :: "policy_binding \<Rightarrow> nat list" where
  "tiers b = sorted_list_of_set (corpus_tier ` set (corpora b))"

record corpus_state =
  state_corpus :: ustr
  state_provider :: ustr
  provider_version :: ustr
  state_marker :: "ustr option"
  state_provenance :: provenance_level
  document_count :: "nat option"
  updated_at :: "ustr option"

section \<open>The evidence contract\<close>

text \<open>\<open>content_hash(text)\<close>; \<open>None\<close> is the \<open>UnicodeEncodeError\<close> of a lone surrogate.\<close>

definition text_digest :: "digest \<Rightarrow> ustr \<Rightarrow> ustr option" where
  "text_digest sha256 t = map_option sha256 (encode_utf8 t)"

record retrieved_context =
  passage_corpus :: ustr
  passage_provider :: ustr
  passage_resource :: "ustr option"
  passage_tier :: nat
  document_id :: ustr
  document_uri :: "ustr option"
  document_title :: ustr
  document_version :: "ustr option"
  jurisdiction :: "ustr option"
  section_path :: "ustr option"
  span :: "(int \<times> int) option"
  passage_text :: ustr
  passage_hash :: ustr
  prompted_text :: "ustr option"
  rank :: nat
  scores :: "(ustr \<times> rat) list"
  provider_chunk_id :: "ustr option"
  provenance :: provenance_level
  document_metadata :: json_obj
  escrowed_as :: "ustr option"

definition digest_and_span_hold :: "digest \<Rightarrow> retrieved_context \<Rightarrow> bool" where
  "digest_and_span_hold sha256 c \<longleftrightarrow>
     text_digest sha256 (passage_text c) = Some (passage_hash c)
     \<and> pred_option (\<lambda>(start, stop). 0 \<le> start \<and> start \<le> stop) (span c)"

definition context_valid :: "digest \<Rightarrow> retrieved_context \<Rightarrow> bool" where
  "context_valid sha256 c \<longleftrightarrow>
     1 \<le> passage_tier c \<and> sha256_hex (passage_hash c) \<and> 1 \<le> rank c
     \<and> pred_option sha256_hex (escrowed_as c) \<and> digest_and_span_hold sha256 c"

record document_blob =
  blob_corpus :: ustr
  blob_document :: ustr
  blob_version :: "ustr option"
  blob_title :: ustr
  blob_media_type :: ustr
  blob_text :: ustr
  blob_hash :: ustr
  blob_metadata :: json_obj

definition blob_valid :: "digest \<Rightarrow> document_blob \<Rightarrow> bool" where
  "blob_valid sha256 d \<longleftrightarrow>
     sha256_hex (blob_hash d) \<and> text_digest sha256 (blob_text d) = Some (blob_hash d)"

section \<open>Prompts\<close>

datatype evidence_layout = NumberedList | TieredBlocks

record prompt_template =
  template_id :: ustr
  template_version :: ustr
  template_description :: ustr
  template_text :: ustr
  system_text :: ustr
  required_vars :: "ustr set"
  evidence_layout :: evidence_layout

text \<open>\<open>PromptSnapshot\<close>\<close>

record prompt_snapshot =
  prompt_template_id :: ustr
  prompt_version :: ustr
  prompt_template_text :: ustr
  prompt_system_text :: ustr

definition prompt_snapshot_of :: "prompt_template \<Rightarrow> prompt_snapshot" where
  "prompt_snapshot_of t =
     \<lparr>prompt_template_id = template_id t, prompt_version = template_version t,
      prompt_template_text = template_text t, prompt_system_text = system_text t\<rparr>"

section \<open>The snapshot\<close>

record corpus_query =
  query_corpus :: corpus_ref
  query_state :: "corpus_state option"
  query_k :: nat
  filter_jurisdictions :: "ustr list option"
  filter_risk_tier :: "ustr option"
  ranking_requested :: "ustr option"
  ranking_applied :: ustr
  query_duration :: nat
  returned :: nat
  merged_away :: nat
  not_queried :: "(ustr list \<times> ustr list) option"

record policy_snapshot =
  retrieval_query :: ustr
  corpus_queries :: "corpus_query list"
  contexts :: "retrieved_context list"
  snapshot_layout :: evidence_layout
  dedup_merged :: nat
  index_version :: ustr
  snapshot_model :: ustr
  snapshot_template_id :: ustr
  snapshot_template_version :: ustr
  rendered_prompt :: ustr
  prompt_used :: prompt_snapshot
  template_vars :: "(ustr \<times> ustr) list"

definition SNAPSHOT_VERSION :: int where
  "SNAPSHOT_VERSION = 2"

end
