(* ===== verification/Policy_Retrieval.thy ===== *)
theory Policy_Retrieval
  imports Policy_Corpus
begin

text \<open>
  Retrieval over one binding (\<open>policy_rag_gate/gate.py\<close>): the jurisdiction filter of a corpus,
  the evidence contract an answer is held to, and the passages of every corpus in precedence
  order with each distinct text once.
\<close>

section \<open>Providers\<close>

text \<open>
  What a provider returns before the gate checked it: pydantic validates a \<open>ProviderResult\<close>
  when the provider builds it, but not one built with \<open>model_construct\<close>. A value of another
  type is its type's name.
\<close>

record raw_result =
  raw_state :: "ustr + corpus_state"
  raw_contexts :: "(ustr + retrieved_context) list"
  raw_requested :: ustr
  raw_applied :: ustr

datatype provider_answer = AnswersResult raw_result | AnswersOther ustr

record provider_result =
  result_state :: corpus_state
  result_contexts :: "retrieved_context list"
  result_requested :: ustr
  result_applied :: ustr

datatype fetch_failure = DocumentNotHeld ustr | FetchRaised ustr

datatype fetched = FetchedDocument document_blob | FetchedOther ustr

text \<open>An exception's text stands for the exception.\<close>

record provider =
  describe :: "corpus_ref \<Rightarrow> ustr + corpus_state"
  retrieve :: "ustr \<Rightarrow> corpus_ref \<Rightarrow> nat \<Rightarrow> ustr list option \<Rightarrow> ustr option \<Rightarrow> ustr + provider_answer"
  fetch_document :: "(corpus_ref \<Rightarrow> ustr \<Rightarrow> ustr option \<Rightarrow> fetch_failure + fetched) option"

section \<open>The contract\<close>

datatype contract_breach =
    NotProviderResult ustr
  | NotCorpusState ustr
  | ForeignState ustr ustr
  | OverQuota nat nat
  | NotRetrievedContext ustr
  | WrongDigest nat
  | ForeignPassage ustr ustr nat
  | Misranked
  | BelowProvenance provenance_level provenance_level
  | WrongDocument

datatype provider_missing = NotInstalled ustr | CannotBuild ustr

datatype retrieval_error =
    ProviderUnavailable provider_missing
  | ProviderRaised ustr
  | ProviderContractError contract_breach
  | TextNotEncodable

definition check_passage ::
    "digest \<Rightarrow> corpus_ref \<Rightarrow> nat \<times> (ustr + retrieved_context) \<Rightarrow> retrieval_error + retrieved_context" where
  "check_passage sha256 corpus entry =
     (case entry of
        (_, Inl other) \<Rightarrow> Inl (ProviderContractError (NotRetrievedContext other))
      | (expected, Inr c) \<Rightarrow>
     (case text_digest sha256 (passage_text c) of
        None \<Rightarrow> Inl TextNotEncodable
      | Some h \<Rightarrow>
          if h \<noteq> passage_hash c then Inl (ProviderContractError (WrongDigest expected))
          else if (passage_corpus c, passage_provider c, passage_tier c)
                  \<noteq> (corpus_id corpus, corpus_provider corpus, corpus_tier corpus)
          then Inl (ProviderContractError
                 (ForeignPassage (passage_provider c) (passage_corpus c) (passage_tier c)))
          else if rank c \<noteq> expected then Inl (ProviderContractError Misranked)
          else if \<not> provenance_at_least (provenance c) (min_provenance corpus)
          then Inl (ProviderContractError (BelowProvenance (provenance c) (min_provenance corpus)))
          else Inr c))"

definition check_contract ::
    "digest \<Rightarrow> corpus_ref \<Rightarrow> provider_answer \<Rightarrow> nat \<Rightarrow> retrieval_error + provider_result" where
  "check_contract sha256 corpus answer k =
     (case answer of
        AnswersOther other \<Rightarrow> Inl (ProviderContractError (NotProviderResult other))
      | AnswersResult typed \<Rightarrow>
     (case raw_state typed of
        Inl other \<Rightarrow> Inl (ProviderContractError (NotCorpusState other))
      | Inr state \<Rightarrow>
          if (state_corpus state, state_provider state) \<noteq> (corpus_id corpus, corpus_provider corpus)
          then Inl (ProviderContractError (ForeignState (state_provider state) (state_corpus state)))
          else if k < length (raw_contexts typed)
          then Inl (ProviderContractError (OverQuota (length (raw_contexts typed)) k))
          else rbind (rmap (check_passage sha256 corpus) (enumerate 1 (raw_contexts typed))) (\<lambda>passages.
            Inr \<lparr>result_state = state, result_contexts = passages,
                 result_requested = raw_requested typed, result_applied = raw_applied typed\<rparr>)))"

text \<open>What the contract promises of a checked answer.\<close>

definition meets_contract :: "digest \<Rightarrow> corpus_ref \<Rightarrow> nat \<Rightarrow> provider_result \<Rightarrow> bool" where
  "meets_contract sha256 corpus k r \<longleftrightarrow>
     state_corpus (result_state r) = corpus_id corpus
     \<and> state_provider (result_state r) = corpus_provider corpus
     \<and> length (result_contexts r) \<le> k
     \<and> map rank (result_contexts r) = [1..<length (result_contexts r) + 1]
     \<and> (\<forall>c \<in> set (result_contexts r).
          text_digest sha256 (passage_text c) = Some (passage_hash c)
          \<and> passage_corpus c = corpus_id corpus \<and> passage_provider c = corpus_provider corpus
          \<and> passage_tier c = corpus_tier corpus \<and> min_provenance corpus \<le> provenance c)"

lemma check_passage_Inr:
  "check_passage sha256 corpus entry = Inr c \<longleftrightarrow>
     snd entry = Inr c \<and> rank c = fst entry
     \<and> text_digest sha256 (passage_text c) = Some (passage_hash c)
     \<and> passage_corpus c = corpus_id corpus \<and> passage_provider c = corpus_provider corpus
     \<and> passage_tier c = corpus_tier corpus \<and> min_provenance corpus \<le> provenance c"
  by (cases entry) (auto simp: check_passage_def split: sum.splits option.splits if_splits)

lemma upt_from: "[n..<Suc (n + m)] = n # [Suc n..<Suc (n + m)]"
  by (simp add: upt_conv_Cons)

lemma check_passages_Inr:
  "rmap (check_passage sha256 corpus) (enumerate n xs) = Inr cs \<longleftrightarrow>
     xs = map Inr cs \<and> map rank cs = [n..<n + length cs]
     \<and> (\<forall>c \<in> set cs. text_digest sha256 (passage_text c) = Some (passage_hash c)
          \<and> passage_corpus c = corpus_id corpus \<and> passage_provider c = corpus_provider corpus
          \<and> passage_tier c = corpus_tier corpus \<and> min_provenance corpus \<le> provenance c)"
proof (induction xs arbitrary: n cs)
  case (Cons x xs)
  show ?case
    by (cases cs) (auto simp: check_passage_Inr Cons.IH upt_from simp del: upt_Suc)
qed auto

lemma check_contract_Inr:
  "check_contract sha256 corpus answer k = Inr r \<longleftrightarrow>
     answer = AnswersResult \<lparr>raw_state = Inr (result_state r),
       raw_contexts = map Inr (result_contexts r), raw_requested = result_requested r,
       raw_applied = result_applied r\<rparr>
     \<and> meets_contract sha256 corpus k r"
proof (cases answer)
  case (AnswersResult typed)
  show ?thesis
  proof (cases "raw_state typed")
    case (Inr state)
    have typed: "typed = \<lparr>raw_state = raw_state typed, raw_contexts = raw_contexts typed,
        raw_requested = raw_requested typed, raw_applied = raw_applied typed\<rparr>" by simp
    show ?thesis
    proof
      assume "check_contract sha256 corpus answer k = Inr r"
      with AnswersResult Inr typed show "answer = AnswersResult \<lparr>raw_state = Inr (result_state r),
         raw_contexts = map Inr (result_contexts r), raw_requested = result_requested r,
         raw_applied = result_applied r\<rparr> \<and> meets_contract sha256 corpus k r"
        by (auto simp: check_contract_def meets_contract_def check_passages_Inr split: if_splits)
    next
      assume "answer = AnswersResult \<lparr>raw_state = Inr (result_state r),
         raw_contexts = map Inr (result_contexts r), raw_requested = result_requested r,
         raw_applied = result_applied r\<rparr> \<and> meets_contract sha256 corpus k r"
      then show "check_contract sha256 corpus answer k = Inr r"
        by (auto simp: check_contract_def meets_contract_def check_passages_Inr)
    qed
  qed (auto simp: AnswersResult check_contract_def)
qed (simp add: check_contract_def)

section \<open>The filter of one corpus\<close>

text \<open>The filter, or the two lists that do not meet; \<open>list(submitted) or None\<close>.\<close>

definition corpus_filter ::
    "corpus_ref \<Rightarrow> ustr list \<Rightarrow> (ustr list \<times> ustr list) + ustr list option" where
  "corpus_filter corpus submitted =
     (if corpus_reads corpus = {} then Inr (if submitted = [] then None else Some submitted)
      else if submitted = [] then Inr (Some (sorted_list_of_set (corpus_reads corpus)))
      else let both = filter (\<lambda>j. j \<in> corpus_reads corpus) submitted
           in if both \<noteq> [] then Inr (Some both)
              else Inl (sorted_list_of_set (corpus_reads corpus), submitted))"

text \<open>What a filter lets through; no filter lets everything through.\<close>

fun passes :: "ustr list option \<Rightarrow> ustr \<Rightarrow> bool" where
  "passes None j = True"
| "passes (Some js) j = (j \<in> set js)"

lemma corpus_filter_Inr:
  assumes "corpus_filter corpus submitted = Inr f" "finite (corpus_reads corpus)"
  shows "passes f j \<longleftrightarrow> (corpus_reads corpus = {} \<or> j \<in> corpus_reads corpus)
     \<and> (submitted = [] \<or> j \<in> set submitted)"
  using assms by (auto simp: corpus_filter_def Let_def split: if_splits)

lemma corpus_filter_Inl:
  assumes "corpus_filter corpus submitted = Inl reason"
  shows "submitted \<noteq> [] \<and> corpus_reads corpus \<noteq> {} \<and> corpus_reads corpus \<inter> set submitted = {}"
  using assms by (auto simp: corpus_filter_def Let_def filter_empty_conv split: if_splits)

section \<open>Every corpus of a binding\<close>

text \<open>The provider registry as the gate uses it: the provider of an id, built if need be.\<close>

type_synonym providers = "ustr \<Rightarrow> provider_missing + provider"

definition SKIPPED :: ustr where
  "SKIPPED = lit ''skipped''"

type_synonym answered = "corpus_ref \<times> provider_result option \<times> corpus_query"

definition query_corpus_once ::
    "digest \<Rightarrow> providers \<Rightarrow> policy_binding \<Rightarrow> ustr \<Rightarrow> ustr list \<Rightarrow> ustr option \<Rightarrow> (ustr \<Rightarrow> nat)
      \<Rightarrow> corpus_ref \<Rightarrow> retrieval_error + answered" where
  "query_corpus_once sha256 providers b query submitted risk_tier elapsed corpus =
     (let wanted = corpus_filter corpus submitted;
          record = (\<lambda>result. \<lparr>query_corpus = corpus, query_state = map_option result_state result,
             query_k = k_per_corpus b,
             filter_jurisdictions = (case wanted of Inl _ \<Rightarrow> None | Inr f \<Rightarrow> f),
             filter_risk_tier = risk_tier,
             ranking_requested = map_option result_requested result,
             ranking_applied = (case result of None \<Rightarrow> SKIPPED | Some r \<Rightarrow> result_applied r),
             query_duration = elapsed (corpus_id corpus),
             returned = (case result of None \<Rightarrow> 0 | Some r \<Rightarrow> length (result_contexts r)),
             merged_away = 0,
             not_queried = (case wanted of Inl reason \<Rightarrow> Some reason | Inr _ \<Rightarrow> None)\<rparr>)
      in case wanted of
           Inl _ \<Rightarrow> Inr (corpus, None, record None)
         | Inr f \<Rightarrow>
             rbind (map_sum ProviderUnavailable id (providers (corpus_provider corpus))) (\<lambda>p.
             rbind (map_sum ProviderRaised id
                      (retrieve p query corpus (k_per_corpus b) f risk_tier)) (\<lambda>answer.
             rbind (check_contract sha256 corpus answer (k_per_corpus b)) (\<lambda>result.
             Inr (corpus, Some result, record (Some result))))))"

text \<open>
  The loop over the passages in precedence order: the keys seen, the passages kept and the
  merges counted per corpus.
\<close>

type_synonym passage_key = "ustr \<times> ustr option"

definition passage_key :: "retrieved_context \<Rightarrow> passage_key" where
  "passage_key c = (passage_hash c, jurisdiction c)"

fun merge_passages ::
    "(ustr \<times> retrieved_context) list \<Rightarrow> passage_key set \<Rightarrow> (ustr \<Rightarrow> nat)
      \<Rightarrow> retrieved_context list \<times> (ustr \<Rightarrow> nat)" where
  "merge_passages [] seen merged = ([], merged)"
| "merge_passages ((i, c) # rest) seen merged =
     (if passage_key c \<in> seen then merge_passages rest seen (merged(i := merged i + 1))
      else (case merge_passages rest (insert (passage_key c) seen) merged of
              (chosen, merged') \<Rightarrow> (c # chosen, merged')))"

definition passages_of :: "answered \<Rightarrow> (ustr \<times> retrieved_context) list" where
  "passages_of entry =
     (case entry of (corpus, result, _) \<Rightarrow>
        map (\<lambda>c. (corpus_id corpus, c))
          (case result of None \<Rightarrow> [] | Some r \<Rightarrow> result_contexts r))"

text \<open>\<open>sorted(answered, key=lambda item: item[0].tier)\<close>: a stable sort.\<close>

definition in_precedence :: "answered list \<Rightarrow> (ustr \<times> retrieved_context) list" where
  "in_precedence answered = concat (map passages_of (sort_key (corpus_tier \<circ> fst) answered))"

record retrieved_evidence =
  evidence_queries :: "corpus_query list"
  evidence_contexts :: "retrieved_context list"
  evidence_merged :: nat
  evidence_results :: "(ustr \<times> provider_result option) list"

definition retrieve_evidence ::
    "digest \<Rightarrow> providers \<Rightarrow> policy_binding \<Rightarrow> ustr \<Rightarrow> ustr list \<Rightarrow> ustr option \<Rightarrow> (ustr \<Rightarrow> nat)
      \<Rightarrow> retrieval_error + retrieved_evidence" where
  "retrieve_evidence sha256 providers b query submitted risk_tier elapsed =
     rbind (rmap (query_corpus_once sha256 providers b query submitted risk_tier elapsed)
              (corpora b)) (\<lambda>answered.
       case merge_passages (in_precedence answered) {} (\<lambda>_. 0) of
         (chosen, merged) \<Rightarrow>
           Inr \<lparr>evidence_queries = map (\<lambda>(corpus, _, record). record\<lparr>merged_away := merged (corpus_id corpus)\<rparr>) answered,
                evidence_contexts = chosen,
                evidence_merged = sum_list (map merged (remdups (map (corpus_id \<circ> fst) answered))),
                evidence_results = map (\<lambda>(corpus, result, _). (corpus_id corpus, result)) answered\<rparr>)"

end
