(* ===== verification/Policy_Escrow.thy ===== *)
theory Policy_Escrow
  imports Policy_Retrieval
begin

text \<open>
  Evidence escrow and verification of the RAG policy gate (\<open>policy_rag_gate/gate.py\<close>): whether
  a document holds a passage, the documents escrowed for a decision, and how each reference of
  a stored output stands.
\<close>

section \<open>Text\<close>

text \<open>\<open>s[start:stop]\<close>\<close>

definition clamp :: "nat \<Rightarrow> int \<Rightarrow> nat" where
  "clamp n i = nat (if i < 0 then max 0 (i + int n) else min i (int n))"

definition text_slice :: "ustr \<Rightarrow> int \<Rightarrow> int \<Rightarrow> ustr" where
  "text_slice s start stop =
     (let a = clamp (length s) start in take (clamp (length s) stop - a) (drop a s))"

text \<open>\<open>s.find(w)\<close> and \<open>s.find(w, cursor)\<close>; \<open>None\<close> is -1.\<close>

fun find_text :: "ustr \<Rightarrow> ustr \<Rightarrow> nat option" where
  "find_text w [] = (if w = [] then Some 0 else None)"
| "find_text w (c # cs) =
     (if starts_with w (c # cs) then Some 0 else map_option Suc (find_text w cs))"

definition find_from :: "ustr \<Rightarrow> ustr \<Rightarrow> nat \<Rightarrow> nat option" where
  "find_from w s cursor =
     (if length s < cursor then None
      else map_option (\<lambda>i. cursor + i) (find_text w (drop cursor s)))"

text \<open>\<open>s.split("\n\n")\<close>\<close>

fun split_paragraphs :: "ustr \<Rightarrow> ustr list" where
  "split_paragraphs [] = [[]]"
| "split_paragraphs [c] = [[c]]"
| "split_paragraphs (c # d # s) =
     (if c = 10 \<and> d = 10 then [] # split_paragraphs s
      else (case split_paragraphs (d # s) of [] \<Rightarrow> [[c]] | p # ps \<Rightarrow> (c # p) # ps))"

text \<open>\<open>content.decode("utf-8")\<close>: only canonical encodings of encodable code points decode.\<close>

function decode_utf8 :: "bytes \<Rightarrow> ustr option" where
  "decode_utf8 bs =
     (if bs = [] then Some []
      else case read_utf8 bs of
        (c, rest) \<Rightarrow>
          if length rest < length bs \<and> encodable c \<and> utf8_char c @ rest = bs
          then map_option ((#) c) (decode_utf8 rest) else None)"
  by pat_completeness auto
termination
  by (relation "measure length") auto

declare decode_utf8.simps [simp del]

lemma decode_utf8_Nil [simp]: "decode_utf8 [] = Some []"
  by (simp add: decode_utf8.simps)

lemma decode_utf8_char [simp]:
  assumes "encodable c"
  shows "decode_utf8 (utf8_char c @ rest) = map_option ((#) c) (decode_utf8 rest)"
proof -
  have "read_utf8 (utf8_char c @ rest) = (c, rest)" using assms by (simp add: encodable_def read_utf8_char)
  moreover have "utf8_char c \<noteq> []" by (simp add: utf8_char_def)
  ultimately show ?thesis using assms by (simp add: decode_utf8.simps [of "utf8_char c @ rest"])
qed

lemma decode_encode: "encode_utf8 s = Some bs \<Longrightarrow> decode_utf8 bs = Some s"
proof (induction s arbitrary: bs)
  case (Cons c s)
  then have c: "encodable c" "encode_utf8 s = Some (concat (map utf8_char s))"
    "bs = utf8_char c @ concat (map utf8_char s)" by (auto simp: encode_utf8_def split: if_splits)
  from Cons.IH [OF c(2)] c(1) show ?case by (simp add: c(3))
qed (simp add: encode_utf8_def)

section \<open>A document holds a passage\<close>

fun paragraphs_found :: "ustr \<Rightarrow> nat \<Rightarrow> ustr list \<Rightarrow> bool" where
  "paragraphs_found text cursor [] = True"
| "paragraphs_found text cursor (p # ps) =
     (if blank p then paragraphs_found text cursor ps
      else (case find_from p text cursor of
              None \<Rightarrow> False
            | Some found \<Rightarrow> paragraphs_found text (found + length p) ps))"

definition passage_holds :: "digest \<Rightarrow> ustr \<Rightarrow> retrieved_context \<Rightarrow> bool" where
  "passage_holds sha256 document c =
     (case span c of
        Some (start, stop) \<Rightarrow>
          stop \<le> int (length document)
          \<and> text_digest sha256 (text_slice document start stop) = Some (passage_hash c)
      | None \<Rightarrow> paragraphs_found document 0 (split_paragraphs (passage_text c)))"

text \<open>What the search decides: the pieces occur in order, none overlapping another.\<close>

fun occur_in_order :: "ustr list \<Rightarrow> ustr \<Rightarrow> bool" where
  "occur_in_order [] s = True"
| "occur_in_order (p # ps) s = (\<exists>a c. s = a @ p @ c \<and> occur_in_order ps c)"

lemma find_text_Some:
  "find_text w s = Some i \<Longrightarrow> \<exists>c. s = take i s @ w @ c \<and> i \<le> length s
     \<and> (\<forall>a c'. s = a @ w @ c' \<longrightarrow> i \<le> length a)"
proof (induction s arbitrary: i)
  case (Cons x s)
  show ?case
  proof (cases "starts_with w (x # s)")
    case True
    with Cons.prems show ?thesis by (auto simp: starts_with_iff)
  next
    case False
    with Cons.prems obtain j where j: "find_text w s = Some j" "i = Suc j" by auto
    from Cons.IH [OF j(1)] obtain c where c: "s = take j s @ w @ c" "j \<le> length s"
      "\<forall>a c'. s = a @ w @ c' \<longrightarrow> j \<le> length a" by blast
    have "i \<le> length a" if "x # s = a @ w @ c'" for a c'
      using that c(3) False j(2) by (cases a) (auto simp: starts_with_iff)
    with c j(2) show ?thesis by auto
  qed
qed (auto split: if_splits)

lemma find_text_None: "find_text w s = None \<Longrightarrow> s \<noteq> a @ w @ c"
proof (induction s arbitrary: a)
  case (Cons x s)
  then show ?case by (cases a) (auto simp: starts_with_iff split: if_splits)
qed (auto split: if_splits)

lemma occur_in_order_append: "occur_in_order ps s \<Longrightarrow> occur_in_order ps (a @ s)"
proof (cases ps)
  case (Cons p qs)
  assume "occur_in_order ps s"
  then obtain b c where "s = b @ p @ c" "occur_in_order qs c" by (auto simp: Cons)
  then have "a @ s = (a @ b) @ p @ c \<and> occur_in_order qs c" by simp
  then show ?thesis unfolding Cons occur_in_order.simps by blast
qed simp

lemma paragraphs_found_iff:
  "cursor \<le> length s \<Longrightarrow>
     paragraphs_found s cursor ps
       \<longleftrightarrow> occur_in_order (filter (\<lambda>p. \<not> blank p) ps) (drop cursor s)"
proof (induction s cursor ps rule: paragraphs_found.induct)
  case (2 s cursor p ps)
  show ?case
  proof (cases "blank p \<or> find_text p (drop cursor s) = None")
    case True
    then show ?thesis using 2 by (auto simp: find_from_def dest: find_text_None)
  next
    case False
    then obtain i where i: "find_text p (drop cursor s) = Some i" by auto
    from find_text_Some [OF i] obtain c where c: "drop cursor s = take i (drop cursor s) @ p @ c"
      "i \<le> length (drop cursor s)" "\<forall>a c'. drop cursor s = a @ p @ c' \<longrightarrow> i \<le> length a" by blast
    have len: "length (drop cursor s) = i + length p + length c"
      by (subst c(1)) (use c(2) in simp)
    have rest: "drop (cursor + i + length p) s = c"
    proof -
      have "drop (cursor + i + length p) s = drop (i + length p) (drop cursor s)"
        by (simp add: add.commute add.left_commute)
      also have "\<dots> = c" by (subst c(1)) (use c(2) in simp)
      finally show ?thesis .
    qed
    have best: "occur_in_order qs c" if "drop cursor s = a @ p @ c'" "occur_in_order qs c'" for a c' qs
    proof -
      from that(1) c(3) have "i \<le> length a" by blast
      moreover have "drop (length a + length p) (drop cursor s) = c'" by (simp add: that(1))
      ultimately have "c' = drop (length a - i) c"
        by (simp add: rest [symmetric] add.commute add.left_commute)
      then have "c = take (length a - i) c @ c'" by simp
      then show ?thesis using occur_in_order_append [OF that(2), of "take (length a - i) c"] by simp
    qed
    have IH: "paragraphs_found s (cursor + i + length p) ps
        \<longleftrightarrow> occur_in_order (filter (\<lambda>p. \<not> blank p) ps) c"
      using "2.IH"(2) [of "cursor + i"] False i "2.prems" len rest by (simp add: find_from_def)
    show ?thesis
      using False i "2.prems" best c(1) IH
      by (auto simp: find_from_def simp del: drop_drop intro: exI [of _ "take i (drop cursor s)"])
  qed
qed simp

section \<open>The documents of a decision\<close>

type_synonym document_key = "ustr \<times> ustr \<times> ustr option"

definition document_key :: "retrieved_context \<Rightarrow> document_key" where
  "document_key c = (passage_corpus c, document_id c, document_version c)"

datatype escrow_failure =
    EscrowContract contract_breach
  | EscrowProvider provider_missing
  | EscrowFetch fetch_failure
  | EscrowEncode
  | EvidenceEscrowError ustr ustr "ustr option" "nat list"
  | EscrowStore escrow_error
  | EscrowKeyError

text \<open>\<open>_check_document\<close>: the document asked for, whole.\<close>

definition check_document ::
    "digest \<Rightarrow> fetched \<Rightarrow> document_key \<Rightarrow> escrow_failure + document_blob" where
  "check_document sha256 answer key =
     (case (key, answer) of
        (_, FetchedOther _) \<Rightarrow> Inl (EscrowContract WrongDocument)
      | ((corpus, the_id, version), FetchedDocument d) \<Rightarrow>
          if (blob_corpus d, blob_document d) \<noteq> (corpus, the_id) then Inl (EscrowContract WrongDocument)
          else if version \<noteq> None \<and> blob_version d \<noteq> version then Inl (EscrowContract WrongDocument)
          else (case text_digest sha256 (blob_text d) of
                  None \<Rightarrow> Inl EscrowEncode
                | Some h \<Rightarrow> if h \<noteq> blob_hash d then Inl (EscrowContract WrongDocument) else Inr d))"

definition POLICY_GATE_ID :: ustr where
  "POLICY_GATE_ID = lit ''policy''"

text \<open>
  The corpora of a snapshot's queries by id: a later query of one id wins, as in the
  comprehension.
\<close>

definition queried_corpora :: "corpus_query list \<Rightarrow> ustr \<rightharpoonup> corpus_ref" where
  "queried_corpora queries =
     map_of (rev (map (\<lambda>q. (corpus_id (query_corpus q), query_corpus q)) queries))"

text \<open>The keys of a dictionary filled in order: first occurrences.\<close>

definition first_seen :: "'a list \<Rightarrow> 'a list" where
  "first_seen xs = rev (remdups (rev xs))"

lemma set_first_seen [simp]: "set (first_seen xs) = set xs"
  by (simp add: first_seen_def)

text \<open>One document: fetched, checked to hold its passages, escrowed.\<close>

definition escrow_document ::
    "digest \<Rightarrow> providers \<Rightarrow> (ustr \<rightharpoonup> corpus_ref) \<Rightarrow> retrieved_context list \<Rightarrow> ustr \<Rightarrow> document_key
      \<Rightarrow> artifact_table \<Rightarrow> artifact_table \<times> (escrow_failure + ustr option)" where
  "escrow_document sha256 providers known passages decision key table =
     (case known (fst key) of
        None \<Rightarrow> (table, Inl EscrowKeyError)
      | Some corpus \<Rightarrow>
     (case providers (corpus_provider corpus) of
        Inl e \<Rightarrow> (table, Inl (EscrowProvider e))
      | Inr p \<Rightarrow>
     (case fetch_document p of
        None \<Rightarrow> (table, Inr None)
      | Some fetch \<Rightarrow>
     (case fetch corpus (fst (snd key)) (snd (snd key)) of
        Inl e \<Rightarrow> (table, Inl (EscrowFetch e))
      | Inr answer \<Rightarrow>
     (case check_document sha256 answer key of
        Inl e \<Rightarrow> (table, Inl e)
      | Inr d \<Rightarrow>
          let stale = map rank (filter (\<lambda>c. \<not> passage_holds sha256 (blob_text d) c) passages)
          in if stale \<noteq> []
             then (table, Inl (EvidenceEscrowError (fst key) (fst (snd key)) (snd (snd key)) stale))
             else (case encode_utf8 (blob_text d) of
                     None \<Rightarrow> (table, Inl EscrowEncode)
                   | Some content \<Rightarrow>
                       apsnd (map_sum EscrowStore id)
                         (put_artifact sha256 True content (blob_media_type d) decision POLICY_GATE_ID table)))))))"

fun escrow_each ::
    "(document_key \<Rightarrow> artifact_table \<Rightarrow> artifact_table \<times> (escrow_failure + ustr option))
      \<Rightarrow> document_key list \<Rightarrow> artifact_table
      \<Rightarrow> artifact_table \<times> (escrow_failure + (document_key \<times> ustr option) list)" where
  "escrow_each one [] table = (table, Inr [])"
| "escrow_each one (key # keys) table =
     (case one key table of
        (table', Inl e) \<Rightarrow> (table', Inl e)
      | (table', Inr h) \<Rightarrow>
          (case escrow_each one keys table' of
             (table'', Inl e) \<Rightarrow> (table'', Inl e)
           | (table'', Inr hs) \<Rightarrow> (table'', Inr ((key, h) # hs))))"

definition cite :: "(document_key \<times> ustr option) list \<Rightarrow> retrieved_context \<Rightarrow> retrieved_context" where
  "cite digests c =
     (case map_of digests (document_key c) of
        Some (Some h) \<Rightarrow> c\<lparr>escrowed_as := Some h\<rparr>
      | _ \<Rightarrow> c)"

definition escrow_documents ::
    "digest \<Rightarrow> providers \<Rightarrow> corpus_query list \<Rightarrow> retrieved_context list \<Rightarrow> bool \<Rightarrow> ustr \<Rightarrow> artifact_table
      \<Rightarrow> artifact_table \<times> (escrow_failure + retrieved_context list)" where
  "escrow_documents sha256 providers queries passages enabled decision table =
     (if \<not> enabled then (table, Inr passages)
      else apsnd (map_sum id (\<lambda>digests. map (cite digests) passages))
        (escrow_each
           (\<lambda>key. escrow_document sha256 providers (queried_corpora queries)
              (filter (\<lambda>c. document_key c = key) passages) decision key)
           (first_seen (map document_key passages)) table))"

section \<open>Verification\<close>

text \<open>
  pydantic's validation of a stored snapshot is a parameter; \<open>raw.get("snapshot_version") != 2\<close>
  compares numbers by value.
\<close>

definition version_matches :: "json option \<Rightarrow> bool" where
  "version_matches v \<longleftrightarrow> v = Some (JInt SNAPSHOT_VERSION) \<or> v = Some (JFloat (Finite (of_int SNAPSHOT_VERSION)))"

definition stored_policy_snapshot ::
    "(json_obj \<Rightarrow> policy_snapshot option) \<Rightarrow> gate_output \<Rightarrow> policy_snapshot option" where
  "stored_policy_snapshot parse out =
     (case evidence_snapshot out of
        JObj kvs \<Rightarrow>
          if version_matches (map_of kvs (lit ''snapshot_version'')) then parse kvs else None
      | _ \<Rightarrow> None)"

definition escrowed_text :: "digest \<Rightarrow> bytes option \<Rightarrow> ustr \<Rightarrow> ustr option" where
  "escrowed_text sha256 content h =
     (case content of
        None \<Rightarrow> None
      | Some bs \<Rightarrow> if sha256 bs \<noteq> h then None else decode_utf8 bs)"

text \<open>The escrow's table, or \<open>None\<close> for a gate built without one.\<close>

definition policy_stored_status ::
    "digest \<Rightarrow> artifact_table option \<Rightarrow> evidence_ref \<Rightarrow> retrieved_context \<Rightarrow> evidence_status" where
  "policy_stored_status sha256 escrow ref c =
     (case (artifact_hash ref, escrow) of
        (Some h, Some table) \<Rightarrow>
          (case escrowed_text sha256 (get_artifact table h) h of
             None \<Rightarrow> NotVerifiable
           | Some document \<Rightarrow> if passage_holds sha256 document c then Intact else SourceChanged)
      | _ \<Rightarrow> NotVerifiable)"

definition fetch_now ::
    "digest \<Rightarrow> providers \<Rightarrow> document_key \<Rightarrow> corpus_ref option \<Rightarrow> evidence_status + document_blob" where
  "fetch_now sha256 providers key corpus =
     (case corpus of
        None \<Rightarrow> Inl NotVerifiable
      | Some corpus \<Rightarrow>
     (case providers (corpus_provider corpus) of
        Inl _ \<Rightarrow> Inl SourceUnavailable
      | Inr p \<Rightarrow>
     (case fetch_document p of
        None \<Rightarrow> Inl NotVerifiable
      | Some fetch \<Rightarrow>
     (case fetch corpus (fst (snd key)) (snd (snd key)) of
        Inl (DocumentNotHeld _) \<Rightarrow> Inl SourceChanged
      | Inl (FetchRaised _) \<Rightarrow> Inl SourceUnavailable
      | Inr answer \<Rightarrow>
          (case check_document sha256 answer key of
             Inl _ \<Rightarrow> Inl SourceUnavailable
           | Inr d \<Rightarrow> Inr d)))))"

definition live_status ::
    "digest \<Rightarrow> providers \<Rightarrow> (ustr \<rightharpoonup> corpus_ref) \<Rightarrow> retrieved_context \<Rightarrow> evidence_status" where
  "live_status sha256 providers known c =
     (case fetch_now sha256 providers (document_key c) (known (passage_corpus c)) of
        Inl status \<Rightarrow> status
      | Inr d \<Rightarrow> if passage_holds sha256 (blob_text d) c then Intact else SourceChanged)"

definition policy_verify ::
    "digest \<Rightarrow> (json_obj \<Rightarrow> policy_snapshot option) \<Rightarrow> providers \<Rightarrow> artifact_table option \<Rightarrow> gate_output
      \<Rightarrow> bool \<Rightarrow> evidence_status list" where
  "policy_verify sha256 parse providers escrow out live =
     (case stored_policy_snapshot parse out of
        None \<Rightarrow> replicate (length (evidence out)) NotVerifiable
      | Some s \<Rightarrow>
          map (\<lambda>(i, ref).
            if length (contexts s) \<le> i then NotVerifiable
            else let c = contexts s ! i
                 in if content_hash ref \<noteq> Some (passage_hash c) then NotVerifiable
                    else if live then live_status sha256 providers (queried_corpora (corpus_queries s)) c
                    else policy_stored_status sha256 escrow ref c)
            (enumerate 0 (evidence out)))"

end
