(* ===== verification/Policy_Render.thy ===== *)
theory Policy_Render
  imports Policy_Escrow
begin

text \<open>
  The prompt of the RAG policy gate (\<open>policy_rag_gate/gate.py\<close>): the layouts evidence is
  rendered in, and \<open>_render_prompt\<close> with the part of \<open>str.format\<close> it uses. A replacement field
  with a conversion, a format specification, an attribute or an index is formatted by a
  parameter.
\<close>

section \<open>Layouts\<close>

definition NO_EVIDENCE :: ustr where
  "NO_EVIDENCE = lit ''(no policy evidence retrieved)''"

text \<open>\<open>sep.join(parts)\<close>\<close>

fun join :: "ustr \<Rightarrow> ustr list \<Rightarrow> ustr" where
  "join sep [] = []"
| "join sep [p] = p"
| "join sep (p # q # ps) = p @ sep @ join sep (q # ps)"

definition PARAGRAPH :: ustr where
  "PARAGRAPH = [10, 10]"

text \<open>The dash of a heading is U+2014.\<close>

definition heading :: "retrieved_context \<Rightarrow> bool \<Rightarrow> ustr" where
  "heading c with_version =
     document_title c
     @ (if with_version then (case document_version c of
                                None \<Rightarrow> [] | Some v \<Rightarrow> lit '' (v'' @ v @ lit '')'') else [])
     @ (case jurisdiction c of None \<Rightarrow> [] | Some j \<Rightarrow> [32, 0x2014, 32] @ j)"

definition numbered :: "nat \<times> retrieved_context \<Rightarrow> ustr" where
  "numbered entry =
     (case entry of (n, c) \<Rightarrow>
        lit ''['' @ nat_text n @ lit ''] '' @ heading c True @ [10]
        @ (case section_path c of None \<Rightarrow> [] | Some s \<Rightarrow> lit ''Section: '' @ s @ [10])
        @ passage_text c)"

definition render_numbered_list :: "retrieved_context list \<Rightarrow> ustr" where
  "render_numbered_list cs =
     (if cs = [] then NO_EVIDENCE else join PARAGRAPH (map numbered (enumerate 1 cs)))"

definition labeled :: "nat \<times> retrieved_context \<Rightarrow> ustr" where
  "labeled entry =
     (case entry of (n, c) \<Rightarrow>
        lit ''['' @ nat_text n @ lit ''] '' @ heading c False @ [10]
        @ lit ''Corpus: '' @ passage_corpus c @ lit '' | Tier: '' @ nat_text (passage_tier c)
        @ lit '' | Document: '' @ document_id c
        @ (case document_version c of None \<Rightarrow> [] | Some v \<Rightarrow> lit '' | Version: '' @ v)
        @ (case section_path c of None \<Rightarrow> [] | Some s \<Rightarrow> [10] @ lit ''Section: '' @ s)
        @ [10] @ passage_text c)"

text \<open>The blocks from one tier on, given the passages numbered so far.\<close>

fun tier_blocks :: "retrieved_context list \<Rightarrow> nat \<Rightarrow> nat list \<Rightarrow> ustr list" where
  "tier_blocks cs number [] = []"
| "tier_blocks cs number (tier # rest) =
     (let in_tier = filter (\<lambda>c. passage_tier c = tier) cs;
          names = join (lit '', '') (first_seen (map passage_corpus in_tier));
          title = lit ''--- Tier '' @ nat_text tier @ lit '' (corpora: '' @ names @ lit '') ---''
      in join PARAGRAPH (title # map labeled (enumerate (number + 1) in_tier))
         # tier_blocks cs (number + length in_tier) rest)"

definition render_tiered_blocks :: "retrieved_context list \<Rightarrow> ustr" where
  "render_tiered_blocks cs =
     (if cs = [] then NO_EVIDENCE
      else join PARAGRAPH (tier_blocks cs 0 (sorted_list_of_set (passage_tier ` set cs))))"

definition render_evidence :: "retrieved_context list \<Rightarrow> evidence_layout \<Rightarrow> ustr" where
  "render_evidence cs layout =
     (if layout = TieredBlocks then render_tiered_blocks cs else render_numbered_list cs)"

section \<open>Formatting\<close>

text \<open>
  What \<open>str.format\<close> raises: \<open>KeyError\<close> for a name without a value, \<open>IndexError\<close> for a
  positional field, \<open>ValueError\<close> for braces that do not pair, and what a specification may
  raise.
\<close>

datatype format_error = FormatKeyError ustr | FormatIndexError | FormatValueError | FormatOther ustr

text \<open>
  A field's name, up to the brace that ends it or the \<open>!\<close> or \<open>:\<close> that starts the rest of it;
  an index in brackets hides them.
\<close>

datatype field_end = Closed ustr | Converted ustr | Specified ustr | Unpaired

fun field_name :: "bool \<Rightarrow> ustr \<Rightarrow> ustr \<times> field_end" where
  "field_name bracket [] = ([], Unpaired)"
| "field_name bracket (c # s) =
     (if bracket \<and> c \<noteq> 93 then apfst ((#) c) (field_name True s)
      else if c = 123 then ([], Unpaired)
      else if c = 125 then ([], Closed s)
      else if c = 33 then ([], Converted s)
      else if c = 58 then ([], Specified s)
      else apfst ((#) c) (field_name (c = 91) s))"

text \<open>A specification: the text up to the brace that closes the field, counting nested ones.\<close>

fun field_rest :: "nat \<Rightarrow> ustr \<Rightarrow> (ustr \<times> ustr) option" where
  "field_rest depth [] = None"
| "field_rest depth (c # s) =
     (if c = 125 \<and> depth = 0 then Some ([], s)
      else map_option (apfst ((#) c))
             (field_rest (if c = 123 then depth + 1 else if c = 125 then depth - 1 else depth) s))"

record replacement_field =
  field_of :: ustr
  conversion :: "nat option"
  format_spec :: "ustr option"

text \<open>A field and the text after it.\<close>

definition read_field :: "ustr \<Rightarrow> (replacement_field \<times> ustr) option" where
  "read_field s =
     (case field_name False s of
        (n, Closed rest) \<Rightarrow> Some (\<lparr>field_of = n, conversion = None, format_spec = None\<rparr>, rest)
      | (n, Specified rest) \<Rightarrow>
          map_option (apfst (\<lambda>spec. \<lparr>field_of = n, conversion = None, format_spec = Some spec\<rparr>))
            (field_rest 0 rest)
      | (n, Converted rest) \<Rightarrow>
          (case rest of
             how # c # rest' \<Rightarrow>
               if c = 125 then Some (\<lparr>field_of = n, conversion = Some how, format_spec = None\<rparr>, rest')
               else if c = 58 then
                 map_option (apfst (\<lambda>spec. \<lparr>field_of = n, conversion = Some how,
                   format_spec = Some spec\<rparr>)) (field_rest 0 rest')
               else None
           | _ \<Rightarrow> None)
      | (n, Unpaired) \<Rightarrow> None)"

lemma field_name_shorter:
  "field_name b s = (n, e) \<Longrightarrow> e \<in> {Closed r, Converted r, Specified r} \<Longrightarrow> length r < length s"
proof (induction b s arbitrary: n rule: field_name.induct)
  case (2 b c s)
  then show ?case by (cases "field_name True s"; cases "field_name (c = 91) s") (auto split: if_splits)
qed auto

lemma field_rest_shorter: "field_rest d s = Some (n, r) \<Longrightarrow> length r < length s"
  by (induction d s arbitrary: n rule: field_rest.induct) (fastforce split: if_splits)+

lemma read_field_shorter:
  assumes "read_field s = Some (f, r)"
  shows "length r < length s"
proof -
  obtain n e where ne: "field_name False s = (n, e)" by (cases "field_name False s")
  show ?thesis
    using assms field_name_shorter [OF ne]
    by (auto simp: read_field_def ne split: field_end.splits list.splits if_splits
        dest!: field_rest_shorter)
qed

text \<open>\<open>vars[name]\<close> for a plain name; a name that is empty or a number is positional.\<close>

definition plain_name :: "ustr \<Rightarrow> bool" where
  "plain_name n \<longleftrightarrow> 46 \<notin> set n \<and> 91 \<notin> set n"

definition plain_field :: "(ustr \<times> ustr) list \<Rightarrow> ustr \<Rightarrow> format_error + ustr" where
  "plain_field vars n =
     (if list_all (\<lambda>c. 48 \<le> c \<and> c \<le> 57) n then Inl FormatIndexError
      else case map_of vars n of None \<Rightarrow> Inl (FormatKeyError n) | Some v \<Rightarrow> Inr v)"

definition is_plain :: "replacement_field \<Rightarrow> bool" where
  "is_plain f \<longleftrightarrow> plain_name (field_of f) \<and> conversion f = None \<and> format_spec f = None"

text \<open>The parameter formats any other field.\<close>

type_synonym special_fields = "(ustr \<times> ustr) list \<Rightarrow> replacement_field \<Rightarrow> format_error + ustr"

function format_text :: "special_fields \<Rightarrow> (ustr \<times> ustr) list \<Rightarrow> ustr \<Rightarrow> format_error + ustr" where
  "format_text special vars [] = Inr []"
| "format_text special vars (c # s) =
     (if c = 123 then
        (if s \<noteq> [] \<and> hd s = 123 then map_sum id ((#) 123) (format_text special vars (tl s))
         else (case read_field s of
                 None \<Rightarrow> Inl FormatValueError
               | Some (f, rest) \<Rightarrow>
                   rbind (if is_plain f then plain_field vars (field_of f) else special vars f) (\<lambda>v.
                   map_sum id ((@) v) (format_text special vars rest))))
      else if c = 125 then
        (if s \<noteq> [] \<and> hd s = 125 then map_sum id ((#) 125) (format_text special vars (tl s))
         else Inl FormatValueError)
      else map_sum id ((#) c) (format_text special vars s))"
  by pat_completeness auto
termination
  by (relation "measure (\<lambda>(_, _, s). length s)") (auto dest: read_field_shorter)

declare format_text.simps(2) [simp del]

section \<open>The prompt\<close>

text \<open>\<open>s.replace(old, new)\<close> for \<open>old\<close> not empty, left to right.\<close>

function replace :: "ustr \<Rightarrow> ustr \<Rightarrow> ustr \<Rightarrow> ustr" where
  "replace old new [] = []"
| "replace old new (c # s) =
     (if old \<noteq> [] \<and> starts_with old (c # s) then new @ replace old new (drop (length old) (c # s))
      else c # replace old new s)"
  by pat_completeness auto
termination
  by (relation "measure (\<lambda>(_, _, s). length s)") (auto simp: neq_Nil_conv)

declare replace.simps(2) [simp del]

definition SNIPPETS :: ustr where
  "SNIPPETS = lit ''{policy_snippets}''"

definition escape_braces :: "ustr \<Rightarrow> ustr" where
  "escape_braces t = replace [125] [125, 125] (replace [123] [123, 123] t)"

definition render_prompt ::
    "special_fields \<Rightarrow> ustr \<Rightarrow> (ustr \<times> ustr) list \<Rightarrow> ustr \<Rightarrow> format_error + ustr" where
  "render_prompt special template vars evidence_text =
     format_text special vars (replace SNIPPETS (escape_braces evidence_text) template)"

end
