(* ===== verification/Policy_Prompt.thy ===== *)
theory Policy_Prompt
  imports Policy_Render
begin

text \<open>
  A rendered prompt is its template with the evidence and the variables in place, whatever
  text they hold.
\<close>

section \<open>Templates by their segments\<close>

datatype segment = Literal ustr | OpenBrace | CloseBrace | Variable ustr | EvidenceHere

fun segment_source :: "segment \<Rightarrow> ustr" where
  "segment_source (Literal t) = t"
| "segment_source OpenBrace = [123, 123]"
| "segment_source CloseBrace = [125, 125]"
| "segment_source (Variable n) = 123 # n @ [125]"
| "segment_source EvidenceHere = SNIPPETS"

definition template_source :: "segment list \<Rightarrow> ustr" where
  "template_source segments = concat (map segment_source segments)"

fun segment_value :: "(ustr \<times> ustr) list \<Rightarrow> ustr \<Rightarrow> segment \<Rightarrow> format_error + ustr" where
  "segment_value vars shown (Literal t) = Inr t"
| "segment_value vars shown OpenBrace = Inr [123]"
| "segment_value vars shown CloseBrace = Inr [125]"
| "segment_value vars shown (Variable n) = plain_field vars n"
| "segment_value vars shown EvidenceHere = Inr shown"

text \<open>
  Literals without braces, plain variable names, and no escaped brace that completes the
  evidence placeholder.
\<close>

fun template_ok :: "segment list \<Rightarrow> bool" where
  "template_ok [] = True"
| "template_ok (Literal t # rest) = (123 \<notin> set t \<and> 125 \<notin> set t \<and> template_ok rest)"
| "template_ok (OpenBrace # rest) =
     (\<not> starts_with (tl SNIPPETS) (template_source rest) \<and> template_ok rest)"
| "template_ok (Variable n # rest) =
     (set n \<inter> {33, 46, 58, 91, 123, 125} = {} \<and> n \<noteq> lit ''policy_snippets'' \<and> template_ok rest)"
| "template_ok (CloseBrace # rest) = template_ok rest"
| "template_ok (EvidenceHere # rest) = template_ok rest"

section \<open>Replacing\<close>

lemma replace_append:
  assumes "\<forall>i < length p. \<not> starts_with old (drop i p @ r)"
  shows "replace old new (p @ r) = p @ replace old new r"
  using assms
proof (induction p)
  case (Cons c p)
  from Cons.prems [rule_format, of 0] have "\<not> starts_with old (c # p @ r)" by simp
  moreover have "\<not> starts_with old (drop i p @ r)" if "i < length p" for i
    using Cons.prems [rule_format, of "Suc i"] that by simp
  ultimately show ?case using Cons.IH by (simp add: replace.simps(2))
qed simp

lemma replace_here:
  "old \<noteq> [] \<Longrightarrow> replace old new (old @ r) = new @ replace old new r"
  by (cases old) (simp_all add: replace.simps(2))

lemma replace_char: "replace [x] new s = concat (map (\<lambda>c. if c = x then new else [c]) s)"
  by (induction s) (auto simp: replace.simps(2))

lemma SNIPPETS_Cons: "SNIPPETS = 123 # lit ''policy_snippets'' @ [125]"
  by (simp add: SNIPPETS_def)

lemma not_snippets_here: "s = [] \<or> hd s \<noteq> 123 \<Longrightarrow> \<not> starts_with SNIPPETS s"
  by (cases s) (simp_all add: SNIPPETS_Cons)

lemma not_snippets_variable:
  assumes "n \<noteq> lit ''policy_snippets''" "125 \<notin> set n"
  shows "\<not> starts_with SNIPPETS (123 # n @ 125 # r)"
proof
  assume "starts_with SNIPPETS (123 # n @ 125 # r)"
  then obtain t where t: "n @ 125 # r = lit ''policy_snippets'' @ 125 # t"
    by (auto simp: starts_with_iff SNIPPETS_Cons simp del: list.map)
  have "takeWhile (\<lambda>c. c \<noteq> 125) (n @ 125 # r) = n"
    using assms(2) by (induction n) auto
  moreover have "takeWhile (\<lambda>c. c \<noteq> 125) (lit ''policy_snippets'' @ 125 # t) = lit ''policy_snippets''"
    by simp
  ultimately show False using t assms(1) by simp
qed

lemma replace_snippets:
  "template_ok segments \<Longrightarrow> replace SNIPPETS new (template_source segments)
     = concat (map (\<lambda>s. if s = EvidenceHere then new else segment_source s) segments)"
proof (induction segments rule: template_ok.induct)
  case (2 t rest)
  then have "replace SNIPPETS new (t @ template_source rest) = t @ replace SNIPPETS new (template_source rest)"
    by (intro replace_append allI impI not_snippets_here)
      (auto simp: hd_append hd_drop_conv_nth dest: nth_mem)
  with 2 show ?case by (simp add: template_source_def)
next
  case (3 rest)
  have "replace SNIPPETS new ([123, 123] @ template_source rest)
      = [123, 123] @ replace SNIPPETS new (template_source rest)"
  proof (rule replace_append, intro allI impI)
    fix i :: nat assume "i < length [123, 123 :: nat]"
    then consider "i = 0" | "i = 1" by fastforce
    then show "\<not> starts_with SNIPPETS (drop i [123, 123] @ template_source rest)"
      by cases (use 3 in \<open>auto simp: SNIPPETS_Cons\<close>)
  qed
  with 3 show ?case by (simp add: template_source_def)
next
  case (4 n rest)
  have "replace SNIPPETS new ((123 # n @ [125]) @ template_source rest)
      = (123 # n @ [125]) @ replace SNIPPETS new (template_source rest)"
  proof (rule replace_append, intro allI impI)
    fix i assume i: "i < length (123 # n @ [125 :: nat])"
    show "\<not> starts_with SNIPPETS (drop i (123 # n @ [125]) @ template_source rest)"
    proof (cases i)
      case 0
      then show ?thesis using not_snippets_variable 4 by auto
    next
      case (Suc j)
      have "(n @ [125]) ! j \<in> set (n @ [125])" using i Suc by (intro nth_mem) simp
      moreover have "123 \<notin> set (n @ [125])" using 4 by simp
      ultimately have "(n @ [125]) ! j \<noteq> 123" by metis
      with i Suc show ?thesis
        by (intro not_snippets_here) (auto simp: hd_append hd_drop_conv_nth nth_append split: if_splits)
    qed
  qed
  with 4 show ?case by (simp add: template_source_def)
next
  case (5 rest)
  have "replace SNIPPETS new ([125, 125] @ template_source rest)
      = [125, 125] @ replace SNIPPETS new (template_source rest)"
  proof (rule replace_append, intro allI impI not_snippets_here)
    fix i :: nat assume "i < length [125, 125 :: nat]"
    then consider "i = 0" | "i = 1" by fastforce
    then show "drop i [125, 125] @ template_source rest = []
        \<or> hd (drop i [125, 125] @ template_source rest) \<noteq> 123" by cases auto
  qed
  with 5 show ?case by (simp add: template_source_def)
next
  case (6 rest)
  have "SNIPPETS \<noteq> []" by (simp add: SNIPPETS_def)
  with 6 show ?case by (simp add: template_source_def replace_here)
qed (simp add: template_source_def)

section \<open>Formatting\<close>

lemma map_value_comp [simp]:
  "map_sum id f (map_sum id g x) = map_sum id (\<lambda>v. f (g v)) x" "map_sum id (\<lambda>v. v) x = x"
  "map_sum id ((@) []) x = x"
  by (cases x; simp)+

lemma format_plain [simp]:
  "123 \<notin> set t \<Longrightarrow> 125 \<notin> set t
     \<Longrightarrow> format_text special vars (t @ r) = map_sum id ((@) t) (format_text special vars r)"
proof (induction t)
  case (Cons c t)
  then show ?case by (cases "format_text special vars r") (auto simp: format_text.simps(2))
qed simp

lemma format_open [simp]:
  "format_text special vars (123 # 123 # r) = map_sum id ((#) 123) (format_text special vars r)"
  by (simp add: format_text.simps(2))

lemma format_close [simp]:
  "format_text special vars (125 # 125 # r) = map_sum id ((#) 125) (format_text special vars r)"
  by (simp add: format_text.simps(2))

lemma read_variable:
  assumes "set n \<inter> {33, 46, 58, 91, 123, 125} = {}"
  shows "read_field (n @ 125 # r) = Some (\<lparr>field_of = n, conversion = None, format_spec = None\<rparr>, r)"
proof -
  have "field_name False (n @ 125 # r) = (n, Closed r)" using assms by (induction n) auto
  then show ?thesis by (simp add: read_field_def)
qed

lemma format_variable:
  assumes "set n \<inter> {33, 46, 58, 91, 123, 125} = {}"
  shows "format_text special vars (123 # n @ 125 # r)
    = rbind (plain_field vars n) (\<lambda>v. map_sum id ((@) v) (format_text special vars r))"
proof -
  have "n @ 125 # r \<noteq> [] \<and> hd (n @ 125 # r) \<noteq> 123" using assms by (cases n) auto
  with assms show ?thesis
    by (auto simp: format_text.simps(2) read_variable is_plain_def plain_name_def)
qed

lemma escape_braces_map:
  "escape_braces t = concat (map (\<lambda>c. if c = 123 then [123, 123] else if c = 125 then [125, 125] else [c]) t)"
  unfolding escape_braces_def replace_char by (induction t) auto

lemma format_escaped:
  "format_text special vars (escape_braces t @ r) = map_sum id ((@) t) (format_text special vars r)"
proof (induction t)
  case (Cons c t)
  have "format_text special vars (c # s) = map_sum id ((#) c) (format_text special vars s)"
    if "c \<noteq> 123" "c \<noteq> 125" for s using that by (simp add: format_text.simps(2))
  with Cons show ?case
    by (cases "format_text special vars r") (auto simp: escape_braces_map)
next
  case Nil
  show ?case by (cases "format_text special vars r") (simp_all add: escape_braces_map)
qed

lemma map_sum_rbind: "map_sum id f (rbind x g) = rbind x (\<lambda>v. map_sum id f (g v))"
  by (cases x) simp_all

lemma render_segments:
  assumes "template_ok segments"
  shows "render_prompt special (template_source segments) vars shown
    = map_sum id concat (rmap (segment_value vars shown) segments)"
  unfolding render_prompt_def replace_snippets [OF assms]
  using assms
proof (induction segments rule: template_ok.induct)
  case (4 n rest)
  then show ?case
    by (cases "plain_field vars n"; cases "rmap (segment_value vars shown) rest")
      (simp_all add: format_variable)
next
  case (2 t rest)
  then show ?case by (cases "rmap (segment_value vars shown) rest") simp_all
next
  case (3 rest)
  then show ?case by (cases "rmap (segment_value vars shown) rest") simp_all
next
  case (5 rest)
  then show ?case by (cases "rmap (segment_value vars shown) rest") simp_all
next
  case (6 rest)
  then show ?case by (cases "rmap (segment_value vars shown) rest") (simp_all add: format_escaped)
qed simp

lemma rmap_fails: "(\<exists>e. rmap f xs = Inl e) \<longleftrightarrow> (\<exists>x \<in> set xs. \<exists>e. f x = Inl e)"
proof (induction xs)
  case (Cons x xs)
  then show ?case by (cases "f x") (auto simp: rbind_Inl_iff)
qed simp

lemma map_sum_Inl: "(\<exists>e. map_sum id f x = Inl e) \<longleftrightarrow> (\<exists>e. x = Inl e)"
  by (cases x) simp_all

lemma segment_fails:
  "(\<exists>e. segment_value vars shown s = Inl e) \<longleftrightarrow> (\<exists>n. s = Variable n
     \<and> (list_all (\<lambda>c. 48 \<le> c \<and> c \<le> 57) n \<or> map_of vars n = None))"
  by (cases s) (auto simp: plain_field_def split: option.splits)

text \<open>
  C33: A prompt is its template. For a template of literal text, escaped braces, variables and
  evidence placeholders, the rendered prompt is its segments in order with the evidence text
  and each variable's value exactly as given, braces, placeholders and all: neither retrieved
  text nor a submitted value can name a variable or move the template's wording. Rendering
  fails exactly when a variable has no value or is positional, whatever the evidence.
\<close>

theorem prompt_is_its_template:
  assumes "template_ok segments"
  shows "render_prompt special (template_source segments) vars (render_evidence cs layout)
      = map_sum id concat (rmap (segment_value vars (render_evidence cs layout)) segments)
    \<and> ((\<exists>e. render_prompt special (template_source segments) vars (render_evidence cs layout) = Inl e)
        \<longleftrightarrow> (\<exists>n. Variable n \<in> set segments
              \<and> (list_all (\<lambda>c. 48 \<le> c \<and> c \<le> 57) n \<or> map_of vars n = None)))"
proof -
  let ?shown = "render_evidence cs layout"
  have "(\<exists>e. map_sum id concat (rmap (segment_value vars ?shown) segments) = Inl e)
      \<longleftrightarrow> (\<exists>s \<in> set segments. \<exists>e. segment_value vars ?shown s = Inl e)"
    by (simp add: rmap_fails map_sum_Inl)
  then show ?thesis
    unfolding render_segments [OF assms] by (auto simp: segment_fails)
qed

text \<open>The witness renders a title that is itself a placeholder.\<close>

definition ex_segments :: "segment list" where
  "ex_segments = [Literal (lit ''Case ''), Variable (lit ''case''), OpenBrace, CloseBrace, EvidenceHere]"

theorem prompt_is_its_template_witness:
  "render_prompt (\<lambda>_ _. Inl FormatValueError) (template_source ex_segments) [(lit ''case'', lit ''{x}'')]
     (render_evidence [] NumberedList)
   = Inr (lit ''Case {x}{}'' @ NO_EVIDENCE)"
proof -
  have ok: "template_ok ex_segments" by (simp add: ex_segments_def template_source_def SNIPPETS_def)
  show ?thesis
    unfolding prompt_is_its_template [OF ok, THEN conjunct1]
    by (simp add: ex_segments_def plain_field_def render_evidence_def render_numbered_list_def)
qed

end
