(* ===== verification/Prompt_Registry.thy ===== *)
theory Prompt_Registry
  imports Policy_Corpus
begin

text \<open>
  The prompt templates of the RAG policy gate and what a reasoner may submit to it:
  \<open>policy_rag_gate/prompt_registry.py\<close>, \<open>config.py\<close> and \<open>assets.py\<close>. YAML is a parameter, as
  is the file system; a file that YAML parses is JSON here.
\<close>

section \<open>Templates\<close>

datatype template_error =
    TemplateUnreadable ustr
  | TemplateNotMapping ustr
  | TemplateKeyError ustr
  | TemplateNotText ustr
  | TemplateEmpty ustr
  | SystemEmpty ustr
  | SystemNotText ustr
  | LayoutUnknown ustr json
  | TemplateInvalid ustr
  | DeclaredTwice ustr ustr ustr

text \<open>
  \<open>re.findall(r"\{(\w+)\}", s)\<close>: a brace, the longest run of word characters, and the closing
  brace right after it. Which characters are word characters is Unicode's, a parameter.
\<close>

function braced_words :: "(nat \<Rightarrow> bool) \<Rightarrow> ustr \<Rightarrow> ustr list" where
  "braced_words word [] = []"
| "braced_words word (c # s) =
     (let w = takeWhile word s; rest = dropWhile word s
      in if c = 123 \<and> w \<noteq> [] \<and> rest \<noteq> [] \<and> hd rest = 125
         then w # braced_words word (tl rest)
         else braced_words word s)"
  by pat_completeness auto
termination
proof (relation "measure (\<lambda>(_, s). length s)", goal_cases)
  case (2 word c s w rest)
  have "length (tl (dropWhile word s)) \<le> length s"
    using length_dropWhile_le [of word s] by simp
  with 2 show ?case by simp
qed auto

definition extract_required_vars :: "(nat \<Rightarrow> bool) \<Rightarrow> ustr \<Rightarrow> ustr set" where
  "extract_required_vars word s = set (braced_words word s) - {lit ''policy_snippets''}"

definition DEFAULT_SYSTEM_TEXT :: ustr where
  "DEFAULT_SYSTEM_TEXT = lit ''You are a policy gate. Evaluate the observation against the retrieved policy snippets and respond with a verdict that conforms strictly to the response schema.''"

text \<open>\<open>raw[key]\<close> and \<open>raw.get(key, default)\<close>\<close>

definition required_key :: "json_obj \<Rightarrow> ustr \<Rightarrow> template_error + json" where
  "required_key raw key = (case map_of raw key of None \<Rightarrow> Inl (TemplateKeyError key) | Some v \<Rightarrow> Inr v)"

definition key_or :: "json_obj \<Rightarrow> ustr \<Rightarrow> json \<Rightarrow> json" where
  "key_or raw key otherwise = (case map_of raw key of None \<Rightarrow> otherwise | Some v \<Rightarrow> v)"

fun text_of :: "json \<Rightarrow> ustr option" where
  "text_of (JStr s) = Some s"
| "text_of _ = None"

fun layout_of :: "json \<Rightarrow> evidence_layout option" where
  "layout_of (JStr s) =
     (if s = lit ''numbered_list'' then Some NumberedList
      else if s = lit ''tiered_blocks'' then Some TieredBlocks else None)"
| "layout_of _ = None"

text \<open>\<open>path.stem\<close> of a file name: without its last suffix; a leading dot starts none.\<close>

definition stem :: "ustr \<Rightarrow> ustr" where
  "stem name =
     (let before = rev (tl (dropWhile (\<lambda>c. c \<noteq> 46) (rev name)))
      in if 46 \<in> set name \<and> before \<noteq> [] then before else name)"

text \<open>\<open>_load_template\<close>; the model is strict, so its three texts must be strings.\<close>

definition load_template ::
    "(nat \<Rightarrow> bool) \<Rightarrow> (ustr \<Rightarrow> ustr + json) \<Rightarrow> ustr \<Rightarrow> template_error + prompt_template" where
  "load_template word yaml name =
     rbind (map_sum TemplateUnreadable id (yaml name)) (\<lambda>parsed.
     case parsed of
       JObj raw \<Rightarrow>
     rbind (required_key raw (lit ''template'')) (\<lambda>template.
     rbind (case template of JStr s \<Rightarrow> Inr s | _ \<Rightarrow> Inl (TemplateNotText name)) (\<lambda>wording.
     if blank wording then Inl (TemplateEmpty name) else
     rbind (case key_or raw (lit ''system'') (JStr DEFAULT_SYSTEM_TEXT) of
              JNull \<Rightarrow> Inl (SystemEmpty name)
            | JStr s \<Rightarrow> if blank s then Inl (SystemEmpty name) else Inr s
            | _ \<Rightarrow> Inl (SystemNotText name)) (\<lambda>system.
     let declared = key_or raw (lit ''evidence_layout'') (JStr (lit ''numbered_list'')) in
     case layout_of declared of
       None \<Rightarrow> Inl (LayoutUnknown name declared)
     | Some layout \<Rightarrow>
     rbind (required_key raw (lit ''version'')) (\<lambda>version.
     rbind (required_key raw (lit ''description'')) (\<lambda>description.
     case (text_of (key_or raw (lit ''template_id'') (JStr (stem name))), text_of version,
           text_of description) of
       (Some i, Some v, Some d) \<Rightarrow>
         Inr \<lparr>template_id = i, template_version = v, template_description = d,
              template_text = wording, system_text = system,
              required_vars = extract_required_vars word wording, evidence_layout = layout\<rparr>
     | _ \<Rightarrow> Inl (TemplateInvalid name))))))
     | _ \<Rightarrow> Inl (TemplateNotMapping name))"

text \<open>A dictionary from template ids to the template and the file it came from.\<close>

type_synonym templates = "(ustr \<times> prompt_template \<times> ustr) list"

fun load_each ::
    "(ustr \<Rightarrow> template_error + prompt_template) \<Rightarrow> ustr list \<Rightarrow> templates \<Rightarrow> template_error + templates" where
  "load_each read [] so_far = Inr so_far"
| "load_each read (name # names) so_far =
     rbind (read name) (\<lambda>t.
       case map_of so_far (template_id t) of
         Some (_, earlier) \<Rightarrow> Inl (DeclaredTwice (template_id t) earlier name)
       | None \<Rightarrow> load_each read names (so_far @ [(template_id t, t, name)]))"

text \<open>A directory of files that does not exist holds none.\<close>

definition load_templates ::
    "(ustr \<Rightarrow> template_error + prompt_template) \<Rightarrow> ustr list \<Rightarrow> template_error + templates" where
  "load_templates read names = load_each read (sort names) []"

section \<open>The registry\<close>

record prompt_registry =
  registered :: "ustr \<rightharpoonup> prompt_template"
  template_sources :: "ustr \<rightharpoonup> ustr"

definition empty_registry :: prompt_registry where
  "empty_registry = \<lparr>registered = Map.empty, template_sources = Map.empty\<rparr>"

text \<open>\<open>YamlPromptRegistry.add\<close>: all of the templates, or none.\<close>

definition add_templates :: "templates \<Rightarrow> prompt_registry \<Rightarrow> template_error + prompt_registry" where
  "add_templates ts r =
     rbind (rcheck (\<lambda>(i, _, path). case template_sources r i of
                       Some earlier \<Rightarrow> Inl (DeclaredTwice i earlier path) | None \<Rightarrow> Inr ()) ts) (\<lambda>_.
     Inr \<lparr>registered = registered r ++ map_of (map (\<lambda>(i, t, _). (i, t)) ts),
          template_sources = template_sources r ++ map_of (map (\<lambda>(i, _, path). (i, path)) ts)\<rparr>)"

fun build_prompts ::
    "(ustr list \<Rightarrow> template_error + templates) \<Rightarrow> ustr list list \<Rightarrow> prompt_registry
      \<Rightarrow> template_error + prompt_registry" where
  "build_prompts load [] r = Inr r"
| "build_prompts load (directory # rest) r =
     rbind (load directory) (\<lambda>ts. rbind (add_templates ts r) (build_prompts load rest))"

definition get_template :: "prompt_registry \<Rightarrow> ustr \<Rightarrow> template_error + prompt_template" where
  "get_template r i =
     (case registered r i of None \<Rightarrow> Inl (TemplateKeyError i) | Some t \<Rightarrow> Inr t)"

datatype context_error = ContextTemplate template_error | MissingVariables "ustr set"

definition validate_context :: "prompt_registry \<Rightarrow> ustr \<Rightarrow> (ustr \<times> ustr) list \<Rightarrow> context_error + unit" where
  "validate_context r i vars =
     rbind (map_sum ContextTemplate id (get_template r i)) (\<lambda>t.
       let missing = required_vars t - fst ` set vars
       in if missing \<noteq> {} then Inl (MissingVariables missing) else Inr ())"

section \<open>What a reasoner may submit\<close>

record policy_config =
  config_template :: ustr
  config_vars :: "(ustr \<times> ustr) list"
  config_query :: "ustr option"
  config_jurisdictions :: "ustr list"
  config_risk_tier :: "ustr option"

record reasoner_profile =
  profile_templates :: "ustr set"
  profile_jurisdictions :: "ustr set"

text \<open>
  \<open>corpus_jurisdictions\<close>: each document's jurisdiction, or \<open>None\<close> for one that does not parse.
\<close>

definition covered_jurisdictions :: "(ustr \<Rightarrow> ustr option) \<Rightarrow> ustr list \<Rightarrow> ustr set" where
  "covered_jurisdictions parse names = set (List.map_filter parse names)"

definition profile_from_assets ::
    "(ustr \<Rightarrow> template_error + prompt_template) \<Rightarrow> (ustr \<Rightarrow> ustr option) \<Rightarrow> ustr list \<Rightarrow> ustr list
      \<Rightarrow> template_error + reasoner_profile" where
  "profile_from_assets read parse prompts documents =
     rbind (load_templates read prompts) (\<lambda>ts.
       Inr \<lparr>profile_templates = fst ` set ts,
            profile_jurisdictions = covered_jurisdictions parse documents\<rparr>)"

datatype authorization_error =
    TemplateNotShipped ustr
  | ForeignJurisdictions "ustr list"
  | ReasonerNotServed ustr
  | ConfigNotValid

definition authorize :: "reasoner_profile \<Rightarrow> policy_config \<Rightarrow> authorization_error + unit" where
  "authorize profile c =
     (if config_template c \<notin> profile_templates profile then Inl (TemplateNotShipped (config_template c))
      else let foreign = sorted_list_of_set (set (config_jurisdictions c) - profile_jurisdictions profile)
           in if foreign \<noteq> [] then Inl (ForeignJurisdictions foreign) else Inr ())"

section \<open>The asset root\<close>

text \<open>
  One reasoner's directories as \<open>load_root_assets\<close> finds them: whether each is a directory or
  cannot be read, the names of its files, and what reading them gives. A walk that fails is an
  error text.
\<close>

record asset_files =
  prompts_present :: "ustr + bool"
  corpus_present :: "ustr + bool"
  prompt_files :: "ustr + ustr list"
  corpus_files :: "ustr + ustr list"
  read_prompt :: "ustr \<Rightarrow> template_error + prompt_template"
  read_jurisdiction :: "ustr \<Rightarrow> ustr option"

datatype asset_error =
    NotADirectoryName ustr
  | DirectoryUnreadable string ustr
  | NoDirectory string
  | TemplatesDoNotLoad template_error
  | TemplatesUnreadable ustr
  | NoTemplate
  | CorpusUnreadable ustr
  | NoDocument

definition check_directory :: "string \<Rightarrow> ustr + bool \<Rightarrow> asset_error + unit" where
  "check_directory kind present =
     (case present of
        Inl e \<Rightarrow> Inl (DirectoryUnreadable kind e)
      | Inr b \<Rightarrow> if b then Inr () else Inl (NoDirectory kind))"

definition load_root_assets ::
    "(ustr \<Rightarrow> asset_files) \<Rightarrow> ustr \<Rightarrow> asset_error + reasoner_profile \<times> templates" where
  "load_root_assets assets reasoner =
     (if \<not> is_id reasoner then Inl (NotADirectoryName reasoner)
      else let found = assets reasoner in
      rbind (check_directory ''prompts'' (prompts_present found)) (\<lambda>_.
      rbind (check_directory ''corpus'' (corpus_present found)) (\<lambda>_.
      rbind (map_sum TemplatesUnreadable id (prompt_files found)) (\<lambda>names.
      rbind (map_sum TemplatesDoNotLoad id (load_templates (read_prompt found) names)) (\<lambda>ts.
      if ts = [] then Inl NoTemplate else
      rbind (map_sum CorpusUnreadable id (corpus_files found)) (\<lambda>documents.
      let js = covered_jurisdictions (read_jurisdiction found) documents
      in if js = {} then Inl NoDocument
         else Inr (\<lparr>profile_templates = fst ` set ts, profile_jurisdictions = js\<rparr>, ts)))))))"

end
