(* ===== verification/Policy_Gate.thy ===== *)
theory Policy_Gate
  imports Policy_Render Prompt_Registry Gates
begin

text \<open>
  The RAG policy gate (\<open>policy_rag_gate/gate.py\<close>, \<open>models/verdict.py\<close>, \<open>models/output.py\<close>): the
  admission of a binding, authorization at intake, and the evaluation of one request. The LLM
  client, pydantic's parsing and what formats a special field are parameters.
\<close>

section \<open>The verdict the model returns\<close>

record citation =
  policy_id :: ustr
  snippet :: ustr
  relevance :: ustr

record tiered_report =
  governing_corpus :: "ustr option"
  conflict_detected :: bool
  evidence_sufficient :: bool

text \<open>A \<open>TieredPolicyGateVerdict\<close> is one with a report.\<close>

record policy_verdict =
  answered_actions :: "decision_action list"
  answered_controls :: "ustr list"
  answered_confidence :: rat
  answered_escalate :: bool
  answered_reason :: "ustr option"
  rationale :: ustr
  citations :: "citation list"
  report :: "tiered_report option"

definition universal :: "policy_verdict \<Rightarrow> gate_verdict" where
  "universal v =
     \<lparr>verdict_gate_id = POLICY_GATE_ID, permitted_actions = answered_actions v,
      required_controls = answered_controls v, confidence = answered_confidence v,
      escalate_to_human = answered_escalate v, escalation_reason = answered_reason v\<rparr>"

datatype protocol_hold = HoldConflict | HoldInsufficient

definition DISAGREE_REASON :: ustr where
  "DISAGREE_REASON = lit ''Retrieved policy evidence on point disagrees; held for human review.''"

definition GAP_REASON :: ustr where
  "GAP_REASON = lit ''Retrieved policy evidence does not cover this case; held for human review.''"

definition hold_verdict :: "gate_verdict \<Rightarrow> ustr \<Rightarrow> gate_verdict" where
  "hold_verdict u reason =
     (let permitted = filter (\<lambda>a. severity HOLD \<le> severity a) (permitted_actions u)
      in \<lparr>verdict_gate_id = verdict_gate_id u,
          permitted_actions = (if permitted = [] then [HOLD] else permitted),
          required_controls = required_controls u, confidence = confidence u,
          escalate_to_human = True, escalation_reason = Some reason\<rparr>)"

text \<open>\<open>_held\<close>\<close>

definition held_verdict :: "policy_verdict \<Rightarrow> tiered_report \<Rightarrow> gate_verdict \<times> protocol_hold option" where
  "held_verdict v r =
     (if conflict_detected r then (hold_verdict (universal v) DISAGREE_REASON, Some HoldConflict)
      else if \<not> evidence_sufficient r
      then (hold_verdict (universal v) GAP_REASON, Some HoldInsufficient)
      else (universal v, None))"

section \<open>The gate's own record of an answer\<close>

record token_usage =
  prompt_tokens :: nat
  completion_tokens :: nat
  total_tokens :: nat
  usage_cost :: "rat option"

record token_cost =
  cost_prompt_tokens :: nat
  cost_completion_tokens :: nat
  cost_total_tokens :: nat
  cost_usd :: rat
  cost_model :: ustr

text \<open>\<open>round(cost, 6)\<close> is a parameter.\<close>

definition build_token_cost :: "(rat \<Rightarrow> rat) \<Rightarrow> token_usage \<Rightarrow> ustr \<Rightarrow> token_cost" where
  "build_token_cost round6 u model =
     \<lparr>cost_prompt_tokens = prompt_tokens u, cost_completion_tokens = completion_tokens u,
      cost_total_tokens = total_tokens u,
      cost_usd = round6 (case usage_cost u of None \<Rightarrow> 0 | Some c \<Rightarrow> c), cost_model = model\<rparr>"

datatype policy_failure = MissingRetrievalQuery | RenderError | LlmError

fun policy_failure_text :: "policy_failure \<Rightarrow> ustr" where
  "policy_failure_text MissingRetrievalQuery = lit ''missing_retrieval_query''"
| "policy_failure_text RenderError = lit ''render_error''"
| "policy_failure_text LlmError = lit ''llm_error''"

fun protocol_hold_text :: "protocol_hold \<Rightarrow> ustr" where
  "protocol_hold_text HoldConflict = lit ''conflict_detected''"
| "protocol_hold_text HoldInsufficient = lit ''evidence_insufficient''"

record policy_extra =
  extra_rationale :: "ustr option"
  extra_citations :: "citation list"
  extra_cost :: "token_cost option"
  retrieval_ms :: nat
  extra_failure :: "policy_failure option"
  extra_report :: "tiered_report option"
  extra_hold :: "protocol_hold option"
  verdict_as_returned :: "gate_verdict option"

section \<open>Serialization\<close>

definition dump_bool :: "bool option \<Rightarrow> json" where
  "dump_bool b = (case b of None \<Rightarrow> JNull | Some x \<Rightarrow> JBool x)"

definition dump_nat :: "nat option \<Rightarrow> json" where
  "dump_nat n = (case n of None \<Rightarrow> JNull | Some x \<Rightarrow> JInt (int x))"

definition dump_tenths :: "nat \<Rightarrow> json" where
  "dump_tenths n = JFloat (Finite (of_nat n / 10))"

definition dump_verdict :: "gate_verdict \<Rightarrow> json" where
  "dump_verdict v =
     JObj [(lit ''gate_id'', JStr (verdict_gate_id v)),
           (lit ''permitted_actions'', JList (map (JStr \<circ> action_text) (permitted_actions v))),
           (lit ''required_controls'', JList (map JStr (required_controls v))),
           (lit ''confidence'', JFloat (Finite (confidence v))),
           (lit ''escalate_to_human'', JBool (escalate_to_human v)),
           (lit ''escalation_reason'', dump_text (escalation_reason v))]"

definition dump_citation :: "citation \<Rightarrow> json" where
  "dump_citation c =
     JObj [(lit ''policy_id'', JStr (policy_id c)), (lit ''snippet'', JStr (snippet c)),
           (lit ''relevance'', JStr (relevance c))]"

definition dump_cost :: "token_cost \<Rightarrow> json" where
  "dump_cost c =
     JObj [(lit ''prompt_tokens'', JInt (int (cost_prompt_tokens c))),
           (lit ''completion_tokens'', JInt (int (cost_completion_tokens c))),
           (lit ''total_tokens'', JInt (int (cost_total_tokens c))),
           (lit ''cost_usd'', JFloat (Finite (cost_usd c))), (lit ''model'', JStr (cost_model c))]"

definition dump_extra :: "policy_extra \<Rightarrow> json_obj" where
  "dump_extra x =
     [(lit ''rationale'', dump_text (extra_rationale x)),
      (lit ''citations'', JList (map dump_citation (extra_citations x))),
      (lit ''response_text'', JNull),
      (lit ''token_cost'', case extra_cost x of None \<Rightarrow> JNull | Some c \<Rightarrow> dump_cost c),
      (lit ''retrieval_ms'', dump_tenths (retrieval_ms x)),
      (lit ''failure'', dump_text (map_option policy_failure_text (extra_failure x))),
      (lit ''governing_corpus_id'', dump_text (Option.bind (extra_report x) governing_corpus)),
      (lit ''conflict_detected'', dump_bool (map_option conflict_detected (extra_report x))),
      (lit ''evidence_sufficient'', dump_bool (map_option evidence_sufficient (extra_report x))),
      (lit ''protocol_hold'', dump_text (map_option protocol_hold_text (extra_hold x))),
      (lit ''verdict_as_returned'',
         case verdict_as_returned x of None \<Rightarrow> JNull | Some v \<Rightarrow> dump_verdict v)]"

definition dump_corpus_ref :: "corpus_ref \<Rightarrow> json" where
  "dump_corpus_ref c =
     JObj [(lit ''corpus_id'', JStr (corpus_id c)), (lit ''provider'', JStr (corpus_provider c)),
           (lit ''resource'', dump_text (corpus_resource c)), (lit ''tier'', JInt (int (corpus_tier c))),
           (lit ''jurisdictions'', sorted_texts (corpus_reads c)),
           (lit ''min_provenance'', JStr (provenance_text (min_provenance c)))]"

definition dump_corpus_state :: "corpus_state \<Rightarrow> json" where
  "dump_corpus_state s =
     JObj [(lit ''corpus_id'', JStr (state_corpus s)), (lit ''provider'', JStr (state_provider s)),
           (lit ''provider_version'', JStr (provider_version s)),
           (lit ''state_marker'', dump_text (state_marker s)),
           (lit ''provenance_level'', JStr (provenance_text (state_provenance s))),
           (lit ''document_count'', dump_nat (document_count s)),
           (lit ''updated_at'', dump_text (updated_at s))]"

text \<open>The f-string of \<open>corpus_filter\<close> is a parameter.\<close>

definition dump_query :: "(ustr list \<times> ustr list \<Rightarrow> ustr) \<Rightarrow> corpus_query \<Rightarrow> json" where
  "dump_query wording q =
     JObj [(lit ''corpus_ref'', dump_corpus_ref (query_corpus q)),
           (lit ''state'', case query_state q of None \<Rightarrow> JNull | Some s \<Rightarrow> dump_corpus_state s),
           (lit ''k'', JInt (int (query_k q))),
           (lit ''filters'',
              JObj [(lit ''jurisdictions'', case filter_jurisdictions q of
                        None \<Rightarrow> JNull | Some js \<Rightarrow> JList (map JStr js)),
                    (lit ''risk_tier'', dump_text (filter_risk_tier q))]),
           (lit ''ranking_requested'', dump_text (ranking_requested q)),
           (lit ''ranking_applied'', JStr (ranking_applied q)),
           (lit ''duration_ms'', dump_tenths (query_duration q)),
           (lit ''returned'', JInt (int (returned q))), (lit ''merged'', JInt (int (merged_away q))),
           (lit ''skipped'', dump_text (map_option wording (not_queried q)))]"

definition dump_context :: "retrieved_context \<Rightarrow> json" where
  "dump_context c =
     JObj [(lit ''corpus_id'', JStr (passage_corpus c)), (lit ''provider'', JStr (passage_provider c)),
           (lit ''resource'', dump_text (passage_resource c)), (lit ''tier'', JInt (int (passage_tier c))),
           (lit ''document_id'', JStr (document_id c)), (lit ''document_uri'', dump_text (document_uri c)),
           (lit ''title'', JStr (document_title c)), (lit ''version'', dump_text (document_version c)),
           (lit ''jurisdiction'', dump_text (jurisdiction c)),
           (lit ''section_path'', dump_text (section_path c)),
           (lit ''span'', case span c of None \<Rightarrow> JNull | Some (a, b) \<Rightarrow> JList [JInt a, JInt b]),
           (lit ''text'', JStr (passage_text c)), (lit ''content_hash'', JStr (passage_hash c)),
           (lit ''prompted_text'', dump_text (prompted_text c)), (lit ''rank'', JInt (int (rank c))),
           (lit ''scores'', JObj (map (\<lambda>(k, x). (k, JFloat (Finite x))) (scores c))),
           (lit ''provider_chunk_id'', dump_text (provider_chunk_id c)),
           (lit ''provenance_level'', JStr (provenance_text (provenance c))),
           (lit ''document_metadata'', JObj (document_metadata c)),
           (lit ''artifact_hash'', dump_text (escrowed_as c))]"

fun layout_text :: "evidence_layout \<Rightarrow> ustr" where
  "layout_text NumberedList = lit ''numbered_list''"
| "layout_text TieredBlocks = lit ''tiered_blocks''"

definition dump_policy_snapshot :: "(ustr list \<times> ustr list \<Rightarrow> ustr) \<Rightarrow> policy_snapshot \<Rightarrow> json_obj" where
  "dump_policy_snapshot wording s =
     [(lit ''snapshot_version'', JInt SNAPSHOT_VERSION),
      (lit ''retrieval_query'', JStr (retrieval_query s)),
      (lit ''corpus_queries'', JList (map (dump_query wording) (corpus_queries s))),
      (lit ''contexts'', JList (map dump_context (contexts s))),
      (lit ''evidence_layout'', JStr (layout_text (snapshot_layout s))),
      (lit ''dedup_merged'', JInt (int (dedup_merged s))),
      (lit ''index_version'', JStr (index_version s)),
      (lit ''model_version'', JStr (snapshot_model s)),
      (lit ''prompt_template_id'', JStr (snapshot_template_id s)),
      (lit ''prompt_template_version'', JStr (snapshot_template_version s)),
      (lit ''rendered_prompt'', JStr (rendered_prompt s)),
      (lit ''prompt_snapshot'',
         JObj [(lit ''template_id'', JStr (prompt_template_id (prompt_used s))),
               (lit ''version'', JStr (prompt_version (prompt_used s))),
               (lit ''template_text'', JStr (prompt_template_text (prompt_used s))),
               (lit ''system_text'', JStr (prompt_system_text (prompt_used s)))]),
      (lit ''template_vars'', JObj (map (\<lambda>(k, v). (k, JStr v)) (template_vars s)))]"

section \<open>Admission\<close>

text \<open>
  What the gate keeps: the profiles it authorizes against (\<open>None\<close>: any), its prompts, and the
  asset root when there is one. Admissions hold a lock, so they happen one after another.
\<close>

record policy_gate =
  profiles :: "(ustr \<rightharpoonup> reasoner_profile) option"
  prompts :: prompt_registry
  assets_root :: "(ustr \<Rightarrow> asset_files) option"

datatype binding_refusal =
    BindingInvalid ustr
  | ProviderRefused provider_missing
  | CannotDescribe ustr ustr
  | WeakProvenance ustr provenance_level provenance_level
  | NoAssetRoot ustr
  | AssetsRefused asset_error
  | TemplatesRefused template_error

text \<open>
  \<open>_binding\<close>: pydantic's lax parsing is a parameter, the constraints are the model's.
\<close>

definition read_binding ::
    "(json_obj \<Rightarrow> ustr + policy_binding) \<Rightarrow> json_obj \<Rightarrow> binding_refusal + policy_binding" where
  "read_binding parse given =
     rbind (map_sum BindingInvalid id (parse given)) (\<lambda>b.
       if binding_valid b then Inr b else Inl (BindingInvalid (lit ''<root>'')))"

definition admit_corpus :: "providers \<Rightarrow> corpus_ref \<Rightarrow> binding_refusal + unit" where
  "admit_corpus providers corpus =
     rbind (map_sum ProviderRefused id (providers (corpus_provider corpus))) (\<lambda>p.
     rbind (map_sum (CannotDescribe (corpus_id corpus)) id (describe p corpus)) (\<lambda>state.
     if \<not> provenance_at_least (state_provenance state) (min_provenance corpus)
     then Inl (WeakProvenance (corpus_id corpus) (state_provenance state) (min_provenance corpus))
     else Inr ()))"

definition admit_reasoner :: "ustr \<Rightarrow> policy_gate \<Rightarrow> binding_refusal + policy_gate" where
  "admit_reasoner reasoner g =
     (case profiles g of
        None \<Rightarrow> Inr g
      | Some known \<Rightarrow>
          if reasoner \<in> dom known then Inr g
          else (case assets_root g of
                  None \<Rightarrow> Inl (NoAssetRoot reasoner)
                | Some assets \<Rightarrow>
                    rbind (map_sum AssetsRefused id (load_root_assets assets reasoner)) (\<lambda>(profile, ts).
                    rbind (map_sum TemplatesRefused id (add_templates ts (prompts g))) (\<lambda>r.
                    Inr (g\<lparr>prompts := r, profiles := Some (known(reasoner \<mapsto> profile))\<rparr>)))))"

definition validate_policy_binding ::
    "(json_obj \<Rightarrow> ustr + policy_binding) \<Rightarrow> providers \<Rightarrow> ustr \<Rightarrow> json_obj \<Rightarrow> policy_gate
      \<Rightarrow> policy_gate \<times> (binding_refusal + unit)" where
  "validate_policy_binding parse providers reasoner given g =
     (case rbind (read_binding parse given) (\<lambda>b.
           rbind (rcheck (admit_corpus providers) (corpora b)) (\<lambda>_. admit_reasoner reasoner g)) of
        Inl e \<Rightarrow> (g, Inl e)
      | Inr g' \<Rightarrow> (g', Inr ()))"

definition policy_serves :: "policy_gate \<Rightarrow> ustr \<Rightarrow> bool" where
  "policy_serves g reasoner \<longleftrightarrow> (case profiles g of None \<Rightarrow> True | Some known \<Rightarrow> reasoner \<in> dom known)"

definition authorize_policy_config ::
    "(json_obj \<Rightarrow> policy_config option) \<Rightarrow> policy_gate \<Rightarrow> json_obj \<Rightarrow> ustr \<Rightarrow> authorization_error + unit" where
  "authorize_policy_config parse g given reasoner =
     (case profiles g of
        None \<Rightarrow> Inr ()
      | Some known \<Rightarrow>
          (case parse given of
             None \<Rightarrow> Inl ConfigNotValid
           | Some c \<Rightarrow>
               (case known reasoner of
                  None \<Rightarrow> Inl (ReasonerNotServed reasoner)
                | Some profile \<Rightarrow> authorize profile c)))"

text \<open>
  The plugin's \<open>build\<close>: the prompts of every composed reasoner, and its profile.
\<close>

record reasoner_assets =
  assets_reasoner :: ustr
  assets_prompts :: "ustr list"
  assets_documents :: "ustr list"

definition build_policy_gate ::
    "(ustr \<Rightarrow> template_error + prompt_template) \<Rightarrow> (ustr \<Rightarrow> ustr option) \<Rightarrow> reasoner_assets list
      \<Rightarrow> (ustr \<Rightarrow> asset_files) option \<Rightarrow> template_error + policy_gate" where
  "build_policy_gate read parse reasoners assets =
     rbind (build_prompts (load_templates read) (map assets_prompts reasoners) empty_registry) (\<lambda>r.
     rbind (rmap (\<lambda>a. rbind (profile_from_assets read parse (assets_prompts a) (assets_documents a))
                        (\<lambda>p. Inr (assets_reasoner a, p))) reasoners) (\<lambda>ps.
     Inr \<lparr>profiles = Some (map_of (rev ps)), prompts = r, assets_root = assets\<rparr>))"

section \<open>Evaluation\<close>

datatype policy_raise =
    RaisedConfig
  | RaisedBinding binding_refusal
  | RaisedTemplate template_error
  | RaisedRetrieval retrieval_error
  | RaisedEscrow escrow_failure
  | RaisedFormat format_error

record completion =
  parsed :: policy_verdict
  usage :: token_usage

text \<open>What one evaluation reads of the world besides its request.\<close>

record policy_world =
  world_sha256 :: digest
  world_providers :: providers
  parse_config :: "json_obj \<Rightarrow> policy_config option"
  parse_binding :: "json_obj \<Rightarrow> ustr + policy_binding"
  world_escrow :: "bool option"
  complete_structured :: "ustr \<Rightarrow> ustr \<Rightarrow> evidence_layout \<Rightarrow> ustr + completion"
  special_fields_of :: special_fields
  round6 :: "rat \<Rightarrow> rat"
  query_elapsed :: "ustr \<Rightarrow> nat"
  retrieval_elapsed :: nat
  skip_wording :: "ustr list \<times> ustr list \<Rightarrow> ustr"
  world_index :: ustr
  world_model :: ustr

text \<open>\<open>_evidence\<close>; an empty jurisdiction counts as none.\<close>

definition policy_evidence :: "retrieved_context list \<Rightarrow> evidence_ref list" where
  "policy_evidence cs =
     map (\<lambda>c. \<lparr>source_id = document_id c, locator = section_path c,
               jurisdictions = (case jurisdiction c of
                                  None \<Rightarrow> {} | Some j \<Rightarrow> if j = [] then {} else {j}),
               content_hash = Some (passage_hash c), artifact_hash = escrowed_as c\<rparr>) cs"

definition policy_output ::
    "policy_world \<Rightarrow> gate_verdict option \<Rightarrow> retrieved_context list \<Rightarrow> policy_snapshot \<Rightarrow> policy_extra
      \<Rightarrow> gate_output" where
  "policy_output w v cs s x =
     \<lparr>output_gate_id = POLICY_GATE_ID, deterministic = False, verdict = v,
      evidence = policy_evidence cs,
      evidence_snapshot = JObj (dump_policy_snapshot (skip_wording w) s), extra = dump_extra x\<rparr>"

definition failed_extra :: "nat \<Rightarrow> policy_failure \<Rightarrow> policy_extra" where
  "failed_extra elapsed why =
     \<lparr>extra_rationale = None, extra_citations = [], extra_cost = None, retrieval_ms = elapsed,
      extra_failure = Some why, extra_report = None, extra_hold = None, verdict_as_returned = None\<rparr>"

definition snapshot_of ::
    "policy_world \<Rightarrow> policy_config \<Rightarrow> prompt_template \<Rightarrow> ustr \<Rightarrow> corpus_query list
      \<Rightarrow> retrieved_context list \<Rightarrow> nat \<Rightarrow> ustr \<Rightarrow> policy_snapshot" where
  "snapshot_of w c t query queries cs merged rendered =
     \<lparr>retrieval_query = query, corpus_queries = queries, contexts = cs,
      snapshot_layout = evidence_layout t, dedup_merged = merged, index_version = world_index w,
      snapshot_model = world_model w, snapshot_template_id = template_id t,
      snapshot_template_version = template_version t, rendered_prompt = rendered,
      prompt_used = prompt_snapshot_of t, template_vars = config_vars c\<rparr>"

text \<open>The end of an evaluation: the model's answer to the rendered prompt.\<close>

definition conclude ::
    "policy_world \<Rightarrow> prompt_template \<Rightarrow> retrieved_context list \<Rightarrow> policy_snapshot \<Rightarrow> gate_output" where
  "conclude w t cs s =
     (case complete_structured w (system_text t) (rendered_prompt s) (evidence_layout t) of
        Inl _ \<Rightarrow> policy_output w None cs s (failed_extra (retrieval_elapsed w) LlmError)
      | Inr result \<Rightarrow>
          let v = parsed result;
              (final, hold) = (case report v of None \<Rightarrow> (universal v, None) | Some r \<Rightarrow> held_verdict v r)
          in policy_output w (Some final) cs s
               \<lparr>extra_rationale = Some (rationale v), extra_citations = citations v,
                extra_cost = Some (build_token_cost (round6 w) (usage result) (world_model w)),
                retrieval_ms = retrieval_elapsed w, extra_failure = None, extra_report = report v,
                extra_hold = hold,
                verdict_as_returned = (if hold = None then None else Some (universal v))\<rparr>)"

definition policy_evaluate ::
    "policy_world \<Rightarrow> policy_gate \<Rightarrow> gate_request \<Rightarrow> artifact_table
      \<Rightarrow> artifact_table \<times> (policy_raise + gate_output)" where
  "policy_evaluate w g request table =
     (case parse_config w (case gate_config (request_context request) of None \<Rightarrow> [] | Some c \<Rightarrow> c) of
        None \<Rightarrow> (table, Inl RaisedConfig)
      | Some c \<Rightarrow>
     (case read_binding (parse_binding w) (binding_config request) of
        Inl e \<Rightarrow> (table, Inl (RaisedBinding e))
      | Inr b \<Rightarrow>
     (case get_template (prompts g) (config_template c) of
        Inl e \<Rightarrow> (table, Inl (RaisedTemplate e))
      | Inr t \<Rightarrow>
     (case config_query c of
        None \<Rightarrow> (table, Inr (policy_output w None [] (snapshot_of w c t [] [] [] 0 [])
                   (failed_extra 0 MissingRetrievalQuery)))
      | Some query \<Rightarrow>
     if blank query then (table, Inr (policy_output w None [] (snapshot_of w c t [] [] [] 0 [])
                   (failed_extra 0 MissingRetrievalQuery)))
     else
     (case retrieve_evidence (world_sha256 w) (world_providers w) b query (config_jurisdictions c)
             (config_risk_tier c) (query_elapsed w) of
        Inl e \<Rightarrow> (table, Inl (RaisedRetrieval e))
      | Inr e \<Rightarrow>
     (case (if world_escrow w = None \<or> evidence_contexts e = [] then (table, Inr (evidence_contexts e))
            else escrow_documents (world_sha256 w) (world_providers w) (evidence_queries e)
                   (evidence_contexts e) (the (world_escrow w)) (request_decision_id request) table) of
        (table', Inl err) \<Rightarrow> (table', Inl (RaisedEscrow err))
      | (table', Inr cs) \<Rightarrow>
     (case render_prompt (special_fields_of w) (template_text t) (config_vars c)
             (render_evidence cs (evidence_layout t)) of
        Inl (FormatKeyError _) \<Rightarrow>
          (table', Inr (policy_output w None cs
             (snapshot_of w c t query (evidence_queries e) cs (evidence_merged e) [])
             (failed_extra (retrieval_elapsed w) RenderError)))
      | Inl err \<Rightarrow> (table', Inl (RaisedFormat err))
      | Inr rendered \<Rightarrow>
          (table', Inr (conclude w t cs
             (snapshot_of w c t query (evidence_queries e) cs (evidence_merged e) rendered))))))))))"

end
