(* ===== verification/Policy_Examples.thy ===== *)
theory Policy_Examples
  imports Policy_Prompt Policy_Gate
begin

text \<open>
  A concrete deployment of the RAG policy gate: one corpus of one document, a provider that
  holds it, a template, and a model that finds its evidence in conflict.
\<close>

definition ex_digest :: digest where
  "ex_digest = (\<lambda>_. replicate 64 48)"

definition ex_corpus :: corpus_ref where
  "ex_corpus =
     \<lparr>corpus_id = [99], corpus_provider = [112], corpus_resource = None, corpus_tier = 1,
      corpus_reads = {}, min_provenance = UriAndHash\<rparr>"

definition ex_policy_binding :: policy_binding where
  "ex_policy_binding = \<lparr>corpora = [ex_corpus], k_per_corpus = 5\<rparr>"

definition ex_state :: corpus_state where
  "ex_state =
     \<lparr>state_corpus = [99], state_provider = [112], provider_version = [49], state_marker = None,
      state_provenance = PinnedVersion, document_count = None, updated_at = None\<rparr>"

definition ex_passage :: retrieved_context where
  "ex_passage =
     \<lparr>passage_corpus = [99], passage_provider = [112], passage_resource = None, passage_tier = 1,
      document_id = [100], document_uri = None, document_title = [84], document_version = Some [49],
      jurisdiction = None, section_path = None, span = Some (0, 2), passage_text = [72, 105],
      passage_hash = replicate 64 48, prompted_text = None, rank = 1, scores = [],
      provider_chunk_id = None, provenance = PinnedVersion, document_metadata = [],
      escrowed_as = None\<rparr>"

definition ex_document :: document_blob where
  "ex_document =
     \<lparr>blob_corpus = [99], blob_document = [100], blob_version = Some [49], blob_title = [84],
      blob_media_type = [109], blob_text = [72, 105], blob_hash = replicate 64 48, blob_metadata = []\<rparr>"

definition ex_provider :: provider where
  "ex_provider =
     \<lparr>describe = (\<lambda>_. Inr ex_state),
      retrieve = (\<lambda>_ _ _ _ _. Inr (AnswersResult \<lparr>raw_state = Inr ex_state,
        raw_contexts = [Inr ex_passage], raw_requested = [114], raw_applied = [114]\<rparr>)),
      fetch_document = Some (\<lambda>_ _ _. Inr (FetchedDocument ex_document))\<rparr>"

definition ex_providers :: providers where
  "ex_providers = (\<lambda>_. Inr ex_provider)"

definition ex_template :: "ustr \<Rightarrow> prompt_template" where
  "ex_template i =
     \<lparr>template_id = i, template_version = [49], template_description = [], template_text = SNIPPETS,
      system_text = [115], required_vars = {}, evidence_layout = TieredBlocks\<rparr>"

definition ex_reasoners :: "reasoner_assets list" where
  "ex_reasoners = [\<lparr>assets_reasoner = [114], assets_prompts = [[97]], assets_documents = [[100]]\<rparr>]"

text \<open>The asset root ships a template for every other reasoner.\<close>

definition ex_assets :: "ustr \<Rightarrow> asset_files" where
  "ex_assets = (\<lambda>reasoner. \<lparr>prompts_present = Inr True, corpus_present = Inr True, prompt_files = Inr [[98]],
     corpus_files = Inr [[100]], read_prompt = (\<lambda>_. Inr (ex_template reasoner)),
     read_jurisdiction = (\<lambda>_. Some [69])\<rparr>)"

definition ex_built :: policy_gate where
  "ex_built =
     \<lparr>profiles = Some [[114] \<mapsto> \<lparr>profile_templates = {[116]}, profile_jurisdictions = {[69]}\<rparr>],
      prompts = \<lparr>registered = [[116] \<mapsto> ex_template [116]], template_sources = [[116] \<mapsto> [97]]\<rparr>,
      assets_root = Some ex_assets\<rparr>"

lemma ex_build:
  "build_policy_gate (\<lambda>_. Inr (ex_template [116])) (\<lambda>_. Some [69]) ex_reasoners (Some ex_assets) = Inr ex_built"
  by (simp add: build_policy_gate_def ex_reasoners_def load_templates_def add_templates_def
      empty_registry_def ex_built_def profile_from_assets_def covered_jurisdictions_def
      ex_template_def List.map_filter_def)

lemma ex_binding_valid: "binding_valid ex_policy_binding"
  by (simp add: binding_valid_def ex_policy_binding_def each_corpus_once_def MAX_K_PER_CORPUS_def
      corpus_ref_valid_def ex_corpus_def is_id_def letter_or_digit_def)

lemma ex_digest_hi: "text_digest ex_digest [72, 105] = Some (replicate 64 48)"
  by (simp add: text_digest_def ex_digest_def encode_utf8_def encodable_def surrogate_def)

lemma ex_retrieves:
  "retrieve_evidence ex_digest ex_providers ex_policy_binding query [] None elapsed
     = Inr \<lparr>evidence_queries = [\<lparr>query_corpus = ex_corpus, query_state = Some ex_state, query_k = 5,
              filter_jurisdictions = None, filter_risk_tier = None, ranking_requested = Some [114],
              ranking_applied = [114], query_duration = elapsed [99], returned = 1, merged_away = 0,
              not_queried = None\<rparr>],
            evidence_contexts = [ex_passage], evidence_merged = 0,
            evidence_results = [([99], Some \<lparr>result_state = ex_state, result_contexts = [ex_passage],
              result_requested = [114], result_applied = [114]\<rparr>)]\<rparr>"
proof -
  have "check_passage ex_digest ex_corpus (1, Inr ex_passage) = Inr ex_passage"
    unfolding check_passage_Inr by (simp add: ex_passage_def ex_corpus_def ex_digest_hi)
  then show ?thesis
    by (simp add: retrieve_evidence_def ex_policy_binding_def query_corpus_once_def corpus_filter_def
        ex_providers_def ex_provider_def check_contract_def ex_state_def ex_corpus_def
        in_precedence_def passages_of_def Let_def)
qed

definition ex_answer :: completion where
  "ex_answer =
     \<lparr>parsed = \<lparr>answered_actions = [ALLOW], answered_controls = [], answered_confidence = 1,
        answered_escalate = False, answered_reason = None, rationale = [], citations = [],
        report = Some \<lparr>governing_corpus = Some [99], conflict_detected = True, evidence_sufficient = True\<rparr>\<rparr>,
      usage = \<lparr>prompt_tokens = 1, completion_tokens = 1, total_tokens = 2, usage_cost = None\<rparr>\<rparr>"

definition ex_world :: policy_world where
  "ex_world =
     \<lparr>world_sha256 = ex_digest, world_providers = ex_providers,
      parse_config = (\<lambda>_. Some \<lparr>config_template = [116], config_vars = [], config_query = Some [113],
        config_jurisdictions = [], config_risk_tier = None\<rparr>),
      parse_binding = (\<lambda>_. Inr ex_policy_binding), world_escrow = Some True,
      complete_structured = (\<lambda>_ _ _. Inr ex_answer), special_fields_of = (\<lambda>_ _. Inl FormatValueError),
      round6 = (\<lambda>x. x), query_elapsed = (\<lambda>_. 0), retrieval_elapsed = 0, skip_wording = (\<lambda>_. []),
      world_index = [105], world_model = [109]\<rparr>"

definition ex_policy_request :: "submission \<Rightarrow> gate_request" where
  "ex_policy_request s =
     \<lparr>request_decision_id = [100], request_submission = s,
      request_context = \<lparr>context_gate_id = POLICY_GATE_ID, gate_config = None\<rparr>,
      budget_ms = 100, request_identity = None, binding_config = []\<rparr>"

definition ex_artifact :: artifact where
  "ex_artifact =
     \<lparr>media_type = [109], byte_length = length [72, 105 :: nat], artifact_bytes = [72, 105], first_decision_id = [100],
      first_gate_id = POLICY_GATE_ID\<rparr>"

lemma ex_encoded: "encode_utf8 [72, 105] = Some [72, 105]"
  by (simp add: encode_utf8_def encodable_def surrogate_def utf8_char_def byte_def)

lemma ex_escrows:
  assumes "query_corpus q = ex_corpus"
  shows "escrow_documents ex_digest ex_providers [q] [ex_passage] True [100] Map.empty
    = ([replicate 64 48 \<mapsto> ex_artifact], Inr [ex_passage\<lparr>escrowed_as := Some (replicate 64 48)\<rparr>])"
proof -
  have "passage_holds ex_digest [72, 105] ex_passage"
    by (simp add: passage_holds_def ex_passage_def text_slice_def clamp_def ex_digest_hi)
  moreover have "check_document ex_digest (FetchedDocument ex_document) ([99], [100], Some [49]) = Inr ex_document"
    by (simp add: check_document_def ex_document_def ex_digest_hi)
  moreover have "document_key ex_passage = ([99], [100], Some [49])"
    by (simp add: document_key_def ex_passage_def)
  moreover have "put_artifact ex_digest True [72, 105] [109] [100] POLICY_GATE_ID Map.empty
      = ([replicate 64 48 \<mapsto> ex_artifact], Inr (Some (replicate 64 48)))"
    by (simp add: put_artifact_def insert_artifact_def blank_def whitespace_def POLICY_GATE_ID_def
        text_problem_def surrogate_def insert_new_def ex_digest_def ex_artifact_def)
  ultimately show ?thesis
    using assms by (simp add: escrow_documents_def first_seen_def escrow_document_def queried_corpora_def
        ex_corpus_def ex_providers_def ex_provider_def cite_def ex_encoded) (simp add: ex_document_def ex_encoded)
qed

lemma ex_renders:
  "\<exists>rendered. render_prompt special SNIPPETS [] shown = Inr rendered"
proof -
  have "template_ok [EvidenceHere]" by simp
  from render_segments [OF this, of special "[]" shown] show ?thesis by (simp add: template_source_def)
qed

lemma ex_evaluates:
  obtains s where
    "policy_evaluate ex_world ex_built (ex_policy_request sub) Map.empty
       = ([replicate 64 48 \<mapsto> ex_artifact],
          Inr (conclude ex_world (ex_template [116]) [ex_passage\<lparr>escrowed_as := Some (replicate 64 48)\<rparr>] s))"
    "contexts s = [ex_passage\<lparr>escrowed_as := Some (replicate 64 48)\<rparr>]"
proof -
  let ?cs = "[ex_passage\<lparr>escrowed_as := Some (replicate 64 48)\<rparr>]"
  obtain e where e: "retrieve_evidence ex_digest ex_providers ex_policy_binding [113] [] None (\<lambda>_. 0) = Inr e"
    "evidence_contexts e = [ex_passage]" "\<exists>q. evidence_queries e = [q] \<and> query_corpus q = ex_corpus"
    using ex_retrieves by simp
  from e(3) obtain q where q: "evidence_queries e = [q]" "query_corpus q = ex_corpus" by blast
  obtain rendered where rendered: "render_prompt (\<lambda>_ _. Inl FormatValueError) SNIPPETS []
      (render_evidence ?cs TieredBlocks) = Inr rendered" using ex_renders by blast
  let ?c = "\<lparr>config_template = [116], config_vars = [], config_query = Some [113],
        config_jurisdictions = [], config_risk_tier = None\<rparr>"
  show thesis
    by (rule that [of "snapshot_of ex_world ?c (ex_template [116]) [113] [q] ?cs (evidence_merged e) rendered"])
      (use e q rendered ex_escrows [OF q(2)] ex_binding_valid in
        \<open>simp_all add: policy_evaluate_def ex_world_def read_binding_def ex_built_def get_template_def
          blank_def whitespace_def ex_policy_request_def ex_template_def snapshot_of_def\<close>)
qed

end
