(* ===== verification/Policy_Precedence.thy ===== *)
theory Policy_Precedence
  imports Policy_Retrieval "HOL-Library.Product_Lexorder"
begin

text \<open>
  The passages a gate renders: in strict precedence order, each distinct text once, with the
  merges accounted for.
\<close>

section \<open>Stable sorting\<close>

lemma insort_key_stable:
  assumes "sorted_wrt (\<lambda>a b. (f a, g a) < (f b, g b)) ys" "\<forall>y \<in> set ys. g x < g y"
  shows "sorted_wrt (\<lambda>a b. (f a, g a) < (f b, g b)) (insort_key f x ys)"
  using assms by (induction ys) (auto simp: set_insort_key)

lemma sort_key_stable_lex:
  fixes f :: "'a \<Rightarrow> 'k::linorder" and g :: "'a \<Rightarrow> 'l::linorder"
  assumes "sorted_wrt (\<lambda>a b. g a < g b) xs"
  shows "sorted_wrt (\<lambda>a b. (f a, g a) < (f b, g b)) (sort_key f xs)"
  using assms
proof (induction xs)
  case (Cons x xs)
  then have "sorted_wrt (\<lambda>a b. (f a, g a) < (f b, g b)) (insort_key f x (sort_key f xs))"
    by (intro insort_key_stable) simp_all
  then show ?case by simp
qed simp

lemma sorted_wrt_concat:
  assumes "sorted_wrt R xs" "\<And>x. x \<in> set xs \<Longrightarrow> sorted_wrt Q (h x)"
    and "\<And>x y c d. R x y \<Longrightarrow> c \<in> set (h x) \<Longrightarrow> d \<in> set (h y) \<Longrightarrow> Q c d"
  shows "sorted_wrt Q (concat (map h xs))"
  using assms(1,2) by (induction xs) (auto simp: sorted_wrt_append intro: assms(3))

lemma length_by_key:
  assumes "distinct ks" "\<forall>x \<in> set xs. f x \<in> set ks"
  shows "sum_list (map (\<lambda>k. length (filter (\<lambda>x. f x = k) xs)) ks) = length xs"
proof -
  have "(\<Sum>k\<in>set ks. length (filter (\<lambda>x. f x = k) xs)) = length xs"
    using assms(2)
  proof (induction xs)
    case (Cons x xs)
    have "length (filter (\<lambda>y. f y = k) (x # xs))
        = (if k = f x then 1 else 0) + length (filter (\<lambda>y. f y = k) xs)" for k by simp
    then have "(\<Sum>k\<in>set ks. length (filter (\<lambda>y. f y = k) (x # xs)))
        = (\<Sum>k\<in>set ks. if k = f x then 1 else 0) + (\<Sum>k\<in>set ks. length (filter (\<lambda>y. f y = k) xs))"
      by (simp only: sum.distrib)
    with Cons show ?case by simp
  qed simp
  with assms(1) show ?thesis by (simp add: sum_list_distinct_conv_sum_set)
qed

section \<open>Merging\<close>

lemma merge_passages_set:
  assumes "merge_passages ps seen m = (cs, m')"
  shows "set cs \<subseteq> snd ` set ps"
  using assms by (induction ps seen m arbitrary: cs rule: merge_passages.induct)
    (fastforce simp del: fun_upd_apply split: if_splits prod.splits)+

lemma merge_passages_distinct:
  assumes "merge_passages ps seen m = (cs, m')"
  shows "distinct (map passage_key cs) \<and> passage_key ` set cs \<inter> seen = {}"
  using assms
proof (induction ps seen m arbitrary: cs rule: merge_passages.induct)
  case (2 i c rest seen m)
  show ?case
  proof (cases "passage_key c \<in> seen")
    case False
    with "2.prems" obtain ds where ds: "merge_passages rest (insert (passage_key c) seen) m = (ds, m')"
      "cs = c # ds" by (auto split: prod.splits)
    from "2.IH"(2) [OF False ds(1)] show ?thesis using False by (simp add: ds(2))
  qed (use 2 in \<open>simp del: fun_upd_apply\<close>)
qed simp

lemma merge_passages_sorted:
  assumes "merge_passages ps seen m = (cs, m')" "sorted_wrt Q (map snd ps)"
  shows "sorted_wrt Q cs"
  using assms
proof (induction ps seen m arbitrary: cs rule: merge_passages.induct)
  case (2 i c rest seen m)
  show ?case
  proof (cases "passage_key c \<in> seen")
    case False
    with "2.prems" obtain ds where ds: "merge_passages rest (insert (passage_key c) seen) m = (ds, m')"
      "cs = c # ds" by (auto split: prod.splits)
    from "2.IH"(2) [OF False ds(1)] "2.prems"(2) merge_passages_set [OF ds(1)]
    show ?thesis by (auto simp: ds(2))
  qed (use 2 in \<open>simp del: fun_upd_apply\<close>)
qed simp

text \<open>A passage merged away has the key of one rendered before it.\<close>

lemma merge_passages_first:
  assumes "merge_passages ps seen m = (cs, m')" "sorted_wrt Q (map snd ps)" "c \<in> snd ` set ps"
    "passage_key c \<notin> seen"
  shows "c \<in> set cs \<or> (\<exists>c' \<in> set cs. passage_key c' = passage_key c \<and> Q c' c)"
  using assms
proof (induction ps seen m arbitrary: cs rule: merge_passages.induct)
  case (2 i d rest seen m)
  show ?case
  proof (cases "passage_key d \<in> seen")
    case True
    with "2.prems"(1) have step: "merge_passages rest seen (m(i := m i + 1)) = (cs, m')" by simp
    have "c \<in> snd ` set rest" using True "2.prems"(3,4) by auto
    with "2.IH"(1) [OF True step] "2.prems"(2,4) show ?thesis by simp
  next
    case False
    with "2.prems"(1) obtain ds where ds: "merge_passages rest (insert (passage_key d) seen) m = (ds, m')"
      "cs = d # ds" by (auto split: prod.splits)
    consider "c = d" | "c \<in> snd ` set rest" "passage_key c = passage_key d"
      | "c \<in> snd ` set rest" "passage_key c \<noteq> passage_key d"
      using "2.prems"(3) by auto
    then show ?thesis
    proof cases
      case 3
      with "2.IH"(2) [OF False ds(1)] "2.prems" show ?thesis by (auto simp: ds(2))
    qed (use "2.prems"(2) ds(2) in auto)
  qed
qed simp

lemma merge_passages_counts:
  assumes "merge_passages ps seen m = (cs, m')" "\<forall>(i, c) \<in> set ps. passage_corpus c = i"
  shows "m' i + length (filter (\<lambda>c. passage_corpus c = i) cs) = m i + count_list (map fst ps) i"
  using assms by (induction ps seen m arbitrary: cs rule: merge_passages.induct)
    (fastforce split: if_splits prod.splits)+

section \<open>The evidence of a decision\<close>

text \<open>The place of a passage: its tier, its corpus's place in the binding, its rank.\<close>

definition corpus_place :: "policy_binding \<Rightarrow> ustr \<Rightarrow> nat" where
  "corpus_place b i = index_of i (map corpus_id (corpora b))"

definition precedence :: "policy_binding \<Rightarrow> retrieved_context \<Rightarrow> nat \<times> nat \<times> nat" where
  "precedence b c = (passage_tier c, corpus_place b (passage_corpus c), rank c)"

lemma index_of_sorted:
  "distinct xs \<Longrightarrow> sorted_wrt (\<lambda>a b. index_of a xs < index_of b xs) xs"
proof (induction xs)
  case (Cons x xs)
  have "sorted_wrt (\<lambda>a b. index_of a (x # xs) < index_of b (x # xs)) xs"
    by (rule sorted_wrt_mono_rel [OF _ Cons.IH]) (use Cons.prems in auto)
  with Cons.prems show ?case by auto
qed simp

lemma binding_corpora:
  assumes "binding_valid b"
  shows "distinct (map corpus_id (corpora b))"
    and "sorted_wrt (\<lambda>c d. corpus_place b (corpus_id c) < corpus_place b (corpus_id d)) (corpora b)"
proof -
  show "distinct (map corpus_id (corpora b))"
    using assms by (auto simp: binding_valid_def each_corpus_once_def Let_def split: if_splits)
  from index_of_sorted [OF this]
  show "sorted_wrt (\<lambda>c d. corpus_place b (corpus_id c) < corpus_place b (corpus_id d)) (corpora b)"
    by (simp add: sorted_wrt_map corpus_place_def)
qed

text \<open>One query: its corpus, and a checked answer unless the filters do not meet.\<close>

definition answers ::
    "digest \<Rightarrow> policy_binding \<Rightarrow> corpus_ref \<Rightarrow> answered \<Rightarrow> bool" where
  "answers sha256 b corpus entry \<longleftrightarrow>
     (case entry of (corpus', result, record) \<Rightarrow>
        corpus' = corpus \<and> query_corpus record = corpus
        \<and> pred_option (meets_contract sha256 corpus (k_per_corpus b)) result
        \<and> returned record = length (passages_of entry) \<and> (result = None \<longleftrightarrow> not_queried record \<noteq> None))"

lemma query_corpus_once_Inr:
  "query_corpus_once sha256 providers b query submitted risk_tier elapsed corpus = Inr entry
     \<Longrightarrow> answers sha256 b corpus entry"
  by (auto simp: query_corpus_once_def answers_def Let_def check_contract_Inr passages_of_def
      split: sum.splits)

lemma retrieve_evidence_Inr:
  assumes "retrieve_evidence sha256 providers b query submitted risk_tier elapsed = Inr e"
  obtains answered merged where "list_all2 (answers sha256 b) (corpora b) answered"
    "merge_passages (in_precedence answered) {} (\<lambda>_. 0) = (evidence_contexts e, merged)"
    "evidence_queries e
       = map (\<lambda>(corpus, _, record). record\<lparr>merged_away := merged (corpus_id corpus)\<rparr>) answered"
    "evidence_merged e = sum_list (map merged (remdups (map (corpus_id \<circ> fst) answered)))"
    "evidence_results e = map (\<lambda>(corpus, result, _). (corpus_id corpus, result)) answered"
proof -
  from assms obtain answered where
    "rmap (query_corpus_once sha256 providers b query submitted risk_tier elapsed) (corpora b) = Inr answered"
    and e: "(case merge_passages (in_precedence answered) {} (\<lambda>_. 0) of (chosen, merged) \<Rightarrow>
       Inr \<lparr>evidence_queries = map (\<lambda>(corpus, _, record). record\<lparr>merged_away := merged (corpus_id corpus)\<rparr>) answered,
            evidence_contexts = chosen,
            evidence_merged = sum_list (map merged (remdups (map (corpus_id \<circ> fst) answered))),
            evidence_results = map (\<lambda>(corpus, result, _). (corpus_id corpus, result)) answered\<rparr>)
       = (Inr e :: retrieval_error + retrieved_evidence)"
    by (auto simp: retrieve_evidence_def)
  from this(1) have "list_all2 (answers sha256 b) (corpora b) answered"
    by (auto simp: list_all2_conv_all_nth rmap_Inr_nth intro: query_corpus_once_Inr)
  with e show thesis by (auto split: prod.splits intro: that)
qed

lemma answers_fst:
  "list_all2 (answers sha256 b) cs answered \<Longrightarrow> map fst answered = cs"
  by (induction rule: list_all2_induct) (auto simp: answers_def)

lemma answers_passages:
  assumes "answers sha256 b (fst entry) entry" "(i, c) \<in> set (passages_of entry)"
  shows "i = corpus_id (fst entry)" "passage_corpus c = corpus_id (fst entry)"
    "passage_tier c = corpus_tier (fst entry)" "min_provenance (fst entry) \<le> provenance c"
    "text_digest sha256 (passage_text c) = Some (passage_hash c)"
    "passage_provider c = corpus_provider (fst entry)"
  using assms by (auto simp: answers_def passages_of_def meets_contract_def split: option.splits)

lemma answers_ranks:
  assumes "answers sha256 b (fst entry) entry"
  shows "sorted_wrt (<) (map (rank \<circ> snd) (passages_of entry))"
proof (cases "fst (snd entry)")
  case (Some r)
  with assms have "map rank (result_contexts r) = [1..<length (result_contexts r) + 1]"
    by (auto simp: answers_def meets_contract_def)
  then have "sorted_wrt (<) (map rank (result_contexts r))" by (simp only: sorted_wrt_upt)
  with Some show ?thesis by (auto simp: passages_of_def comp_def split: prod.splits)
qed (auto simp: passages_of_def split: prod.splits)

lemma answered_order:
  assumes "binding_valid b" "list_all2 (answers sha256 b) (corpora b) answered"
  shows "sorted_wrt (\<lambda>c d. precedence b c < precedence b d) (map snd (in_precedence answered))"
proof -
  let ?place = "\<lambda>entry. corpus_place b (corpus_id (fst entry))"
  have fst: "map fst answered = corpora b" using answers_fst [OF assms(2)] .
  have ok: "answers sha256 b (fst entry) entry" if "entry \<in> set answered" for entry
    using assms(2) that by (auto simp: list_all2_conv_all_nth in_set_conv_nth answers_def)
  have "sorted_wrt (\<lambda>x y. ?place x < ?place y) answered"
    using binding_corpora(2) [OF assms(1)] by (simp add: fst [symmetric] sorted_wrt_map)
  from sort_key_stable_lex [OF this, of "corpus_tier \<circ> fst"]
  have sorted: "sorted_wrt (\<lambda>x y. (corpus_tier (fst x), ?place x) < (corpus_tier (fst y), ?place y))
      (sort_key (corpus_tier \<circ> fst) answered)" by simp
  have "sorted_wrt (\<lambda>c d. precedence b (snd c) < precedence b (snd d))
      (concat (map (\<lambda>x. if x \<in> set answered then passages_of x else [])
        (sort_key (corpus_tier \<circ> fst) answered)))"
  proof (rule sorted_wrt_concat [OF sorted])
    fix x assume "x \<in> set (sort_key (corpus_tier \<circ> fst) answered)"
    then have x: "x \<in> set answered" by simp
    have "sorted_wrt (\<lambda>c d. rank (snd c) < rank (snd d)) (passages_of x)"
      using answers_ranks [OF ok [OF x]] by (simp add: sorted_wrt_map)
    then have "sorted_wrt (\<lambda>c d. precedence b (snd c) < precedence b (snd d)) (passages_of x)"
      by (rule sorted_wrt_mono_rel [rotated])
        (use answers_passages(2,3) [OF ok [OF x]] in \<open>auto simp: precedence_def\<close>)
    with x show "sorted_wrt (\<lambda>c d. precedence b (snd c) < precedence b (snd d))
        (if x \<in> set answered then passages_of x else [])" by simp
  next
    fix x y c d
    assume "(corpus_tier (fst x), ?place x) < (corpus_tier (fst y), ?place y)"
      "c \<in> set (if x \<in> set answered then passages_of x else [])"
      "d \<in> set (if y \<in> set answered then passages_of y else [])"
    then show "precedence b (snd c) < precedence b (snd d)"
      using answers_passages(2,3) [OF ok, of x] answers_passages(2,3) [OF ok, of y]
      by (cases c; cases d) (force simp: precedence_def split: if_splits)
  qed
  moreover have "concat (map (\<lambda>x. if x \<in> set answered then passages_of x else [])
      (sort_key (corpus_tier \<circ> fst) answered)) = in_precedence answered"
    unfolding in_precedence_def by (rule arg_cong [where f = concat]) simp
  ultimately show ?thesis by (simp add: sorted_wrt_map)
qed

lemma set_in_precedence: "set (in_precedence answered) = \<Union> (set ` passages_of ` set answered)"
  by (simp add: in_precedence_def)

lemma count_in_precedence:
  assumes "distinct (map (corpus_id \<circ> fst) answered)" "entry \<in> set answered"
  shows "count_list (map fst (in_precedence answered)) (corpus_id (fst entry))
    = length (passages_of entry)"
proof -
  have one: "count_list (map fst (passages_of x)) i
      = (if i = corpus_id (fst x) then length (passages_of x) else 0)" for x i
    by (cases x) (auto simp: passages_of_def comp_def count_list_eq_length_filter filter_empty_conv)
  have "count_list (map fst (concat (map passages_of xs))) i
      = sum_list (map (\<lambda>x. if i = corpus_id (fst x) then length (passages_of x) else 0) xs)" for xs i
    by (induction xs) (auto simp: one count_list_append)
  moreover have "sum_list (map (\<lambda>x. if corpus_id (fst entry) = corpus_id (fst x)
      then length (passages_of x) else 0) xs) = length (passages_of entry)"
    if "distinct (map (corpus_id \<circ> fst) xs)" "entry \<in> set xs" for xs
    using that by (induction xs) (auto simp: image_iff intro!: sum_list_0)
  moreover have "distinct (map (corpus_id \<circ> fst) (sort_key (corpus_tier \<circ> fst) answered))"
    using assms(1) by (simp add: distinct_map)
  ultimately show ?thesis using assms(2) by (simp add: in_precedence_def)
qed

end
