(* ===== verification/Policy_Claims.thy ===== *)
theory Policy_Claims
  imports Policy_Examples Policy_Precedence Enforcement_Claims
begin

text \<open>
  What the RAG policy gate promises: its evidence is in precedence order and bounded, its
  failures and its report hold the decision, and a template belongs to one reasoner.
\<close>

section \<open>The evidence of a decision\<close>

lemma answers_set:
  assumes "list_all2 (answers sha256 b) cs answered" "(corpus, r, q) \<in> set answered"
  shows "corpus \<in> set cs" "answers sha256 b corpus (corpus, r, q)"
proof -
  from assms obtain i where i: "i < length cs" "answered ! i = (corpus, r, q)"
    "answers sha256 b (cs ! i) (corpus, r, q)"
    by (metis in_set_conv_nth list_all2_conv_all_nth)
  from i(3) have "cs ! i = corpus" by (simp add: answers_def)
  with i show "corpus \<in> set cs" "answers sha256 b corpus (corpus, r, q)" by auto
qed

lemma ball_prod: "(\<forall>(i, c) \<in> A. P i c) \<longleftrightarrow> (\<forall>i c. (i, c) \<in> A \<longrightarrow> P i c)"
  by auto

lemma passage_answered:
  assumes "(i, c) \<in> set (passages_of entry)"
  obtains corpus r q where "entry = (corpus, Some r, q)" "i = corpus_id corpus" "c \<in> set (result_contexts r)"
  using assms by (auto simp: passages_of_def split: prod.splits option.splits)

text \<open>
  C30: Precedence and provenance. Whatever the providers answer, the passages a decision
  renders stand in strict order of tier, then place of the corpus in the binding, then rank;
  no two carry the same text under the same jurisdiction; each is a passage of an answer that
  met the evidence contract of a bound corpus; and every passage retrieved is rendered or has
  one with its text and jurisdiction rendered from no lower a place.
\<close>

theorem evidence_in_precedence:
  assumes "binding_valid b"
    and "retrieve_evidence sha256 providers b query submitted risk_tier elapsed = Inr e"
  shows "sorted_wrt (\<lambda>c d. precedence b c < precedence b d) (evidence_contexts e)
    \<and> distinct (map passage_key (evidence_contexts e))
    \<and> (\<forall>c \<in> set (evidence_contexts e). \<exists>corpus \<in> set (corpora b). \<exists>r.
          (corpus_id corpus, Some r) \<in> set (evidence_results e) \<and> c \<in> set (result_contexts r)
          \<and> meets_contract sha256 corpus (k_per_corpus b) r)
    \<and> (\<forall>i r c. (i, Some r) \<in> set (evidence_results e) \<longrightarrow> c \<in> set (result_contexts r) \<longrightarrow>
          (\<exists>c' \<in> set (evidence_contexts e). passage_key c' = passage_key c
             \<and> precedence b c' \<le> precedence b c))"
proof -
  obtain answered merged where ev: "list_all2 (answers sha256 b) (corpora b) answered"
    "merge_passages (in_precedence answered) {} (\<lambda>_. 0) = (evidence_contexts e, merged)"
    "evidence_results e = map (\<lambda>(corpus, result, _). (corpus_id corpus, result)) answered"
    using retrieve_evidence_Inr [OF assms(2)] by metis
  note order = answered_order [OF assms(1) ev(1)]
  have "\<exists>corpus \<in> set (corpora b). \<exists>r. (corpus_id corpus, Some r) \<in> set (evidence_results e)
      \<and> c \<in> set (result_contexts r) \<and> meets_contract sha256 corpus (k_per_corpus b) r"
    if "c \<in> set (evidence_contexts e)" for c
  proof -
    from merge_passages_set [OF ev(2)] that have "c \<in> snd ` set (in_precedence answered)" by blast
    then obtain i entry where entry: "entry \<in> set answered" "(i, c) \<in> set (passages_of entry)"
      unfolding set_in_precedence by auto
    from passage_answered [OF entry(2)] obtain corpus r q where r: "entry = (corpus, Some r, q)"
      "c \<in> set (result_contexts r)" by metis
    have "corpus \<in> set (corpora b)" "meets_contract sha256 corpus (k_per_corpus b) r"
      using answers_set [OF ev(1) entry(1) [unfolded r(1)]] by (simp_all add: answers_def)
    moreover have "(corpus_id corpus, Some r) \<in> set (evidence_results e)"
      unfolding ev(3) using entry(1) r(1) by force
    ultimately show ?thesis using r(2) by blast
  qed
  moreover have "\<exists>c' \<in> set (evidence_contexts e). passage_key c' = passage_key c
      \<and> precedence b c' \<le> precedence b c"
    if "(i, Some r) \<in> set (evidence_results e)" "c \<in> set (result_contexts r)" for i r c
  proof -
    from that have "c \<in> snd ` set (in_precedence answered)"
      by (force simp: set_in_precedence ev(3) passages_of_def)
    from merge_passages_first [OF ev(2) order this] show ?thesis by auto
  qed
  ultimately show ?thesis
    using merge_passages_sorted [OF ev(2) order] merge_passages_distinct [OF ev(2)] by blast
qed

theorem evidence_in_precedence_witness:
  "\<exists>e. retrieve_evidence ex_digest ex_providers ex_policy_binding [113] [] None (\<lambda>_. 0) = Inr e
     \<and> evidence_contexts e \<noteq> [] \<and> distinct (map passage_key (evidence_contexts e))"
proof -
  obtain e where e: "retrieve_evidence ex_digest ex_providers ex_policy_binding [113] [] None (\<lambda>_. 0) = Inr e"
    "evidence_contexts e \<noteq> []" using ex_retrieves by simp
  from evidence_in_precedence [OF ex_binding_valid e(1)] e show ?thesis by blast
qed

text \<open>
  C31: The evidence is bounded and accounted for. A decision asks each bound corpus once, in
  binding order, for at most its quota; every passage a corpus returned is either rendered or
  counted as merged; the passages rendered and the merges together are the passages returned;
  and no prompt holds more than fifty passages per bound corpus.
\<close>

theorem evidence_is_bounded:
  assumes "binding_valid b"
    and "retrieve_evidence sha256 providers b query submitted risk_tier elapsed = Inr e"
  shows "map query_corpus (evidence_queries e) = corpora b
    \<and> (\<forall>q \<in> set (evidence_queries e). returned q \<le> k_per_corpus b
         \<and> returned q = merged_away q + length (filter (\<lambda>c. passage_corpus c
             = corpus_id (query_corpus q)) (evidence_contexts e)))
    \<and> length (evidence_contexts e) + evidence_merged e = sum_list (map returned (evidence_queries e))
    \<and> length (evidence_contexts e) \<le> MAX_K_PER_CORPUS * length (corpora b)"
proof -
  obtain answered merged where ev: "list_all2 (answers sha256 b) (corpora b) answered"
    "merge_passages (in_precedence answered) {} (\<lambda>_. 0) = (evidence_contexts e, merged)"
    "evidence_queries e
       = map (\<lambda>(corpus, _, record). record\<lparr>merged_away := merged (corpus_id corpus)\<rparr>) answered"
    "evidence_merged e = sum_list (map merged (remdups (map (corpus_id \<circ> fst) answered)))"
    using retrieve_evidence_Inr [OF assms(2)] by metis
  have fst: "map fst answered = corpora b" by (rule answers_fst [OF ev(1)])
  have ok: "answers sha256 b (fst entry) entry" if "entry \<in> set answered" for entry
    using ev(1) that by (auto simp: list_all2_conv_all_nth in_set_conv_nth answers_def)
  have ids: "distinct (map (corpus_id \<circ> fst) answered)"
    using binding_corpora(1) [OF assms(1)] by (simp flip: fst add: comp_def)
  let ?of = "\<lambda>i. length (filter (\<lambda>c. passage_corpus c = i) (evidence_contexts e))"
  have corpus: "passage_corpus c = i" if "(i, c) \<in> set (in_precedence answered)" for i c
    using that answers_passages(1,2) [OF ok] by (auto simp: set_in_precedence)
  have count: "returned q = merged (corpus_id c) + ?of (corpus_id c)"
    "returned q \<le> k_per_corpus b" "query_corpus q = c"
    if "(c, r, q) \<in> set answered" for c r q
  proof -
    have "merged (corpus_id c) + ?of (corpus_id c) = length (passages_of (c, r, q))"
      using merge_passages_counts [OF ev(2), of "corpus_id c"] count_in_precedence [OF ids that] corpus
      by (simp add: ball_prod)
    with answers_set(2) [OF ev(1) that] show "returned q = merged (corpus_id c) + ?of (corpus_id c)"
      "returned q \<le> k_per_corpus b" "query_corpus q = c"
      by (auto simp: answers_def passages_of_def meets_contract_def split: option.splits)
  qed
  have corpora_of: "passage_corpus c \<in> set (map (corpus_id \<circ> fst) answered)"
    if "c \<in> set (evidence_contexts e)" for c
  proof -
    from merge_passages_set [OF ev(2)] that obtain i where i: "(i, c) \<in> set (in_precedence answered)"
      by fastforce
    then obtain entry where entry: "entry \<in> set answered" "(i, c) \<in> set (passages_of entry)"
      by (auto simp: set_in_precedence)
    have "passage_corpus c = corpus_id (fst entry)"
      using answers_passages(1) [OF ok [OF entry(1)] entry(2)] corpus [OF i] by simp
    with entry(1) show ?thesis by simp
  qed
  let ?entries = "map (corpus_id \<circ> fst) answered"
  have queries: "map query_corpus (evidence_queries e) = corpora b"
    unfolding fst [symmetric] ev(3) map_map by (rule map_cong) (use count(3) in auto)
  have "sum_list (map returned (evidence_queries e)) = sum_list (map (\<lambda>i. merged i + ?of i) ?entries)"
    unfolding ev(3) map_map
    by (intro arg_cong [where f = sum_list] map_cong) (use count(1) in auto)
  also have "\<dots> = evidence_merged e + length (evidence_contexts e)"
    by (simp only: sum_list_addf length_by_key [OF ids ballI [OF corpora_of]] ev(4)
        distinct_remdups_id [OF ids])
  finally have total: "length (evidence_contexts e) + evidence_merged e
      = sum_list (map returned (evidence_queries e))" by simp
  have "sum_list (map returned (evidence_queries e)) \<le> sum_list (map (\<lambda>_. k_per_corpus b) answered)"
    unfolding ev(3) map_map by (rule sum_list_mono) (use count(2) in auto)
  also have "\<dots> = k_per_corpus b * length (corpora b)" by (simp add: sum_list_triv flip: fst)
  also have "\<dots> \<le> MAX_K_PER_CORPUS * length (corpora b)"
    using assms(1) by (simp add: binding_valid_def)
  finally have "length (evidence_contexts e) \<le> MAX_K_PER_CORPUS * length (corpora b)"
    using total by linarith
  moreover have "\<forall>q \<in> set (evidence_queries e). returned q \<le> k_per_corpus b
      \<and> returned q = merged_away q + ?of (corpus_id (query_corpus q))"
    unfolding ev(3) using count by auto
  ultimately show ?thesis using queries total by blast
qed

theorem evidence_is_bounded_witness:
  "\<exists>e. retrieve_evidence ex_digest ex_providers ex_policy_binding [113] [] None (\<lambda>_. 0) = Inr e
     \<and> length (evidence_contexts e) = 1 \<and> sum_list (map returned (evidence_queries e)) = 1"
proof -
  obtain e where e: "retrieve_evidence ex_digest ex_providers ex_policy_binding [113] [] None (\<lambda>_. 0) = Inr e"
    "length (evidence_contexts e) = 1" "evidence_merged e = 0" using ex_retrieves by simp
  from evidence_is_bounded [OF ex_binding_valid e(1)] e show ?thesis by simp
qed

section \<open>An evaluation\<close>

lemma policy_evaluate_output:
  assumes "policy_evaluate w g request table = (table', Inr out)"
  obtains (stopped) c t where "table' = table"
      "out = policy_output w None [] (snapshot_of w c t [] [] [] 0 []) (failed_extra 0 MissingRetrievalQuery)"
  | (evaluated) c b t query e cs rendered where
      "read_binding (parse_binding w) (binding_config request) = Inr b"
      "retrieve_evidence (world_sha256 w) (world_providers w) b query (config_jurisdictions c)
         (config_risk_tier c) (query_elapsed w) = Inr e"
      "(if world_escrow w = None \<or> evidence_contexts e = [] then (table, Inr (evidence_contexts e))
        else escrow_documents (world_sha256 w) (world_providers w) (evidence_queries e)
               (evidence_contexts e) (the (world_escrow w)) (request_decision_id request) table)
         = (table', Inr cs)"
      "out = policy_output w None cs
             (snapshot_of w c t query (evidence_queries e) cs (evidence_merged e) rendered)
             (failed_extra (retrieval_elapsed w) RenderError)
       \<or> out = conclude w t cs
             (snapshot_of w c t query (evidence_queries e) cs (evidence_merged e) rendered)"
proof -
  from assms obtain c b t where c: "parse_config w (case gate_config (request_context request) of
      None \<Rightarrow> [] | Some c \<Rightarrow> c) = Some c" "read_binding (parse_binding w) (binding_config request) = Inr b"
    "get_template (prompts g) (config_template c) = Inr t"
    by (auto simp: policy_evaluate_def split: option.splits sum.splits)
  show thesis
  proof (cases "config_query c = None \<or> blank (the (config_query c))")
    case True
    with assms c show thesis
      by (intro stopped [of c t]) (auto simp: policy_evaluate_def split: option.splits if_splits)
  next
    case False
    then obtain query where query: "config_query c = Some query" "\<not> blank query" by auto
    with assms c obtain e where e: "retrieve_evidence (world_sha256 w) (world_providers w) b query
        (config_jurisdictions c) (config_risk_tier c) (query_elapsed w) = Inr e"
      by (cases "retrieve_evidence (world_sha256 w) (world_providers w) b query
        (config_jurisdictions c) (config_risk_tier c) (query_elapsed w)") (auto simp: policy_evaluate_def)
    let ?escrow = "if world_escrow w = None \<or> evidence_contexts e = [] then (table, Inr (evidence_contexts e))
        else escrow_documents (world_sha256 w) (world_providers w) (evidence_queries e)
               (evidence_contexts e) (the (world_escrow w)) (request_decision_id request) table"
    obtain t2 r where escrow: "?escrow = (t2, r)" by (cases ?escrow)
    with assms c query e obtain cs where cs: "r = Inr cs"
      by (cases r) (simp_all add: policy_evaluate_def)
    from assms c query e escrow cs have out: "(case render_prompt (special_fields_of w) (template_text t)
          (config_vars c) (render_evidence cs (evidence_layout t)) of
        Inl (FormatKeyError _) \<Rightarrow>
          (t2, Inr (policy_output w None cs
             (snapshot_of w c t query (evidence_queries e) cs (evidence_merged e) [])
             (failed_extra (retrieval_elapsed w) RenderError)))
      | Inl err \<Rightarrow> (t2, Inl (RaisedFormat err))
      | Inr rendered \<Rightarrow>
          (t2, Inr (conclude w t cs
             (snapshot_of w c t query (evidence_queries e) cs (evidence_merged e) rendered))))
      = (table', Inr out)"
      by (simp add: policy_evaluate_def)
    then have "t2 = table'" by (auto split: sum.splits format_error.splits)
    with escrow cs have escrowed: "?escrow = (table', Inr cs)" by simp
    from out show thesis
      by (auto split: sum.splits format_error.splits
          intro: evaluated [OF c(2) e escrowed])
  qed
qed

text \<open>What the gate's own record says of the model's report.\<close>

definition reports_trouble :: "gate_output \<Rightarrow> bool" where
  "reports_trouble out \<longleftrightarrow>
     map_of (extra out) (lit ''conflict_detected'') = Some (JBool True)
     \<or> map_of (extra out) (lit ''evidence_sufficient'') = Some (JBool False)"

lemma extra_fields:
  "map_of (extra (policy_output w v cs s x)) (lit ''conflict_detected'')
     = Some (dump_bool (map_option conflict_detected (extra_report x)))"
  "map_of (extra (policy_output w v cs s x)) (lit ''evidence_sufficient'')
     = Some (dump_bool (map_option evidence_sufficient (extra_report x)))"
  "map_of (extra (policy_output w v cs s x)) (lit ''failure'')
     = Some (dump_text (map_option policy_failure_text (extra_failure x)))"
  by (simp_all add: policy_output_def dump_extra_def)

lemma reports_trouble_iff:
  "reports_trouble (policy_output w v cs s x)
     \<longleftrightarrow> (\<exists>r. extra_report x = Some r \<and> (conflict_detected r \<or> \<not> evidence_sufficient r))"
  unfolding reports_trouble_def extra_fields by (auto simp: dump_bool_def split: option.splits)

lemma held_most_conservative:
  "most_conservative (permitted_actions (hold_verdict u reason))
     = max HOLD (most_conservative (permitted_actions u))"
proof -
  let ?kept = "filter (\<lambda>a. severity HOLD \<le> severity a) (permitted_actions u)"
  show ?thesis
  proof (cases "?kept = []")
    case True
    then have "Max (set (permitted_actions u)) \<le> HOLD" if "permitted_actions u \<noteq> []"
      using that by (subst Max_le_iff) (auto simp: filter_empty_conv action_le_iff not_le less_imp_le)
    then have "most_conservative (permitted_actions u) \<le> HOLD"
      unfolding most_conservative_Max by (cases "permitted_actions u = []") simp_all
    then have "max HOLD (most_conservative (permitted_actions u)) = HOLD" by (rule max_absorb1)
    with True show ?thesis
      by (simp add: hold_verdict_def Let_def most_conservative_Max)
  next
    case False
    then obtain a where "a \<in> set (permitted_actions u)" "HOLD \<le> a"
      by (auto simp: filter_empty_conv action_le_iff)
    then have ge: "HOLD \<le> Max (set (permitted_actions u))"
      by (meson List.finite_set Max_ge order_trans)
    have some: "permitted_actions u \<noteq> []" using \<open>a \<in> set (permitted_actions u)\<close> by auto
    then have "Max (set (permitted_actions u)) \<in> set (permitted_actions u)" by (intro Max_in) simp_all
    with ge have "Max (set ?kept) = Max (set (permitted_actions u))"
      by (intro Max_eqI) (simp_all add: action_le_iff [of HOLD])
    moreover note some
    ultimately show ?thesis
      using False ge by (simp add: hold_verdict_def Let_def most_conservative_Max max_def)
  qed
qed

text \<open>A verdict that permits nothing milder than HOLD is enforced at HOLD or above.\<close>

lemma resolve_at_least_HOLD:
  assumes "verdict out = Some v" "HOLD \<le> most_conservative (permitted_actions v)"
  shows "HOLD \<le> decision_action (resolve_gate_output (Some out) registration why)"
  using assms by (auto simp: resolve_gate_output_def fire_def Let_def)

lemma resolve_no_verdict:
  "verdict out = None \<Longrightarrow> decision_action (resolve_gate_output (Some out) registration why) = HOLD"
  by (simp add: resolve_gate_output_def fire_def)

lemma dump_verdict_actions:
  "dump_verdict u = dump_verdict v \<Longrightarrow> permitted_actions u = permitted_actions v"
  by (simp add: dump_verdict_def inj_map_eq_map inj_def action_text_inj)

lemma conclude_cases:
  obtains (no_answer) "conclude w t cs s = policy_output w None cs s (failed_extra (retrieval_elapsed w) LlmError)"
  | (answer) v final x where "conclude w t cs s = policy_output w (Some final) cs s x"
      "extra_failure x = None" "extra_report x = report v" "verdict_gate_id final = POLICY_GATE_ID"
      "verdict_as_returned x = None \<and> final = universal v \<and>
         (\<forall>r. report v = Some r \<longrightarrow> \<not> conflict_detected r \<and> evidence_sufficient r)
       \<or> verdict_as_returned x = Some (universal v) \<and> (\<exists>reason \<in> {DISAGREE_REASON, GAP_REASON}.
           final = hold_verdict (universal v) reason)"
proof (cases "complete_structured w (system_text t) (rendered_prompt s) (evidence_layout t)")
  case (Inl e)
  then show thesis by (intro no_answer) (simp add: conclude_def)
next
  case (Inr result)
  obtain final hold where fh: "(case report (parsed result) of None \<Rightarrow> (universal (parsed result), None)
      | Some r \<Rightarrow> held_verdict (parsed result) r) = (final, hold)" by fastforce
  show thesis
    by (rule answer [of final _ "parsed result"])
      (use Inr fh in \<open>auto simp: conclude_def held_verdict_def universal_def hold_verdict_def Let_def
        split: option.splits if_splits\<close>)
qed



end
