(* ===== verification/Policy_Admission.thy ===== *)
theory Policy_Admission
  imports Policy_Examples
begin

text \<open>
  What admission keeps: a template belongs to one reasoner, stays registered as it is, and is
  there for whatever the gate authorizes.
\<close>

section \<open>Loading and adding templates\<close>

declare map_sum_Inr_iff [simp]

lemma load_each_ids:
  "load_each read names so_far = Inr ts \<Longrightarrow> distinct (map fst so_far)
     \<Longrightarrow> distinct (map fst ts) \<and> (\<forall>(i, t, path) \<in> set ts. (i, t, path) \<in> set so_far \<or> i = template_id t)"
proof (induction names arbitrary: so_far)
  case (Cons name names)
  from Cons.prems(1) obtain t where t: "read name = Inr t" "map_of so_far (template_id t) = None"
    "load_each read names (so_far @ [(template_id t, t, name)]) = Inr ts"
    by (cases "read name") (auto split: option.splits)
  from t(2) have "template_id t \<notin> fst ` set so_far" by (simp add: map_of_eq_None_iff)
  with Cons.IH [OF t(3)] Cons.prems(2) show ?case by auto
qed auto

lemma load_templates_ids:
  "load_templates read names = Inr ts \<Longrightarrow>
     distinct (map fst ts) \<and> (\<forall>(i, t, path) \<in> set ts. i = template_id t)"
  using load_each_ids [of read "sort names" "[]" ts] by (auto simp: load_templates_def)

definition registry_ok :: "prompt_registry \<Rightarrow> bool" where
  "registry_ok r \<longleftrightarrow> dom (template_sources r) = dom (registered r)
     \<and> (\<forall>i t. registered r i = Some t \<longrightarrow> template_id t = i)"

lemma add_templates_Inr:
  assumes "add_templates ts r = Inr r'" "registry_ok r"
    and "distinct (map fst ts)" "\<forall>(i, t, path) \<in> set ts. i = template_id t"
  shows "registry_ok r'" "registered r \<subseteq>\<^sub>m registered r'"
    "dom (registered r') = dom (registered r) \<union> fst ` set ts" "fst ` set ts \<inter> dom (registered r) = {}"
proof -
  let ?new = "map_of (map (\<lambda>(i, t, _). (i, t)) ts)" and ?paths = "map_of (map (\<lambda>(i, _, path). (i, path)) ts)"
  have doms: "dom ?new = fst ` set ts" "dom ?paths = fst ` set ts" by (auto simp: dom_map_of_conv_image_fst image_comp comp_def case_prod_unfold)
  from assms(1) have r': "registered r' = registered r ++ ?new" "template_sources r' = template_sources r ++ ?paths"
    and fresh: "\<forall>(i, t, path) \<in> set ts. template_sources r i = None"
    by (auto simp: add_templates_def split: option.splits)
  have "i \<notin> dom (registered r)" if "i \<in> fst ` set ts" for i
  proof -
    from that fresh have "i \<notin> dom (template_sources r)" by auto
    with assms(2) show ?thesis by (metis registry_ok_def)
  qed
  then show disjoint: "fst ` set ts \<inter> dom (registered r) = {}" by blast
  show "dom (registered r') = dom (registered r) \<union> fst ` set ts" using doms by (auto simp: r')
  show "registered r \<subseteq>\<^sub>m registered r'"
  proof (unfold map_le_def, rule ballI)
    fix i assume "i \<in> dom (registered r)"
    with disjoint have "i \<notin> dom ?new" by (simp only: doms(1)) blast
    then have "?new i = None" by (simp only: domIff not_not)
    then show "registered r i = registered r' i" by (simp add: r' map_add_def)
  qed
  have "template_id t = i" if "?new i = Some t" for i t
    using map_of_SomeD [OF that] assms(4) by auto
  with assms(2) doms show "registry_ok r'"
    by (auto simp: registry_ok_def r' map_add_Some_iff)
qed

section \<open>The invariant of the gate\<close>

text \<open>
  Every profile's templates are registered, and no two profiles share one.
\<close>

definition gate_ok :: "policy_gate \<Rightarrow> bool" where
  "gate_ok g \<longleftrightarrow> registry_ok (prompts g)
     \<and> (\<forall>known. profiles g = Some known \<longrightarrow>
          (\<forall>i p. known i = Some p \<longrightarrow> profile_templates p \<subseteq> dom (registered (prompts g)))
          \<and> (\<forall>i j p q. known i = Some p \<longrightarrow> known j = Some q \<longrightarrow>
               profile_templates p \<inter> profile_templates q \<noteq> {} \<longrightarrow> i = j))"

lemma gate_okD:
  assumes "gate_ok g" "profiles g = Some known" "known i = Some p"
  shows "profile_templates p \<subseteq> dom (registered (prompts g))"
    and "known j = Some q \<Longrightarrow> profile_templates p \<inter> profile_templates q \<noteq> {} \<Longrightarrow> i = j"
  using assms unfolding gate_ok_def by blast+

lemma gate_okI:
  assumes "registry_ok (prompts g)" "profiles g = Some known"
    and "\<And>i p. known i = Some p \<Longrightarrow> profile_templates p \<subseteq> dom (registered (prompts g))"
    and "\<And>i j p q. known i = Some p \<Longrightarrow> known j = Some q \<Longrightarrow>
           profile_templates p \<inter> profile_templates q \<noteq> {} \<Longrightarrow> i = j"
  shows "gate_ok g"
  using assms by (auto simp: gate_ok_def)

text \<open>What a later gate keeps of an earlier one.\<close>

definition gate_grows :: "policy_gate \<Rightarrow> policy_gate \<Rightarrow> bool" where
  "gate_grows g g' \<longleftrightarrow> registered (prompts g) \<subseteq>\<^sub>m registered (prompts g')
     \<and> (profiles g = None \<longleftrightarrow> profiles g' = None)
     \<and> (\<forall>known known'. profiles g = Some known \<longrightarrow> profiles g' = Some known' \<longrightarrow> known \<subseteq>\<^sub>m known')"

lemma load_root_assets_Inr:
  assumes "load_root_assets assets reasoner = Inr (profile, ts)"
  shows "profile_templates profile = fst ` set ts" "distinct (map fst ts)"
    "\<forall>(i, t, path) \<in> set ts. i = template_id t"
proof -
  from assms obtain read names where "load_templates read names = Inr ts"
    "profile_templates profile = fst ` set ts"
    by (auto simp: load_root_assets_def Let_def split: if_splits)
  with load_templates_ids show "profile_templates profile = fst ` set ts" "distinct (map fst ts)"
    "\<forall>(i, t, path) \<in> set ts. i = template_id t" by blast+
qed

lemma admit_reasoner_Inr:
  assumes "admit_reasoner reasoner g = Inr g'" "gate_ok g"
  shows "gate_ok g'" "gate_grows g g'" "policy_serves g' reasoner"
proof -
  have "gate_ok g' \<and> gate_grows g g' \<and> policy_serves g' reasoner"
  proof (cases "policy_serves g reasoner")
    case True
    with assms have "g' = g" by (auto simp: admit_reasoner_def policy_serves_def split: option.splits)
    with True assms(2) show ?thesis by (auto simp: gate_grows_def)
  next
    case False
    with assms(1) obtain known assets profile ts r where a: "profiles g = Some known" "known reasoner = None"
      "load_root_assets assets reasoner = Inr (profile, ts)" "add_templates ts (prompts g) = Inr r"
      "g' = g\<lparr>prompts := r, profiles := Some (known(reasoner \<mapsto> profile))\<rparr>"
      by (fastforce simp: admit_reasoner_def policy_serves_def split: option.splits)
    note assets = load_root_assets_Inr [OF a(3)]
    have "registry_ok (prompts g)" using assms(2) by (simp add: gate_ok_def)
    note added = add_templates_Inr [OF a(4) this assets(2,3)]
    have "gate_grows g g'" using a(1,2) added(2) by (auto simp: gate_grows_def a(5) map_le_def)
    moreover have "gate_ok g'"
    proof (rule gate_okI)
      show "registry_ok (prompts g')" using added(1) by (simp add: a(5))
      show "profiles g' = Some (known(reasoner \<mapsto> profile))" by (simp add: a(5))
    next
      fix i p assume p: "(known(reasoner \<mapsto> profile)) i = Some p"
      have "profile_templates p \<subseteq> dom (registered r)"
      proof (cases "i = reasoner")
        case False
        with p have "known i = Some p" by simp
        from gate_okD(1) [OF assms(2) a(1) this] added(3) show ?thesis by blast
      qed (use p assets(1) added(3) in auto)
      then show "profile_templates p \<subseteq> dom (registered (prompts g'))" by (simp add: a(5))
    next
      fix i j p q
      assume p: "(known(reasoner \<mapsto> profile)) i = Some p"
        and q: "(known(reasoner \<mapsto> profile)) j = Some q"
        and both: "profile_templates p \<inter> profile_templates q \<noteq> {}"
      have old: "profile_templates u \<inter> profile_templates profile = {}" if "known k = Some u" for k u
        using gate_okD(1) [OF assms(2) a(1) that] added(4) assets(1) by blast
      show "i = j"
      proof (cases "i = reasoner \<or> j = reasoner")
        case True
        with p q both old show ?thesis by (auto simp: Int_commute split: if_splits)
      next
        case False
        with p q both gate_okD(2) [OF assms(2) a(1)] show ?thesis by auto
      qed
    qed
    ultimately show ?thesis by (simp add: policy_serves_def a(5))
  qed
  then show "gate_ok g'" "gate_grows g g'" "policy_serves g' reasoner" by blast+
qed

section \<open>Building the gate and admitting\<close>

definition templates_in ::
    "(ustr \<Rightarrow> template_error + prompt_template) \<Rightarrow> ustr list \<Rightarrow> ustr set" where
  "templates_in read d = (case load_templates read d of Inl _ \<Rightarrow> {} | Inr ts \<Rightarrow> fst ` set ts)"

lemma build_prompts_Inr:
  assumes "build_prompts (load_templates read) directories r = Inr r'" "registry_ok r"
  shows "registry_ok r'
    \<and> dom (registered r') = dom (registered r) \<union> \<Union> (templates_in read ` set directories)
    \<and> (\<forall>d \<in> set directories. templates_in read d \<inter> dom (registered r) = {})
    \<and> sorted_wrt (\<lambda>d e. templates_in read d \<inter> templates_in read e = {}) directories"
  using assms
proof (induction directories arbitrary: r)
  case (Cons d ds)
  from Cons.prems(1) obtain ts r1 where d: "load_templates read d = Inr ts" "add_templates ts r = Inr r1"
    "build_prompts (load_templates read) ds r1 = Inr r'" by auto
  note added = add_templates_Inr [OF d(2) Cons.prems(2) load_templates_ids [OF d(1), THEN conjunct1]
      load_templates_ids [OF d(1), THEN conjunct2]]
  have here: "templates_in read d = fst ` set ts" by (simp add: templates_in_def d(1))
  note IH = Cons.IH [OF d(3) added(1)]
  have apart: "templates_in read e \<inter> (dom (registered r) \<union> fst ` set ts) = {}" if "e \<in> set ds" for e
    using IH that added(3) by blast
  have "\<forall>e \<in> set ds. templates_in read d \<inter> templates_in read e = {}"
    "\<forall>e \<in> set (d # ds). templates_in read e \<inter> dom (registered r) = {}"
    using apart added(4) by (auto simp: here)
  moreover have "dom (registered r') = dom (registered r) \<union> \<Union> (templates_in read ` set (d # ds))"
    using IH added(3) by (simp add: here Un_assoc)
  ultimately show ?case using IH by simp
qed simp

lemma empty_registry_ok: "registry_ok empty_registry"
  by (simp add: registry_ok_def empty_registry_def)

lemma build_policy_gate_ok:
  assumes "build_policy_gate read parse reasoners assets = Inr g"
    and "distinct (map assets_reasoner reasoners)"
  shows "gate_ok g"
proof -
  let ?profile = "\<lambda>a. rbind (profile_from_assets read parse (assets_prompts a) (assets_documents a))
      (\<lambda>p. Inr (assets_reasoner a, p))"
  from assms(1) obtain r ps where r: "build_prompts (load_templates read) (map assets_prompts reasoners)
      empty_registry = Inr r" and ps: "rmap ?profile reasoners = Inr ps"
    and g: "g = \<lparr>profiles = Some (map_of (rev ps)), prompts = r, assets_root = assets\<rparr>"
    by (auto simp: build_policy_gate_def)
  note built = build_prompts_Inr [OF r empty_registry_ok]
  have len: "length ps = length reasoners" using ps by (simp add: rmap_Inr_nth)
  have nth: "fst (ps ! n) = assets_reasoner (reasoners ! n)
      \<and> profile_templates (snd (ps ! n)) = templates_in read (assets_prompts (reasoners ! n))"
    if "n < length ps" for n
  proof -
    from ps that have "?profile (reasoners ! n) = Inr (ps ! n)" by (simp add: rmap_Inr_nth len)
    then show ?thesis
      by (auto simp: profile_from_assets_def templates_in_def simp flip: surjective_pairing
          dest!: sym [of _ "ps ! n"])
  qed
  have found: "\<exists>n < length ps. ps ! n = (i, p)" if "map_of (rev ps) i = Some p" for i p
    using map_of_SomeD [OF that] by (simp add: in_set_conv_nth)
  have apart: "templates_in read (assets_prompts (reasoners ! m))
      \<inter> templates_in read (assets_prompts (reasoners ! n)) = {}" if "m < n" "n < length ps" for m n
    using built that len by (auto simp: sorted_wrt_iff_nth_less)
  show ?thesis
  proof (rule gate_okI)
    show "registry_ok (prompts g)" using built by (simp add: g)
    show "profiles g = Some (map_of (rev ps))" by (simp add: g)
  next
    fix i p assume "map_of (rev ps) i = Some p"
    from found [OF this] obtain n where n: "n < length ps" "ps ! n = (i, p)" by blast
    then have "profile_templates p = templates_in read (assets_prompts (reasoners ! n))" using nth by force
    then show "profile_templates p \<subseteq> dom (registered (prompts g))"
      using built n(1) len by (auto simp: g)
  next
    fix i j p q
    assume "map_of (rev ps) i = Some p" "map_of (rev ps) j = Some q"
      and both: "profile_templates p \<inter> profile_templates q \<noteq> {}"
    from found [OF this(1)] found [OF this(2)] obtain m n where
      mn: "m < length ps" "ps ! m = (i, p)" "n < length ps" "ps ! n = (j, q)" by blast
    with nth [of m] nth [of n] both have
      "templates_in read (assets_prompts (reasoners ! m)) \<inter> templates_in read (assets_prompts (reasoners ! n)) \<noteq> {}"
      by simp
    with apart [of m n] apart [of n m] mn have "m = n" by (cases m n rule: linorder_cases) auto
    with mn show "i = j" by simp
  qed
qed

inductive admission :: "(json_obj \<Rightarrow> ustr + policy_binding) \<Rightarrow> policy_gate \<Rightarrow> policy_gate \<Rightarrow> bool"
  for parse where
  asked: "validate_policy_binding parse providers reasoner given g = (g', answer) \<Longrightarrow> admission parse g g'"

lemma validate_policy_binding_cases:
  assumes "validate_policy_binding parse providers reasoner given g = (g', answer)"
  obtains (refused) e where "answer = Inl e" "g' = g"
  | (admitted) "answer = Inr ()" "admit_reasoner reasoner g = Inr g'"
  using assms by (auto simp: validate_policy_binding_def split: sum.splits)

interpretation admissions: kept "admission parse" gate_ok for parse
proof
  fix g g' assume "admission parse g g'" "gate_ok g"
  then show "gate_ok g'"
    by (auto elim!: admission.cases validate_policy_binding_cases dest: admit_reasoner_Inr(1))
qed

interpretation growing: advancing "admission parse" "\<lambda>g g'. gate_ok g \<longrightarrow> gate_ok g' \<and> gate_grows g g'" for parse
proof
  show "gate_ok g \<longrightarrow> gate_ok g \<and> gate_grows g g" for g by (auto simp: gate_grows_def)
  show "gate_ok g \<longrightarrow> gate_ok g'' \<and> gate_grows g g''"
    if "gate_ok g \<longrightarrow> gate_ok g' \<and> gate_grows g g'" "gate_ok g' \<longrightarrow> gate_ok g'' \<and> gate_grows g' g''" for g g' g''
    using that by (auto simp: gate_grows_def intro: map_le_trans)
  show "gate_ok g \<longrightarrow> gate_ok g' \<and> gate_grows g g'" if "admission parse g g'" for parse g g'
    using that by (auto elim!: admission.cases validate_policy_binding_cases
        dest: admit_reasoner_Inr(1,2) simp: gate_grows_def)
qed



end
