(* ===== verification/Policy_Escrow_Claims.thy ===== *)
theory Policy_Escrow_Claims
  imports Policy_Claims
begin

text \<open>
  The evidence of a decision can be verified from the escrow for as long as the ledger stands.
\<close>

section \<open>What escrowing leaves behind\<close>

abbreviation escrowing :: "digest \<Rightarrow> artifact_table \<Rightarrow> artifact_table \<Rightarrow> bool" where
  "escrowing sha256 \<equiv> (\<lambda>s t. \<exists>c m d g r. put_artifact sha256 True c m d g s = (t, r))\<^sup>*\<^sup>*"

text \<open>The bytes a provider may have fetched.\<close>

definition fetchable :: "providers \<Rightarrow> bytes set" where
  "fetchable providers = {content. \<exists>i p fetch corpus document version d. providers i = Inr p
     \<and> fetch_document p = Some fetch \<and> fetch corpus document version = Inr (FetchedDocument d)
     \<and> encode_utf8 (blob_text d) = Some content}"

text \<open>What an escrowed passage rests on: the document's bytes under their digest.\<close>

definition backed :: "digest \<Rightarrow> providers \<Rightarrow> artifact_table \<Rightarrow> retrieved_context \<Rightarrow> ustr \<Rightarrow> bool" where
  "backed sha256 providers table c h \<longleftrightarrow> (\<exists>document content.
     encode_utf8 document = Some content \<and> content \<in> fetchable providers \<and> h = sha256 content
     \<and> get_artifact table h \<noteq> None \<and> passage_holds sha256 document c)"

definition unfetchable :: "providers \<Rightarrow> (ustr \<rightharpoonup> corpus_ref) \<Rightarrow> ustr \<Rightarrow> bool" where
  "unfetchable providers known i \<longleftrightarrow> (\<exists>corpus p. known i = Some corpus
     \<and> providers (corpus_provider corpus) = Inr p \<and> fetch_document p = None)"

lemma escrow_document_Inr:
  assumes "escrow_document sha256 providers known passages decision key table = (table', Inr h)"
    and "addressed sha256 table"
  shows "escrowing sha256 table table' \<and> addressed sha256 table'
    \<and> (case h of
         None \<Rightarrow> unfetchable providers known (fst key)
       | Some h \<Rightarrow> \<forall>c \<in> set passages. backed sha256 providers table' c h)"
proof -
  from assms(1) obtain corpus p where kp: "known (fst key) = Some corpus"
    "providers (corpus_provider corpus) = Inr p"
    by (auto simp: escrow_document_def split: option.splits sum.splits)
  show ?thesis
  proof (cases "fetch_document p")
    case None
    with assms kp show ?thesis by (auto simp: escrow_document_def unfetchable_def)
  next
    case (Some fetch)
    with assms(1) kp obtain answer d where d: "fetch corpus (fst (snd key)) (snd (snd key)) = Inr answer"
      "check_document sha256 answer key = Inr d"
      by (auto simp: escrow_document_def split: sum.splits)
    then have answer: "answer = FetchedDocument d"
      by (auto simp: check_document_def split: prod.splits fetched.splits if_splits option.splits)
    let ?stale = "map rank (filter (\<lambda>c. \<not> passage_holds sha256 (blob_text d) c) passages)"
    from assms(1) kp Some d obtain content where c: "?stale = []" "encode_utf8 (blob_text d) = Some content"
      "apsnd (map_sum EscrowStore id) (put_artifact sha256 True content (blob_media_type d) decision
         POLICY_GATE_ID table) = (table', Inr h)"
      by (auto simp: escrow_document_def Let_def split: option.splits if_splits)
    then have put: "put_artifact sha256 True content (blob_media_type d) decision POLICY_GATE_ID table
        = (table', Inr h)"
      by (cases "put_artifact sha256 True content (blob_media_type d) decision POLICY_GATE_ID table";
          cases "snd (put_artifact sha256 True content (blob_media_type d) decision POLICY_GATE_ID table)") auto
    have "h \<noteq> None" using put by (auto simp: put_artifact_def split: if_splits prod.splits sum.splits)
    then obtain k where k: "h = Some k" by blast
    from escrow.put_holds [OF put [unfolded k] assms(2)] have "k = sha256 content" "get_artifact table' k \<noteq> None"
      by blast+
    moreover have "content \<in> fetchable providers"
      unfolding fetchable_def using kp(2) Some d(1) [unfolded answer] c(2) by blast
    moreover have "passage_holds sha256 (blob_text d) q" if "q \<in> set passages" for q
      using c(1) that by (auto simp: filter_empty_conv)
    moreover have "escrowing sha256 table table'" using put by blast
    ultimately show ?thesis
      using escrow.put_sound [OF put assms(2)] c(2) by (auto simp: k backed_def)
  qed
qed

lemma backed_later:
  "backed sha256 providers table c h \<Longrightarrow> escrowing sha256 table table' \<Longrightarrow> backed sha256 providers table' c h"
  unfolding backed_def using escrow.kept_along by blast

lemma escrow_each_Inr:
  assumes "\<And>key t t' h. one key t = (t', Inr h) \<Longrightarrow> addressed sha256 t \<Longrightarrow>
      escrowing sha256 t t' \<and> addressed sha256 t' \<and> post key h t'"
    and "\<And>key h t t'. post key h t \<Longrightarrow> escrowing sha256 t t' \<Longrightarrow> post key h t'"
    and "escrow_each one keys table = (table', Inr hs)" "addressed sha256 table"
  shows "escrowing sha256 table table' \<and> addressed sha256 table' \<and> map fst hs = keys
    \<and> (\<forall>(key, h) \<in> set hs. post key h table')"
  using assms(3,4)
proof (induction keys arbitrary: table hs)
  case (Cons key keys)
  from Cons.prems(1) obtain t1 h hs1 where step: "one key table = (t1, Inr h)"
    "escrow_each one keys t1 = (table', Inr hs1)" "hs = (key, h) # hs1"
    by (auto split: prod.splits sum.splits)
  from assms(1) [OF step(1) Cons.prems(2)] have t1: "escrowing sha256 table t1" "addressed sha256 t1" "post key h t1"
    by blast+
  from Cons.IH [OF step(2) t1(2)] t1 assms(2) [OF t1(3)] show ?case
    by (auto simp: step(3))
qed simp

lemma passage_holds_cited [simp]:
  "passage_holds sha256 document (c\<lparr>escrowed_as := h\<rparr>) = passage_holds sha256 document c"
  by (cases "span c") (simp_all add: passage_holds_def)

lemma escrow_documents_Inr:
  assumes "escrow_documents sha256 providers queries passages True decision table = (table', Inr cs)"
    and "addressed sha256 table" "\<forall>c \<in> set passages. escrowed_as c = None"
  shows "escrowing sha256 table table' \<and> addressed sha256 table'
    \<and> (\<exists>hs. cs = map (\<lambda>c. c\<lparr>escrowed_as := hs c\<rparr>) passages \<and> (\<forall>c \<in> set passages. case hs c of
          None \<Rightarrow> unfetchable providers (queried_corpora queries) (passage_corpus c)
        | Some h \<Rightarrow> backed sha256 providers table' c h))"
proof -
  let ?known = "queried_corpora queries"
  let ?one = "\<lambda>key. escrow_document sha256 providers ?known (filter (\<lambda>c. document_key c = key) passages) decision key"
  let ?post = "\<lambda>key h t. case h of None \<Rightarrow> unfetchable providers ?known (fst key)
      | Some h \<Rightarrow> \<forall>c \<in> set (filter (\<lambda>c. document_key c = key) passages). backed sha256 providers t c h"
  from assms(1) obtain hs where hs: "escrow_each ?one (first_seen (map document_key passages)) table = (table', Inr hs)"
    "cs = map (cite hs) passages"
    by (cases "escrow_each ?one (first_seen (map document_key passages)) table";
        cases "snd (escrow_each ?one (first_seen (map document_key passages)) table)")
      (auto simp: escrow_documents_def)
  have "escrowing sha256 table table' \<and> addressed sha256 table'
      \<and> map fst hs = first_seen (map document_key passages) \<and> (\<forall>(key, h) \<in> set hs. ?post key h table')"
  proof (rule escrow_each_Inr [OF _ _ hs(1) assms(2)])
    show "escrowing sha256 t t' \<and> addressed sha256 t' \<and> ?post key h t'"
      if "?one key t = (t', Inr h)" "addressed sha256 t" for key t t' h
      using escrow_document_Inr [OF that] .
    show "?post key h t'" if "?post key h t" "escrowing sha256 t t'" for key h t t'
      using that(1) backed_later [OF _ that(2)] by (cases h) auto
  qed
  then have each: "escrowing sha256 table table'" "addressed sha256 table'"
    "fst ` set hs = document_key ` set passages" "\<And>key h. (key, h) \<in> set hs \<Longrightarrow> ?post key h table'"
    by (auto simp flip: set_map)
  let ?hs = "\<lambda>c. the (map_of hs (document_key c))"
  have cited: "cite hs c = c\<lparr>escrowed_as := ?hs c\<rparr> \<and> ?post (document_key c) (?hs c) table'"
    if "c \<in> set passages" for c
  proof -
    from that each(3) have "document_key c \<in> fst ` set hs" by blast
    then obtain h where h: "map_of hs (document_key c) = Some h"
      by (metis map_of_eq_None_iff not_Some_eq)
    with each(4) [OF map_of_SomeD [OF h]] assms(3) that show ?thesis
      by (cases h) (auto simp: cite_def)
  qed
  have "cs = map (\<lambda>c. c\<lparr>escrowed_as := ?hs c\<rparr>) passages" unfolding hs(2) using cited by simp
  moreover have "case ?hs c of None \<Rightarrow> unfetchable providers ?known (passage_corpus c)
      | Some h \<Rightarrow> backed sha256 providers table' c h" if "c \<in> set passages" for c
    using cited [OF that] that by (auto simp: document_key_def split: option.splits)
  ultimately show ?thesis using each(1,2) by (intro conjI exI [of _ ?hs]) auto
qed

section \<open>Verifying from the escrow\<close>

lemma backed_verifies:
  assumes "backed sha256 providers table c h" "escrowing sha256 table table'" "addressed sha256 table"
    and "inj_on sha256 (artifact_bytes ` ran table' \<union> fetchable providers)"
  shows "policy_stored_status sha256 (Some table')
    \<lparr>source_id = i, locator = l, jurisdictions = js, content_hash = ch, artifact_hash = Some h\<rparr> c = Intact"
proof -
  from assms(1) obtain document content old where b: "encode_utf8 document = Some content"
    "content \<in> fetchable providers" "h = sha256 content" "get_artifact table h = Some old"
    "passage_holds sha256 document c" by (auto simp: backed_def)
  from escrow.kept_along [OF assms(2)] assms(3) b(4) have now: "get_artifact table' h = Some old"
    "addressed sha256 table'" by blast+
  from escrow.get_addressed [OF now(2,1)] b(3) have same: "sha256 old = sha256 content" by simp
  have "old \<in> artifact_bytes ` ran table'"
    using now(1) by (auto simp: get_artifact_def ran_def split: if_splits)
  with assms(4) b(2) same have "old = content" by (auto dest: inj_onD)
  with b(1,3,5) now(1) decode_encode [OF b(1)] show ?thesis
    by (simp add: policy_stored_status_def escrowed_text_def)
qed

text \<open>
  A provider's passages cite no escrowed document, for the citation is the gate's to make; and
  the stored snapshot reads back with the passages it was written with.
\<close>

definition cite_nothing :: "providers \<Rightarrow> bool" where
  "cite_nothing providers \<longleftrightarrow>
     (\<forall>i p query corpus k f r typed c. providers i = Inr p
        \<longrightarrow> retrieve p query corpus k f r = Inr (AnswersResult typed)
        \<longrightarrow> Inr c \<in> set (raw_contexts typed) \<longrightarrow> escrowed_as c = None)"

definition snapshot_reads_back ::
    "(json_obj \<Rightarrow> policy_snapshot option) \<Rightarrow> (ustr list \<times> ustr list \<Rightarrow> ustr) \<Rightarrow> gate_output \<Rightarrow> bool" where
  "snapshot_reads_back parse wording out \<longleftrightarrow>
     (\<forall>s. evidence_snapshot out = JObj (dump_policy_snapshot wording s) \<longrightarrow>
        (\<exists>s'. parse (dump_policy_snapshot wording s) = Some s' \<and> contexts s' = contexts s))"

lemma evidence_uncited:
  assumes "retrieve_evidence sha256 providers b query submitted risk_tier elapsed = Inr e"
    and "cite_nothing providers" "c \<in> set (evidence_contexts e)"
  shows "escrowed_as c = None"
proof -
  let ?query = "query_corpus_once sha256 providers b query submitted risk_tier elapsed"
  from assms(1) obtain answered where a: "rmap ?query (corpora b) = Inr answered"
    and e: "(case merge_passages (in_precedence answered) {} (\<lambda>_. 0) of (chosen, merged) \<Rightarrow>
       Inr \<lparr>evidence_queries = map (\<lambda>(corpus, _, record). record\<lparr>merged_away := merged (corpus_id corpus)\<rparr>) answered,
            evidence_contexts = chosen,
            evidence_merged = sum_list (map merged (remdups (map (corpus_id \<circ> fst) answered))),
            evidence_results = map (\<lambda>(corpus, result, _). (corpus_id corpus, result)) answered\<rparr>)
       = (Inr e :: retrieval_error + retrieved_evidence)"
    by (auto simp: retrieve_evidence_def)
  obtain m where m: "merge_passages (in_precedence answered) {} (\<lambda>_. 0) = (evidence_contexts e, m)"
    using e by (cases "merge_passages (in_precedence answered) {} (\<lambda>_. 0)") auto
  from merge_passages_set [OF m] assms(3) have "c \<in> snd ` set (in_precedence answered)" by blast
  then obtain i entry where entry: "entry \<in> set answered" "(i, c) \<in> set (passages_of entry)"
    unfolding set_in_precedence by auto
  from passage_answered [OF entry(2)] obtain corpus r q where r: "entry = (corpus, Some r, q)"
    "c \<in> set (result_contexts r)" by metis
  from entry(1) a r(1) obtain corpus' where "?query corpus' = Inr (corpus, Some r, q)"
    by (auto simp: rmap_Inr_nth in_set_conv_nth)
  then obtain p k f rt answer where p: "providers (corpus_provider corpus') = Inr p"
    "retrieve p query corpus' k f rt = Inr answer" "check_contract sha256 corpus' answer k = Inr r"
    by (auto simp: query_corpus_once_def Let_def map_sum_Inr_iff split: sum.splits)
  then obtain typed where typed: "answer = AnswersResult typed" "raw_contexts typed = map Inr (result_contexts r)"
    unfolding check_contract_Inr by simp
  have "Inr c \<in> set (raw_contexts typed)" using r(2) by (simp add: typed(2))
  with assms(2) [unfolded cite_nothing_def, rule_format, OF p(1) p(2) [unfolded typed(1)]] show ?thesis
    by blast
qed

lemma policy_verify_output:
  assumes "snapshot_reads_back parse (skip_wording w) (policy_output w v cs s x)" "contexts s = cs"
  shows "policy_verify sha256 parse providers escrow (policy_output w v cs s x) False
    = map (\<lambda>c. policy_stored_status sha256 escrow (hd (policy_evidence [c])) c) cs"
proof -
  from assms obtain s' where s': "parse (dump_policy_snapshot (skip_wording w) s) = Some s'" "contexts s' = cs"
    by (auto simp: snapshot_reads_back_def policy_output_def)
  have "version_matches (map_of (dump_policy_snapshot (skip_wording w) s) (lit ''snapshot_version''))"
    by (simp add: dump_policy_snapshot_def version_matches_def)
  with s' have snapshot: "stored_policy_snapshot parse (policy_output w v cs s x) = Some s'"
    by (simp add: stored_policy_snapshot_def policy_output_def)
  have "evidence (policy_output w v cs s x) = policy_evidence cs" by (simp add: policy_output_def)
  then have "policy_verify sha256 parse providers escrow (policy_output w v cs s x) False
      = map (\<lambda>(i, ref). if length cs \<le> i then NotVerifiable
          else if content_hash ref \<noteq> Some (passage_hash (cs ! i)) then NotVerifiable
          else policy_stored_status sha256 escrow ref (cs ! i)) (enumerate 0 (policy_evidence cs))"
    by (auto simp: policy_verify_def snapshot s'(2) Let_def intro!: map_cong)
  then show ?thesis
    by (simp only:) (rule nth_equalityI, simp_all add: policy_evidence_def nth_enumerate_eq)
qed

lemma output_evidence [simp]: "evidence (policy_output w v cs s x) = policy_evidence cs"
  by (simp add: policy_output_def)

lemma length_policy_evidence [simp]: "length (policy_evidence cs) = length cs"
  by (simp add: policy_evidence_def)

lemma conclude_output: "\<exists>v x. conclude w t cs s = policy_output w v cs s x"
  by (auto simp: conclude_def Let_def split: sum.splits prod.splits)

text \<open>
  C32: Evidence verifies from the escrow. With the escrow on, the references of whatever the
  gate decided verify intact from the ledger, whatever is escrowed afterwards and whatever the
  providers hold by then, except those of a provider that cannot fetch documents, which cite
  nothing and are not verifiable; when every provider can fetch, every reference verifies
  intact. This rests on SHA-256 not colliding among the escrowed contents and the documents
  fetched, on providers citing no escrowed document themselves, and on the stored snapshot
  reading back.
\<close>

theorem policy_evidence_verifies:
  assumes "policy_evaluate w g request table = (table', Inr out)" "world_escrow w = Some True"
    and "addressed (world_sha256 w) table" "escrowing (world_sha256 w) table' later"
    and "inj_on (world_sha256 w) (artifact_bytes ` ran later \<union> fetchable (world_providers w))"
    and "cite_nothing (world_providers w)" "snapshot_reads_back parse (skip_wording w) out"
  shows "policy_verify (world_sha256 w) parse providers (Some later) out False
      = map (\<lambda>ref. if artifact_hash ref = None then NotVerifiable else Intact) (evidence out)
    \<and> ((\<forall>i p. world_providers w i = Inr p \<longrightarrow> fetch_document p \<noteq> None) \<longrightarrow>
         policy_verify (world_sha256 w) parse providers (Some later) out False
           = replicate (length (evidence out)) Intact)"
  using assms(1)
proof (cases rule: policy_evaluate_output)
  case (stopped c t)
  then have "policy_verify (world_sha256 w) parse providers (Some later) out False = []"
    by (simp add: policy_verify_def policy_evidence_def split: option.split)
  with stopped(2) show ?thesis by (simp add: policy_evidence_def)
next
  case (evaluated c b t query e cs rendered)
  let ?s = "snapshot_of w c t query (evidence_queries e) cs (evidence_merged e) rendered"
  let ?sha = "world_sha256 w" and ?known = "queried_corpora (evidence_queries e)"
  from evaluated(4) obtain v x where out: "out = policy_output w v cs ?s x"
    using conclude_output by metis
  note uncited = evidence_uncited [OF evaluated(2) assms(6)]
  have "\<exists>hs. cs = map (\<lambda>c. c\<lparr>escrowed_as := hs c\<rparr>) (evidence_contexts e)
      \<and> (\<forall>c \<in> set (evidence_contexts e). case hs c of
            None \<Rightarrow> unfetchable (world_providers w) ?known (passage_corpus c)
          | Some h \<Rightarrow> backed ?sha (world_providers w) table' c h) \<and> addressed ?sha table'"
  proof (cases "evidence_contexts e = []")
    case True
    with evaluated(3) assms(3) show ?thesis by simp
  next
    case False
    with evaluated(3) assms(2) have "escrow_documents ?sha (world_providers w) (evidence_queries e)
        (evidence_contexts e) True (request_decision_id request) table = (table', Inr cs)" by simp
    from escrow_documents_Inr [OF this assms(3)] uncited show ?thesis by blast
  qed
  then obtain hs where cs: "cs = map (\<lambda>c. c\<lparr>escrowed_as := hs c\<rparr>) (evidence_contexts e)"
    and backing: "\<And>c. c \<in> set (evidence_contexts e) \<Longrightarrow> case hs c of
        None \<Rightarrow> unfetchable (world_providers w) ?known (passage_corpus c)
      | Some h \<Rightarrow> backed ?sha (world_providers w) table' c h" and sound: "addressed ?sha table'" by blast
  from assms(7) have "snapshot_reads_back parse (skip_wording w) (policy_output w v cs ?s x)" by (simp only: out)
  from policy_verify_output [OF this, of ?sha providers "Some later"]
  have verify: "policy_verify ?sha parse providers (Some later) out False
      = map (\<lambda>c. policy_stored_status ?sha (Some later) (hd (policy_evidence [c])) c) cs"
    by (simp add: out snapshot_of_def)
  have status: "policy_stored_status ?sha (Some later) (hd (policy_evidence [c\<lparr>escrowed_as := hs c\<rparr>]))
      (c\<lparr>escrowed_as := hs c\<rparr>) = (if hs c = None then NotVerifiable else Intact)"
    if "c \<in> set (evidence_contexts e)" for c
  proof (cases "hs c")
    case None
    then show ?thesis by (simp add: policy_stored_status_def policy_evidence_def)
  next
    case (Some h)
    with backing [OF that] have "backed ?sha (world_providers w) table' (c\<lparr>escrowed_as := hs c\<rparr>) h"
      by (simp add: backed_def)
    from backed_verifies [OF this assms(4) sound assms(5)] Some show ?thesis
      by (simp add: policy_evidence_def)
  qed
  then have all: "policy_verify ?sha parse providers (Some later) out False
      = map (\<lambda>c. if hs c = None then NotVerifiable else Intact) (evidence_contexts e)"
    by (simp add: verify cs comp_def)
  have "hs c \<noteq> None" if "c \<in> set (evidence_contexts e)"
    "\<forall>i p. world_providers w i = Inr p \<longrightarrow> fetch_document p \<noteq> None" for c
  proof
    assume "hs c = None"
    with backing [OF that(1)] obtain i p where "world_providers w i = Inr p" "fetch_document p = None"
      by (auto simp: unfetchable_def)
    with that(2) show False by blast
  qed
  moreover have "map (\<lambda>ref. if artifact_hash ref = None then NotVerifiable else Intact) (evidence out)
      = map (\<lambda>c. if hs c = None then NotVerifiable else Intact) (evidence_contexts e)"
    by (simp add: out policy_evidence_def cs comp_def)
  moreover have "length (evidence out) = length (evidence_contexts e)" by (simp add: out cs)
  ultimately show ?thesis
    unfolding all by (auto simp: map_replicate_const [symmetric] intro!: map_cong)
qed

lemma policy_text_inj [simp]: "dump_text a = dump_text b \<longleftrightarrow> a = b"
  by (cases a; cases b) (simp_all add: dump_text_def)

lemma provenance_text_inj [simp]: "provenance_text a = provenance_text b \<longleftrightarrow> a = b"
  by (cases a; cases b) simp_all

lemma dump_context_inj: "inj dump_context"
proof (rule injI)
  fix c d :: retrieved_context
  assume same: "dump_context c = dump_context d"
  then have "span c = span d"
    by (cases "span c"; cases "span d") (auto simp: dump_context_def)
  moreover have "inj (\<lambda>(k :: ustr, x). (k, JFloat (Finite x)))" by (auto simp: inj_def)
  then have "scores c = scores d"
    using same by (simp add: dump_context_def inj_map_eq_map)
  ultimately show "c = d" using same by (simp add: dump_context_def)
qed

lemma dump_policy_snapshot_contexts:
  "dump_policy_snapshot wording s = dump_policy_snapshot wording t \<Longrightarrow> contexts s = contexts t"
  by (simp add: dump_policy_snapshot_def inj_map_eq_map [OF dump_context_inj])

theorem policy_evidence_verifies_witness:
  "\<exists>out parse. policy_evaluate ex_world ex_built (ex_policy_request (ex_submission Gate None False)) Map.empty
       = ([replicate 64 48 \<mapsto> ex_artifact], Inr out)
     \<and> policy_verify ex_digest parse ex_providers (Some [replicate 64 48 \<mapsto> ex_artifact]) out False = [Intact]"
proof -
  let ?cs = "[ex_passage\<lparr>escrowed_as := Some (replicate 64 48)\<rparr>]"
  let ?table = "[replicate 64 48 \<mapsto> ex_artifact]"
  obtain s where s: "policy_evaluate ex_world ex_built (ex_policy_request (ex_submission Gate None False)) Map.empty
      = (?table, Inr (conclude ex_world (ex_template [116]) ?cs s))" "contexts s = ?cs"
    using ex_evaluates by blast
  let ?out = "conclude ex_world (ex_template [116]) ?cs s"
  obtain v x where out: "?out = policy_output ex_world v ?cs s x" using conclude_output by metis
  have "addressed ex_digest Map.empty"
    by (simp add: addressed_def ex_digest_def sha256_hex_def list_all_iff)
  moreover have "inj_on ex_digest (artifact_bytes ` ran ?table \<union> fetchable ex_providers)"
  proof -
    have "fetchable ex_providers \<subseteq> {[72, 105]}"
      by (auto simp: fetchable_def ex_providers_def ex_provider_def ex_document_def ex_encoded)
    then have "artifact_bytes ` ran ?table \<union> fetchable ex_providers \<subseteq> {[72, 105]}"
      by (auto simp: ran_def ex_artifact_def)
    then show ?thesis by (rule inj_on_subset [rotated]) simp
  qed
  moreover have "cite_nothing ex_providers"
    by (simp add: cite_nothing_def ex_providers_def ex_provider_def ex_passage_def)
  moreover have "snapshot_reads_back (\<lambda>_. Some s) (skip_wording ex_world) ?out"
    unfolding out by (auto simp: snapshot_reads_back_def policy_output_def dest: dump_policy_snapshot_contexts)
  moreover have "fetch_document p \<noteq> None" if "ex_providers i = Inr p" for i p
    using that by (auto simp: ex_providers_def ex_provider_def)
  moreover have "world_sha256 ex_world = ex_digest" "world_providers ex_world = ex_providers"
    "world_escrow ex_world = Some True" by (simp_all add: ex_world_def)
  moreover have "length (evidence ?out) = 1" by (simp add: out)
  ultimately show ?thesis
    using s(1) policy_evidence_verifies [OF s(1), of ?table "\<lambda>_. Some s" ex_providers] by auto
qed

end
