(* ===== verification/Corpus_Chunks.thy ===== *)
theory Corpus_Chunks
  imports Policy_Render
begin

text \<open>
  How the corpus loader cuts a document into chunks and locates them
  (\<open>policy_rag_gate/corpus_loader.py\<close>): \<open>chunk_document\<close>, \<open>assign_chunk_ids\<close> and
  \<open>assign_spans\<close>.
\<close>

definition CHUNK_MAX_WORDS :: nat where
  "CHUNK_MAX_WORDS = 300"

definition CHUNK_MIN_WORDS :: nat where
  "CHUNK_MIN_WORDS = 30"

section \<open>Text\<close>

text \<open>\<open>len(s.split())\<close>: the maximal runs of other characters than whitespace.\<close>

fun words_from :: "bool \<Rightarrow> ustr \<Rightarrow> nat" where
  "words_from inside [] = 0"
| "words_from inside (c # cs) =
     (if c \<in> whitespace then words_from False cs
      else (if inside then 0 else 1) + words_from True cs)"

definition word_count :: "ustr \<Rightarrow> nat" where
  "word_count s = words_from False s"

text \<open>The lines of a text, each with its line feed.\<close>

fun lines_of :: "ustr \<Rightarrow> ustr list" where
  "lines_of [] = []"
| "lines_of (c # cs) =
     (if c = 10 then [10] # lines_of cs
      else (case lines_of cs of [] \<Rightarrow> [[c]] | l # ls \<Rightarrow> (c # l) # ls))"

text \<open>\<open>re.sub(r"^#(?!#)[^\n]*\n?", "", body, flags=re.MULTILINE)\<close>\<close>

definition h1_line :: "ustr \<Rightarrow> bool" where
  "h1_line l \<longleftrightarrow> starts_with [35] l \<and> \<not> starts_with [35, 35] l"

definition drop_h1 :: "ustr \<Rightarrow> ustr" where
  "drop_h1 body = concat (filter (\<lambda>l. \<not> h1_line l) (lines_of body))"

text \<open>\<open>re.split(r"\n(?=mark)", s)\<close>\<close>

fun split_before :: "ustr \<Rightarrow> ustr \<Rightarrow> ustr list" where
  "split_before mark [] = [[]]"
| "split_before mark (c # cs) =
     (if c = 10 \<and> starts_with mark cs then [] # split_before mark cs
      else (case split_before mark cs of [] \<Rightarrow> [[c]] | p # ps \<Rightarrow> (c # p) # ps))"

definition H2 :: ustr where
  "H2 = lit ''## ''"

definition H3 :: ustr where
  "H3 = lit ''### ''"

text \<open>\<open>s.split("\n", 1)\<close>: the heading, stripped of its number signs, and the rest, stripped.\<close>

definition heading_and_body :: "ustr \<Rightarrow> ustr \<times> ustr" where
  "heading_and_body section =
     (case partition_on 10 section of
        (first, rest) \<Rightarrow> (strip (dropWhile (\<lambda>c. c = 35) first),
                           case rest of None \<Rightarrow> [] | Some r \<Rightarrow> strip r))"

section \<open>Chunking\<close>

type_synonym titled = "ustr \<times> ustr"

definition subsection_chunk :: "ustr \<Rightarrow> ustr \<Rightarrow> titled list" where
  "subsection_chunk h2_heading part =
     (let h3_section = strip part
      in if h3_section = [] then []
         else case heading_and_body h3_section of
                (h3_heading, h3_body) \<Rightarrow> [(h2_heading @ lit '' > '' @ h3_heading, h3_body)])"

definition subsection_chunks :: "ustr \<Rightarrow> ustr \<Rightarrow> titled list" where
  "subsection_chunks h2_heading h2_body =
     (let parts = split_before H3 h2_body; preamble = strip (hd parts)
      in if starts_with H3 preamble then concat (map (subsection_chunk h2_heading) parts)
         else (if CHUNK_MIN_WORDS \<le> word_count preamble then [(h2_heading, preamble)] else [])
              @ concat (map (subsection_chunk h2_heading) (tl parts)))"

definition section_chunks :: "ustr \<Rightarrow> titled list" where
  "section_chunks part =
     (let section = strip part
      in if section = [] then []
         else if \<not> starts_with H2 section
         then (if CHUNK_MIN_WORDS \<le> word_count section then [(lit ''Overview'', section)] else [])
         else case heading_and_body section of
                (h2_heading, h2_body) \<Rightarrow>
                  if word_count h2_body \<le> CHUNK_MAX_WORDS then [(h2_heading, h2_body)]
                  else subsection_chunks h2_heading h2_body)"

fun merge_short :: "titled list \<Rightarrow> titled list" where
  "merge_short [] = []"
| "merge_short [(path, t)] = [(path, t)]"
| "merge_short ((path, t) # (next_path, next_text) # rest) =
     (if word_count t < CHUNK_MIN_WORDS then (path, t @ [10, 10] @ next_text) # merge_short rest
      else (path, t) # merge_short ((next_path, next_text) # rest))"

definition raw_chunks :: "ustr \<Rightarrow> titled list" where
  "raw_chunks body = concat (map section_chunks (split_before H2 (strip (drop_h1 body))))"

text \<open>\<open>PolicyDocument\<close>; the effective date is kept as its text.\<close>

datatype document_type = Regulation | Guidance | InternalPolicy | Standard

record policy_document =
  meta_policy :: ustr
  meta_title :: ustr
  meta_version :: ustr
  meta_jurisdiction :: ustr
  effective_date :: ustr
  supersedes_policy :: "ustr option"
  meta_risk_tier :: "ustr option"
  document_type :: document_type

record raw_chunk =
  chunk_policy :: ustr
  chunk_title :: ustr
  chunk_version :: ustr
  chunk_jurisdiction :: ustr
  chunk_risk_tier :: "ustr option"
  chunk_section :: ustr
  chunk_body :: ustr

definition chunk_document :: "policy_document \<Rightarrow> ustr \<Rightarrow> raw_chunk list" where
  "chunk_document doc body =
     map (\<lambda>(path, t).
           \<lparr>chunk_policy = meta_policy doc, chunk_title = meta_title doc,
            chunk_version = meta_version doc, chunk_jurisdiction = meta_jurisdiction doc,
            chunk_risk_tier = meta_risk_tier doc, chunk_section = path, chunk_body = t\<rparr>)
       (filter (\<lambda>(_, t). \<not> blank t) (merge_short (raw_chunks body)))"

section \<open>Ids and spans\<close>

definition ID_SEPARATOR :: nat where
  "ID_SEPARATOR = 31"

definition chunk_id :: "digest \<Rightarrow> ustr \<Rightarrow> ustr \<Rightarrow> ustr \<Rightarrow> ustr \<Rightarrow> nat \<Rightarrow> ustr option" where
  "chunk_id sha256 corpus document version path occurrence =
     text_digest sha256 (join [ID_SEPARATOR]
       ([corpus, document, version, path]
          @ (if 1 < occurrence then [nat_text occurrence] else [])))"

text \<open>\<open>assign_chunk_ids\<close>: \<open>before\<close> are the section paths seen so far.\<close>

fun chunk_ids_from :: "digest \<Rightarrow> ustr \<Rightarrow> ustr list \<Rightarrow> raw_chunk list \<Rightarrow> ustr list option" where
  "chunk_ids_from sha256 corpus before [] = Some []"
| "chunk_ids_from sha256 corpus before (c # cs) =
     (case chunk_id sha256 corpus (chunk_policy c) (chunk_version c) (chunk_section c)
             (count_list before (chunk_section c) + 1) of
        None \<Rightarrow> None
      | Some i \<Rightarrow> map_option ((#) i) (chunk_ids_from sha256 corpus (chunk_section c # before) cs))"

definition assign_chunk_ids :: "digest \<Rightarrow> ustr \<Rightarrow> raw_chunk list \<Rightarrow> ustr list option" where
  "assign_chunk_ids sha256 corpus cs = chunk_ids_from sha256 corpus [] cs"

fun spans_from :: "ustr \<Rightarrow> nat \<Rightarrow> raw_chunk list \<Rightarrow> (nat \<times> nat) option list" where
  "spans_from body cursor [] = []"
| "spans_from body cursor (c # cs) =
     (case find_from (chunk_body c) body cursor of
        None \<Rightarrow> None # spans_from body cursor cs
      | Some start \<Rightarrow>
          Some (start, start + length (chunk_body c))
            # spans_from body (start + length (chunk_body c)) cs)"

definition assign_spans :: "ustr \<Rightarrow> raw_chunk list \<Rightarrow> (nat \<times> nat) option list" where
  "assign_spans body cs = spans_from body 0 cs"

section \<open>The pieces of a document\<close>

declare occur_in_order.simps(2) [simp del]

lemma occur_in_orderI: "s = a @ p @ c \<Longrightarrow> occur_in_order ps c \<Longrightarrow> occur_in_order (p # ps) s"
  by (auto simp: occur_in_order.simps)

lemma occur_in_orderE:
  assumes "occur_in_order (p # ps) s"
  obtains a c where "s = a @ p @ c" "occur_in_order ps c"
  using assms by (auto simp: occur_in_order.simps)

lemma occur_in_order_trans:
  "occur_in_order qs p \<Longrightarrow> occur_in_order rs c \<Longrightarrow> occur_in_order (qs @ rs) (p @ c)"
proof (induction qs arbitrary: p)
  case Nil
  then show ?case by (simp add: occur_in_order_append)
next
  case (Cons q qs)
  from Cons.prems(1) obtain a d where p: "p = a @ q @ d" "occur_in_order qs d"
    by (rule occur_in_orderE)
  from occur_in_orderI [OF _ Cons.IH [OF p(2) Cons.prems(2)]] show ?case by (simp add: p(1))
qed

lemma occur_in_order_refine:
  assumes "\<And>p. p \<in> set ps \<Longrightarrow> occur_in_order (f p) p"
  shows "occur_in_order ps s \<Longrightarrow> occur_in_order (concat (map f ps)) s"
  using assms
proof (induction ps arbitrary: s)
  case (Cons p ps)
  from Cons.prems(1) obtain a c where s: "s = a @ p @ c" "occur_in_order ps c"
    by (rule occur_in_orderE)
  with Cons have "occur_in_order (concat (map f ps)) c" by simp
  with Cons.prems(2) have "occur_in_order (f p @ concat (map f ps)) (p @ c)"
    by (simp add: occur_in_order_trans)
  then show ?case by (simp add: s(1) occur_in_order_append)
qed simp

lemma occur_in_order_tail: "occur_in_order (p # ps) s \<Longrightarrow> occur_in_order ps s"
  by (elim occur_in_orderE) (metis append_assoc occur_in_order_append)

lemma occur_in_order_filter: "occur_in_order ps s \<Longrightarrow> occur_in_order (filter P ps) s"
proof (induction ps arbitrary: s)
  case (Cons p ps)
  from Cons.prems obtain a c where s: "s = a @ p @ c" "occur_in_order ps c"
    by (rule occur_in_orderE)
  from occur_in_orderI [OF s(1) Cons.IH [OF s(2)]] show ?case
    using occur_in_order_tail by simp
qed simp

lemma occur_in_order_within:
  assumes "occur_in_order ps s" shows "occur_in_order ps (a @ s @ b)"
proof -
  have "occur_in_order (ps @ []) (s @ b)" by (rule occur_in_order_trans [OF assms]) simp
  then show ?thesis by (simp add: occur_in_order_append)
qed

lemma occur_in_order_last: "occur_in_order (ps @ qs) s \<Longrightarrow> occur_in_order qs s"
  by (induction ps) (auto dest: occur_in_order_tail)

lemma strip_part: "\<exists>a b. s = a @ strip s @ b"
proof -
  let ?w = "\<lambda>c. c \<in> whitespace"
  have "s = takeWhile ?w s @ dropWhile ?w s" by simp
  moreover have "dropWhile ?w s = rev (dropWhile ?w (rev (dropWhile ?w s)))
      @ rev (takeWhile ?w (rev (dropWhile ?w s)))"
    by (metis rev_append rev_rev_ident takeWhile_dropWhile_id)
  ultimately show ?thesis unfolding strip_def by metis
qed

lemma occur_in_order_strip: "occur_in_order ps (strip s) \<Longrightarrow> occur_in_order ps s"
  using occur_in_order_within strip_part by metis

lemma occurs_itself [simp]: "occur_in_order [s] s"
  by (rule occur_in_orderI [of _ "[]" _ "[]"]) simp_all

lemma pieces_joined: "occur_in_order (p # ps) (p @ concat (map ((@) sep) ps))"
proof (induction ps arbitrary: p)
  case (Cons q ps)
  have "occur_in_order (q # ps) (sep @ q @ concat (map ((@) sep) ps))"
    by (rule occur_in_order_append [OF Cons.IH])
  then show ?case
    by (intro occur_in_orderI [of _ "[]" p "sep @ q @ concat (map ((@) sep) ps)"]) simp_all
qed simp

lemma split_before_joined:
  "\<exists>p ps. split_before mark s = p # ps \<and> s = p @ concat (map ((@) [10]) ps)"
proof (induction mark s rule: split_before.induct)
  case (2 mark c cs)
  show ?case
  proof (cases "c = 10 \<and> starts_with mark cs")
    case True
    with 2(1) [OF True] show ?thesis by auto
  next
    case False
    from 2(2) [OF False] obtain p ps where "split_before mark cs = p # ps"
      "cs = p @ concat (map ((@) [10]) ps)" by blast
    with False have "split_before mark (c # cs) = (c # p) # ps \<and> c # cs = (c # p) @ concat (map ((@) [10]) ps)"
      by simp
    then show ?thesis by blast
  qed
qed simp

lemma split_before_pieces: "occur_in_order (split_before mark s) s" "split_before mark s \<noteq> []"
proof -
  from split_before_joined obtain p ps where
    "split_before mark s = p # ps" "s = p @ concat (map ((@) [10]) ps)" by blast
  with pieces_joined [of p ps "[10]"] show "occur_in_order (split_before mark s) s" "split_before mark s \<noteq> []"
    by simp_all
qed

lemma split_paragraphs_joined:
  "\<exists>p ps. split_paragraphs s = p # ps \<and> s = p @ concat (map ((@) [10, 10]) ps)"
proof (induction s rule: split_paragraphs.induct)
  case (3 c d s)
  show ?case
  proof (cases "c = 10 \<and> d = 10")
    case True
    with 3(1) [OF True] show ?thesis by auto
  next
    case False
    from 3(2) [OF False] obtain p ps where ps: "split_paragraphs (d # s) = p # ps"
      "d # s = p @ concat (map ((@) [10, 10]) ps)" by blast
    have "split_paragraphs (c # d # s) = (c # p) # ps" using False ps(1) by simp
    moreover have "c # d # s = (c # p) @ concat (map ((@) [10, 10]) ps)" using ps(2) by simp
    ultimately show ?thesis by blast
  qed
qed simp_all

lemma split_paragraphs_pieces: "occur_in_order (split_paragraphs s) s"
proof -
  from split_paragraphs_joined obtain p ps where
    "split_paragraphs s = p # ps" "s = p @ concat (map ((@) [10, 10]) ps)" by blast
  with pieces_joined [of p ps "[10, 10]"] show ?thesis by simp
qed

lemma split_paragraphs_merged:
  "t = [] \<or> last t \<noteq> 10 \<Longrightarrow> split_paragraphs (t @ [10, 10] @ u) = split_paragraphs t @ split_paragraphs u"
proof (induction t rule: split_paragraphs.induct)
  case (3 c d s)
  show ?case
  proof (cases "c = 10 \<and> d = 10")
    case True
    with 3 show ?thesis by (auto split: if_splits)
  next
    case False
    then have "\<not> (c = 10 \<and> d = 10)" .
    then have "split_paragraphs ((c # d # s) @ [10, 10] @ u)
        = (case split_paragraphs ((d # s) @ [10, 10] @ u) of [] \<Rightarrow> [[c]] | p # ps \<Rightarrow> (c # p) # ps)"
      by (simp only: append_Cons split_paragraphs.simps if_False)
    also have "split_paragraphs ((d # s) @ [10, 10] @ u) = split_paragraphs (d # s) @ split_paragraphs u"
      using 3 False by simp
    finally show ?thesis
      using False split_paragraphs_joined [of "d # s"] by (auto split: list.splits)
  qed
qed auto

section \<open>Every chunk is made of pieces of its document\<close>

definition trimmed :: "ustr \<Rightarrow> bool" where
  "trimmed t \<longleftrightarrow> t = [] \<or> last t \<notin> whitespace"

lemma trimmed_strip [simp]: "trimmed (strip s)"
proof -
  let ?w = "\<lambda>c. c \<in> whitespace"
  have "last (rev xs) \<notin> whitespace" if "xs = dropWhile ?w ys" "xs \<noteq> []" for xs ys
    using that hd_dropWhile [of ?w ys] by (simp add: last_rev)
  then show ?thesis unfolding trimmed_def strip_def by (metis rev.simps(1))
qed

lemma heading_body_pieces:
  "trimmed (snd (heading_and_body section)) \<and> occur_in_order [snd (heading_and_body section)] section"
proof (cases "partition_on 10 section")
  case (Pair first rest)
  from partition_on_text [OF this] have whole: "section = first @ (case rest of None \<Rightarrow> [] | Some t \<Rightarrow> 10 # t)"
    by blast
  show ?thesis
  proof (cases rest)
    case None
    then show ?thesis
      by (simp add: heading_and_body_def Pair trimmed_def occur_in_orderI [of _ "[]" "[]" "section"])
  next
    case (Some t)
    have "occur_in_order [strip t] ((first @ [10]) @ t)"
      by (rule occur_in_order_append [OF occur_in_order_strip [OF occurs_itself]])
    moreover have "snd (heading_and_body section) = strip t" by (simp add: heading_and_body_def Pair Some)
    moreover have "section = (first @ [10]) @ t" using whole Some by simp
    ultimately show ?thesis by simp
  qed
qed

lemma subsection_chunk_pieces:
  "list_all trimmed (map snd (subsection_chunk h part)) \<and> occur_in_order (map snd (subsection_chunk h part)) part"
proof (cases "strip part = []")
  case False
  obtain h3 body where hb: "heading_and_body (strip part) = (h3, body)" by fastforce
  with heading_body_pieces [of "strip part"] have "trimmed body" "occur_in_order [body] (strip part)"
    by simp_all
  then show ?thesis using False by (simp add: subsection_chunk_def hb occur_in_order_strip)
qed (simp add: subsection_chunk_def)

lemma subsection_chunks_pieces:
  "list_all trimmed (map snd (subsection_chunks h body)) \<and> occur_in_order (map snd (subsection_chunks h body)) body"
proof -
  let ?parts = "split_before H3 body" and ?f = "\<lambda>part. map snd (subsection_chunk h part)"
  obtain p ps where parts: "?parts = p # ps" using split_before_pieces(2) by (cases ?parts) auto
  have order: "occur_in_order (p # ps) body" using split_before_pieces(1) [of H3 body] by (simp only: parts)
  have trims: "list_all trimmed (concat (map ?f qs))" for qs
    using subsection_chunk_pieces by (induction qs) auto
  have all: "occur_in_order (concat (map ?f (p # ps))) body"
    by (rule occur_in_order_refine [OF _ order]) (simp add: subsection_chunk_pieces)
  have first: "occur_in_order ([strip p] @ concat (map ?f ps)) body"
  proof -
    from order obtain a c where body: "body = a @ p @ c" "occur_in_order ps c"
      by (rule occur_in_orderE)
    have "occur_in_order (concat (map ?f ps)) c"
      by (rule occur_in_order_refine [OF _ body(2)]) (simp add: subsection_chunk_pieces)
    then have "occur_in_order ([strip p] @ concat (map ?f ps)) (p @ c)"
      by (rule occur_in_order_trans [OF occur_in_order_strip [OF occurs_itself]])
    then show ?thesis unfolding body(1) by (rule occur_in_order_append)
  qed
  with occur_in_order_last have rest: "occur_in_order (concat (map ?f ps)) body" by blast
  show ?thesis
    using all first rest trims [of "p # ps"] trims [of ps]
    by (simp add: subsection_chunks_def parts Let_def map_concat comp_def)
qed

lemma section_chunks_pieces:
  "list_all trimmed (map snd (section_chunks part)) \<and> occur_in_order (map snd (section_chunks part)) part"
proof -
  let ?s = "strip part"
  have "list_all trimmed (map snd (section_chunks part)) \<and> occur_in_order (map snd (section_chunks part)) ?s"
  proof (cases "heading_and_body ?s")
    case (Pair h body)
    with heading_body_pieces [of ?s] have body: "trimmed body" "occur_in_order [body] ?s" by auto
    then obtain a c where s: "?s = a @ body @ c" by (auto elim: occur_in_orderE)
    from subsection_chunks_pieces [of h body] have
      "occur_in_order (map snd (subsection_chunks h body)) ?s" unfolding s by (blast intro: occur_in_order_within)
    with subsection_chunks_pieces [of h body] body show ?thesis
      by (simp add: section_chunks_def Let_def Pair)
  qed
  then show ?thesis by (blast intro: occur_in_order_strip)
qed

lemma raw_chunks_pieces:
  "list_all trimmed (map snd (raw_chunks body))
    \<and> occur_in_order (map snd (raw_chunks body)) (strip (drop_h1 body))"
proof -
  let ?s = "strip (drop_h1 body)" and ?f = "\<lambda>part. map snd (section_chunks part)"
  have "list_all trimmed (concat (map ?f qs))" for qs
    using section_chunks_pieces by (induction qs) auto
  moreover have "occur_in_order (concat (map ?f (split_before H2 ?s))) ?s"
    by (rule occur_in_order_refine [OF _ split_before_pieces(1)]) (simp add: section_chunks_pieces)
  ultimately show ?thesis by (simp add: raw_chunks_def map_concat comp_def)
qed

lemma merge_short_pieces:
  assumes "(path, t) \<in> set (merge_short xs)" "occur_in_order (map snd xs) s"
  shows "(t \<in> snd ` set xs \<and> occur_in_order [t] s)
    \<or> (\<exists>t1 t2. t = t1 @ [10, 10] @ t2 \<and> t1 \<in> snd ` set xs \<and> occur_in_order [t1, t2] s)"
  using assms
proof (induction xs arbitrary: s rule: merge_short.induct)
  case (3 p1 t1 p2 t2 rest)
  from 3(4) have all: "occur_in_order (t1 # t2 # map snd rest) s" by simp
  note rest = occur_in_order_tail [OF all]
  show ?case
  proof (cases "word_count t1 < CHUNK_MIN_WORDS")
    case True
    with 3(3) consider "t = t1 @ [10, 10] @ t2" | "(path, t) \<in> set (merge_short rest)" by auto
    then show ?thesis
    proof cases
      case 1
      moreover have "occur_in_order [t1, t2] s"
        using all occur_in_order_trans [of "[t1, t2]"] by (auto elim!: occur_in_orderE intro!: occur_in_orderI)
      ultimately show ?thesis by auto
    next
      case 2
      from 3(1) [OF True 2 occur_in_order_tail [OF rest]] show ?thesis by auto
    qed
  next
    case False
    with 3(3) consider "t = t1" | "(path, t) \<in> set (merge_short ((p2, t2) # rest))" by auto
    then show ?thesis
    proof cases
      case 1
      with all show ?thesis by (auto elim!: occur_in_orderE intro!: occur_in_orderI)
    next
      case 2
      from 3(2) [OF False 2] rest show ?thesis by auto
    qed
  qed
qed auto

text \<open>
  A document whose top-level headings leave the rest of it in one piece: then every chunk's
  paragraphs occur in it in order.
\<close>

definition in_one_piece :: "ustr \<Rightarrow> bool" where
  "in_one_piece body \<longleftrightarrow> find_text (strip (drop_h1 body)) body \<noteq> None"

lemma chunk_paragraphs:
  assumes "r \<in> set (chunk_document doc body)" "in_one_piece body"
  shows "paragraphs_found body 0 (split_paragraphs (chunk_body r))"
proof -
  from assms(2) obtain i where "find_text (strip (drop_h1 body)) body = Some i" by (auto simp: in_one_piece_def)
  from find_text_Some [OF this] obtain a b where body: "body = a @ strip (drop_h1 body) @ b" by blast
  from assms(1) obtain path where "(path, chunk_body r) \<in> set (merge_short (raw_chunks body))"
    by (auto simp: chunk_document_def)
  from merge_short_pieces [OF this] raw_chunks_pieces [of body] consider
    "occur_in_order [chunk_body r] (strip (drop_h1 body))"
    | t1 t2 where "chunk_body r = t1 @ [10, 10] @ t2" "trimmed t1" "occur_in_order [t1, t2] (strip (drop_h1 body))"
    by (fastforce simp: list_all_iff)
  then have "occur_in_order (split_paragraphs (chunk_body r)) (strip (drop_h1 body))"
  proof cases
    case 1
    from occur_in_order_refine [of "[chunk_body r]" split_paragraphs, OF _ 1] split_paragraphs_pieces
    show ?thesis by simp
  next
    case 2
    from 2(2) have "t1 = [] \<or> last t1 \<noteq> 10" by (auto simp: trimmed_def whitespace_def)
    from split_paragraphs_merged [OF this, of t2] 2(1)
    have "split_paragraphs (chunk_body r) = concat (map split_paragraphs [t1, t2])" by simp
    with occur_in_order_refine [of "[t1, t2]" split_paragraphs, OF _ 2(3)] split_paragraphs_pieces
    show ?thesis by simp
  qed
  from occur_in_order_within [OF this, of a b] have "occur_in_order (split_paragraphs (chunk_body r)) body"
    using body by simp
  then show ?thesis by (subst paragraphs_found_iff) (simp_all add: occur_in_order_filter)
qed

text \<open>A located chunk is the slice its span names.\<close>

lemma spans_from_slices:
  assumes "(r, Some (start, stop)) \<in> set (zip cs (spans_from body cursor cs))"
  shows "start \<le> stop \<and> stop \<le> length body \<and> text_slice body (int start) (int stop) = chunk_body r"
  using assms
proof (induction cs arbitrary: cursor)
  case (Cons c cs)
  show ?case
  proof (cases "find_from (chunk_body c) body cursor")
    case (Some i)
    then obtain j where j: "cursor \<le> length body" "find_text (chunk_body c) (drop cursor body) = Some j"
      "i = cursor + j" by (auto simp: find_from_def split: if_splits)
    from find_text_Some [OF j(2)] obtain d where d: "drop cursor body = take j (drop cursor body) @ chunk_body c @ d"
      "j \<le> length (drop cursor body)" by blast
    have body: "body = take i body @ chunk_body c @ d"
      using d(1) by (simp add: j(3) take_add)
    have i: "length (take i body) = i" using d(2) j(1,3) by simp
    have "i + length (chunk_body c) \<le> length body"
      using arg_cong [OF body, of length] i by simp
    moreover have "take (length (chunk_body c)) (drop i body) = chunk_body c"
      using arg_cong [OF body, of "drop i"] i by simp
    ultimately show ?thesis
      using Cons.prems Cons.IH [of "i + length (chunk_body c)"]
      by (auto simp: Some text_slice_def clamp_def simp flip: of_nat_add)
  qed (use Cons in auto)
qed simp

end
