(* ===== verification/Reference_Provider.thy ===== *)
theory Reference_Provider
  imports Corpus_Chunks
begin

text \<open>
  The reference retrieval provider: its tables (\<open>sql/02_tables.sql\<close>), the hybrid retriever
  (\<open>retriever.py\<close>) and the provider (\<open>providers/reference.py\<close>). The vector search, the BM25
  search and the cross-encoder are parameters, as is the rounding of a float operation.
\<close>

section \<open>The stores\<close>

record chunk = raw_chunk +
  chunk_key :: ustr
  chunk_span :: "(int \<times> int) option"

record corpus_row =
  manifest :: ustr
  loaded_documents :: nat
  loaded_at :: ustr
  source_dir :: ustr

record document_row =
  held_document :: ustr
  held_version :: ustr
  held_title :: ustr
  held_hash :: ustr
  held_body :: ustr
  held_metadata :: json_obj
  source_path :: ustr

text \<open>
  \<open>policy_rag.corpora\<close>, \<open>documents\<close> and \<open>policy_chunks\<close>, and the Elasticsearch index; a row
  stands with the corpus it belongs to. The embedding of a chunk is a function of its text. Of
  the index's mappings only the type of \<open>corpus_id\<close> matters; \<open>None\<close> is no index.
\<close>

record reference_store =
  corpus_rows :: "ustr \<rightharpoonup> corpus_row"
  document_rows :: "(ustr \<times> document_row) list"
  chunk_rows :: "(ustr \<times> chunk) list"
  search_index :: "(ustr \<times> chunk) list"
  index_mappings :: "ustr option list option"

definition document_row_key :: "ustr \<times> document_row \<Rightarrow> ustr \<times> ustr \<times> ustr" where
  "document_row_key row = (fst row, held_document (snd row), held_version (snd row))"

definition chunk_document_key :: "ustr \<times> chunk \<Rightarrow> ustr \<times> ustr \<times> ustr" where
  "chunk_document_key row = (fst row, chunk_policy (snd row), chunk_version (snd row))"

text \<open>The keys, references and checks of the tables.\<close>

definition tables_hold :: "reference_store \<Rightarrow> bool" where
  "tables_hold store \<longleftrightarrow>
     distinct (map document_row_key (document_rows store))
     \<and> (\<forall>row \<in> set (document_rows store). corpus_rows store (fst row) \<noteq> None)
     \<and> distinct (map (chunk_key \<circ> snd) (chunk_rows store))
     \<and> chunk_document_key ` set (chunk_rows store) \<subseteq> document_row_key ` set (document_rows store)
     \<and> (\<forall>row \<in> set (chunk_rows store).
          pred_option (\<lambda>(start, stop). 0 \<le> start \<and> start \<le> stop) (chunk_span (snd row)))"

section \<open>The retriever\<close>

datatype retrieval_path = Reranked | RrfOnly

fun path_text :: "retrieval_path \<Rightarrow> ustr" where
  "path_text Reranked = lit ''reranked''"
| "path_text RrfOnly = lit ''rrf_only''"

record scored_chunk =
  scored_key :: ustr
  scored_document :: ustr
  scored_title :: ustr
  scored_version :: ustr
  scored_jurisdiction :: ustr
  scored_section :: ustr
  scored_body :: ustr
  relevance_score :: rat
  scored_path :: retrieval_path
  scored_span :: "(int \<times> int) option"

text \<open>
  The search engines: the nearest rows of those the \<open>where\<close> clause keeps, with their
  similarity; the best hits of those the filter keeps; the model that scores pairs and the time
  it took, in milliseconds; and rounding.
\<close>

record engines =
  nearest :: "ustr \<Rightarrow> nat \<Rightarrow> (ustr \<times> chunk) list \<Rightarrow> (chunk \<times> rat) list"
  best_hits :: "ustr \<Rightarrow> nat \<Rightarrow> (ustr \<times> chunk) list \<Rightarrow> chunk list"
  cross_encoder :: "((ustr \<times> ustr) list \<Rightarrow> rat list) option"
  rerank_elapsed :: "(ustr \<times> ustr) list \<Rightarrow> rat"
  rerank_timeout :: rat
  round_float :: "rat \<Rightarrow> rat"

text \<open>\<open>_row_to_chunk\<close> and \<open>_source_to_chunk\<close>; a blank title falls back to the document id.\<close>

definition to_scored :: "chunk \<Rightarrow> rat \<Rightarrow> scored_chunk" where
  "to_scored c score =
     \<lparr>scored_key = chunk_key c, scored_document = chunk_policy c,
      scored_title = (if chunk_title c = [] then chunk_policy c else chunk_title c),
      scored_version = chunk_version c, scored_jurisdiction = chunk_jurisdiction c,
      scored_section = chunk_section c, scored_body = chunk_body c, relevance_score = score,
      scored_path = RrfOnly, scored_span = chunk_span c\<rparr>"

text \<open>A filter that is absent or empty keeps everything.\<close>

definition asks :: "'a list option \<Rightarrow> ('a list \<Rightarrow> bool) \<Rightarrow> bool" where
  "asks given holds \<longleftrightarrow> (case given of None \<Rightarrow> True | Some xs \<Rightarrow> xs = [] \<or> holds xs)"

definition dense_search ::
    "engines \<Rightarrow> reference_store \<Rightarrow> ustr \<Rightarrow> nat \<Rightarrow> ustr option \<Rightarrow> ustr list option \<Rightarrow> ustr option
      \<Rightarrow> scored_chunk list" where
  "dense_search en store query k corpus js risk_tier =
     map (\<lambda>(c, score). to_scored c score)
       (nearest en query k
          (filter (\<lambda>(held_by, c).
              asks corpus (\<lambda>i. held_by = i) \<and> asks js (\<lambda>js. chunk_jurisdiction c \<in> set js)
              \<and> asks risk_tier (\<lambda>t. chunk_risk_tier c = Some t \<or> chunk_risk_tier c = None))
            (chunk_rows store)))"

definition sparse_search ::
    "engines \<Rightarrow> reference_store \<Rightarrow> ustr \<Rightarrow> nat \<Rightarrow> ustr option \<Rightarrow> ustr list option \<Rightarrow> scored_chunk list" where
  "sparse_search en store query k corpus js =
     map (\<lambda>c. to_scored c 0)
       (best_hits en query k
          (filter (\<lambda>(held_by, c).
              asks corpus (\<lambda>i. held_by = i) \<and> asks js (\<lambda>js. chunk_jurisdiction c \<in> set js))
            (search_index store)))"

definition RRF_K :: nat where
  "RRF_K = 60"

text \<open>The scores are a dictionary: a key keeps the place of its first insertion.\<close>

fun add_ranks ::
    "(rat \<Rightarrow> rat) \<Rightarrow> nat \<Rightarrow> scored_chunk list \<Rightarrow> (ustr \<times> rat) list \<Rightarrow> (ustr \<times> rat) list" where
  "add_ranks rnd place [] so_far = so_far"
| "add_ranks rnd place (c # cs) so_far =
     add_ranks rnd (place + 1) cs
       (AList.update (scored_key c)
          (rnd ((case map_of so_far (scored_key c) of None \<Rightarrow> 0 | Some s \<Rightarrow> s)
                 + rnd (1 / of_nat (RRF_K + place)))) so_far)"

definition fused_scores ::
    "(rat \<Rightarrow> rat) \<Rightarrow> scored_chunk list \<Rightarrow> scored_chunk list \<Rightarrow> (ustr \<times> rat) list" where
  "fused_scores rnd dense sparse = add_ranks rnd 1 sparse (add_ranks rnd 1 dense [])"

text \<open>A chunk both legs returned is the dense leg's, the last one if it names it twice.\<close>

definition fused_chunks :: "scored_chunk list \<Rightarrow> scored_chunk list \<Rightarrow> ustr \<rightharpoonup> scored_chunk" where
  "fused_chunks dense sparse =
     map_of (map (\<lambda>c. (scored_key c, c)) sparse)
       ++ map_of (rev (map (\<lambda>c. (scored_key c, c)) dense))"

definition rrf_fuse ::
    "(rat \<Rightarrow> rat) \<Rightarrow> scored_chunk list \<Rightarrow> scored_chunk list \<Rightarrow> nat \<Rightarrow> scored_chunk list" where
  "rrf_fuse rnd dense sparse k =
     map (\<lambda>(key, score). (the (fused_chunks dense sparse key))\<lparr>relevance_score := score\<rparr>)
       (take k (sort_key (\<lambda>(key, score). - score) (fused_scores rnd dense sparse)))"

definition rerank ::
    "engines \<Rightarrow> ustr \<Rightarrow> scored_chunk list \<Rightarrow> nat \<Rightarrow> scored_chunk list \<times> retrieval_path" where
  "rerank en query candidates k =
     (case cross_encoder en of
        None \<Rightarrow> (take k candidates, RrfOnly)
      | Some predict \<Rightarrow>
          let pairs = map (\<lambda>c. (query, scored_body c)) candidates
          in if candidates = [] \<or> rerank_timeout en < rerank_elapsed en pairs
             then (take k candidates, RrfOnly)
             else (map (\<lambda>(score, c). c\<lparr>relevance_score := score, scored_path := Reranked\<rparr>)
                     (take k (sort_key (\<lambda>(score, _). - score) (zip (predict pairs) candidates))),
                   Reranked))"

definition retrieve_chunks ::
    "engines \<Rightarrow> reference_store \<Rightarrow> ustr \<Rightarrow> nat \<Rightarrow> ustr option \<Rightarrow> ustr list option \<Rightarrow> ustr option
      \<Rightarrow> scored_chunk list \<times> retrieval_path" where
  "retrieve_chunks en store query k corpus js risk_tier =
     (let candidate_k = k * 2;
          dense = dense_search en store query candidate_k corpus js risk_tier;
          sparse = sparse_search en store query candidate_k corpus js
      in rerank en query (rrf_fuse (round_float en) dense sparse candidate_k) k)"

section \<open>The provider\<close>

definition REFERENCE_PROVIDER_ID :: ustr where
  "REFERENCE_PROVIDER_ID = lit ''reference''"

definition REFERENCE_PROVIDER_VERSION :: ustr where
  "REFERENCE_PROVIDER_VERSION =
     lit ''reference-1 (all-MiniLM-L6-v2; cross-encoder/ms-marco-MiniLM-L-6-v2)''"

datatype reference_error =
    TakesNoResource ustr ustr
  | CorpusNotLoaded ustr
  | NeedsVersion ustr ustr
  | NotHeld ustr ustr ustr
  | PassageNotValid nat
  | DocumentNotValid

definition takes_no_resource :: "corpus_ref \<Rightarrow> reference_error + unit" where
  "takes_no_resource corpus =
     (case corpus_resource corpus of
        None \<Rightarrow> Inr () | Some r \<Rightarrow> Inl (TakesNoResource (corpus_id corpus) r))"

definition describe_corpus :: "reference_store \<Rightarrow> corpus_ref \<Rightarrow> reference_error + corpus_state" where
  "describe_corpus store corpus =
     rbind (takes_no_resource corpus) (\<lambda>_.
     (case corpus_rows store (corpus_id corpus) of
        None \<Rightarrow> Inl (CorpusNotLoaded (corpus_id corpus))
      | Some row \<Rightarrow>
          Inr \<lparr>state_corpus = corpus_id corpus, state_provider = REFERENCE_PROVIDER_ID,
               provider_version = REFERENCE_PROVIDER_VERSION, state_marker = Some (manifest row),
               state_provenance = PinnedVersion, document_count = Some (loaded_documents row),
               updated_at = Some (loaded_at row)\<rparr>))"

text \<open>The text and the front matter Postgres holds of a chunk of the corpus, by id.\<close>

definition held_chunk :: "reference_store \<Rightarrow> ustr \<Rightarrow> ustr \<rightharpoonup> ustr \<times> json_obj" where
  "held_chunk store corpus key =
     map_of (rev [(chunk_key (snd c), (chunk_body (snd c), held_metadata (snd d))).
         c \<leftarrow> chunk_rows store, d \<leftarrow> document_rows store,
         fst c = corpus \<and> chunk_document_key c = document_row_key d]) key"

definition to_context ::
    "digest \<Rightarrow> corpus_ref \<Rightarrow> nat \<Rightarrow> json_obj \<Rightarrow> scored_chunk \<Rightarrow> reference_error + retrieved_context" where
  "to_context sha256 corpus r metadata c =
     (case text_digest sha256 (scored_body c) of
        None \<Rightarrow> Inl (PassageNotValid r)
      | Some h \<Rightarrow>
          let context = \<lparr>passage_corpus = corpus_id corpus, passage_provider = REFERENCE_PROVIDER_ID,
               passage_resource = None, passage_tier = corpus_tier corpus,
               document_id = scored_document c, document_uri = None, document_title = scored_title c,
               document_version = Some (scored_version c),
               jurisdiction = (if scored_jurisdiction c = [] then None else Some (scored_jurisdiction c)),
               section_path = Some (scored_section c), span = scored_span c,
               passage_text = scored_body c, passage_hash = h, prompted_text = None, rank = r,
               scores = [(if scored_path c = Reranked then lit ''rerank'' else lit ''rrf'',
                          relevance_score c)],
               provider_chunk_id = Some (scored_key c), provenance = PinnedVersion,
               document_metadata = metadata, escrowed_as = None\<rparr>
          in if context_valid sha256 context then Inr context else Inl (PassageNotValid r))"

definition retrieve_passages ::
    "digest \<Rightarrow> engines \<Rightarrow> reference_store \<Rightarrow> ustr \<Rightarrow> corpus_ref \<Rightarrow> nat \<Rightarrow> ustr list option \<Rightarrow> ustr option
      \<Rightarrow> reference_error + provider_result" where
  "retrieve_passages sha256 en store query corpus k js risk_tier =
     rbind (describe_corpus store corpus) (\<lambda>state.
       let requested = (if cross_encoder en = None then RrfOnly else Reranked);
           (chunks, applied) = retrieve_chunks en store query k (Some (corpus_id corpus)) js risk_tier;
           held = held_chunk store (corpus_id corpus);
           kept = filter (\<lambda>c. map_option fst (held (scored_key c)) = Some (scored_body c)) chunks
       in rbind (rmap (\<lambda>(r, c). to_context sha256 corpus r (snd (the (held (scored_key c)))) c)
                   (enumerate 1 kept)) (\<lambda>contexts.
          Inr \<lparr>result_state = state, result_contexts = contexts,
               result_requested = path_text requested,
               result_applied = path_text (if chunks = [] then requested else applied)\<rparr>))"

definition fetch_version ::
    "digest \<Rightarrow> reference_store \<Rightarrow> corpus_ref \<Rightarrow> ustr \<Rightarrow> ustr option \<Rightarrow> reference_error + document_blob" where
  "fetch_version sha256 store corpus document version =
     rbind (takes_no_resource corpus) (\<lambda>_.
     (case version of
        None \<Rightarrow> Inl (NeedsVersion (corpus_id corpus) document)
      | Some v \<Rightarrow>
     (case corpus_rows store (corpus_id corpus) of
        None \<Rightarrow> Inl (CorpusNotLoaded (corpus_id corpus))
      | Some _ \<Rightarrow>
     (case find (\<lambda>d. document_row_key d = (corpus_id corpus, document, v)) (document_rows store) of
        None \<Rightarrow> Inl (NotHeld (corpus_id corpus) v document)
      | Some (_, row) \<Rightarrow>
     (case text_digest sha256 (held_body row) of
        None \<Rightarrow> Inl DocumentNotValid
      | Some h \<Rightarrow>
          let blob = \<lparr>blob_corpus = corpus_id corpus, blob_document = document, blob_version = Some v,
               blob_title = held_title row, blob_media_type = lit ''text/markdown'',
               blob_text = held_body row, blob_hash = h, blob_metadata = held_metadata row\<rparr>
          in if blob_valid sha256 blob then Inr blob else Inl DocumentNotValid)))))"

text \<open>The provider as the gate sees it; the text of an error is a parameter.\<close>

definition reference_provider ::
    "digest \<Rightarrow> engines \<Rightarrow> (reference_error \<Rightarrow> ustr) \<Rightarrow> reference_store \<Rightarrow> provider" where
  "reference_provider sha256 en wording store =
     \<lparr>describe = (\<lambda>corpus. map_sum wording id (describe_corpus store corpus)),
      retrieve = (\<lambda>query corpus k js risk_tier.
        map_sum wording (\<lambda>r. AnswersResult \<lparr>raw_state = Inr (result_state r),
            raw_contexts = map Inr (result_contexts r), raw_requested = result_requested r,
            raw_applied = result_applied r\<rparr>)
          (retrieve_passages sha256 en store query corpus k js risk_tier)),
      fetch_document = Some (\<lambda>corpus document version.
        map_sum (\<lambda>e. case e of NotHeld _ _ _ \<Rightarrow> DocumentNotHeld (wording e) | _ \<Rightarrow> FetchRaised (wording e))
          FetchedDocument (fetch_version sha256 store corpus document version))\<rparr>"

end
