(* ===== verification/Corpus_Loader.thy ===== *)
theory Corpus_Loader
  imports Reference_Provider
begin

text \<open>
  Loading a corpus into the reference provider (\<open>policy_rag_gate/corpus_loader.py\<close>): reading the
  documents, the manifest, replacing the corpus in both stores, and the command itself. YAML,
  the validation of front matter, SHA-256, \<open>repr\<close> of a float and the file system are parameters.
\<close>

section \<open>Reading documents\<close>

record corpus_document =
  front_matter :: policy_document
  parsed_body :: ustr
  parsed_metadata :: json_obj
  parsed_path :: ustr

datatype parse_error =
    MissingFrontMatter | MalformedDelimiter | MalformedYaml | NotADocument | NotJsonSafe

definition FENCE :: ustr where
  "FENCE = lit ''---''"

text \<open>\<open>raw.split("---", 2)\<close> of a text that starts with the fence: the front matter and the rest.\<close>

definition fenced :: "ustr \<Rightarrow> parse_error + ustr \<times> ustr" where
  "fenced raw =
     (if \<not> starts_with FENCE raw then Inl MissingFrontMatter
      else let rest = drop (length FENCE) raw
           in case find_text FENCE rest of
                None \<Rightarrow> Inl MalformedDelimiter
              | Some i \<Rightarrow> Inr (take i rest, drop (i + length FENCE) rest))"

record 'y front_matter_reader =
  safe_load :: "ustr \<Rightarrow> 'y option"
  model_validate :: "'y \<Rightarrow> policy_document option"
  json_safe :: "'y \<Rightarrow> json_obj option"

definition parse_document ::
    "'y front_matter_reader \<Rightarrow> ustr \<Rightarrow> parse_error + policy_document \<times> ustr" where
  "parse_document reader raw =
     rbind (fenced raw) (\<lambda>(front, rest).
     (case safe_load reader front of
        None \<Rightarrow> Inl MalformedYaml
      | Some y \<Rightarrow>
     (case model_validate reader y of
        None \<Rightarrow> Inl NotADocument
      | Some doc \<Rightarrow> Inr (doc, strip rest))))"

definition read_document ::
    "'y front_matter_reader \<Rightarrow> ustr \<times> ustr \<Rightarrow> parse_error + corpus_document" where
  "read_document reader entry =
     (case entry of (path, raw) \<Rightarrow>
        rbind (parse_document reader raw) (\<lambda>(doc, body).
        rbind (fenced raw) (\<lambda>(front, _).
        (case Option.bind (safe_load reader front) (json_safe reader) of
           None \<Rightarrow> Inl NotJsonSafe
         | Some metadata \<Rightarrow>
             Inr \<lparr>front_matter = doc, parsed_body = body, parsed_metadata = metadata, parsed_path = path\<rparr>))))"

section \<open>The manifest\<close>

definition manifest_line ::
    "digest \<Rightarrow> (rat \<Rightarrow> ustr) \<Rightarrow> corpus_document \<Rightarrow> ustr option" where
  "manifest_line sha256 float_repr doc =
     Option.bind (text_digest sha256 (parsed_body doc)) (\<lambda>h.
     Option.bind (text_digest sha256 (canonical_text float_repr (JObj (parsed_metadata doc)))) (\<lambda>m.
       Some (join [ID_SEPARATOR] [meta_policy (front_matter doc), meta_version (front_matter doc), h, m])))"

definition manifest_hash ::
    "digest \<Rightarrow> (rat \<Rightarrow> ustr) \<Rightarrow> corpus_document list \<Rightarrow> ustr option" where
  "manifest_hash sha256 float_repr docs =
     Option.bind (those (map (manifest_line sha256 float_repr) docs)) (\<lambda>lines.
       text_digest sha256 (join [10] (sort lines)))"

definition duplicate_documents :: "corpus_document list \<Rightarrow> ustr list" where
  "duplicate_documents docs =
     repeated (map (\<lambda>d. meta_policy (front_matter d) @ [64] @ meta_version (front_matter d)) docs)"

section \<open>Chunks ready to store\<close>

definition finished_chunk :: "raw_chunk \<Rightarrow> ustr \<Rightarrow> (nat \<times> nat) option \<Rightarrow> chunk" where
  "finished_chunk r key located =
     raw_chunk.extend r (chunk.fields key (map_option (\<lambda>(a, b). (int a, int b)) located))"

text \<open>The chunks of one document; \<open>None\<close> is a lone surrogate no digest can be taken of.\<close>

definition document_chunks :: "digest \<Rightarrow> ustr \<Rightarrow> corpus_document \<Rightarrow> chunk list option" where
  "document_chunks sha256 corpus doc =
     (let raws = chunk_document (front_matter doc) (parsed_body doc)
      in map_option (\<lambda>keys.
           map (\<lambda>(r, key, located). finished_chunk r key located)
             (zip raws (zip keys (assign_spans (parsed_body doc) raws))))
         (assign_chunk_ids sha256 corpus raws))"

section \<open>Writing the stores\<close>

definition document_row_of :: "digest \<Rightarrow> ustr \<Rightarrow> corpus_document \<Rightarrow> ustr \<times> document_row" where
  "document_row_of sha256 corpus doc =
     (corpus, \<lparr>held_document = meta_policy (front_matter doc), held_version = meta_version (front_matter doc),
               held_title = meta_title (front_matter doc),
               held_hash = the (text_digest sha256 (parsed_body doc)), held_body = parsed_body doc,
               held_metadata = parsed_metadata doc, source_path = parsed_path doc\<rparr>)"

text \<open>
  One transaction: the corpus's row is written, its documents and their chunks are deleted, and
  the new ones inserted; \<open>None\<close> is a constraint that does not hold, which rolls it back.
\<close>

definition write_postgres ::
    "digest \<Rightarrow> ustr \<Rightarrow> corpus_row \<Rightarrow> corpus_document list \<Rightarrow> chunk list \<Rightarrow> reference_store
      \<Rightarrow> reference_store option" where
  "write_postgres sha256 corpus row docs chunks store =
     (let store' = store\<lparr>corpus_rows := (corpus_rows store)(corpus \<mapsto> row),
            document_rows := filter (\<lambda>r. fst r \<noteq> corpus) (document_rows store) @ map (document_row_of sha256 corpus) docs,
            chunk_rows := filter (\<lambda>r. fst r \<noteq> corpus) (chunk_rows store) @ map (\<lambda>c. (corpus, c)) chunks\<rparr>
      in if tables_hold store' then Some store' else None)"

fun bulk :: "ustr \<Rightarrow> chunk list \<Rightarrow> (ustr \<times> chunk) list \<Rightarrow> (ustr \<times> chunk) list" where
  "bulk corpus [] index = index"
| "bulk corpus (c # cs) index =
     bulk corpus cs (filter (\<lambda>(_, d). chunk_key d \<noteq> chunk_key c) index @ [(corpus, c)])"

text \<open>The result of \<open>write_elasticsearch\<close>: the store, and how many stale chunks it deleted.\<close>

definition write_elasticsearch ::
    "ustr \<Rightarrow> bool \<Rightarrow> chunk list \<Rightarrow> reference_store \<Rightarrow> reference_store \<times> nat" where
  "write_elasticsearch corpus wipe chunks store =
     (let wiped = (if wipe then filter (\<lambda>(i, _). i \<noteq> corpus) (search_index store) else search_index store);
          written = bulk corpus chunks wiped;
          stale = (\<lambda>(i, d). i = corpus \<and> chunk_key d \<notin> chunk_key ` set chunks)
      in (store\<lparr>search_index := filter (\<lambda>e. \<not> stale e) written\<rparr>, length (filter stale written)))"

datatype index_outcome = IndexCreated | IndexRecreated | IndexKept

definition KEYWORD :: ustr where
  "KEYWORD = lit ''keyword''"

definition corpus_id_is_keyword :: "ustr option list \<Rightarrow> bool" where
  "corpus_id_is_keyword mappings \<longleftrightarrow> list_all (\<lambda>m. m = Some KEYWORD) mappings \<and> mappings \<noteq> []"

definition ensure_es_index :: "reference_store \<Rightarrow> reference_store \<times> index_outcome" where
  "ensure_es_index store =
     (let fresh = store\<lparr>index_mappings := Some [Some KEYWORD], search_index := []\<rparr>
      in case index_mappings store of
           None \<Rightarrow> (fresh, IndexCreated)
         | Some mappings \<Rightarrow>
             if corpus_id_is_keyword mappings then (store, IndexKept) else (fresh, IndexRecreated))"

section \<open>Where the documents are\<close>

datatype directory_error = NoSuchReasoner ustr | AssetsUnreadable ustr

text \<open>
  A composed plugin is its reasoner's id and its corpus directory. Under the asset root a
  directory is looked up by id; the lookup may fail.
\<close>

definition resolve_corpus_dir ::
    "ustr \<Rightarrow> ustr option \<Rightarrow> (ustr \<times> ustr) list \<Rightarrow> (ustr \<Rightarrow> ustr + ustr \<times> bool) option
      \<Rightarrow> directory_error + ustr" where
  "resolve_corpus_dir reasoner given plugins assets_root =
     (case given of
        Some dir \<Rightarrow> Inr dir
      | None \<Rightarrow>
     (case find (\<lambda>(i, _). i = reasoner) plugins of
        Some (_, dir) \<Rightarrow> Inr dir
      | None \<Rightarrow>
     (case assets_root of
        None \<Rightarrow> Inl (NoSuchReasoner reasoner)
      | Some locate \<Rightarrow>
          if \<not> is_id reasoner then Inl (AssetsUnreadable reasoner)
          else (case locate reasoner of
                  Inl e \<Rightarrow> Inl (AssetsUnreadable e)
                | Inr (dir, present) \<Rightarrow> if present then Inr dir else Inl (NoSuchReasoner reasoner)))))"

section \<open>The command\<close>

datatype load_error =
    NotACorpusId ustr
  | NoFiles
  | UnreadableDocuments "ustr list"
  | NoDocuments
  | DuplicateDocuments "ustr list"
  | NotEncodable
  | ConstraintViolated

text \<open>
  \<open>main\<close>, given the corpus directory's files in order: one load, under the corpus's lock.
\<close>

definition load_corpus ::
    "digest \<Rightarrow> (rat \<Rightarrow> ustr) \<Rightarrow> 'y front_matter_reader \<Rightarrow> ustr \<Rightarrow> ustr \<Rightarrow> ustr \<Rightarrow> bool
      \<Rightarrow> (ustr \<times> ustr) list \<Rightarrow> reference_store \<Rightarrow> reference_store \<times> (load_error + nat)" where
  "load_corpus sha256 float_repr reader corpus dir now wipe files store =
     (if \<not> is_id corpus \<or> 128 < length corpus then (store, Inl (NotACorpusId corpus))
      else if files = [] then (store, Inl NoFiles)
      else
        let answers = map (read_document reader) files;
            docs = concat (map (\<lambda>a. case a of Inl _ \<Rightarrow> [] | Inr d \<Rightarrow> [d]) answers);
            unreadable = concat (map (\<lambda>(f, a). case a of Inl _ \<Rightarrow> [fst f] | Inr _ \<Rightarrow> [])
              (zip files answers))
        in (case those (map (document_chunks sha256 corpus) docs) of
              None \<Rightarrow> (store, Inl NotEncodable)
            | Some chunked \<Rightarrow>
                if unreadable \<noteq> [] then (store, Inl (UnreadableDocuments unreadable))
                else if docs = [] then (store, Inl NoDocuments)
                else if duplicate_documents docs \<noteq> []
                then (store, Inl (DuplicateDocuments (duplicate_documents docs)))
                else (case manifest_hash sha256 float_repr docs of
                        None \<Rightarrow> (store, Inl NotEncodable)
                      | Some h \<Rightarrow>
                          let chunks = concat chunked;
                              row = \<lparr>manifest = h, loaded_documents = length docs, loaded_at = now,
                                     source_dir = dir\<rparr>
                          in (case write_postgres sha256 corpus row docs chunks store of
                                None \<Rightarrow> (store, Inl ConstraintViolated)
                              | Some store' \<Rightarrow>
                                  apsnd Inr (write_elasticsearch corpus wipe chunks
                                    (fst (ensure_es_index store')))))))"

end
