(* ===== verification/Fusion_Claims.thy ===== *)
theory Fusion_Claims
  imports Corpus_Loader Policy_Precedence
begin

text \<open>
  Reciprocal rank fusion: what the fused list holds, and that it respects what both rankings
  agree on, whatever the rounding of the scores.
\<close>

section \<open>Places\<close>

lemma index_of_nth: "distinct xs \<Longrightarrow> i < length xs \<Longrightarrow> index_of (xs ! i) xs = i"
  by (induction xs arbitrary: i) (auto simp: nth_Cons split: nat.splits)

lemma index_of_less [simp]: "index_of x xs < length xs \<longleftrightarrow> x \<in> set xs"
  by (induction xs) auto

lemma index_of_append: "index_of x (xs @ ys) = (if x \<in> set xs then index_of x xs else length xs + index_of x ys)"
  by (induction xs) auto

lemma index_of_filter:
  "index_of a xs < index_of b xs \<Longrightarrow> P a \<Longrightarrow> index_of a (filter P xs) < index_of b (filter P xs)"
  by (induction xs) (auto split: if_splits)

lemma ahead_in_prefix:
  fixes h :: "'a \<Rightarrow> 'k::linorder"
  assumes "sorted_wrt (\<lambda>x y. h x < h y) xs" "b \<in> set (take k xs)" "a \<in> set xs" "h a \<le> h b"
    and "inj_on f (set xs)"
  shows "f a \<in> set (map f (take k xs)) \<and> index_of (f a) (map f (take k xs)) \<le> index_of (f b) (map f (take k xs))"
proof -
  from assms(2,3) obtain i j where ij: "i < length xs" "a = xs ! i" "j < length xs" "j < k" "b = xs ! j"
    by (auto simp: in_set_conv_nth)
  have "i \<le> j"
  proof (rule ccontr)
    assume "\<not> i \<le> j"
    then have "h (xs ! j) < h (xs ! i)" using assms(1) ij by (auto simp: sorted_wrt_iff_nth_less)
    with assms(4) ij show False by simp
  qed
  have "distinct xs"
    using assms(1) by (auto simp: sorted_wrt_iff_nth_less distinct_conv_nth) (metis less_irrefl linorder_neqE_nat)
  then have "distinct (map f (take k xs))"
    using assms(5) by (auto simp: distinct_map intro: inj_on_subset dest: in_set_takeD)
  from index_of_nth [OF this, of i] index_of_nth [OF this, of j] show ?thesis
    using ij \<open>i \<le> j\<close> by (auto simp: in_set_conv_nth intro!: image_eqI [of _ f "xs ! i"] exI [of _ i])
qed

section \<open>The scores\<close>

text \<open>Rounding to the nearest float is monotone, and exact on floats and on zero.\<close>

definition rounding :: "(rat \<Rightarrow> rat) \<Rightarrow> bool" where
  "rounding rnd \<longleftrightarrow> (\<forall>x y. x \<le> y \<longrightarrow> rnd x \<le> rnd y) \<and> (\<forall>x. rnd (rnd x) = rnd x) \<and> rnd 0 = 0"

fun leg_place :: "scored_chunk list \<Rightarrow> ustr \<Rightarrow> nat option" where
  "leg_place [] key = None"
| "leg_place (c # cs) key = (if scored_key c = key then Some 0 else map_option Suc (leg_place cs key))"

lemma leg_place_None: "leg_place leg key = None \<longleftrightarrow> key \<notin> scored_key ` set leg"
  by (induction leg) auto

lemma leg_place_index: "leg_place leg key = (if key \<in> scored_key ` set leg then Some (index_of key (map scored_key leg)) else None)"
  by (induction leg) auto

definition leg_score :: "(rat \<Rightarrow> rat) \<Rightarrow> nat option \<Rightarrow> rat" where
  "leg_score rnd at_place = (case at_place of None \<Rightarrow> 0 | Some j \<Rightarrow> rnd (1 / of_nat (RRF_K + 1 + j)))"

text \<open>One ranking places \<open>a\<close> no lower than \<open>b\<close>; a chunk it does not hold is below all it holds.\<close>

definition no_lower :: "scored_chunk list \<Rightarrow> ustr \<Rightarrow> ustr \<Rightarrow> bool" where
  "no_lower leg a b \<longleftrightarrow>
     (case leg_place leg b of
        None \<Rightarrow> True | Some j \<Rightarrow> (case leg_place leg a of None \<Rightarrow> False | Some i \<Rightarrow> i \<le> j))"

lemma leg_score_no_lower:
  assumes "rounding rnd" "no_lower leg a b"
  shows "leg_score rnd (leg_place leg b) \<le> leg_score rnd (leg_place leg a)"
proof -
  have nonneg: "0 \<le> leg_score rnd p" for p
  proof (cases p)
    case (Some j)
    have "rnd 0 \<le> rnd (1 / of_nat (RRF_K + 1 + j))"
      using assms(1) unfolding rounding_def by (metis of_nat_0_le_iff zero_le_divide_1_iff)
    with assms(1) Some show ?thesis by (simp add: rounding_def leg_score_def)
  qed (simp add: leg_score_def)
  have "rnd (1 / of_nat (RRF_K + 1 + j)) \<le> rnd (1 / of_nat (RRF_K + 1 + i))" if "i \<le> j" for i j
  proof -
    have "1 / (of_nat (RRF_K + 1 + j) :: rat) \<le> 1 / of_nat (RRF_K + 1 + i)"
      using that by (intro divide_left_mono) (simp_all add: RRF_K_def)
    with assms(1) show ?thesis by (simp only: rounding_def)
  qed
  note down = this
  show ?thesis
  proof (cases "leg_place leg b")
    case None
    then show ?thesis using nonneg [of "leg_place leg a"] by (simp add: leg_score_def)
  next
    case (Some j)
    with assms(2) obtain i where "leg_place leg a = Some i" "i \<le> j"
      by (auto simp: no_lower_def split: option.splits)
    with Some down show ?thesis by (simp add: leg_score_def del: of_nat_add)
  qed
qed

lemma add_ranks_keys:
  "distinct (map scored_key leg) \<Longrightarrow>
     map fst (add_ranks rnd p leg so_far)
       = map fst so_far @ filter (\<lambda>k. k \<notin> fst ` set so_far) (map scored_key leg)"
proof (induction leg arbitrary: p so_far)
  case (Cons c cs)
  have "filter (\<lambda>k. k \<notin> insert (scored_key c) (fst ` set so_far)) (map scored_key cs)
      = filter (\<lambda>k. k \<notin> fst ` set so_far) (map scored_key cs)"
    by (rule filter_cong) (use Cons.prems in \<open>auto simp: image_iff\<close>)
  moreover have "fst ` set (AList.update (scored_key c) v so_far) = insert (scored_key c) (fst ` set so_far)" for v
    by (simp add: dom_update)
  ultimately show ?case using Cons by (simp add: update_keys)
qed simp

lemma add_ranks_score:
  "distinct (map scored_key leg) \<Longrightarrow>
     map_of (add_ranks rnd p leg so_far) key
       = (case leg_place leg key of
            None \<Rightarrow> map_of so_far key
          | Some j \<Rightarrow> Some (rnd ((case map_of so_far key of None \<Rightarrow> 0 | Some s \<Rightarrow> s)
                        + rnd (1 / of_nat (RRF_K + p + j)))))"
proof (induction leg arbitrary: p so_far)
  case (Cons c cs)
  from Cons.prems have none: "leg_place cs (scored_key c) = None" by (simp add: leg_place_None)
  show ?case
  proof (cases "scored_key c = key")
    case True
    with Cons none show ?thesis by (simp add: update_conv')
  next
    case False
    with Cons show ?thesis by (simp add: update_conv' add.commute add.left_commute split: option.split)
  qed
qed simp

lemma fused_keys:
  assumes "distinct (map scored_key dense)" "distinct (map scored_key sparse)"
  shows "map fst (fused_scores rnd dense sparse)
    = map scored_key dense @ filter (\<lambda>k. k \<notin> set (map scored_key dense)) (map scored_key sparse)"
proof -
  have "map fst (add_ranks rnd 1 dense []) = map scored_key dense"
    using add_ranks_keys [OF assms(1), of rnd 1 "[]"] by simp
  then show ?thesis
    using add_ranks_keys [OF assms(2), of rnd 1 "add_ranks rnd 1 dense []"]
    by (simp add: fused_scores_def flip: set_map)
qed

lemma fused_score:
  assumes "distinct (map scored_key dense)" "distinct (map scored_key sparse)" "rounding rnd"
    and "(key, score) \<in> set (fused_scores rnd dense sparse)"
  shows "score = rnd (leg_score rnd (leg_place dense key) + leg_score rnd (leg_place sparse key))"
proof -
  from fused_keys [OF assms(1,2)] assms(1,2) have "distinct (map fst (fused_scores rnd dense sparse))"
    by auto
  with assms(4) have "map_of (fused_scores rnd dense sparse) key = Some score" by simp
  with assms(1-3) show ?thesis
    by (auto simp: fused_scores_def add_ranks_score leg_score_def rounding_def split: option.splits)
qed

lemma fused_chunk:
  assumes "i \<in> scored_key ` (set dense \<union> set sparse)"
  shows "\<exists>c \<in> set dense \<union> set sparse. fused_chunks dense sparse i = Some c \<and> scored_key c = i"
proof -
  have from_leg: "c \<in> set leg \<and> scored_key c = i" if "map_of (map (\<lambda>c. (scored_key c, c)) leg) i = Some c" for leg c
    using map_of_SomeD [OF that] by auto
  have some: "map_of (map (\<lambda>c. (scored_key c, c)) leg) i \<noteq> None" if "i \<in> scored_key ` set leg" for leg
    using that by (simp add: map_of_eq_None_iff image_image)
  have dense: "map_of (rev (map (\<lambda>c. (scored_key c, c)) dense)) = map_of (map (\<lambda>c. (scored_key c, c)) (rev dense))"
    by (simp only: rev_map)
  show ?thesis
  proof (cases "map_of (map (\<lambda>c. (scored_key c, c)) (rev dense)) i")
    case None
    with some [of "rev dense"] assms have "i \<in> scored_key ` set sparse" by auto
    from some [OF this] obtain c where c: "map_of (map (\<lambda>c. (scored_key c, c)) sparse) i = Some c" by blast
    then have "fused_chunks dense sparse i = Some c"
      unfolding fused_chunks_def dense by (simp only: map_add_def None option.case)
    with from_leg [OF c] show ?thesis by blast
  next
    case (Some c)
    then have "fused_chunks dense sparse i = Some c"
      unfolding fused_chunks_def dense by (simp only: map_add_def option.case)
    with from_leg [OF Some] show ?thesis by auto
  qed
qed

lemma no_lower_place:
  assumes "distinct (map scored_key dense)" "distinct (map scored_key sparse)"
    and "no_lower dense a b" "no_lower sparse a b" "b \<in> scored_key ` (set dense \<union> set sparse)"
  shows "a \<in> scored_key ` (set dense \<union> set sparse)
    \<and> index_of a (map fst (fused_scores rnd dense sparse)) \<le> index_of b (map fst (fused_scores rnd dense sparse))"
proof (cases "a = b")
  case False
  have leg: "a \<in> scored_key ` set leg \<and> index_of a (map scored_key leg) < index_of b (map scored_key leg)"
    if "no_lower leg a b" "b \<in> scored_key ` set leg" for leg
  proof -
    from that have le: "a \<in> scored_key ` set leg" "index_of a (map scored_key leg) \<le> index_of b (map scored_key leg)"
      by (auto simp: no_lower_def leg_place_index split: if_splits)
    have "index_of a xs \<noteq> index_of b xs" if "a \<in> set xs" for xs
      using that False by (induction xs) auto
    with le show ?thesis by (metis order_le_imp_less_or_eq set_map)
  qed
  show ?thesis
  proof (cases "b \<in> scored_key ` set dense")
    case True
    with leg [OF assms(3) True] show ?thesis
      by (auto simp: fused_keys [OF assms(1,2)] index_of_append)
  next
    case b: False
    with assms(5) have sparse: "b \<in> scored_key ` set sparse" by auto
    note a = leg [OF assms(4) sparse]
    show ?thesis
    proof (cases "a \<in> scored_key ` set dense")
      case True
      then have "index_of a (map scored_key dense) < length dense"
        using index_of_less [of a "map scored_key dense"] by simp
      with True a b show ?thesis by (auto simp: fused_keys [OF assms(1,2)] index_of_append)
    next
      case False
      from index_of_filter [of a "map scored_key sparse" b "\<lambda>k. k \<notin> scored_key ` set dense"] a b False
      show ?thesis by (auto simp: fused_keys [OF assms(1,2)] index_of_append)
    qed
  qed
qed (use assms(5) in simp)

text \<open>
  C35: Fusion respects agreement. Fusing two rankings gives, best score first, each chunk of
  either once, as many as asked for; and a chunk that neither ranking places below another
  stands before it in the fused list, however the scores are rounded. A chunk one ranking does
  not hold counts as below all it holds.
\<close>

theorem fusion_respects_agreement:
  assumes "rounding rnd" "distinct (map scored_key dense)" "distinct (map scored_key sparse)"
    and fused_def: "fused = rrf_fuse rnd dense sparse k"
  shows "distinct (map scored_key fused)
    \<and> scored_key ` set fused \<subseteq> scored_key ` (set dense \<union> set sparse)
    \<and> length fused = min k (card (scored_key ` (set dense \<union> set sparse)))
    \<and> sorted_wrt (\<lambda>c d. relevance_score d \<le> relevance_score c) fused
    \<and> (\<forall>a b. b \<in> scored_key ` set fused \<longrightarrow> no_lower dense a b \<longrightarrow> no_lower sparse a b \<longrightarrow>
         a \<in> scored_key ` set fused
         \<and> index_of a (map scored_key fused) \<le> index_of b (map scored_key fused))"
proof -
  let ?all = "fused_scores rnd dense sparse" and ?h = "\<lambda>(key, score). (- score :: rat)"
  let ?best = "sort_key ?h ?all" and ?keys = "scored_key ` (set dense \<union> set sparse)"
  let ?place = "\<lambda>e. index_of (fst e) (map fst ?all)"
  note keys = fused_keys [OF assms(2,3), of rnd]
  have distinct: "distinct (map fst ?all)" unfolding keys using assms(2,3) by auto
  have set: "fst ` set ?all = ?keys" using arg_cong [OF keys, of set] by auto
  have fused: "map scored_key fused = map fst (take k ?best)"
    unfolding fused_def rrf_fuse_def map_map
  proof (rule map_cong [OF refl])
    fix e assume "e \<in> set (take k ?best)"
    then have "fst e \<in> ?keys" using set by (auto dest!: in_set_takeD)
    from fused_chunk [OF this] show "(scored_key \<circ> (\<lambda>(key, score).
        the (fused_chunks dense sparse key)\<lparr>relevance_score := score\<rparr>)) e = fst e"
      by (auto simp: split_beta)
  qed
  have scores: "map relevance_score fused = map snd (take k ?best)"
    by (simp add: fused_def rrf_fuse_def split_beta)
  have "sorted_wrt (\<lambda>x y. snd y \<le> snd x) ?best"
    using sorted_sort_key [of ?h ?all] by (simp add: sorted_map split_beta)
  then have "sorted_wrt (\<lambda>x y. y \<le> x) (map snd (take k ?best))"
    by (simp only: sorted_wrt_map sorted_wrt_take)
  then have "sorted_wrt (\<lambda>x y. y \<le> x) (map relevance_score fused)" by (simp only: scores)
  then have descending: "sorted_wrt (\<lambda>c d. relevance_score d \<le> relevance_score c) fused"
    by (simp only: sorted_wrt_map)
  have "sorted_wrt (\<lambda>x y. ?place x < ?place y) ?all"
    using index_of_sorted [OF distinct] by (simp add: sorted_wrt_map)
  note sorted = sort_key_stable_lex [OF this, of ?h]
  have inj: "inj_on fst (set ?all)" using distinct by (simp add: distinct_map)
  have agreement: "a \<in> scored_key ` set fused
      \<and> index_of a (map scored_key fused) \<le> index_of b (map scored_key fused)"
    if b: "b \<in> scored_key ` set fused" and lower: "no_lower dense a b" "no_lower sparse a b" for a b
  proof -
    from b have "b \<in> set (map fst (take k ?best))" by (simp flip: fused)
    then obtain sb where sb: "(b, sb) \<in> set (take k ?best)" by auto
    then have "(b, sb) \<in> set ?all" by (auto dest: in_set_takeD)
    then have "b \<in> ?keys" unfolding set [symmetric] by force
    from no_lower_place [OF assms(2,3) lower this] have a: "a \<in> ?keys" "?place (a, s) \<le> ?place (b, t)" for s t
      by simp_all
    then obtain sa where sa: "(a, sa) \<in> set ?all" unfolding set [symmetric] by auto
    note score = fused_score [OF assms(2,3,1)]
    have "sb \<le> sa"
      unfolding score [OF sa] score [OF \<open>(b, sb) \<in> set ?all\<close>]
      using assms(1) leg_score_no_lower [OF assms(1) lower(1)] leg_score_no_lower [OF assms(1) lower(2)]
      by (simp add: rounding_def add_mono)
    with a(2) have "(?h (a, sa), ?place (a, sa)) \<le> (?h (b, sb), ?place (b, sb))" by auto
    from ahead_in_prefix [OF sorted sb _ this, of fst] sa inj show ?thesis
      by (simp add: fused flip: set_map)
  qed
  have "distinct (map fst (take k ?best))"
    using distinct inj by (auto simp: distinct_map intro: inj_on_subset dest!: in_set_takeD)
  then have "distinct (map scored_key fused)" by (simp only: fused)
  moreover have "fst ` set (take k ?best) \<subseteq> fst ` set ?all" by (auto dest!: in_set_takeD)
  then have "scored_key ` set fused \<subseteq> ?keys" using arg_cong [OF fused, of set] set by simp
  moreover have "length fused = min k (card ?keys)"
    using arg_cong [OF fused, of length] distinct_card [OF distinct] set by simp
  ultimately show ?thesis using descending agreement by blast
qed

definition ex_scored :: "nat \<Rightarrow> scored_chunk" where
  "ex_scored n =
     \<lparr>scored_key = [n], scored_document = [100], scored_title = [84], scored_version = [49],
      scored_jurisdiction = [], scored_section = [115], scored_body = [72, 105],
      relevance_score = 0, scored_path = RrfOnly, scored_span = None\<rparr>"

theorem fusion_respects_agreement_witness:
  "length (rrf_fuse (\<lambda>x. x) [ex_scored 1, ex_scored 2] [ex_scored 3, ex_scored 2] 2) = 2
   \<and> [2] \<in> scored_key ` set (rrf_fuse (\<lambda>x. x) [ex_scored 2, ex_scored 1] [ex_scored 2, ex_scored 1] 1)"
proof -
  have rounding: "rounding (\<lambda>x. x)" by (simp add: rounding_def)
  have "card {[1], [2], [3 :: nat]} = 3" by simp
  moreover have "scored_key ` (set [ex_scored 1, ex_scored 2] \<union> set [ex_scored 3, ex_scored 2]) = {[1], [2], [3]}"
    by (auto simp: ex_scored_def)
  ultimately have "length (rrf_fuse (\<lambda>x. x) [ex_scored 1, ex_scored 2] [ex_scored 3, ex_scored 2] 2) = 2"
    using fusion_respects_agreement [OF rounding, of "[ex_scored 1, ex_scored 2]"
        "[ex_scored 3, ex_scored 2]" _ 2, OF _ _ refl] by (simp add: ex_scored_def)
  moreover
  let ?leg = "[ex_scored 2, ex_scored 1]" and ?fused = "rrf_fuse (\<lambda>x. x) [ex_scored 2, ex_scored 1] [ex_scored 2, ex_scored 1] 1"
  have legs: "distinct (map scored_key ?leg)" by (simp add: ex_scored_def)
  have fused: "length ?fused = min 1 (card (scored_key ` (set ?leg \<union> set ?leg)))"
    "scored_key ` set ?fused \<subseteq> scored_key ` (set ?leg \<union> set ?leg)"
    "\<And>a b. b \<in> scored_key ` set ?fused \<Longrightarrow> no_lower ?leg a b \<Longrightarrow> a \<in> scored_key ` set ?fused"
    using fusion_respects_agreement [OF rounding legs legs refl, of 1] by blast+
  have "scored_key ` (set ?leg \<union> set ?leg) = {[1], [2]}" by (auto simp: ex_scored_def)
  with fused(1,2) obtain b where "b \<in> scored_key ` set ?fused" "b \<in> {[1], [2]}"
    by (cases ?fused) auto
  with fused(3) [of b "[2]"] have "[2] \<in> scored_key ` set ?fused"
    by (auto simp: no_lower_def ex_scored_def)
  ultimately show ?thesis by blast
qed

end
