(* ===== verification/Reference_Claims.thy ===== *)
theory Reference_Claims
  imports Fusion_Claims Policy_Examples
begin

text \<open>
  What loading a corpus gives the gate: the two stores agree, the reference provider answers
  for the corpus within the evidence contract, and every passage it returns is held by the
  document it fetches.
\<close>

section \<open>The stores agree\<close>

definition chunk_held :: "ustr \<Rightarrow> chunk \<Rightarrow> bool" where
  "chunk_held body c =
     (case chunk_span c of
        Some (start, stop) \<Rightarrow> stop \<le> int (length body) \<and> text_slice body start stop = chunk_body c
      | None \<Rightarrow> paragraphs_found body 0 (split_paragraphs (chunk_body c)))"

definition backed_chunk :: "reference_store \<Rightarrow> ustr \<times> chunk \<Rightarrow> bool" where
  "backed_chunk store row \<longleftrightarrow>
     row \<in> set (chunk_rows store) \<and> list_all encodable (chunk_body (snd row))
     \<and> (\<exists>d. (fst row, d) \<in> set (document_rows store)
          \<and> document_row_key (fst row, d) = chunk_document_key row \<and> chunk_held (held_body d) (snd row))"

definition stores_agree :: "reference_store \<Rightarrow> bool" where
  "stores_agree store \<longleftrightarrow>
     tables_hold store \<and> (\<forall>row \<in> set (document_rows store). list_all encodable (held_body (snd row)))
     \<and> (\<forall>row \<in> set (chunk_rows store) \<union> set (search_index store). backed_chunk store row)"

lemma passage_holds_chunk:
  assumes "chunk_held body c" "passage_text p = chunk_body c" "span p = chunk_span c"
    and "text_digest sha256 (passage_text p) = Some (passage_hash p)"
  shows "passage_holds sha256 body p"
  using assms by (auto simp: chunk_held_def passage_holds_def split: option.splits)

lemma encode_utf8_Some [simp]: "(\<exists>bs. encode_utf8 s = Some bs) \<longleftrightarrow> list_all encodable s"
  by (simp add: encode_utf8_def)

lemma text_digest_Some: "text_digest sha256 s \<noteq> None \<longleftrightarrow> list_all encodable s"
  by (simp add: text_digest_def encode_utf8_def)

section \<open>The chunks of a document\<close>

lemma occur_in_order_set: "occur_in_order ps s \<Longrightarrow> p \<in> set ps \<Longrightarrow> set p \<subseteq> set s"
proof (induction ps arbitrary: s)
  case (Cons q ps)
  from Cons.prems(1) obtain a c where s: "s = a @ q @ c" "occur_in_order ps c" by (rule occur_in_orderE)
  with Cons show ?case by auto
qed simp

lemma concat_lines_of [simp]: "concat (lines_of s) = s"
proof (induction s rule: lines_of.induct)
  case (2 c cs)
  then show ?case by (auto split: list.splits)
qed simp

lemma set_drop_h1: "set (drop_h1 body) \<subseteq> set body"
proof -
  have "set (drop_h1 body) \<subseteq> \<Union> (set ` set (lines_of body))"
    by (auto simp: drop_h1_def)
  also have "\<dots> = set (concat (lines_of body))" by (simp only: set_concat)
  finally show ?thesis by simp
qed

lemma set_strip: "set (strip s) \<subseteq> set s"
  using strip_part [of s] by (metis Un_iff set_append subsetI)

lemma chunk_body_chars:
  assumes "r \<in> set (chunk_document doc body)" shows "set (chunk_body r) \<subseteq> insert 10 (set body)"
proof -
  let ?s = "strip (drop_h1 body)"
  have s: "set ?s \<subseteq> set body" using set_strip set_drop_h1 by blast
  from assms obtain path where "(path, chunk_body r) \<in> set (merge_short (raw_chunks body))"
    by (auto simp: chunk_document_def)
  from merge_short_pieces [OF this] raw_chunks_pieces [of body] consider
    "occur_in_order [chunk_body r] ?s"
    | t1 t2 where "chunk_body r = t1 @ [10, 10] @ t2" "occur_in_order [t1, t2] ?s" by blast
  then show ?thesis
  proof cases
    case 1
    from occur_in_order_set [OF this] s show ?thesis by auto
  next
    case 2
    have "set t1 \<subseteq> set ?s" "set t2 \<subseteq> set ?s"
      by (rule occur_in_order_set [OF 2(2)]; simp)+
    with s show ?thesis unfolding 2(1) by auto
  qed
qed

lemma document_chunk:
  assumes "document_chunks sha256 corpus doc = Some cs" "c \<in> set cs" "in_one_piece (parsed_body doc)"
    and "list_all encodable (parsed_body doc)"
  shows "chunk_policy c = meta_policy (front_matter doc) \<and> chunk_version c = meta_version (front_matter doc)
    \<and> list_all encodable (chunk_body c) \<and> chunk_held (parsed_body doc) c"
proof -
  let ?raws = "chunk_document (front_matter doc) (parsed_body doc)"
  from assms(1,2) obtain keys r key located where
    "(r, key, located) \<in> set (zip ?raws (zip keys (assign_spans (parsed_body doc) ?raws)))"
    and c: "c = finished_chunk r key located"
    by (auto simp: document_chunks_def Let_def)
  then obtain i where i: "i < length ?raws" "r = ?raws ! i" "i < length (assign_spans (parsed_body doc) ?raws)"
    "located = assign_spans (parsed_body doc) ?raws ! i" by (auto simp: set_zip)
  then have r: "r \<in> set ?raws" and zipped: "(r, located) \<in> set (zip ?raws (spans_from (parsed_body doc) 0 ?raws))"
    by (auto simp: set_zip assign_spans_def)
  have fields: "chunk_policy c = chunk_policy r" "chunk_version c = chunk_version r"
    "chunk_body c = chunk_body r" "chunk_span c = map_option (\<lambda>(a, b). (int a, int b)) located"
    by (simp_all add: c finished_chunk_def raw_chunk.defs chunk.defs)
  have "chunk_policy r = meta_policy (front_matter doc)" "chunk_version r = meta_version (front_matter doc)"
    using r by (auto simp: chunk_document_def)
  moreover have "list_all encodable (chunk_body r)"
    using chunk_body_chars [OF r] assms(4) by (auto simp: list_all_iff encodable_def surrogate_def dest!: subsetD)
  moreover have "chunk_held (parsed_body doc) c"
  proof (cases located)
    case None
    then show ?thesis using chunk_paragraphs [OF r assms(3)] by (simp add: chunk_held_def fields)
  next
    case (Some ab)
    then obtain a b where "located = Some (a, b)" by (cases ab) auto
    with spans_from_slices [of r a b ?raws "parsed_body doc" 0] zipped show ?thesis
      by (simp add: chunk_held_def fields)
  qed
  ultimately show ?thesis by (simp add: fields)
qed

section \<open>Loading keeps the stores in agreement\<close>

lemma those_Some: "those xs = Some ys \<longleftrightarrow> xs = map Some ys"
  by (induction xs arbitrary: ys) (auto split: option.splits simp: map_eq_Cons_conv)

lemma bulk_entries:
  "set (bulk corpus cs index) \<subseteq> {(corpus, c) | c. c \<in> set cs} \<union> {e \<in> set index. chunk_key (snd e) \<notin> chunk_key ` set cs}"
proof (induction cs arbitrary: index)
  case (Cons c cs)
  show ?case
  proof
    fix e assume "e \<in> set (bulk corpus (c # cs) index)"
    with Cons.IH [of "filter (\<lambda>(_, d). chunk_key d \<noteq> chunk_key c) index @ [(corpus, c)]"]
    show "e \<in> {(corpus, c') | c'. c' \<in> set (c # cs)}
        \<union> {e \<in> set index. chunk_key (snd e) \<notin> chunk_key ` set (c # cs)}" by auto
  qed
qed auto

lemma write_elasticsearch_entries:
  assumes "write_elasticsearch corpus wipe cs store = (store', n)" "(i, c) \<in> set (search_index store')"
  shows "(i = corpus \<and> c \<in> set cs) \<or> (i \<noteq> corpus \<and> (i, c) \<in> set (search_index store))"
proof -
  let ?wiped = "if wipe then filter (\<lambda>(i, _). i \<noteq> corpus) (search_index store) else search_index store"
  from assms have "(i, c) \<in> set (bulk corpus cs ?wiped)" "i = corpus \<longrightarrow> chunk_key c \<in> chunk_key ` set cs"
    by (auto simp: write_elasticsearch_def Let_def)
  with bulk_entries [of corpus cs ?wiped] show ?thesis by (auto split: if_splits)
qed

lemma write_elasticsearch_tables [simp]:
  "corpus_rows (fst (write_elasticsearch corpus wipe cs store)) = corpus_rows store"
  "document_rows (fst (write_elasticsearch corpus wipe cs store)) = document_rows store"
  "chunk_rows (fst (write_elasticsearch corpus wipe cs store)) = chunk_rows store"
  by (simp_all add: write_elasticsearch_def Let_def)

lemma ensure_es_index_tables [simp]:
  "corpus_rows (fst (ensure_es_index store)) = corpus_rows store"
  "document_rows (fst (ensure_es_index store)) = document_rows store"
  "chunk_rows (fst (ensure_es_index store)) = chunk_rows store"
  "set (search_index (fst (ensure_es_index store))) \<subseteq> set (search_index store)"
  by (auto simp: ensure_es_index_def Let_def split: option.splits if_splits)

lemma load_corpus_cases:
  assumes "load_corpus sha256 float_repr reader corpus dir now wipe files store = (store', answer)"
  obtains (refused) e where "store' = store" "answer = Inl e"
  | (replaced) docs chunked h s1 n where "is_id corpus" "set docs = {d. \<exists>f \<in> set files. read_document reader f = Inr d}"
      "map (document_chunks sha256 corpus) docs = map Some chunked" "manifest_hash sha256 float_repr docs = Some h"
      "write_postgres sha256 corpus \<lparr>manifest = h, loaded_documents = length docs, loaded_at = now,
         source_dir = dir\<rparr> docs (concat chunked) store = Some s1"
      "write_elasticsearch corpus wipe (concat chunked) (fst (ensure_es_index s1)) = (store', n)" "answer = Inr n"
proof -
  let ?docs = "concat (map (\<lambda>a. case a of Inl _ \<Rightarrow> [] | Inr d \<Rightarrow> [d]) (map (read_document reader) files))"
  have docs: "set ?docs = {d. \<exists>f \<in> set files. read_document reader f = Inr d}"
    by (auto split: sum.splits intro!: bexI)
  obtain docs where docs_def: "?docs = docs" by blast
  show thesis
  proof (cases answer)
    case (Inl e)
    with assms have "store' = store"
      unfolding load_corpus_def Let_def docs_def
      by (cases "those (map (document_chunks sha256 corpus) docs)"; cases "manifest_hash sha256 float_repr docs")
        (auto split: if_splits option.splits simp: apsnd_def map_prod_def split_beta)
    with Inl refused show ?thesis by blast
  next
    case (Inr n)
    obtain chunked h s1 where "is_id corpus" "those (map (document_chunks sha256 corpus) docs) = Some chunked"
      "manifest_hash sha256 float_repr docs = Some h"
      "write_postgres sha256 corpus \<lparr>manifest = h, loaded_documents = length docs, loaded_at = now,
         source_dir = dir\<rparr> docs (concat chunked) store = Some s1"
      "apsnd Inr (write_elasticsearch corpus wipe (concat chunked) (fst (ensure_es_index s1))) = (store', answer)"
      using assms Inr unfolding load_corpus_def Let_def docs_def
      by (auto split: if_splits option.splits)
    with replaced [of docs chunked h s1 n] docs Inr show ?thesis
      unfolding docs_def those_Some
      by (cases "write_elasticsearch corpus wipe (concat chunked) (fst (ensure_es_index s1))") auto
  qed
qed

lemma write_postgres_Some:
  assumes "write_postgres sha256 corpus row docs cs store = Some s1"
  shows "tables_hold s1 \<and> corpus_rows s1 = (corpus_rows store)(corpus \<mapsto> row)
    \<and> document_rows s1 = filter (\<lambda>r. fst r \<noteq> corpus) (document_rows store)
        @ map (document_row_of sha256 corpus) docs
    \<and> chunk_rows s1 = filter (\<lambda>r. fst r \<noteq> corpus) (chunk_rows store) @ map (\<lambda>c. (corpus, c)) cs
    \<and> search_index s1 = search_index store"
  using assms by (auto simp: write_postgres_def Let_def split: if_splits)

lemma manifest_encodable:
  assumes "manifest_hash sha256 float_repr docs = Some h" "doc \<in> set docs"
  shows "list_all encodable (parsed_body doc)"
proof -
  from assms(1) obtain lines where "map (manifest_line sha256 float_repr) docs = map Some lines"
    by (auto simp: manifest_hash_def those_Some bind_eq_Some_conv)
  with assms(2) have "manifest_line sha256 float_repr doc \<noteq> None"
    by (metis in_set_conv_nth length_map nth_map option.discI)
  then have "text_digest sha256 (parsed_body doc) \<noteq> None"
    by (cases "text_digest sha256 (parsed_body doc)") (auto simp: manifest_line_def)
  then show ?thesis by (simp only: text_digest_Some)
qed

lemma load_corpus_agrees:
  assumes "load_corpus sha256 float_repr reader corpus dir now wipe files store = (store', answer)"
    and "\<forall>f \<in> set files. \<forall>d. read_document reader f = Inr d \<longrightarrow> in_one_piece (parsed_body d)"
    and "stores_agree store"
  shows "stores_agree store'"
  using assms(1)
proof (cases rule: load_corpus_cases)
  case (replaced docs chunked h s1 n)
  let ?cs = "concat chunked"
  note s1 = write_postgres_Some [OF replaced(5)]
  have tables: "corpus_rows store' = corpus_rows s1" "document_rows store' = document_rows s1"
    "chunk_rows store' = chunk_rows s1"
    using write_elasticsearch_tables [of corpus wipe ?cs "fst (ensure_es_index s1)"] replaced(6) by simp_all
  have old: "backed_chunk store' row" if "backed_chunk store row" "fst row \<noteq> corpus" for row
    using that s1 unfolding backed_chunk_def tables by auto
  have new: "backed_chunk store' (corpus, c)" if c: "c \<in> set ?cs" for c
  proof -
    from c obtain cs' where "cs' \<in> set chunked" "c \<in> set cs'" by auto
    then obtain i where "i < length chunked" "c \<in> set (chunked ! i)" by (metis in_set_conv_nth)
    with replaced(3) obtain doc where doc: "doc \<in> set docs" "document_chunks sha256 corpus doc = Some (chunked ! i)"
      by (metis length_map nth_map nth_mem)
    from doc(1) replaced(2) assms(2) have "in_one_piece (parsed_body doc)" by auto
    from document_chunk [OF doc(2) \<open>c \<in> set (chunked ! i)\<close> this manifest_encodable [OF replaced(4) doc(1)]]
    have "chunk_policy c = meta_policy (front_matter doc)" "chunk_version c = meta_version (front_matter doc)"
      "list_all encodable (chunk_body c)" "chunk_held (parsed_body doc) c" by blast+
    moreover have "document_row_of sha256 corpus doc \<in> set (document_rows store')"
      using s1 doc(1) by (simp add: tables)
    ultimately show ?thesis
      using s1 c unfolding backed_chunk_def tables
      by (auto simp: document_row_key_def chunk_document_key_def document_row_of_def intro!: exI)
  qed
  have "list_all encodable (held_body (snd row))" if "row \<in> set (document_rows store')" for row
    using that s1 assms(3) manifest_encodable [OF replaced(4)]
    by (auto simp: tables stores_agree_def document_row_of_def)
  moreover have "backed_chunk store' row" if "row \<in> set (chunk_rows store')" for row
  proof (cases "fst row = corpus")
    case True
    then obtain c where row: "row = (corpus, c)" by (cases row) auto
    with that s1 have "c \<in> set ?cs" by (auto simp: tables)
    from new [OF this] show ?thesis by (simp only: row)
  next
    case False
    with that s1 assms(3) old [of row] show ?thesis by (auto simp: tables stores_agree_def)
  qed
  moreover have "backed_chunk store' row" if row: "row \<in> set (search_index store')" for row
  proof -
    from row have "(fst row, snd row) \<in> set (search_index store')" by simp
    from write_elasticsearch_entries [OF replaced(6) this] consider
      "fst row = corpus" "snd row \<in> set ?cs"
      | "fst row \<noteq> corpus" "row \<in> set (search_index (fst (ensure_es_index s1)))" by auto
    then show ?thesis
    proof cases
      case 1
      with new [of "snd row"] show ?thesis by (metis prod.collapse)
    next
      case 2
      with ensure_es_index_tables(4) [of s1] s1 have "row \<in> set (search_index store)" by auto
      with 2(1) old [of row] assms(3) show ?thesis by (auto simp: stores_agree_def)
    qed
  qed
  moreover have "tables_hold s1" using s1 by blast
  then have "tables_hold store'" unfolding tables_hold_def tables .
  ultimately show ?thesis by (auto simp: stores_agree_def)
qed (use assms(3) in simp)

section \<open>What the provider returns\<close>

text \<open>What the search engines are relied on for: they return rows they were given.\<close>

definition searches :: "engines \<Rightarrow> bool" where
  "searches en \<longleftrightarrow>
     (\<forall>query k rows. fst ` set (nearest en query k rows) \<subseteq> snd ` set rows
        \<and> set (best_hits en query k rows) \<subseteq> snd ` set rows)"

definition shows_chunk :: "chunk \<Rightarrow> scored_chunk \<Rightarrow> bool" where
  "shows_chunk c s \<longleftrightarrow>
     scored_key s = chunk_key c \<and> scored_document s = chunk_policy c \<and> scored_version s = chunk_version c
     \<and> scored_body s = chunk_body c \<and> scored_span s = chunk_span c"

lemma add_ranks_keys_subset:
  "fst ` set (add_ranks rnd p leg so_far) \<subseteq> fst ` set so_far \<union> scored_key ` set leg"
proof (induction leg arbitrary: p so_far)
  case (Cons c cs)
  show ?case unfolding add_ranks.simps by (rule order_trans [OF Cons.IH]) (auto simp: dom_update)
qed simp

lemma fused_keys_subset:
  "fst ` set (fused_scores rnd dense sparse) \<subseteq> scored_key ` (set dense \<union> set sparse)"
  unfolding fused_scores_def image_Un
  using add_ranks_keys_subset [of rnd 1 sparse "add_ranks rnd 1 dense []"] add_ranks_keys_subset [of rnd 1 dense "[]"]
  by simp blast

lemma reranked:
  assumes "s \<in> set (fst (rerank en query candidates k))"
  shows "\<exists>c \<in> set candidates. \<exists>score p. s = c\<lparr>relevance_score := score, scored_path := p\<rparr>"
proof -
  have same: "c = c\<lparr>relevance_score := relevance_score c, scored_path := scored_path c\<rparr>" for c :: scored_chunk
    by simp
  from assms consider "s \<in> set candidates"
    | predict score c where "s = c\<lparr>relevance_score := score, scored_path := Reranked\<rparr>"
        "(score, c) \<in> set (zip (predict (map (\<lambda>c. (query, scored_body c)) candidates)) candidates)"
    by (auto simp: rerank_def Let_def split: option.splits if_splits dest: in_set_takeD)
  then show ?thesis using same by cases (blast, blast dest: set_zip_rightD)
qed

lemma retrieved_chunk:
  assumes "retrieve_chunks en store query k (Some corpus) js risk_tier = (chunks, applied)"
    and "searches en" "corpus \<noteq> []" "s \<in> set chunks"
  shows "\<exists>c. (corpus, c) \<in> set (chunk_rows store) \<union> set (search_index store) \<and> shows_chunk c s"
proof -
  let ?ok = "\<lambda>s. \<exists>c. (corpus, c) \<in> set (chunk_rows store) \<union> set (search_index store) \<and> shows_chunk c s"
  let ?dense = "dense_search en store query (k * 2) (Some corpus) js risk_tier"
  let ?sparse = "sparse_search en store query (k * 2) (Some corpus) js"
  have scored: "shows_chunk c (to_scored c score)" for c score by (simp add: shows_chunk_def to_scored_def)
  have rows: "(corpus, c) \<in> set rows" if "c \<in> snd ` set (filter (\<lambda>(i, c). asks (Some corpus) (\<lambda>j. i = j) \<and> P c) rows)" for c P and rows :: "(ustr \<times> chunk) list"
    using that assms(3) by (auto simp: asks_def)
  let ?keeps = "\<lambda>c. asks js (\<lambda>js. chunk_jurisdiction c \<in> set js)"
  let ?tiered = "\<lambda>c. ?keeps c \<and> asks risk_tier (\<lambda>t. chunk_risk_tier c = Some t \<or> chunk_risk_tier c = None)"
  let ?of = "\<lambda>P. filter (\<lambda>(i, c). asks (Some corpus) (\<lambda>j. i = j) \<and> P c)"
  have dense: "?ok s" if "s \<in> set ?dense" for s
  proof -
    from that obtain c score where c: "(c, score) \<in> set (nearest en query (k * 2) (?of ?tiered (chunk_rows store)))"
      "s = to_scored c score" by (auto simp: dense_search_def)
    have "fst ` set (nearest en query (k * 2) (?of ?tiered (chunk_rows store)))
        \<subseteq> snd ` set (?of ?tiered (chunk_rows store))"
      using assms(2) unfolding searches_def by blast
    moreover have "c \<in> fst ` set (nearest en query (k * 2) (?of ?tiered (chunk_rows store)))"
      using c(1) by (rule image_eqI [rotated]) simp
    ultimately have "c \<in> snd ` set (?of ?tiered (chunk_rows store))" by (rule subsetD)
    from rows [of c ?tiered, OF this] have "(corpus, c) \<in> set (chunk_rows store)" .
    with scored [of c score] c(2) show ?thesis by blast
  qed
  have sparse: "?ok s" if "s \<in> set ?sparse" for s
  proof -
    from that obtain c where c: "c \<in> set (best_hits en query (k * 2) (?of ?keeps (search_index store)))"
      "s = to_scored c 0" by (auto simp: sparse_search_def)
    have "set (best_hits en query (k * 2) (?of ?keeps (search_index store)))
        \<subseteq> snd ` set (?of ?keeps (search_index store))"
      using assms(2) unfolding searches_def by blast
    from subsetD [OF this c(1)] have "(corpus, c) \<in> set (search_index store)"
      by (rule rows [of c ?keeps])
    with scored [of c 0] c(2) show ?thesis by blast
  qed
  have fused: "?ok s" if s: "s \<in> set (rrf_fuse rnd ?dense ?sparse n)" for s n rnd
  proof -
    from s obtain key score where e: "(key, score) \<in> set (fused_scores rnd ?dense ?sparse)"
      "s = (the (fused_chunks ?dense ?sparse key))\<lparr>relevance_score := score\<rparr>"
      by (auto simp: rrf_fuse_def dest: in_set_takeD)
    then have "key \<in> scored_key ` (set ?dense \<union> set ?sparse)"
      using fused_keys_subset [of rnd ?dense ?sparse] by force
    from fused_chunk [OF this] obtain c where "c \<in> set ?dense \<union> set ?sparse"
      "fused_chunks ?dense ?sparse key = Some c" by blast
    with dense sparse e(2) show ?thesis by (auto simp: shows_chunk_def)
  qed
  let ?fused = "rrf_fuse (round_float en) ?dense ?sparse (k * 2)"
  from assms(1) have "rerank en query ?fused k = (chunks, applied)" by (simp add: retrieve_chunks_def Let_def)
  with assms(4) have "s \<in> set (fst (rerank en query ?fused k))" by simp
  from reranked [OF this] obtain c score p where "c \<in> set ?fused"
    "s = c\<lparr>relevance_score := score, scored_path := p\<rparr>" by blast
  with fused show ?thesis by (fastforce simp: shows_chunk_def)
qed

lemma held_chunk_metadata:
  assumes "backed_chunk store (corpus, c)" "tables_hold store"
  shows "map_option fst (held_chunk store corpus (chunk_key c)) = Some (chunk_body c)"
proof -
  let ?held = "[(chunk_key (snd c), (chunk_body (snd c), held_metadata (snd d))).
      c \<leftarrow> chunk_rows store, d \<leftarrow> document_rows store,
      fst c = corpus \<and> chunk_document_key c = document_row_key d]"
  from assms(1) obtain d where d: "(corpus, c) \<in> set (chunk_rows store)" "(corpus, d) \<in> set (document_rows store)"
    "document_row_key (corpus, d) = chunk_document_key (corpus, c)" by (auto simp: backed_chunk_def)
  have "(chunk_key c, chunk_body c, held_metadata d) \<in> set ?held"
    using d by (force intro!: bexI [OF _ d(1)] bexI [OF _ d(2)])
  then have "map_of (rev ?held) (chunk_key c) \<noteq> None"
    by (auto simp: map_of_eq_None_iff image_iff)
  then obtain body metadata where held: "map_of (rev ?held) (chunk_key c) = Some (body, metadata)" by auto
  from map_of_SomeD [OF this] obtain row where row: "row \<in> set (chunk_rows store)"
    "chunk_key (snd row) = chunk_key c" "body = chunk_body (snd row)" by auto
  have "inj_on (chunk_key \<circ> snd) (set (chunk_rows store))"
    using assms(2) by (simp add: tables_hold_def distinct_map)
  from inj_onD [OF this, of row "(corpus, c)"] row d(1) have "row = (corpus, c)" by simp
  with held row(3) show ?thesis by (simp add: held_chunk_def)
qed

lemma fetched_document:
  assumes "stores_agree store" "backed_chunk store (corpus_id corpus, c)" "corpus_resource corpus = None"
    and "\<And>bs. sha256_hex (sha256 bs)"
  obtains d where "fetch_version sha256 store corpus (chunk_policy c) (Some (chunk_version c)) = Inr d"
    "chunk_held (blob_text d) c" "blob_corpus d = corpus_id corpus" "blob_document d = chunk_policy c"
    "blob_version d = Some (chunk_version c)" "text_digest sha256 (blob_text d) = Some (blob_hash d)"
proof -
  from assms(1) have tables: "tables_hold store" by (simp add: stores_agree_def)
  from assms(2) obtain row where row: "(corpus_id corpus, row) \<in> set (document_rows store)"
    "document_row_key (corpus_id corpus, row) = (corpus_id corpus, chunk_policy c, chunk_version c)"
    "chunk_held (held_body row) c" by (auto simp: backed_chunk_def chunk_document_key_def)
  let ?is = "\<lambda>d. document_row_key d = (corpus_id corpus, chunk_policy c, chunk_version c)"
  have "find ?is (document_rows store) \<noteq> None"
    using row(1,2) by (auto simp: find_None_iff)
  then obtain found where found: "find ?is (document_rows store) = Some found" by blast
  then have "found \<in> set (document_rows store)" "?is found" by (auto simp: find_Some_iff)
  moreover have "inj_on document_row_key (set (document_rows store))"
    using tables by (simp add: tables_hold_def distinct_map)
  ultimately have "found = (corpus_id corpus, row)" using row(1,2) by (metis inj_onD)
  with found have found: "find ?is (document_rows store) = Some (corpus_id corpus, row)" by simp
  have "corpus_rows store (corpus_id corpus) \<noteq> None"
    using tables row(1) by (auto simp: tables_hold_def)
  moreover from assms(1) row(1) have "text_digest sha256 (held_body row) \<noteq> None"
    unfolding text_digest_Some by (auto simp: stores_agree_def)
  then obtain h where h: "text_digest sha256 (held_body row) = Some h" by blast
  moreover from this assms(4) have "sha256_hex h" by (auto simp: text_digest_def)
  ultimately show thesis
    using row(3) assms(3) by (intro that) (auto simp: fetch_version_def takes_no_resource_def found blob_valid_def Let_def)
qed

text \<open>One passage of an answer.\<close>

lemma context_of_chunk:
  assumes "shows_chunk c s" "backed_chunk store (corpus_id corpus, c)" "tables_hold store"
    and "1 \<le> corpus_tier corpus" "1 \<le> r" "\<And>bs. sha256_hex (sha256 bs)"
  obtains p where "to_context sha256 corpus r metadata s = Inr p" "rank p = r"
    "text_digest sha256 (passage_text p) = Some (passage_hash p)" "passage_corpus p = corpus_id corpus"
    "passage_provider p = REFERENCE_PROVIDER_ID" "passage_tier p = corpus_tier corpus"
    "provenance p = PinnedVersion" "passage_text p = chunk_body c" "span p = chunk_span c"
    "document_id p = chunk_policy c" "document_version p = Some (chunk_version c)"
proof -
  from assms(2) have "text_digest sha256 (chunk_body c) \<noteq> None"
    unfolding text_digest_Some by (simp add: backed_chunk_def)
  then obtain h where h: "text_digest sha256 (chunk_body c) = Some h" by blast
  moreover from this assms(6) have "sha256_hex h" by (auto simp: text_digest_def)
  moreover have "pred_option (\<lambda>(start, stop). 0 \<le> start \<and> start \<le> stop) (chunk_span c)"
    using assms(2,3) by (auto simp: backed_chunk_def tables_hold_def)
  ultimately have "\<exists>p. to_context sha256 corpus r metadata s = Inr p \<and> rank p = r
      \<and> text_digest sha256 (passage_text p) = Some (passage_hash p) \<and> passage_corpus p = corpus_id corpus
      \<and> passage_provider p = REFERENCE_PROVIDER_ID \<and> passage_tier p = corpus_tier corpus
      \<and> provenance p = PinnedVersion \<and> passage_text p = chunk_body c \<and> span p = chunk_span c
      \<and> document_id p = chunk_policy c \<and> document_version p = Some (chunk_version c)"
    using assms(1,4,5) by (simp add: to_context_def shows_chunk_def context_valid_def digest_and_span_hold_def Let_def)
  then show thesis using that by blast
qed

lemma contexts_of_chunks:
  assumes "\<And>s. s \<in> set hits \<Longrightarrow> \<exists>c. shows_chunk c s \<and> backed_chunk store (corpus_id corpus, c)"
    and "tables_hold store" "1 \<le> corpus_tier corpus" "1 \<le> n" "\<And>bs. sha256_hex (sha256 bs)"
  shows "\<exists>ps. rmap (\<lambda>(r, s). to_context sha256 corpus r (metadata s) s) (enumerate n hits) = Inr ps
    \<and> map rank ps = [n..<n + length hits]
    \<and> (\<forall>p \<in> set ps. text_digest sha256 (passage_text p) = Some (passage_hash p)
         \<and> passage_corpus p = corpus_id corpus \<and> passage_provider p = REFERENCE_PROVIDER_ID
         \<and> passage_tier p = corpus_tier corpus \<and> provenance p = PinnedVersion
         \<and> (\<exists>c. backed_chunk store (corpus_id corpus, c) \<and> passage_text p = chunk_body c
              \<and> span p = chunk_span c \<and> document_id p = chunk_policy c
              \<and> document_version p = Some (chunk_version c)))"
  using assms(1,4)
proof (induction hits arbitrary: n)
  case (Cons s hits)
  from Cons.prems(1) [of s] obtain c where c: "shows_chunk c s" "backed_chunk store (corpus_id corpus, c)" by auto
  obtain p where p: "to_context sha256 corpus n (metadata s) s = Inr p" "rank p = n"
    "text_digest sha256 (passage_text p) = Some (passage_hash p)" "passage_corpus p = corpus_id corpus"
    "passage_provider p = REFERENCE_PROVIDER_ID" "passage_tier p = corpus_tier corpus"
    "provenance p = PinnedVersion" "passage_text p = chunk_body c" "span p = chunk_span c"
    "document_id p = chunk_policy c" "document_version p = Some (chunk_version c)"
    by (rule context_of_chunk [OF c assms(2,3) Cons.prems(2) assms(5)])
  from Cons.IH [of "Suc n"] Cons.prems obtain ps where ps:
    "rmap (\<lambda>(r, s). to_context sha256 corpus r (metadata s) s) (enumerate (Suc n) hits) = Inr ps"
    "map rank ps = [Suc n..<Suc n + length hits]"
    "\<forall>p \<in> set ps. text_digest sha256 (passage_text p) = Some (passage_hash p)
         \<and> passage_corpus p = corpus_id corpus \<and> passage_provider p = REFERENCE_PROVIDER_ID
         \<and> passage_tier p = corpus_tier corpus \<and> provenance p = PinnedVersion
         \<and> (\<exists>c. backed_chunk store (corpus_id corpus, c) \<and> passage_text p = chunk_body c
              \<and> span p = chunk_span c \<and> document_id p = chunk_policy c
              \<and> document_version p = Some (chunk_version c))" by auto
  have "map rank (p # ps) = [n..<n + length (s # hits)]"
    using ps(2) p(2) by (simp add: upt_from del: upt_Suc)
  then show ?case
    using ps(1,3) p c(2) by (intro exI [of _ "p # ps"]) auto
qed simp

lemma length_reranked: "length (fst (rerank en query candidates k)) \<le> k"
  by (auto simp: rerank_def Let_def split: option.splits)

lemma retrieves_within_contract:
  assumes "stores_agree store" "searches en" "\<And>bs. sha256_hex (sha256 bs)"
    and "corpus_ref_valid corpus" "corpus_provider corpus = REFERENCE_PROVIDER_ID"
    and "corpus_resource corpus = None" "corpus_rows store (corpus_id corpus) \<noteq> None"
  shows "\<exists>r. retrieve_passages sha256 en store query corpus k js risk_tier = Inr r
    \<and> meets_contract sha256 corpus k r
    \<and> (\<forall>p \<in> set (result_contexts r). \<exists>c. backed_chunk store (corpus_id corpus, c)
         \<and> passage_text p = chunk_body c \<and> span p = chunk_span c \<and> document_id p = chunk_policy c
         \<and> document_version p = Some (chunk_version c))"
proof -
  from assms(1) have tables: "tables_hold store" by (simp add: stores_agree_def)
  from assms(7) obtain row where row: "corpus_rows store (corpus_id corpus) = Some row" by blast
  obtain chunks applied where chunks:
    "retrieve_chunks en store query k (Some (corpus_id corpus)) js risk_tier = (chunks, applied)" by fastforce
  let ?held = "held_chunk store (corpus_id corpus)"
  let ?hits = "filter (\<lambda>c. map_option fst (?held (scored_key c)) = Some (scored_body c)) chunks"
  have id: "corpus_id corpus \<noteq> []" using assms(4) by (auto simp: corpus_ref_valid_def is_id_def)
  have hit: "\<exists>c. shows_chunk c s \<and> backed_chunk store (corpus_id corpus, c)" if "s \<in> set ?hits" for s
    using retrieved_chunk [OF chunks assms(2) id, of s] that assms(1) by (auto simp: stores_agree_def)
  have tier: "1 \<le> corpus_tier corpus" using assms(4) by (simp add: corpus_ref_valid_def)
  have "\<exists>ps. rmap (\<lambda>(r, s). to_context sha256 corpus r (snd (the (?held (scored_key s)))) s) (enumerate 1 ?hits)
        = Inr ps
    \<and> map rank ps = [1..<1 + length ?hits]
    \<and> (\<forall>p \<in> set ps. text_digest sha256 (passage_text p) = Some (passage_hash p)
         \<and> passage_corpus p = corpus_id corpus \<and> passage_provider p = REFERENCE_PROVIDER_ID
         \<and> passage_tier p = corpus_tier corpus \<and> provenance p = PinnedVersion
         \<and> (\<exists>c. backed_chunk store (corpus_id corpus, c) \<and> passage_text p = chunk_body c
              \<and> span p = chunk_span c \<and> document_id p = chunk_policy c
              \<and> document_version p = Some (chunk_version c)))" (is "\<exists>ps. ?made ps \<and> ?ranked ps \<and> ?own ps")
    by (rule contexts_of_chunks [OF hit tables tier order_refl assms(3)])
  then obtain ps where ps: "?made ps" "?ranked ps" "?own ps" by blast
  have len: "length ps = length ?hits"
    using arg_cong [OF ps(2), of length] unfolding length_map length_upt by simp
  also have "\<dots> \<le> length chunks" by simp
  also have "\<dots> \<le> k"
    using length_reranked chunks by (metis (no_types, lifting) fst_conv retrieve_chunks_def)
  finally have "length ps \<le> k" .
  let ?state = "\<lparr>state_corpus = corpus_id corpus, state_provider = REFERENCE_PROVIDER_ID,
      provider_version = REFERENCE_PROVIDER_VERSION, state_marker = Some (manifest row),
      state_provenance = PinnedVersion, document_count = Some (loaded_documents row),
      updated_at = Some (loaded_at row)\<rparr>"
  have state: "describe_corpus store corpus = Inr ?state"
    by (simp add: describe_corpus_def takes_no_resource_def assms(6) row)
  obtain r where r: "retrieve_passages sha256 en store query corpus k js risk_tier = Inr r"
    "result_state r = ?state" "result_contexts r = ps"
    using ps(1) by (simp add: retrieve_passages_def state chunks Let_def)
  have "meets_contract sha256 corpus k r"
    using ps(2,3) len \<open>length ps \<le> k\<close> assms(5)
    by (simp add: meets_contract_def r(2,3) add.commute del: upt_Suc)
  with r(1,3) ps(3) show ?thesis by blast
qed

section \<open>A loaded corpus can be escrowed\<close>

definition empty_stores :: reference_store where
  "empty_stores =
     \<lparr>corpus_rows = Map.empty, document_rows = [], chunk_rows = [], search_index = [], index_mappings = None\<rparr>"

text \<open>A load, whatever its outcome, of documents whose top-level headings leave the rest in one piece.\<close>

inductive loading ::
    "digest \<Rightarrow> (rat \<Rightarrow> ustr) \<Rightarrow> 'y front_matter_reader \<Rightarrow> reference_store \<Rightarrow> reference_store \<Rightarrow> bool"
  for sha256 float_repr reader where
  "load_corpus sha256 float_repr reader corpus dir now wipe files store = (store', answer) \<Longrightarrow>
   \<forall>f \<in> set files. \<forall>d. read_document reader f = Inr d \<longrightarrow> in_one_piece (parsed_body d) \<Longrightarrow>
   loading sha256 float_repr reader store store'"

lemma loading_agrees:
  "(loading sha256 float_repr reader)\<^sup>*\<^sup>* store store' \<Longrightarrow> stores_agree store \<Longrightarrow> stores_agree store'"
  by (induction rule: rtranclp_induct) (auto elim!: loading.cases dest: load_corpus_agrees)

lemma empty_stores_agree: "stores_agree empty_stores"
  by (simp add: stores_agree_def empty_stores_def tables_hold_def)


text \<open>A corpus of one file: front matter, a section and its sentence.\<close>

definition ex_meta :: policy_document where
  "ex_meta =
     \<lparr>meta_policy = [100], meta_title = [84], meta_version = [49], meta_jurisdiction = [69],
      effective_date = [], supersedes_policy = None, meta_risk_tier = None, document_type = Guidance\<rparr>"

definition ex_reader :: "unit front_matter_reader" where
  "ex_reader = \<lparr>safe_load = (\<lambda>_. Some ()), model_validate = (\<lambda>_. Some ex_meta), json_safe = (\<lambda>_. Some [])\<rparr>"

text \<open>The body is a heading and a word; the file puts fences and a letter of front matter before it.\<close>

definition ex_body :: ustr where
  "ex_body = [35, 35, 32, 65, 10, 72, 105]"

definition ex_file :: "ustr \<times> ustr" where
  "ex_file = ([97], [45, 45, 45, 97, 45, 45, 45, 10] @ ex_body)"

definition ex_document :: corpus_document where
  "ex_document = \<lparr>front_matter = ex_meta, parsed_body = ex_body, parsed_metadata = [], parsed_path = [97]\<rparr>"

definition ex_engines :: engines where
  "ex_engines =
     \<lparr>nearest = (\<lambda>_ k rows. map (\<lambda>r. (snd r, 0)) (take k rows)), best_hits = (\<lambda>_ k rows. map snd (take k rows)),
      cross_encoder = None, rerank_elapsed = (\<lambda>_. 0), rerank_timeout = 200, round_float = (\<lambda>x. x)\<rparr>"

definition ex_reference :: corpus_ref where
  "ex_reference = ex_corpus\<lparr>corpus_provider := REFERENCE_PROVIDER_ID\<rparr>"

lemma ex_body_text: "drop_h1 ex_body = ex_body" "strip ex_body = ex_body" "strip (10 # ex_body) = ex_body"
  by (simp_all add: ex_body_def drop_h1_def h1_line_def strip_def whitespace_def)

lemma ex_file_read: "read_document ex_reader ex_file = Inr ex_document"
proof -
  have "fenced (snd ex_file) = Inr ([97], 10 # ex_body)"
    by (simp add: ex_file_def fenced_def FENCE_def ex_body_def)
  moreover from this have "parse_document ex_reader (snd ex_file) = Inr (ex_meta, ex_body)"
    by (simp add: parse_document_def ex_reader_def ex_body_text)
  ultimately show ?thesis by (simp add: read_document_def ex_file_def ex_reader_def ex_document_def)
qed

lemma ex_chunks:
  "\<exists>c. document_chunks ex_digest [99] ex_document = Some [c] \<and> chunk_policy c = meta_policy ex_meta
     \<and> chunk_version c = meta_version ex_meta \<and> pred_option (\<lambda>(a, b). 0 \<le> a \<and> a \<le> b) (chunk_span c)"
proof -
  have "raw_chunks ex_body = [([65], [72, 105])]"
    unfolding raw_chunks_def ex_body_text
    by (simp add: ex_body_def section_chunks_def Let_def strip_def whitespace_def H2_def heading_and_body_def
        CHUNK_MAX_WORDS_def word_count_def)
  then show ?thesis
    by (simp add: ex_document_def document_chunks_def Let_def chunk_document_def finished_chunk_def
        raw_chunk.defs chunk.defs ex_meta_def assign_chunk_ids_def chunk_id_def assign_spans_def blank_def
        whitespace_def ex_digest_def text_digest_def encode_utf8_def encodable_def surrogate_def
        ID_SEPARATOR_def split: option.splits)
qed

lemma ex_manifest: "\<exists>h. manifest_hash ex_digest (\<lambda>_. []) [ex_document] = Some h"
  by (simp add: ex_document_def manifest_hash_def manifest_line_def ex_meta_def ex_digest_def text_digest_def
      encode_utf8_def encodable_def surrogate_def ex_body_def ID_SEPARATOR_def list_all_iff canonical_text_def)

lemma ex_corpus_loads:
  "\<exists>store n. load_corpus ex_digest (\<lambda>_. []) ex_reader [99] [] [] False [ex_file] empty_stores = (store, Inr n)
     \<and> corpus_rows store [99] \<noteq> None"
proof -
  from ex_chunks obtain c where c: "document_chunks ex_digest [99] ex_document = Some [c]"
    "chunk_policy c = meta_policy ex_meta" "chunk_version c = meta_version ex_meta"
    "pred_option (\<lambda>(a, b). 0 \<le> a \<and> a \<le> b) (chunk_span c)" by blast
  from ex_manifest obtain h where h: "manifest_hash ex_digest (\<lambda>_. []) [ex_document] = Some h" by blast
  let ?row = "\<lparr>manifest = h, loaded_documents = 1, loaded_at = [], source_dir = []\<rparr>"
  have "front_matter ex_document = ex_meta" by (simp add: ex_document_def)
  then have "\<exists>s. write_postgres ex_digest [99] ?row [ex_document] [c] empty_stores = Some s
      \<and> corpus_rows s [99] \<noteq> None"
    using c(2-4) by (simp add: write_postgres_def Let_def tables_hold_def empty_stores_def document_row_of_def
        document_row_key_def chunk_document_key_def)
  then obtain s where s: "write_postgres ex_digest [99] ?row [ex_document] [c] empty_stores = Some s"
    "corpus_rows s [99] \<noteq> None" by blast
  obtain s' n where "write_elasticsearch [99] False [c] (fst (ensure_es_index s)) = (s', n)" by fastforce
  with write_elasticsearch_tables(1) [of "[99]" False "[c]" "fst (ensure_es_index s)"] s show ?thesis
    by (simp add: load_corpus_def is_id_def letter_or_digit_def ex_file_read c(1) h Let_def
        duplicate_documents_def)
qed


end
