(* ===== verification/Ledger_Client.thy ===== *)
theory Ledger_Client
  imports Decisions_Api
begin

text \<open>
  The ledger as a reasoner calls it (\<open>app/client.py\<close>): the interface, the client in the
  ledger's process, and the client over HTTP with the problem documents it reads
  (\<open>core/exceptions.py\<close>, \<open>app/api/errors.py\<close>). The network is a parameter: for each request,
  whether it is sent and answered. Pydantic's JSON text and the wording of problems are too.
\<close>

section \<open>What a caller sees\<close>

text \<open>
  A \<open>LedgerError\<close> with its status and code; a transport error of \<open>httpx\<close>, raised before the
  request reached the ledger or later; any other exception.
\<close>

datatype client_failure = LedgerProblem int ustr | NeverSent | Unanswered | OtherException

text \<open>\<open>BatchLineResult\<close> and \<open>BatchResult\<close>.\<close>

record batch_line =
  line_number :: nat
  line_recorded :: bool
  line_decision :: "ustr option"
  line_event :: "ustr option"
  line_action :: "decision_action option"
  line_holds :: "bool option"
  line_code :: "ustr option"

record batch_answer =
  answered_recorded :: nat
  answered_rejected :: nat
  answered_lines :: "batch_line list"

fun seen_line :: "line_result \<Rightarrow> batch_line" where
  "seen_line (LineRecorded n b) =
     \<lparr>line_number = n, line_recorded = True, line_decision = Some (decision_id b),
      line_event = Some (event_id (submission b)), line_action = Some (bundle_action b),
      line_holds = bypass_rule_holds b, line_code = None\<rparr>"
| "seen_line (LineRejected n event e) =
     \<lparr>line_number = n, line_recorded = False, line_decision = None, line_event = event,
      line_action = None, line_holds = None, line_code = Some (lit (problem_code e))\<rparr>"

definition seen_batch :: "batch_result \<Rightarrow> batch_answer" where
  "seen_batch r =
     \<lparr>answered_recorded = batch_recorded r, answered_rejected = batch_rejected r,
      answered_lines = map seen_line (batch_lines r)\<rparr>"

text \<open>\<open>LedgerClient\<close>, as far as a run uses it, over the state of the world the calls act on.\<close>

record 's ledger_client =
  client_submit :: "submission \<Rightarrow> 's \<Rightarrow> 's \<times> (client_failure + decision_receipt)"
  client_submit_batch :: "submission list \<Rightarrow> 's \<Rightarrow> 's \<times> (client_failure + batch_answer)"
  client_get_bundle :: "ustr \<Rightarrow> 's \<Rightarrow> 's \<times> (client_failure + decision_bundle)"

section \<open>Problem documents\<close>

definition ascii_lower :: "ustr \<Rightarrow> ustr" where
  "ascii_lower s = map (\<lambda>c. if 65 \<le> c \<and> c \<le> 90 then c + 32 else c) s"

definition problem_type :: "ustr \<Rightarrow> ustr" where
  "problem_type code =
     lit ''urn:decisionledger:problem:'' @ map (\<lambda>c. if c = 95 then 45 else c) (ascii_lower code)"

text \<open>The title derived from a code, which is in capitals.\<close>

definition problem_title :: "ustr \<Rightarrow> ustr" where
  "problem_title code =
     (case map (\<lambda>c. if c = 95 then 32 else c) code of [] \<Rightarrow> [] | c # cs \<Rightarrow> c # ascii_lower cs)"

record problem_wording =
  extra_members :: "ledger_error \<Rightarrow> json_obj"
  detail_text :: "ledger_error \<Rightarrow> ustr"

definition problem_document :: "problem_wording \<Rightarrow> ustr \<Rightarrow> ledger_error \<Rightarrow> json_obj" where
  "problem_document w path e =
     (let code = lit (problem_code e)
      in fold (\<lambda>(k, v). AList.update k v)
           [(lit ''type'', JStr (problem_type code)), (lit ''title'', JStr (problem_title code)),
            (lit ''status'', JInt (int (problem_status e))), (lit ''detail'', JStr (detail_text w e)),
            (lit ''code'', JStr code), (lit ''instance'', JStr path)]
           (extra_members w e))"

record http_response =
  response_status :: nat
  response_json :: "json option"

definition problem_response :: "problem_wording \<Rightarrow> ustr \<Rightarrow> ledger_error \<Rightarrow> http_response" where
  "problem_response w path e =
     \<lparr>response_status = problem_status e, response_json = Some (JObj (problem_document w path e))\<rparr>"

text \<open>\<open>int(...)\<close> of a JSON value; of a text it is a parameter.\<close>

fun json_int :: "(ustr \<Rightarrow> int option) \<Rightarrow> json \<Rightarrow> int option" where
  "json_int read (JInt i) = Some i"
| "json_int read (JBool b) = Some (of_bool b)"
| "json_int read (JFloat (Finite q)) = Some (if 0 \<le> q then \<lfloor>q\<rfloor> else \<lceil>q\<rceil>)"
| "json_int read (JStr s) = read s"
| "json_int read _ = None"

definition raise_for_problem :: "(ustr \<Rightarrow> int option) \<Rightarrow> http_response \<Rightarrow> client_failure + unit" where
  "raise_for_problem read response =
     (let status = response_status response;
          plain = LedgerProblem (int status) (lit ''HTTP_'' @ nat_text status)
      in if 200 \<le> status \<and> status < 300 then Inr ()
         else (case response_json response of
                 Some (JObj kvs) \<Rightarrow>
                   (case map_of kvs (lit ''code'') of
                      Some (JStr code) \<Rightarrow>
                        (case (case map_of kvs (lit ''status'') of
                                 None \<Rightarrow> Some (int status) | Some j \<Rightarrow> json_int read j) of
                           None \<Rightarrow> Inl OtherException
                         | Some i \<Rightarrow> Inl (LedgerProblem i code))
                    | _ \<Rightarrow> Inl plain)
               | _ \<Rightarrow> Inl plain))"

section \<open>A ledger at work\<close>

text \<open>
  The service's operations, the readings of its clock and ids for each line of each call, when
  each call arrived, and the JSON text of a submission. Its state is the ledger's and how many
  calls it has taken.
\<close>

record ledger_service =
  service :: decisions_env
  drawn :: "nat \<Rightarrow> nat \<Rightarrow> readings"
  arrived :: "nat \<Rightarrow> instant"
  model_dump_json :: "submission \<Rightarrow> ustr"

type_synonym service_state = "audit_state \<times> nat"

definition batch_body :: "'a ledger_service_scheme \<Rightarrow> submission list \<Rightarrow> ustr" where
  "batch_body sv ss = concat (map (\<lambda>s. model_dump_json sv s @ [10]) ss)"

definition served_create ::
    "'a ledger_service_scheme \<Rightarrow> wire_body \<Rightarrow> principal \<Rightarrow> nat \<Rightarrow> audit_state
      \<Rightarrow> audit_state \<times> (ledger_error + decision_receipt)" where
  "served_create sv body p n st =
     apsnd (map_sum id receipt_of) (create_decision (service sv) (drawn sv n 0) (arrived sv n) p body st)"

definition served_batch ::
    "'a ledger_service_scheme \<Rightarrow> wire_body \<Rightarrow> principal \<Rightarrow> nat \<Rightarrow> audit_state
      \<Rightarrow> audit_state \<times> (ledger_error + batch_answer)" where
  "served_batch sv body p n st =
     apsnd (map_sum id seen_batch) (record_batch (service sv) (drawn sv n) (arrived sv n) p body st)"

definition served_lookup ::
    "'a ledger_service_scheme \<Rightarrow> ustr \<Rightarrow> principal \<Rightarrow> nat \<Rightarrow> audit_state
      \<Rightarrow> audit_state \<times> (ledger_error + json)" where
  "served_lookup sv the_id p n st = (st, lookup_decision (stored_through (service sv)) st p the_id)"

text \<open>\<open>_typed_bundle\<close>: Python's 2 equals 2.0.\<close>

definition typed_bundle :: "store_wire \<Rightarrow> json \<Rightarrow> client_failure + decision_bundle" where
  "typed_bundle wire document =
     (if json_get (lit ''schema_version'') document \<notin> {Some (JInt 2), Some (JFloat (Finite 2))}
      then Inl (LedgerProblem 409 (lit ''BUNDLE_SCHEMA_UNSUPPORTED''))
      else (case parse_bundle wire document of Inl _ \<Rightarrow> Inl OtherException | Inr b \<Rightarrow> Inr b))"

definition read_typed ::
    "'a ledger_service_scheme \<Rightarrow> 's \<times> (client_failure + json) \<Rightarrow> 's \<times> (client_failure + decision_bundle)" where
  "read_typed sv answer =
     apsnd (\<lambda>r. rbind r (typed_bundle (stored_through (service sv)))) answer"

section \<open>In the ledger's process\<close>

definition in_process ::
    "(nat \<Rightarrow> audit_state \<Rightarrow> audit_state \<times> (ledger_error + 'b)) \<Rightarrow> service_state
      \<Rightarrow> service_state \<times> (client_failure + 'b)" where
  "in_process op world =
     (case world of (st, n) \<Rightarrow>
        (case op n st of
           (st', Inr x) \<Rightarrow> ((st', n + 1), Inr x)
         | (st', Inl InternalError) \<Rightarrow> ((st', n + 1), Inl OtherException)
         | (st', Inl e) \<Rightarrow> ((st', n + 1), Inl (LedgerProblem (int (problem_status e)) (lit (problem_code e))))))"

definition local_client :: "'a ledger_service_scheme \<Rightarrow> principal \<Rightarrow> service_state ledger_client" where
  "local_client sv p =
     \<lparr>client_submit = (\<lambda>s. in_process (served_create sv (TextBody (model_dump_json sv s)) p)),
      client_submit_batch = (\<lambda>ss. in_process (served_batch sv (TextBody (batch_body sv ss)) p)),
      client_get_bundle = (\<lambda>the_id world. read_typed sv (in_process (served_lookup sv the_id p) world))\<rparr>"

section \<open>Over HTTP\<close>

text \<open>
  A request that reaches the ledger may still lose its answer; one that is sent may never
  reach it.
\<close>

datatype connection = Reaches | NeverConnects | LosesRequest | LosesAnswer

record http_service = ledger_service +
  key_holder :: "auth_problem + principal"
  network :: "nat \<Rightarrow> connection"
  read_int :: "ustr \<Rightarrow> int option"
  wording :: problem_wording

definition over_http ::
    "http_service \<Rightarrow> ustr \<Rightarrow> (principal \<Rightarrow> nat \<Rightarrow> audit_state \<Rightarrow> audit_state \<times> (ledger_error + 'b))
      \<Rightarrow> service_state \<Rightarrow> service_state \<times> (client_failure + 'b)" where
  "over_http sv path op world =
     (case world of (st, n) \<Rightarrow>
        let (st', answer) = (case authorized (map_sum id (\<lambda>_. ()) (key_holder sv)) of
                               Inl e \<Rightarrow> (st, Inl e)
                             | Inr _ \<Rightarrow> op (projr (key_holder sv)) n st)
        in (case network sv n of
              NeverConnects \<Rightarrow> ((st, n + 1), Inl NeverSent)
            | LosesRequest \<Rightarrow> ((st, n + 1), Inl Unanswered)
            | LosesAnswer \<Rightarrow> ((st', n + 1), Inl Unanswered)
            | Reaches \<Rightarrow>
                ((st', n + 1),
                 (case answer of
                    Inr x \<Rightarrow> Inr x
                  | Inl e \<Rightarrow>
                      (case raise_for_problem (read_int sv) (problem_response (wording sv) path e) of
                         Inl f \<Rightarrow> Inl f | Inr _ \<Rightarrow> Inl OtherException)))))"

definition DECISIONS_PATH :: ustr where
  "DECISIONS_PATH = lit ''/api/v1/decisions''"

text \<open>A text that does not encode raises before anything is sent.\<close>

definition with_content :: "ustr \<Rightarrow> (bytes \<Rightarrow> 's \<Rightarrow> 's \<times> (client_failure + 'b)) \<Rightarrow> 's \<Rightarrow> 's \<times> (client_failure + 'b)" where
  "with_content content send world =
     (case encode_utf8 content of None \<Rightarrow> (world, Inl OtherException) | Some data \<Rightarrow> send data world)"

definition http_client :: "http_service \<Rightarrow> service_state ledger_client" where
  "http_client sv =
     \<lparr>client_submit = (\<lambda>s. with_content (model_dump_json sv s) (\<lambda>data.
        over_http sv DECISIONS_PATH (served_create sv (BytesBody data)))),
      client_submit_batch = (\<lambda>ss. with_content (batch_body sv ss) (\<lambda>data.
        over_http sv (DECISIONS_PATH @ lit '':batch'') (served_batch sv (BytesBody data)))),
      client_get_bundle = (\<lambda>the_id world.
        read_typed sv (over_http sv (DECISIONS_PATH @ [47] @ the_id) (served_lookup sv the_id) world))\<rparr>"

section \<open>The two clients agree\<close>

lemma problem_document_members:
  "map_of (problem_document w path e) (lit ''code'') = Some (JStr (lit (problem_code e)))"
  "map_of (problem_document w path e) (lit ''status'') = Some (JInt (int (problem_status e)))"
  by (simp_all add: problem_document_def Let_def update_conv')

lemma problem_status_ge: "400 \<le> problem_status e"
proof (cases e)
  case (NotAuthorized p)
  then show ?thesis by (cases p) simp_all
qed simp_all

lemma raised_problem [simp]:
  "raise_for_problem read (problem_response w path e)
     = Inl (LedgerProblem (int (problem_status e)) (lit (problem_code e)))"
proof -
  have "\<not> problem_status e < 300" using problem_status_ge [of e] by simp
  then show ?thesis
    by (simp add: raise_for_problem_def problem_response_def problem_document_members Let_def
        del: list.map)
qed

end
