(* ===== verification/Assembly.thy ===== *)
theory Assembly
  imports Ledger_Client
begin

text \<open>
  How a reasoner assembles a submission from its evidence: the bypass rule its registration
  holds to apply picks the mode, the action and the citation; the ledger takes whatever is
  assembled this way. And what the mocks under \<open>reasoners/\<close> share of reading the rules gate's
  answer and of a day's run.
\<close>

section \<open>Assembling a submission\<close>

text \<open>
  The ISO text of an instant; an arithmetic operation, rounded to a float, and Python's
  \<open>round\<close> to some places. \<open>None\<close> is a value no float is near enough to: an infinity, which a
  reasoner context refuses. And a submission as JSON.
\<close>

record reckoning =
  iso_text :: "instant \<Rightarrow> ustr"
  to_float :: "rat \<Rightarrow> rat option"
  round_to :: "nat \<Rightarrow> rat \<Rightarrow> rat option"
  submission_json :: "submission \<Rightarrow> json"

datatype assembly_error = RuleRaised predicate_error | SubmissionRefused

definition constructed :: "'a reckoning_scheme \<Rightarrow> submission \<Rightarrow> assembly_error + submission" where
  "constructed k s = (if submission_valid (submission_json k) s then Inr s else Inl SubmissionRefused)"


definition ruled_by :: "bypass_rule option \<Rightarrow> submission \<Rightarrow> bool" where
  "ruled_by pick s \<longleftrightarrow>
     mode s = (if pick = None then Gate else Record) \<and> proposed_action s = map_option rule_action pick
     \<and> bypass s = map_option (\<lambda>r. \<lparr>cited_rule_id = rule_id r, cited_version = Some (rule_version r)\<rparr>) pick"

definition addressed_subject :: "uuid5 \<Rightarrow> reasoner_registration \<Rightarrow> submission \<Rightarrow> bool" where
  "addressed_subject uuid5 registration s \<longleftrightarrow>
     reasoner_id s = registered_reasoner_id registration
     \<and> set (map context_gate_id (gate_contexts s)) = gate_ids registration
     \<and> (\<exists>n \<in> set (native_namespaces registration). \<exists>key. key \<noteq> []
          \<and> native_subject s = Some \<lparr>subject_namespace = namespace_name n, native_subject_id = key\<rparr>
          \<and> asserted_entity_id s = uuid5 (namespace_uuid n) key \<and> asserted_entity_type s = namespace_entity_type n)"

lemma matching_rule_holds:
  assumes "registration_valid registration" "matching_bypass_rule registration context = Inr (Some r)"
  shows "r \<in> set (bypass_rules registration)" "rule_holds r context"
proof -
  have "r \<in> set (filter (\<lambda>r. rule_holds r context) (bypass_rules registration))"
    using assms(2) max_by_in unfolding matching_bypass_rule_max [OF assms(1)] sum.inject by metis
  then show "r \<in> set (bypass_rules registration)" "rule_holds r context" by auto
qed

lemma assembled_is_taken:
  assumes "registration_valid registration" "finite mandated" "gates registration \<noteq> []"
    and "matching_bypass_rule registration (reasoner_context s) = Inr pick"
    and "ruled_by pick s" "addressed_subject uuid5 registration s"
  shows "validate_submission uuid5 s registration mandated = Inr pick"
proof -
  note valid = registration_validD [OF assms(1)]
  have "validate_citation s registration = Inr pick"
  proof (cases pick)
    case None
    with assms(5) show ?thesis by (simp add: validate_citation_def ruled_by_def)
  next
    case (Some r)
    with matching_rule_holds [OF assms(1)] assms(4) have r: "r \<in> set (bypass_rules registration)" by blast
    moreover have "bypass_rule_of registration (rule_id r) = Some r"
      using find_unique [OF valid(2) r] by (simp add: bypass_rule_of_def)
    ultimately show ?thesis using assms(5) valid(4) by (simp add: Some validate_citation_Inr ruled_by_def)
  qed
  moreover have "validate_native_subject uuid5 s registration = Inr ()"
  proof -
    from assms(6) obtain n key where n: "n \<in> set (native_namespaces registration)" "key \<noteq> []"
      "native_subject s = Some \<lparr>subject_namespace = namespace_name n, native_subject_id = key\<rparr>"
      "asserted_entity_id s = uuid5 (namespace_uuid n) key" "asserted_entity_type s = namespace_entity_type n"
      by (auto simp: addressed_subject_def)
    moreover have "native_namespace_of registration (namespace_name n) = Some n"
      using find_unique [OF valid(3) n(1)] by (simp add: native_namespace_of_def)
    ultimately show ?thesis by (simp add: validate_native_subject_def entity_id_of_def derive_entity_id_def)
  qed
  moreover have "effective_gate_set registration mandated \<noteq> []"
    using assms(3) by (simp add: effective_gate_set_def Let_def)
  ultimately show ?thesis
    using assms(2,6) by (simp add: validate_submission_Inr addressed_subject_def)
qed

section \<open>How the rules gate ended\<close>

definition RULES_GATE :: ustr where
  "RULES_GATE = lit ''rules''"

text \<open>Why the gate gave no verdict: its own \<open>extra.failure\<close>, the record's reason, or neither.\<close>

datatype verdict_failure = ToldBy json | RecordedAs record_reason | NotInGateSet | NoVerdict

text \<open>\<open>bool(value)\<close> of a JSON value; an absent one is \<open>None\<close>.\<close>

fun json_truthy :: "json option \<Rightarrow> bool" where
  "json_truthy None = False"
| "json_truthy (Some JNull) = False"
| "json_truthy (Some (JBool b)) = b"
| "json_truthy (Some (JInt i)) = (i \<noteq> 0)"
| "json_truthy (Some (JFloat x)) = (x \<noteq> Finite 0)"
| "json_truthy (Some (JStr s)) = (s \<noteq> [])"
| "json_truthy (Some (JList xs)) = (xs \<noteq> [])"
| "json_truthy (Some (JObj kvs)) = (kvs \<noteq> [])"

text \<open>How the rules gate ended, as both mocks read it from a bundle.\<close>

definition verdict_output :: "decision_bundle \<Rightarrow> gate_output option" where
  "verdict_output b = Option.bind (bundle_gate b RULES_GATE) gate_output_of"

definition verdict_snapshot :: "decision_bundle \<Rightarrow> json" where
  "verdict_snapshot b =
     (case map_option evidence_snapshot (verdict_output b) of Some (JObj kvs) \<Rightarrow> JObj kvs | _ \<Rightarrow> JObj [])"

definition rules_matched :: "decision_bundle \<Rightarrow> json list" where
  "rules_matched b =
     (case json_get (lit ''matched_rule_ids'') (verdict_snapshot b) of Some (JList rules) \<Rightarrow> rules | _ \<Rightarrow> [])"

definition rules_default :: "decision_bundle \<Rightarrow> bool option" where
  "rules_default b =
     (if Option.bind (verdict_output b) verdict \<noteq> None
      then Some (json_truthy (json_get (lit ''default_applied'') (verdict_snapshot b))) else None)"

definition rules_failure :: "decision_bundle \<Rightarrow> verdict_failure option" where
  "rules_failure b =
     (case verdict_output b of
        None \<Rightarrow> (case bundle_gate b RULES_GATE of
                   None \<Rightarrow> Some NotInGateSet | Some r \<Rightarrow> map_option RecordedAs (record_reason r))
      | Some out \<Rightarrow>
          (case map_of (extra out) (lit ''failure'') of
             Some JNull \<Rightarrow> if verdict out = None then Some NoVerdict else None
           | None \<Rightarrow> if verdict out = None then Some NoVerdict else None
           | Some j \<Rightarrow> Some (ToldBy j)))"

section \<open>A day's run\<close>

record refusal =
  refused_event :: ustr
  refused_status :: int
  refused_code :: ustr

text \<open>
  How a run ends: it raises before anything is sent, returns, stops with what the ledger
  answered until then, or lets another exception through, the run lost.
\<close>

datatype ('e, 'r) day_end = NothingSent 'e | DayReturned 'r | DayRunStopped 'r client_failure | DayEscaped

end
