(* ===== verification/Batch_Run.thy ===== *)
theory Batch_Run
  imports Assembly
begin

text \<open>
  A reasoner that records a day in batches and submits its exceptions on their own: the batch
  mock (\<open>reasoners/mock_batch/src/mock_batch_reasoner\<close>: \<open>rows.py\<close>, \<open>scorer.py\<close>,
  \<open>registry.py\<close>, \<open>assembler.py\<close>, \<open>batch.py\<close>). Float arithmetic and \<open>exp\<close> are parameters; float
  constants are the floats nearest to what the source writes.
\<close>

section \<open>A row and its score\<close>

record account_day =
  day_event :: ustr
  day_as_of :: instant
  day_account :: ustr
  balance :: rat
  credit_limit :: rat
  days_past_due :: int
  returned_payments :: int
  needs_review :: bool

record score_reckoning = reckoning +
  exp_float :: "rat \<Rightarrow> rat option"

definition day_payload :: "'a reckoning_scheme \<Rightarrow> account_day \<Rightarrow> json_obj" where
  "day_payload k row =
     [(lit ''event_id'', JStr (day_event row)), (lit ''as_of'', JStr (iso_text k (day_as_of row))),
      (lit ''account_id'', JStr (day_account row)), (lit ''balance'', JFloat (Finite (balance row))),
      (lit ''credit_limit'', JFloat (Finite (credit_limit row))),
      (lit ''days_past_due'', JInt (days_past_due row)),
      (lit ''returned_payments'', JInt (returned_payments row)),
      (lit ''needs_review'', JBool (needs_review row))]"

definition account_day_valid :: "'a reckoning_scheme \<Rightarrow> account_day \<Rightarrow> bool" where
  "account_day_valid k row \<longleftrightarrow>
     day_event row \<noteq> [] \<and> day_account row \<noteq> [] \<and> 0 \<le> balance row \<and> 0 < credit_limit row
     \<and> 0 \<le> days_past_due row \<and> 0 \<le> returned_payments row
     \<and> storage_problem (JObj (day_payload k row)) = None"

record row_features =
  feature_balance :: rat
  feature_limit :: rat
  utilization :: rat
  feature_past_due :: int
  feature_returned :: int
  feature_review :: bool

definition as_feature_set :: "row_features \<Rightarrow> (ustr \<times> scalar) list" where
  "as_feature_set f =
     [(lit ''balance'', SFloat (feature_balance f)), (lit ''credit_limit'', SFloat (feature_limit f)),
      (lit ''utilization'', SFloat (utilization f)), (lit ''days_past_due'', SInt (feature_past_due f)),
      (lit ''returned_payments'', SInt (feature_returned f)), (lit ''needs_review'', SBool (feature_review f))]"

text \<open>\<open>row_features\<close> of the source.\<close>

definition features_of :: "'a reckoning_scheme \<Rightarrow> account_day \<Rightarrow> row_features option" where
  "features_of k row =
     Option.bind (to_float k (balance row / credit_limit row)) (\<lambda>ratio.
     Option.bind (round_to k 4 ratio) (\<lambda>u.
       Some \<lparr>feature_balance = balance row, feature_limit = credit_limit row, utilization = u,
             feature_past_due = days_past_due row, feature_returned = returned_payments row,
             feature_review = needs_review row\<rparr>))"

definition SCORE_INTERCEPT :: rat where
  "SCORE_INTERCEPT = - 3602879701896397 / 1125899906842624"

definition UTILIZATION_WEIGHT :: rat where
  "UTILIZATION_WEIGHT = 2476979795053773 / 1125899906842624"

definition UTILIZATION_CAP :: rat where
  "UTILIZATION_CAP = 3 / 2"

definition PAST_DUE_WEIGHT :: rat where
  "PAST_DUE_WEIGHT = 1261007895663739 / 36028797018963968"

definition RETURNED_WEIGHT :: rat where
  "RETURNED_WEIGHT = 3602879701896397 / 4503599627370496"

record delinquency_score =
  score_value :: rat
  score_features :: row_features
  contributions :: "contribution list"

definition logit_term :: "ustr \<Rightarrow> rat \<Rightarrow> rat \<Rightarrow> contribution" where
  "logit_term name v share =
     \<lparr>feature_name = name, feature_value = v, contribution_method = lit ''logit_term'',
      contribution_value = share\<rparr>"

text \<open>\<open>weight * n\<close> of an int: Python converts it to a float first.\<close>

definition int_term :: "'a reckoning_scheme \<Rightarrow> rat \<Rightarrow> int \<Rightarrow> rat option" where
  "int_term k weight n = Option.bind (to_float k (of_int n)) (\<lambda>x. to_float k (weight * x))"

definition score_row :: "score_reckoning \<Rightarrow> account_day \<Rightarrow> delinquency_score option" where
  "score_row k row =
     Option.bind (features_of k row) (\<lambda>f.
     Option.bind (to_float k (UTILIZATION_WEIGHT * min (utilization f) UTILIZATION_CAP)) (\<lambda>u.
     Option.bind (int_term k PAST_DUE_WEIGHT (feature_past_due f)) (\<lambda>p.
     Option.bind (int_term k RETURNED_WEIGHT (feature_returned f)) (\<lambda>r.
     Option.bind (to_float k (SCORE_INTERCEPT + u)) (\<lambda>z1.
     Option.bind (to_float k (z1 + p)) (\<lambda>z2.
     Option.bind (to_float k (z2 + r)) (\<lambda>z.
     Option.bind (exp_float k (- z)) (\<lambda>e.
     Option.bind (to_float k (1 + e)) (\<lambda>below.
     Option.bind (to_float k (1 / below)) (\<lambda>raw.
     Option.bind (round_to k 6 raw) (\<lambda>score.
     Option.bind (round_to k 6 u) (\<lambda>u6.
     Option.bind (round_to k 6 p) (\<lambda>p6.
     Option.bind (round_to k 6 r) (\<lambda>r6.
     Option.bind (to_float k (of_int (feature_past_due f))) (\<lambda>days.
     Option.bind (to_float k (of_int (feature_returned f))) (\<lambda>returns.
       Some \<lparr>score_value = score, score_features = f,
             contributions = [logit_term (lit ''utilization'') (utilization f) u6,
               logit_term (lit ''days_past_due'') days p6,
               logit_term (lit ''returned_payments'') returns r6]\<rparr>))))))))))))))))"

section \<open>The registration\<close>

definition BATCH_RULESET_ID :: ustr where
  "BATCH_RULESET_ID = lit ''mock-batch-v1''"

definition BATCH_GATE_BINDING :: gate_binding where
  "BATCH_GATE_BINDING = \<lparr>binding_gate_id = RULES_GATE, mandatory = False, config = []\<rparr>"

definition WATCH_THRESHOLD :: rat where
  "WATCH_THRESHOLD = 5404319552844595 / 18014398509481984"

definition HOLD_THRESHOLD :: rat where
  "HOLD_THRESHOLD = 5404319552844595 / 9007199254740992"

definition CHARGE_OFF_THRESHOLD :: rat where
  "CHARGE_OFF_THRESHOLD = 7656119366529843 / 9007199254740992"

definition MOCK_BATCH_ACCOUNT_NAMESPACE :: native_namespace where
  "MOCK_BATCH_ACCOUNT_NAMESPACE =
     \<lparr>namespace_name = lit ''mock-batch-account'',
      namespace_uuid = 0xf9de1e07b7134718bef97f78585b0608, namespace_entity_type = lit ''account''\<rparr>"

definition NOT_FLAGGED :: predicate where
  "NOT_FLAGGED = Compare (lit ''feature_set.needs_review'') Eq (VScalar (SBool False))"

definition score_at :: "compare_op \<Rightarrow> rat \<Rightarrow> predicate" where
  "score_at op x = Compare (lit ''label_value'') op (VScalar (SFloat x))"

definition CURRENT_ACCOUNT_RULE :: bypass_rule where
  "CURRENT_ACCOUNT_RULE =
     \<lparr>rule_id = lit ''current-account'', rule_version = lit ''1'',
      rule_description = lit ''delinquency_score below 0.3 and no review flag: the account is current; record ALLOW without the rules gate'',
      rule_predicate = AllOf [score_at Lt WATCH_THRESHOLD, NOT_FLAGGED], rule_action = ALLOW\<rparr>"

definition WATCH_LIST_RULE :: bypass_rule where
  "WATCH_LIST_RULE =
     \<lparr>rule_id = lit ''watch-list'', rule_version = lit ''1'',
      rule_description = lit ''delinquency_score from 0.3 to below 0.6 and no review flag: the account is falling behind; record CHALLENGE (contact the holder) without the rules gate'',
      rule_predicate = AllOf [score_at Ge WATCH_THRESHOLD, score_at Lt HOLD_THRESHOLD, NOT_FLAGGED],
      rule_action = CHALLENGE\<rparr>"

definition DELINQUENT_HOLD_RULE :: bypass_rule where
  "DELINQUENT_HOLD_RULE =
     \<lparr>rule_id = lit ''delinquent-hold'', rule_version = lit ''1'',
      rule_description = lit ''delinquency_score from 0.6 to below 0.85 and no review flag: the account is delinquent; record HOLD (new spending held for review) without the rules gate'',
      rule_predicate = AllOf [score_at Ge HOLD_THRESHOLD, score_at Lt CHARGE_OFF_THRESHOLD, NOT_FLAGGED],
      rule_action = HOLD\<rparr>"

definition CHARGE_OFF_RULE :: bypass_rule where
  "CHARGE_OFF_RULE =
     \<lparr>rule_id = lit ''charge-off'', rule_version = lit ''1'',
      rule_description = lit ''delinquency_score from 0.85 and no review flag: the account is headed for charge-off; record BLOCK without the rules gate'',
      rule_predicate = AllOf [score_at Ge CHARGE_OFF_THRESHOLD, NOT_FLAGGED], rule_action = BLOCK\<rparr>"

definition MOCK_BATCH_REGISTRATION :: reasoner_registration where
  "MOCK_BATCH_REGISTRATION =
     \<lparr>registered_reasoner_id = lit ''mock-batch-reasoner'',
      registered_reasoner_name = lit ''Mock Batch Reasoner'', gates = [BATCH_GATE_BINDING],
      bypass_rules = [CURRENT_ACCOUNT_RULE, WATCH_LIST_RULE, DELINQUENT_HOLD_RULE, CHARGE_OFF_RULE],
      recordable_actions = {ALLOW, CHALLENGE, HOLD, BLOCK},
      native_namespaces = [MOCK_BATCH_ACCOUNT_NAMESPACE], novel_entity_feature = None,
      jurisdiction_conflict_groups = []\<rparr>"

section \<open>The submission\<close>

definition SCORER_VERSION :: ustr where
  "SCORER_VERSION = lit ''delinquency-heuristic-v1''"

definition batch_context :: "delinquency_score \<Rightarrow> reasoner_context" where
  "batch_context d =
     \<lparr>label_value = SFloat (score_value d), feature_set = as_feature_set (score_features d),
      context_reasoner_id = registered_reasoner_id MOCK_BATCH_REGISTRATION,
      context_reasoner_name = registered_reasoner_name MOCK_BATCH_REGISTRATION,
      model_version = SCORER_VERSION, model_artifact_sha256 = None, inference_latency_ms = None,
      label_type_of = NUMERICAL, label_name = lit ''delinquency_score'',
      attribution = Some \<lparr>feature_contributions = Some (contributions d), feature_importance = None,
        narrative = None\<rparr>\<rparr>"

definition batch_gate_context :: gate_context where
  "batch_gate_context =
     \<lparr>context_gate_id = RULES_GATE, gate_config = Some [(lit ''ruleset_id'', JStr BATCH_RULESET_ID)]\<rparr>"

definition build_batch_submission ::
    "uuid5 \<Rightarrow> score_reckoning \<Rightarrow> reasoner_registration \<Rightarrow> account_day \<Rightarrow> delinquency_score
      \<Rightarrow> assembly_error + submission" where
  "build_batch_submission uuid5 k registration row d =
     rbind (map_sum RuleRaised id (matching_bypass_rule registration (batch_context d))) (\<lambda>pick.
       constructed k
         \<lparr>reasoner_id = registered_reasoner_id registration, event_id = day_event row,
          timestamp = day_as_of row,
          asserted_entity_id = uuid5 (namespace_uuid MOCK_BATCH_ACCOUNT_NAMESPACE) (day_account row),
          asserted_entity_type = namespace_entity_type MOCK_BATCH_ACCOUNT_NAMESPACE,
          native_subject = Some \<lparr>subject_namespace = namespace_name MOCK_BATCH_ACCOUNT_NAMESPACE,
            native_subject_id = day_account row\<rparr>,
          mode = (if pick = None then Gate else Record),
          proposed_action = map_option rule_action pick,
          bypass = map_option (\<lambda>r. \<lparr>cited_rule_id = rule_id r, cited_version = Some (rule_version r)\<rparr>) pick,
          reasoner_context = batch_context d, gate_contexts = [batch_gate_context],
          raw_event = day_payload k row\<rparr>)"

record scored_row =
  scored_account :: account_day
  row_score :: delinquency_score
  row_submission :: submission

definition row_is_exception :: "scored_row \<Rightarrow> bool" where
  "row_is_exception x \<longleftrightarrow> mode (row_submission x) = Gate"

datatype batch_error =
    RowsShareEvent ustr | ScoreNotFinite | RowNotAssembled assembly_error | ChunkSizeRefused nat

fun score_rows_from ::
    "uuid5 \<Rightarrow> score_reckoning \<Rightarrow> ustr set \<Rightarrow> account_day list \<Rightarrow> batch_error + scored_row list" where
  "score_rows_from uuid5 k seen [] = Inr []"
| "score_rows_from uuid5 k seen (row # rows) =
     (if day_event row \<in> seen then Inl (RowsShareEvent (day_event row))
      else (case score_row k row of
              None \<Rightarrow> Inl ScoreNotFinite
            | Some d \<Rightarrow>
                rbind (map_sum RowNotAssembled id (build_batch_submission uuid5 k MOCK_BATCH_REGISTRATION row d)) (\<lambda>s.
                rbind (score_rows_from uuid5 k (insert (day_event row) seen) rows) (\<lambda>rest.
                  Inr (\<lparr>scored_account = row, row_score = d, row_submission = s\<rparr> # rest)))))"

definition score_rows ::
    "uuid5 \<Rightarrow> score_reckoning \<Rightarrow> account_day list \<Rightarrow> batch_error + scored_row list" where
  "score_rows uuid5 k rows = score_rows_from uuid5 k {} rows"

section \<open>The plan\<close>

record day_plan =
  plan_chunks :: "submission list list"
  plan_exceptions :: "submission list"
  plan_provoked :: "ustr option"

text \<open>\<open>lines[start : start + size]\<close> for each \<open>start\<close> in \<open>range(0, len(lines), size)\<close>.\<close>

function in_chunks :: "nat \<Rightarrow> 'a list \<Rightarrow> 'a list list" where
  "in_chunks k xs = (if xs = [] \<or> k = 0 then [] else take k xs # in_chunks k (drop k xs))"
  by pat_completeness auto
termination
  by (relation "measure (length \<circ> snd)") auto

declare in_chunks.simps [simp del]

definition plan_day :: "nat \<Rightarrow> bool \<Rightarrow> scored_row list \<Rightarrow> batch_error + day_plan" where
  "plan_day chunk_size provoke scored =
     (if \<not> (1 \<le> chunk_size \<and> chunk_size \<le> MAX_BATCH_LINES) then Inl (ChunkSizeRefused chunk_size)
      else
        let exceptions = map row_submission (filter row_is_exception scored);
            provoked = (if provoke \<and> exceptions \<noteq> [] then Some (event_id (hd exceptions)) else None);
            chosen = map row_submission
              (filter (\<lambda>x. \<not> row_is_exception x \<or> Some (event_id (row_submission x)) = provoked) scored)
        in Inr \<lparr>plan_chunks = in_chunks chunk_size chosen, plan_exceptions = exceptions,
                plan_provoked = provoked\<rparr>)"

section \<open>What the ledger answered\<close>

record sent_line =
  outcome_request :: nat
  outcome_line :: batch_line

record exception_outcome =
  exception_event :: ustr
  exception_decision :: ustr
  exception_action :: decision_action
  exception_level_rule :: "ustr option"
  exception_matched :: "json list"
  exception_default :: "bool option"
  exception_failure :: "verdict_failure option"
  exception_provoked :: bool

definition exception_outcome_of :: "decision_receipt \<Rightarrow> decision_bundle \<Rightarrow> bool \<Rightarrow> exception_outcome" where
  "exception_outcome_of receipt b provoked =
     \<lparr>exception_event = receipt_event receipt, exception_decision = receipt_decision receipt,
      exception_action = receipt_action receipt, exception_level_rule = receipt_level_rule receipt,
      exception_matched = rules_matched b, exception_default = rules_default b,
      exception_failure = rules_failure b, exception_provoked = provoked\<rparr>"

record batch_run =
  run_rows :: nat
  run_provoked :: "ustr option"
  run_requests :: "(nat \<times> nat \<times> nat) list"
  run_lines :: "sent_line list"
  run_exceptions :: "exception_outcome list"
  run_refused :: "refusal list"

definition run_recorded :: "batch_run \<Rightarrow> sent_line list" where
  "run_recorded r = filter (\<lambda>o'. line_recorded (outcome_line o')) (run_lines r)"

definition run_rejected :: "batch_run \<Rightarrow> sent_line list" where
  "run_rejected r = filter (\<lambda>o'. \<not> line_recorded (outcome_line o')) (run_lines r)"

definition run_decided :: "batch_run \<Rightarrow> nat" where
  "run_decided r = length (run_recorded r) + length (run_exceptions r)"

definition run_undecided :: "batch_run \<Rightarrow> int" where
  "run_undecided r = int (run_rows r) - int (run_decided r)"

definition run_action_of :: "batch_run \<Rightarrow> ustr \<Rightarrow> decision_action option" where
  "run_action_of r event =
     (case find (\<lambda>o'. line_event (outcome_line o') = Some event \<and> line_recorded (outcome_line o')) (run_lines r) of
        Some o' \<Rightarrow> line_action (outcome_line o')
      | None \<Rightarrow> map_option exception_action (find (\<lambda>e. exception_event e = event) (run_exceptions r)))"

section \<open>The run\<close>

definition RECORD_ONLY :: ustr where
  "RECORD_ONLY = lit ''BATCH_RECORD_ONLY''"

fun send_chunks ::
    "'s ledger_client \<Rightarrow> nat \<Rightarrow> submission list list \<Rightarrow> batch_run \<Rightarrow> 's
      \<Rightarrow> 's \<times> batch_run \<times> client_failure option" where
  "send_chunks client request [] r world = (world, r, None)"
| "send_chunks client request (chunk # chunks) r world =
     (case client_submit_batch client chunk world of
        (world', Inl f) \<Rightarrow> (world', r, Some f)
      | (world', Inr a) \<Rightarrow>
          send_chunks client (request + 1) chunks
            (r\<lparr>run_requests := run_requests r @ [(length chunk, answered_recorded a, answered_rejected a)],
               run_lines := run_lines r
                 @ map (\<lambda>l. \<lparr>outcome_request = request, outcome_line = l\<rparr>) (answered_lines a)\<rparr>)
            world')"

definition rerouted :: "batch_run \<Rightarrow> ustr option set" where
  "rerouted r =
     line_event ` {l \<in> outcome_line ` set (run_rejected r). line_code l = Some RECORD_ONLY
       \<and> line_event l = run_provoked r}"

text \<open>The exceptions, given the events whose lines the ledger sent back.\<close>

fun send_exceptions ::
    "'s ledger_client \<Rightarrow> ustr option set \<Rightarrow> submission list \<Rightarrow> batch_run \<Rightarrow> 's
      \<Rightarrow> 's \<times> batch_run \<times> client_failure option" where
  "send_exceptions client back [] r world = (world, r, None)"
| "send_exceptions client back (s # ss) r world =
     (let provoked = (Some (event_id s) = run_provoked r)
      in if provoked \<and> Some (event_id s) \<notin> back then send_exceptions client back ss r world
         else (case client_submit client s world of
                 (world', Inl (LedgerProblem st code)) \<Rightarrow>
                   send_exceptions client back ss
                     (r\<lparr>run_refused := run_refused r
                          @ [\<lparr>refused_event = event_id s, refused_status = st, refused_code = code\<rparr>]\<rparr>) world'
               | (world', Inl f) \<Rightarrow> (world', r, Some f)
               | (world', Inr receipt) \<Rightarrow>
                   (case client_get_bundle client (receipt_decision receipt) world' of
                      (world'', Inl f) \<Rightarrow> (world'', r, Some f)
                    | (world'', Inr b) \<Rightarrow>
                        send_exceptions client back ss
                          (r\<lparr>run_exceptions := run_exceptions r @ [exception_outcome_of receipt b provoked]\<rparr>)
                          world'')))"

definition send_plan ::
    "'s ledger_client \<Rightarrow> day_plan \<Rightarrow> batch_run \<Rightarrow> 's \<Rightarrow> 's \<times> batch_run \<times> client_failure option" where
  "send_plan client plan r world =
     (case send_chunks client 1 (plan_chunks plan) r world of
        (world', r', Some f) \<Rightarrow> (world', r', Some f)
      | (world', r', None) \<Rightarrow> send_exceptions client (rerouted r') (plan_exceptions plan) r' world')"

definition run_batch_day ::
    "uuid5 \<Rightarrow> score_reckoning \<Rightarrow> 's ledger_client \<Rightarrow> nat \<Rightarrow> bool \<Rightarrow> account_day list \<Rightarrow> 's
      \<Rightarrow> 's \<times> (batch_error, batch_run) day_end" where
  "run_batch_day uuid5 k client chunk_size provoke rows world =
     (case rbind (score_rows uuid5 k rows) (\<lambda>scored.
           map_sum id (\<lambda>plan. (length scored, plan)) (plan_day chunk_size provoke scored)) of
        Inl e \<Rightarrow> (world, NothingSent e)
      | Inr (n, plan) \<Rightarrow>
          (case send_plan client plan
                  \<lparr>run_rows = n, run_provoked = plan_provoked plan, run_requests = [], run_lines = [],
                   run_exceptions = [], run_refused = []\<rparr> world of
             (world', r, None) \<Rightarrow> (world', DayReturned r)
           | (world', r, Some OtherException) \<Rightarrow> (world', DayEscaped)
           | (world', r, Some f) \<Rightarrow> (world', DayRunStopped r f)))"

end
