(* ===== verification/Client_Contract.thy ===== *)
theory Client_Contract
  imports Ledger_Client Api_Claims
begin

text \<open>
  What a client may rely on: the contract between a caller and the ledger as a locale, and the
  proof that the ledger over HTTP keeps it, whatever the network does.
\<close>

section \<open>The contract\<close>

text \<open>A failure after which the ledger surely holds no decision of the request.\<close>

fun surely_unmade :: "client_failure \<Rightarrow> bool" where
  "surely_unmade (LedgerProblem st code) = (st < 500)"
| "surely_unmade NeverSent = True"
| "surely_unmade _ = False"

locale decision_ledger =
  fixes client :: "'s ledger_client"
    and ready :: "'s \<Rightarrow> bool"
    and made :: "'s \<Rightarrow> ('k \<times> decision_action) list"
    and key :: "ustr \<Rightarrow> 'k"
    and sendable :: "submission \<Rightarrow> bool"
  assumes submit_made:
      "ready w \<Longrightarrow> sendable s \<Longrightarrow> client_submit client s w = (w', Inr r) \<Longrightarrow>
       ready w' \<and> made w' = made w @ [(key (receipt_decision r), receipt_action r)]
       \<and> receipt_event r = event_id s \<and> receipt_mode r = mode s"
    and submit_failed:
      "ready w \<Longrightarrow> client_submit client s w = (w', Inl f) \<Longrightarrow>
       ready w' \<and> (\<exists>added. made w' = made w @ added \<and> length added \<le> 1 \<and> (surely_unmade f \<longrightarrow> added = []))"
    and get_bundle_reads:
      "ready w \<Longrightarrow> client_get_bundle client i w = (w', answer) \<Longrightarrow> ready w' \<and> made w' = made w"

section \<open>Rows a call adds\<close>

definition row_made :: "bundle_row \<Rightarrow> uuid option \<times> decision_action" where
  "row_made row = (Some (row_id row), row_action row)"

definition ledger_made :: "service_state \<Rightarrow> (uuid option \<times> decision_action) list" where
  "ledger_made world = map row_made (bundle_rows (fst world))"

definition id_key :: "'a ledger_service_scheme \<Rightarrow> ustr \<Rightarrow> uuid option" where
  "id_key sv = pg_uuid (stored_through (service sv))"

definition drawn_key :: "'a ledger_service_scheme \<Rightarrow> nat \<times> nat \<Rightarrow> uuid option" where
  "drawn_key sv call = id_key sv (fresh_id (drawn sv (fst call) (snd call)))"

text \<open>No id still to be drawn is held or drawn twice.\<close>

definition ids_fresh :: "'a ledger_service_scheme \<Rightarrow> service_state \<Rightarrow> bool" where
  "ids_fresh sv world \<longleftrightarrow>
     (\<forall>call. snd world \<le> fst call \<longrightarrow>
        drawn_key sv call \<notin> Some ` row_id ` set (bundle_rows (fst world))
        \<and> (\<forall>call'. snd world \<le> fst call' \<longrightarrow> drawn_key sv call = drawn_key sv call'
             \<longrightarrow> drawn_key sv call \<noteq> None \<longrightarrow> call = call'))"

lemma ids_fresh_new:
  "ids_fresh sv (st, n) \<Longrightarrow> n \<le> fst call \<Longrightarrow> drawn_key sv call \<notin> Some ` row_id ` set (bundle_rows st)"
  unfolding ids_fresh_def fst_conv snd_conv by blast

lemma ids_fresh_once:
  "ids_fresh sv (st, n) \<Longrightarrow> drawn_key sv (n, m) = drawn_key sv (n, m') \<Longrightarrow> drawn_key sv (n, m) \<noteq> None \<Longrightarrow> m = m'"
  unfolding ids_fresh_def fst_conv snd_conv by (metis fst_conv order_refl snd_conv)

lemma ids_fresh_later:
  assumes "ids_fresh sv (st, n)" "bundle_rows st' = bundle_rows st @ added"
    and "\<forall>row \<in> set added. \<exists>m. drawn_key sv (n, m) = Some (row_id row)"
  shows "ids_fresh sv (st', n + 1)"
proof -
  have "drawn_key sv call \<noteq> Some (row_id row)" if "n + 1 \<le> fst call" "row \<in> set added" for call row
  proof
    assume same: "drawn_key sv call = Some (row_id row)"
    from assms(3) that(2) obtain m where "drawn_key sv (n, m) = Some (row_id row)" by blast
    with assms(1) same that(1) have "call = (n, m)"
      unfolding ids_fresh_def by (metis Suc_eq_plus1 Suc_leD fst_conv option.discI order_refl snd_conv)
    with that(1) show False by simp
  qed
  moreover have "drawn_key sv call \<notin> Some ` row_id ` set (bundle_rows st)" if "n + 1 \<le> fst call" for call
    using assms(1) that unfolding ids_fresh_def fst_conv snd_conv by (metis Suc_eq_plus1 Suc_leD)
  ultimately have "drawn_key sv call \<notin> Some ` row_id ` set (bundle_rows st')" if "n + 1 \<le> fst call" for call
    using that unfolding assms(2) set_append image_Un by blast
  moreover have "call = call'" if "n + 1 \<le> fst call" "n + 1 \<le> fst call'" "drawn_key sv call = drawn_key sv call'"
    "drawn_key sv call \<noteq> None" for call call'
    using assms(1) that unfolding ids_fresh_def fst_conv snd_conv by (metis Suc_eq_plus1 Suc_leD)
  ultimately show ?thesis unfolding ids_fresh_def fst_conv snd_conv by blast
qed

lemma rows_after_links:
  assumes "each_row insert_relationship rows st = (st', r)"
  shows "bundle_rows st' = bundle_rows st"
proof (rule each_row_keeps [OF _ assms])
  fix x s s' and r :: "store_error + unit"
  assume "insert_relationship x s = (s', r)" "bundle_rows s = bundle_rows st"
  then show "bundle_rows s' = bundle_rows st" by (simp add: insert_relationship_rows)
qed simp

text \<open>Writing one bundle.\<close>

lemma write_bundle_adds:
  assumes "write_bundle wire b st = (st', r)"
  shows "\<exists>added. bundle_rows st' = bundle_rows st @ added \<and> length added \<le> 1
    \<and> (\<forall>row \<in> set added. pg_uuid wire (decision_id b) = Some (row_id row) \<and> row_action row = bundle_action b)
    \<and> (r = Inr () \<longrightarrow> pg_uuid wire (decision_id b) \<notin> Some ` row_id ` set (bundle_rows st) \<longrightarrow> added \<noteq> [])"
proof (cases "check_row wire b")
  case (Inl e)
  with assms show ?thesis by (auto simp: write_bundle_def)
next
  case (Inr u)
  obtain st1 r1 where i: "insert_bundle wire b st = (st1, r1)" by (cases "insert_bundle wire b st")
  obtain st2 r2 where links: "each_row insert_relationship
      (if projr r1 \<noteq> None then relationship_rows b else []) st1 = (st2, r2)" by fastforce
  have "(st' = st1 \<and> (\<exists>e. r1 = Inl e) \<and> r \<noteq> Inr ()) \<or> (st' = st2 \<and> (\<exists>x. r1 = Inr x))"
    using assms Inr i links by (cases r1; cases r2) (auto simp: write_bundle_def)
  then have rows: "bundle_rows st' = bundle_rows st1" and ok: "r = Inr () \<Longrightarrow> \<exists>x. r1 = Inr x"
    using rows_after_links [OF links] by auto
  show ?thesis
    by (rule insert_bundle_cases [OF i]) (use rows ok in auto)
qed

lemma create_adds:
  assumes "create_decision api t received p body st = (st', res)"
  obtains added where "bundle_rows st' = bundle_rows st @ added" "length added \<le> 1"
    "\<And>row. row \<in> set added \<Longrightarrow> pg_uuid (stored_through api) (fresh_id t) = Some (row_id row)"
    "\<And>e. res = Inl e \<Longrightarrow> e \<noteq> InternalError \<Longrightarrow> added = []"
    "\<And>b. res = Inr b \<Longrightarrow> pg_uuid (stored_through api) (fresh_id t) \<notin> Some ` row_id ` set (bundle_rows st)
       \<Longrightarrow> map row_made added = [(pg_uuid (stored_through api) (decision_id b), bundle_action b)]"
proof -
  define outcome where "outcome = rbind (bounded body MAX_SUBMISSION_BYTES) (\<lambda>data.
           rbind (parse_submission api data) (\<lambda>s.
           rbind (authorized (require_submitter p (reasoner_id s))) (\<lambda>_.
           decide_over_api api t received s)))"
  have create: "create_decision api t received p body st =
      (case outcome of
         Inl e \<Rightarrow> (st, Inl e)
       | Inr b \<Rightarrow> (case write_bundle (stored_through api) b st of
           (st', Inl _) \<Rightarrow> (st', Inl InternalError) | (st', Inr _) \<Rightarrow> (st', Inr b)))"
    unfolding create_decision_def outcome_def by (rule refl)
  show thesis
  proof (cases outcome)
    case (Inl e)
    with assms create have "st' = st" "res = Inl e" by simp_all
    then show thesis by (intro that [of "[]"]) auto
  next
    case (Inr b)
    obtain st1 r where w: "write_bundle (stored_through api) b st = (st1, r)" by fastforce
    have res: "st' = st1" "res = (case r of Inl _ \<Rightarrow> Inl InternalError | Inr _ \<Rightarrow> Inr b)"
      using assms create Inr w by (cases r; simp)+
    from Inr obtain s where "decide_over_api api t received s = Inr b"
      by (auto simp: outcome_def rbind_Inr_iff)
    then have id: "decision_id b = fresh_id t"
      unfolding decide_over_api_def by (elim map_sum_Inr_cases decide_Inr) (simp add: or_default_def)
    from write_bundle_adds [OF w] obtain added where added: "bundle_rows st1 = bundle_rows st @ added"
      "length added \<le> 1" "\<forall>row \<in> set added. pg_uuid (stored_through api) (decision_id b) = Some (row_id row)
         \<and> row_action row = bundle_action b"
      "r = Inr () \<longrightarrow> pg_uuid (stored_through api) (decision_id b) \<notin> Some ` row_id ` set (bundle_rows st)
         \<longrightarrow> added \<noteq> []" by blast
    show thesis
    proof (rule that [of added])
      fix b' assume "res = Inr b'" and new: "pg_uuid (stored_through api) (fresh_id t)
        \<notin> Some ` row_id ` set (bundle_rows st)"
      with res(2) have "b' = b" "r = Inr ()" by (auto split: sum.splits)
      with added(2,4) new id obtain row where "added = [row]" by (cases added) auto
      with added(3) \<open>b' = b\<close> show "map row_made added
          = [(pg_uuid (stored_through api) (decision_id b'), bundle_action b')]"
        by (simp add: row_made_def)
    qed (use added res id in \<open>auto split: sum.splits\<close>)
  qed
qed

section \<open>The ledger over HTTP\<close>

text \<open>
  A submission whose JSON text the ledger reads back as itself.
\<close>

definition carried :: "'a ledger_service_scheme \<Rightarrow> submission \<Rightarrow> bool" where
  "carried sv s \<longleftrightarrow>
     (\<exists>data. encode_utf8 (model_dump_json sv s) = Some data \<and> parse_submission (service sv) data = Inr s)"

lemma create_of:
  assumes "create_decision api t received p (BytesBody data) st = (st', Inr b)" "parse_submission api data = Inr s"
  shows "submission b = s"
proof -
  from assms obtain w where "decide_over_api api t received s = Inr b"
    by (auto simp: create_decision_def bounded_def split: sum.splits if_splits prod.splits)
  then show ?thesis
    unfolding decide_over_api_def by (elim map_sum_Inr_cases decide_Inr) simp
qed

text \<open>A request over HTTP ends in one of these ways.\<close>

lemma over_http_cases:
  assumes "over_http sv path op (st, n) = (w', answer)"
  obtains (unsent) "w' = (st, n + 1)" "answer = Inl NeverSent"
  | (lost) "w' = (st, n + 1)" "answer = Inl Unanswered"
  | (refused) p where "w' = (st, n + 1)" "key_holder sv = Inl p"
      "answer = Inl Unanswered \<or> answer = Inl (LedgerProblem (int (auth_status p)) (lit (auth_code p)))"
  | (unanswered) p st' r where "key_holder sv = Inr p" "op p n st = (st', r)" "w' = (st', n + 1)"
      "answer = Inl Unanswered"
  | (problem) p st' e where "key_holder sv = Inr p" "op p n st = (st', Inl e)" "w' = (st', n + 1)"
      "answer = Inl (LedgerProblem (int (problem_status e)) (lit (problem_code e)))"
  | (answered) p st' x where "key_holder sv = Inr p" "op p n st = (st', Inr x)" "w' = (st', n + 1)"
      "answer = Inr x"
proof (cases "key_holder sv")
  case (Inl p)
  with assms unsent lost refused show thesis
    by (cases "network sv n") (auto simp: over_http_def authorized_def)
next
  case (Inr p)
  obtain st' r where r: "op p n st = (st', r)" by fastforce
  with assms Inr unsent lost unanswered problem answered show thesis
    by (cases "network sv n"; cases r) (auto simp: over_http_def authorized_def)
qed

lemma served_create_step:
  assumes "ids_fresh sv (st, n)" "served_create sv body p n st = (st', r)"
  shows "ids_fresh sv (st', n + 1)"
    and "\<exists>added. ledger_made (st', n + 1) = ledger_made (st, n) @ added \<and> length added \<le> 1
      \<and> (\<forall>e. r = Inl e \<longrightarrow> e \<noteq> InternalError \<longrightarrow> added = [])
      \<and> (\<forall>rc. r = Inr rc \<longrightarrow> added = [(id_key sv (receipt_decision rc), receipt_action rc)])"
proof -
  obtain res where c: "create_decision (service sv) (drawn sv n 0) (arrived sv n) p body st = (st', res)"
    and r: "r = map_sum id receipt_of res"
    using assms(2) by (cases "create_decision (service sv) (drawn sv n 0) (arrived sv n) p body st")
      (auto simp: served_create_def)
  from create_adds [OF c] obtain added where added: "bundle_rows st' = bundle_rows st @ added" "length added \<le> 1"
    "\<And>row. row \<in> set added \<Longrightarrow> drawn_key sv (n, 0) = Some (row_id row)"
    "\<And>e. res = Inl e \<Longrightarrow> e \<noteq> InternalError \<Longrightarrow> added = []"
    "\<And>b. res = Inr b \<Longrightarrow> drawn_key sv (n, 0) \<notin> Some ` row_id ` set (bundle_rows st)
       \<Longrightarrow> map row_made added = [(id_key sv (decision_id b), bundle_action b)]"
    unfolding drawn_key_def id_key_def fst_conv snd_conv by metis
  show "ids_fresh sv (st', n + 1)"
    using added(3) by (intro ids_fresh_later [OF assms(1) added(1)]) blast
  have "drawn_key sv (n, 0) \<notin> Some ` row_id ` set (bundle_rows st)"
    using assms(1) unfolding ids_fresh_def by simp
  with added show "\<exists>added. ledger_made (st', n + 1) = ledger_made (st, n) @ added \<and> length added \<le> 1
      \<and> (\<forall>e. r = Inl e \<longrightarrow> e \<noteq> InternalError \<longrightarrow> added = [])
      \<and> (\<forall>rc. r = Inr rc \<longrightarrow> added = [(id_key sv (receipt_decision rc), receipt_action rc)])"
    by (intro exI [of _ "map row_made added"]) (cases res; auto simp: r ledger_made_def receipt_of_def)
qed

lemma answered_problem: "e \<noteq> InternalError \<or> \<not> surely_unmade (LedgerProblem (int (problem_status e)) code)"
  by (cases e) simp_all

lemma ids_fresh_next: "ids_fresh sv (st, n) \<Longrightarrow> ids_fresh sv (st, n + 1)"
  by (rule ids_fresh_later [of sv st n st "[]"]) simp_all

lemma http_submit_failed:
  assumes "ids_fresh sv w" "client_submit (http_client sv) s w = (w', Inl f)"
  shows "ids_fresh sv w' \<and> (\<exists>added. ledger_made w' = ledger_made w @ added \<and> length added \<le> 1
    \<and> (surely_unmade f \<longrightarrow> added = []))"
proof -
  obtain st n where w: "w = (st, n)" by (cases w)
  show ?thesis
  proof (cases "encode_utf8 (model_dump_json sv s)")
    case None
    with assms show ?thesis by (simp add: http_client_def with_content_def)
  next
    case (Some data)
    then have "over_http sv DECISIONS_PATH (served_create sv (BytesBody data)) (st, n) = (w', Inl f)"
      using assms(2) by (simp add: http_client_def with_content_def w)
    then show ?thesis
    proof (cases rule: over_http_cases)
      case (unanswered p st' r)
      with served_create_step [OF assms(1) [unfolded w]] w show ?thesis by fastforce
    next
      case (problem p st' e)
      with served_create_step [OF assms(1) [unfolded w]] w answered_problem [of e] show ?thesis by fastforce
    qed (use assms(1) w ids_fresh_next [of sv st n] in \<open>auto simp: ledger_made_def\<close>)
  qed
qed

lemma http_submit_made:
  assumes "ids_fresh sv w" "carried sv s" "client_submit (http_client sv) s w = (w', Inr r)"
  shows "ids_fresh sv w' \<and> ledger_made w' = ledger_made w @ [(id_key sv (receipt_decision r), receipt_action r)]
    \<and> receipt_event r = event_id s \<and> receipt_mode r = mode s"
proof -
  obtain st n where w: "w = (st, n)" by (cases w)
  from assms(2) obtain data where data: "encode_utf8 (model_dump_json sv s) = Some data"
    "parse_submission (service sv) data = Inr s" by (auto simp: carried_def)
  then have "over_http sv DECISIONS_PATH (served_create sv (BytesBody data)) (st, n) = (w', Inr r)"
    using assms(3) by (simp add: http_client_def with_content_def w)
  then show ?thesis
  proof (cases rule: over_http_cases)
    case (answered p st' x)
    then obtain b where "create_decision (service sv) (drawn sv n 0) (arrived sv n) p (BytesBody data) st = (st', Inr b)"
      "r = receipt_of b"
      by (cases "create_decision (service sv) (drawn sv n 0) (arrived sv n) p (BytesBody data) st")
        (cases "snd (create_decision (service sv) (drawn sv n 0) (arrived sv n) p (BytesBody data) st)";
         simp add: served_create_def)
    with create_of [OF _ data(2)] have "receipt_event r = event_id s \<and> receipt_mode r = mode s"
      by (auto simp: receipt_of_def)
    with served_create_step [OF assms(1) [unfolded w]] answered w show ?thesis by fastforce
  qed simp_all
qed

lemma http_get_bundle_reads:
  assumes "ids_fresh sv w" "client_get_bundle (http_client sv) i w = (w', answer)"
  shows "ids_fresh sv w' \<and> ledger_made w' = ledger_made w"
proof -
  obtain st n where w: "w = (st, n)" by (cases w)
  from assms(2) obtain a where "over_http sv (DECISIONS_PATH @ [47] @ i) (served_lookup sv i) (st, n) = (w', a)"
    by (cases "over_http sv (DECISIONS_PATH @ [47] @ i) (served_lookup sv i) (st, n)")
      (simp add: http_client_def read_typed_def w)
  then have "w' = (st, n + 1)"
    by (cases rule: over_http_cases) (auto simp: served_lookup_def)
  with ids_fresh_next [of sv st n] assms(1) show ?thesis by (simp add: w ledger_made_def)
qed

interpretation http: decision_ledger "http_client sv" "ids_fresh sv" ledger_made "id_key sv" "carried sv"
  for sv :: http_service
  by unfold_locales (rule http_submit_made http_submit_failed http_get_bundle_reads, assumption+)+

section \<open>Batches\<close>

text \<open>A line's answer: its own event, and a gated line is sent back as record-only.\<close>

definition line_answers :: "submission \<Rightarrow> batch_line \<Rightarrow> bool" where
  "line_answers s l \<longleftrightarrow>
     line_event l = Some (event_id s)
     \<and> (mode s = Gate \<longrightarrow> \<not> line_recorded l \<and> line_code l = Some (lit ''BATCH_RECORD_ONLY''))"

definition line_made :: "(ustr \<Rightarrow> 'k) \<Rightarrow> batch_line \<Rightarrow> 'k \<times> decision_action" where
  "line_made key l = (key (the (line_decision l)), the (line_action l))"

locale batch_ledger = decision_ledger client ready made key sendable
  for client :: "'s ledger_client" and ready :: "'s \<Rightarrow> bool"
    and made :: "'s \<Rightarrow> ('k \<times> decision_action) list" and key :: "ustr \<Rightarrow> 'k"
    and sendable :: "submission \<Rightarrow> bool" +
  fixes line_sendable :: "submission \<Rightarrow> bool"
  assumes batch_made:
    "ready w \<Longrightarrow> \<forall>s \<in> set ss. line_sendable s \<Longrightarrow> client_submit_batch client ss w = (w', Inr a) \<Longrightarrow>
     ready w' \<and> made w' = made w @ map (line_made key) (filter line_recorded (answered_lines a))
     \<and> list_all2 line_answers ss (answered_lines a)"

lemma line_break_at: "10 \<notin> set d \<Longrightarrow> line_break (d @ 10 # rest) = (d, Some rest)"
  by (induction d) auto

lemma nonblank_lines:
  assumes "\<forall>d \<in> set ds. 10 \<notin> set d \<and> \<not> blank_bytes d \<and> (d \<noteq> [] \<longrightarrow> last d \<noteq> 13)"
  shows "nonblank_from n (concat (map (\<lambda>d. d @ [10]) ds)) = enumerate n ds"
  using assms
proof (induction ds arbitrary: n)
  case Nil
  then show ?case by (simp add: nonblank_from_def drop_return_def blank_bytes_def)
next
  case (Cons d ds)
  have "line_break (d @ 10 # concat (map (\<lambda>d. d @ [10]) ds)) = (d, Some (concat (map (\<lambda>d. d @ [10]) ds)))"
    using Cons.prems by (intro line_break_at) simp
  moreover have "drop_return d = d" using Cons.prems by (auto simp: drop_return_def)
  ultimately show ?case
    using Cons by (subst nonblank_from_break) simp
qed

lemma inserts_add:
  assumes "each_row (insert_bundle wire) bs st = (st', r)"
  shows "\<exists>added. bundle_rows st' = bundle_rows st @ added
    \<and> (\<forall>row \<in> set added. \<exists>b \<in> set bs. pg_uuid wire (decision_id b) = Some (row_id row))
    \<and> (\<forall>ids. r = Inr ids \<longrightarrow> distinct (map (\<lambda>b. pg_uuid wire (decision_id b)) bs)
         \<longrightarrow> (\<forall>b \<in> set bs. pg_uuid wire (decision_id b) \<notin> Some ` row_id ` set (bundle_rows st))
         \<longrightarrow> map row_made added = map (\<lambda>b. (pg_uuid wire (decision_id b), bundle_action b)) bs)"
  using assms
proof (induction bs arbitrary: st st' r)
  case (Cons b bs)
  obtain st1 r1 where i: "insert_bundle wire b st = (st1, r1)" by fastforce
  obtain st2 r2 where rest: "each_row (insert_bundle wire) bs st1 = (st2, r2)" by fastforce
  from Cons.IH [OF rest] obtain added where added: "bundle_rows st2 = bundle_rows st1 @ added"
    "\<forall>row \<in> set added. \<exists>b \<in> set bs. pg_uuid wire (decision_id b) = Some (row_id row)"
    "\<forall>ids. r2 = Inr ids \<longrightarrow> distinct (map (\<lambda>b. pg_uuid wire (decision_id b)) bs)
         \<longrightarrow> (\<forall>b \<in> set bs. pg_uuid wire (decision_id b) \<notin> Some ` row_id ` set (bundle_rows st1))
         \<longrightarrow> map row_made added = map (\<lambda>b. (pg_uuid wire (decision_id b), bundle_action b)) bs" by blast
  show ?case
  proof (rule insert_bundle_cases [OF i])
    assume "st1 = st" "r1 = Inl DatabaseError"
    with Cons.prems i show ?thesis by (intro exI [of _ "[]"]) auto
  next
    fix k assume k: "st1 = st" "r1 = Inr None" "pg_uuid wire (decision_id b) = Some k" "k \<in> row_id ` set (bundle_rows st)"
    then have "st' = st2" using Cons.prems i rest by (auto split: sum.splits)
    with k added show ?thesis by (intro exI [of _ added]) auto
  next
    fix k payload
    assume k: "r1 = Inr (Some k)" "pg_uuid wire (decision_id b) = Some k"
      "k \<notin> row_id ` set (bundle_rows st)"
      "st1 = st\<lparr>bundle_rows := bundle_rows st @
         [\<lparr>row_id = k, row_reasoner = reasoner_id (submission b), row_entity = bundle_entity_id b,
           row_created = created_at b, row_action = bundle_action b,
           row_schema = BUNDLE_SCHEMA_VERSION, row_payload = payload\<rparr>]\<rparr>"
    let ?row = "\<lparr>row_id = k, row_reasoner = reasoner_id (submission b), row_entity = bundle_entity_id b,
           row_created = created_at b, row_action = bundle_action b,
           row_schema = BUNDLE_SCHEMA_VERSION, row_payload = payload\<rparr>"
    have "st' = st2" "\<And>ids. r = Inr ids \<Longrightarrow> \<exists>ids'. r2 = Inr ids'"
      using Cons.prems i rest k(1) by (auto split: sum.splits)
    note later = this
    have "map row_made (?row # added) = map (\<lambda>b. (pg_uuid wire (decision_id b), bundle_action b)) (b # bs)"
      if "r = Inr ids" "distinct (map (\<lambda>b. pg_uuid wire (decision_id b)) (b # bs))"
        "\<forall>b \<in> set (b # bs). pg_uuid wire (decision_id b) \<notin> Some ` row_id ` set (bundle_rows st)" for ids
    proof -
      have "\<forall>b' \<in> set bs. pg_uuid wire (decision_id b') \<notin> Some ` row_id ` set (bundle_rows st1)"
        using that(2,3) k(2,4) by (auto simp: image_image) (metis imageI)
      with added(3) later(2) [OF that(1)] that(2) k(2) show ?thesis by (auto simp: row_made_def)
    qed
    moreover have "\<forall>row \<in> set (?row # added). \<exists>b' \<in> set (b # bs). pg_uuid wire (decision_id b') = Some (row_id row)"
      using added(2) k(2) by auto
    moreover have "bundle_rows st' = bundle_rows st @ ?row # added" using later(1) added(1) k(4) by simp
    ultimately show ?thesis by blast
  qed
qed simp

text \<open>A line's text, alone on its line.\<close>

definition line_carried :: "'a ledger_service_scheme \<Rightarrow> submission \<Rightarrow> bool" where
  "line_carried sv s \<longleftrightarrow>
     (\<exists>data. encode_utf8 (model_dump_json sv s) = Some data \<and> parse_submission (service sv) data = Inr s
        \<and> 10 \<notin> set data \<and> \<not> blank_bytes data \<and> (data \<noteq> [] \<longrightarrow> last data \<noteq> 13))"

lemma batch_body_lines:
  assumes "\<forall>s \<in> set ss. line_carried sv s"
  obtains ds where "encode_utf8 (batch_body sv ss) = Some (concat (map (\<lambda>d. d @ [10]) ds))"
    "list_all2 (\<lambda>s d. parse_submission (service sv) d = Inr s) ss ds"
    "\<forall>d \<in> set ds. 10 \<notin> set d \<and> \<not> blank_bytes d \<and> (d \<noteq> [] \<longrightarrow> last d \<noteq> 13)"
  using assms
proof (induction ss arbitrary: thesis)
  case Nil
  then show ?case by (simp add: batch_body_def encode_utf8_def)
next
  case (Cons s ss)
  from Cons.prems(2) obtain d where d: "encode_utf8 (model_dump_json sv s) = Some d"
    "parse_submission (service sv) d = Inr s" "10 \<notin> set d" "\<not> blank_bytes d" "d \<noteq> [] \<longrightarrow> last d \<noteq> 13"
    by (auto simp: line_carried_def)
  from Cons.IH Cons.prems(2) obtain ds where ds:
    "encode_utf8 (batch_body sv ss) = Some (concat (map (\<lambda>d. d @ [10]) ds))"
    "list_all2 (\<lambda>s d. parse_submission (service sv) d = Inr s) ss ds"
    "\<forall>d \<in> set ds. 10 \<notin> set d \<and> \<not> blank_bytes d \<and> (d \<noteq> [] \<longrightarrow> last d \<noteq> 13)" by auto
  have "encode_utf8 (batch_body sv (s # ss)) = Some (concat (map (\<lambda>d. d @ [10]) (d # ds)))"
    using d(1) ds(1) by (auto simp: batch_body_def encode_utf8_def utf8_char_def encodable_def surrogate_def byte_def split: if_splits)
  with d ds show ?case by (intro Cons.prems(1) [of "d # ds"]) auto
qed

text \<open>One line of a recorded batch.\<close>

lemma line_of_batch:
  assumes "parse_submission api d = Inr s"
  shows "line_answers s (seen_line (line_alone api ts received (n, d)))"
    and "line_alone api ts received (n, d) = LineRecorded m b \<Longrightarrow> decision_id b = fresh_id (ts n)"
    and "line_recorded (seen_line (line_alone api ts received (n, d)))
      \<longleftrightarrow> recorded_bundle (line_alone api ts received (n, d)) \<noteq> None"
proof -
  have b: "submission b = s \<and> decision_id b = fresh_id (ts n)" if "decide_over_api api (ts n) received s = Inr b" for b
    using that unfolding decide_over_api_def by (elim map_sum_Inr_cases decide_Inr) (simp add: or_default_def)
  then show "line_alone api ts received (n, d) = LineRecorded m b \<Longrightarrow> decision_id b = fresh_id (ts n)"
    using assms by (auto simp: line_alone_def split: if_splits sum.splits)
  show "line_answers s (seen_line (line_alone api ts received (n, d)))"
    using assms b by (cases "mode s") (auto simp: line_alone_def line_answers_def split: sum.splits)
  show "line_recorded (seen_line (line_alone api ts received (n, d)))
      \<longleftrightarrow> recorded_bundle (line_alone api ts received (n, d)) \<noteq> None"
    by (cases "line_alone api ts received (n, d)") auto
qed

text \<open>A batch that was written.\<close>

lemma write_bundles_Inr:
  assumes "write_bundles wire bs st = (st', Inr ())"
  shows "\<exists>st1 ids rows r. each_row (insert_bundle wire) bs st = (st1, Inr ids)
    \<and> each_row insert_relationship rows st1 = (st', r)"
proof (cases "bs = []")
  case True
  with assms show ?thesis by (intro exI [of _ st] exI [of _ "[]"]) (simp add: write_bundles_def split: sum.splits)
next
  case False
  obtain st1 r1 where i: "each_row (insert_bundle wire) bs st = (st1, r1)" by fastforce
  with assms False obtain ids where ids: "r1 = Inr ids"
    by (cases r1) (auto simp: write_bundles_def split: sum.splits)
  with assms False i show ?thesis
    by (auto simp: write_bundles_def Let_def split: sum.splits prod.splits)
qed

lemma inserted_keys:
  "each_row (insert_bundle wire) bs st = (st', Inr ids) \<Longrightarrow> b \<in> set bs \<Longrightarrow> pg_uuid wire (decision_id b) \<noteq> None"
proof (induction bs arbitrary: st ids)
  case (Cons a bs)
  obtain st1 r1 where i: "insert_bundle wire a st = (st1, r1)" by fastforce
  obtain st2 r2 where rest: "each_row (insert_bundle wire) bs st1 = (st2, r2)" by fastforce
  from Cons.prems(1) i rest obtain x xs where "r1 = Inr x" "r2 = Inr xs" "st' = st2" by (auto split: sum.splits)
  have "pg_uuid wire (decision_id a) \<noteq> None" by (rule insert_bundle_cases [OF i]) (use \<open>r1 = Inr x\<close> in auto)
  with Cons.IH [of st1 xs] rest \<open>r2 = Inr xs\<close> \<open>st' = st2\<close> Cons.prems(2) show ?case by auto
qed simp

lemma recorded_lines_made:
  "map (line_made key) (filter line_recorded (map seen_line results))
     = map (\<lambda>b. (key (decision_id b), bundle_action b)) (List.map_filter recorded_bundle results)"
proof (induction results)
  case (Cons x results)
  then show ?case by (cases x) (simp_all add: map_filter_simps line_made_def)
qed (simp add: map_filter_simps)

lemma recorded_keys:
  assumes "ids_fresh sv (st, n)"
    and bs: "bs = List.map_filter recorded_bundle (map (line_alone api (drawn sv n) received) (enumerate 1 ds))"
    and "list_all2 (\<lambda>s d. parse_submission api d = Inr s) ss ds"
    and "\<forall>b \<in> set bs. id_key sv (decision_id b) \<noteq> None"
  shows "distinct (map (\<lambda>b. id_key sv (decision_id b)) bs)"
    and "\<forall>b \<in> set bs. id_key sv (decision_id b) \<notin> Some ` row_id ` set (bundle_rows st)
       \<and> (\<exists>m. drawn_key sv (n, m) = id_key sv (decision_id b))"
proof -
  let ?alone = "line_alone api (drawn sv n) received"
  let ?kept = "filter (\<lambda>e. recorded_bundle (?alone e) \<noteq> None) (enumerate 1 ds)"
  have parsed: "\<exists>s. parse_submission api d = Inr s" if "(m, d) \<in> set (enumerate 1 ds)" for m d
  proof -
    from that have "d \<in> set ds" by (auto simp: enumerate_eq_zip dest: set_zip_rightD)
    then obtain i where "i < length ds" "ds ! i = d" by (auto simp: in_set_conv_nth)
    with assms(3) have "parse_submission api d = Inr (ss ! i)" by (auto simp: list_all2_conv_all_nth)
    then show ?thesis by blast
  qed
  have shape: "bs = map (the \<circ> recorded_bundle \<circ> ?alone) ?kept"
    by (simp add: bs List.map_filter_def filter_map comp_def)
  have key: "id_key sv (decision_id (the (recorded_bundle (?alone e)))) = drawn_key sv (n, fst e)" if "e \<in> set ?kept" for e
  proof -
    obtain m d where e: "e = (m, d)" by (cases e)
    with that parsed obtain s where "parse_submission api d = Inr s" by auto
    moreover from that e obtain m' b where "?alone (m, d) = LineRecorded m' b"
      by (cases "?alone (m, d)") auto
    ultimately show ?thesis using line_of_batch(2) e by (fastforce simp: drawn_key_def)
  qed
  have keys: "map (\<lambda>b. id_key sv (decision_id b)) bs = map (\<lambda>e. drawn_key sv (n, fst e)) ?kept"
    by (simp add: shape key)
  have "inj_on (\<lambda>e. drawn_key sv (n, fst e)) (set ?kept)"
  proof (rule inj_onI)
    fix e e' assume e: "e \<in> set ?kept" "e' \<in> set ?kept" "drawn_key sv (n, fst e) = drawn_key sv (n, fst e')"
    have "the (recorded_bundle (?alone e)) \<in> set bs" unfolding shape using e(1) by (simp only: set_map o_apply image_eqI)
    with assms(4) have "drawn_key sv (n, fst e) \<noteq> None" unfolding key [OF e(1), symmetric] by blast
    with ids_fresh_once [OF assms(1)] e(3) have "fst e = fst e'" by fastforce
    with eq_key_imp_eq_value [of "enumerate 1 ds" "fst e" "snd e" "snd e'"] e(1,2) show "e = e'"
      by (cases e, cases e') auto
  qed
  then show "distinct (map (\<lambda>b. id_key sv (decision_id b)) bs)"
    unfolding keys by (simp add: distinct_map distinct_enumerate)
  show "\<forall>b \<in> set bs. id_key sv (decision_id b) \<notin> Some ` row_id ` set (bundle_rows st)
       \<and> (\<exists>m. drawn_key sv (n, m) = id_key sv (decision_id b))"
  proof
    fix b assume "b \<in> set bs"
    then obtain e where e: "e \<in> set ?kept" "b = the (recorded_bundle (?alone e))"
      unfolding shape set_map image_iff o_apply by blast
    have "id_key sv (decision_id b) = drawn_key sv (n, fst e)" unfolding e(2) by (rule key [OF e(1)])
    with ids_fresh_new [OF assms(1), of "(n, fst e)"] show "id_key sv (decision_id b) \<notin> Some ` row_id ` set (bundle_rows st)
       \<and> (\<exists>m. drawn_key sv (n, m) = id_key sv (decision_id b))" by auto
  qed
qed

lemma http_batch_made:
  assumes "ids_fresh sv w" "\<forall>s \<in> set ss. line_carried sv s"
    and "client_submit_batch (http_client sv) ss w = (w', Inr a)"
  shows "ids_fresh sv w'
    \<and> ledger_made w' = ledger_made w @ map (line_made (id_key sv)) (filter line_recorded (answered_lines a))
    \<and> list_all2 line_answers ss (answered_lines a)"
proof -
  obtain st n where w: "w = (st, n)" by (cases w)
  let ?api = "service sv" and ?ts = "drawn sv n" and ?now = "arrived sv n"
  obtain ds where ds: "encode_utf8 (batch_body sv ss) = Some (concat (map (\<lambda>d. d @ [10]) ds))"
    "list_all2 (\<lambda>s d. parse_submission ?api d = Inr s) ss ds"
    "\<forall>d \<in> set ds. 10 \<notin> set d \<and> \<not> blank_bytes d \<and> (d \<noteq> [] \<longrightarrow> last d \<noteq> 13)"
    by (rule batch_body_lines [OF assms(2)])
  let ?data = "concat (map (\<lambda>d. d @ [10]) ds)" and ?alone = "line_alone ?api ?ts ?now"
  have "over_http sv (DECISIONS_PATH @ lit '':batch'') (served_batch sv (BytesBody ?data)) (st, n) = (w', Inr a)"
    using assms(3) ds(1) by (simp add: http_client_def with_content_def w)
  then obtain p st' where w': "w' = (st', n + 1)" and served: "served_batch sv (BytesBody ?data) p n st = (st', Inr a)"
    by (cases rule: over_http_cases) auto
  then obtain results where results: "batch_outcomes ?api ?ts ?now p (BytesBody ?data) = Inr results"
    and wrote: "write_bundles (stored_through ?api) (List.map_filter recorded_bundle results) st = (st', Inr ())"
    and a: "a = seen_batch (batch_summary results)"
    by (auto simp: served_batch_def record_batch_def split: sum.splits prod.splits)
  have lines: "results = map ?alone (enumerate 1 ds)"
    using batch_outcomes_Inr(2) [OF results] nonblank_lines [OF ds(3)] by simp
  let ?bs = "List.map_filter recorded_bundle results"
  from write_bundles_Inr [OF wrote] obtain st1 ids links r where
    inserted: "each_row (insert_bundle (stored_through ?api)) ?bs st = (st1, Inr ids)"
    and "each_row insert_relationship links st1 = (st', r)" by blast
  then have rows: "bundle_rows st' = bundle_rows st1" by (intro rows_after_links)
  have "\<forall>b \<in> set ?bs. id_key sv (decision_id b) \<noteq> None"
    using inserted_keys [OF inserted] by (simp add: id_key_def)
  note keys = recorded_keys [OF assms(1)[unfolded w] _ ds(2) this, unfolded lines, OF refl]
  from inserts_add [OF inserted] keys(1) obtain added where added: "bundle_rows st1 = bundle_rows st @ added"
    "\<forall>row \<in> set added. \<exists>b \<in> set ?bs. id_key sv (decision_id b) = Some (row_id row)"
    "map row_made added = map (\<lambda>b. (id_key sv (decision_id b), bundle_action b)) ?bs"
    using keys(2) unfolding id_key_def lines by blast
  have "ids_fresh sv (st', n + 1)"
    using added(2) keys(2) unfolding lines
    by (intro ids_fresh_later [OF assms(1)[unfolded w] rows [unfolded added(1)]]) metis
  moreover have "ledger_made w' = ledger_made w @ map (line_made (id_key sv)) (filter line_recorded (answered_lines a))"
    by (simp add: w w' ledger_made_def rows added(1,3) a seen_batch_def batch_summary_def Let_def recorded_lines_made)
  moreover have "list_all2 line_answers ss (answered_lines a)"
    using ds(2) line_of_batch(1)
    by (auto simp: a seen_batch_def batch_summary_def Let_def lines list_all2_conv_all_nth nth_enumerate_eq)
  ultimately show ?thesis using w' by simp
qed

interpretation http_batches: batch_ledger "http_client sv" "ids_fresh sv" ledger_made "id_key sv" "carried sv" "line_carried sv"
  for sv :: http_service
  by unfold_locales (rule http_batch_made)

end
