(* ===== verification/Batch_Claims.thy ===== *)
theory Batch_Claims
  imports Batch_Run Client_Contract
begin

text \<open>
  What a day sent in batches promises: every row is answered once, on its line or on its own, and
  the ledger holds what was answered; and the rows' submissions are ones the ledger takes.
\<close>

section \<open>The batch requests\<close>

lemma concat_in_chunks: "0 < k \<Longrightarrow> concat (in_chunks k xs) = xs"
proof (induction k xs rule: in_chunks.induct)
  case (1 k xs)
  then show ?case by (subst in_chunks.simps) simp
qed

context batch_ledger begin

lemma send_chunks_sent:
  assumes "ready w" "\<forall>s \<in> set (concat chunks). line_sendable s"
    and "send_chunks client n chunks r w = (w', r', None)"
  shows "\<exists>ls reqs. r' = r\<lparr>run_lines := run_lines r @ ls, run_requests := run_requests r @ reqs\<rparr> \<and> ready w'
    \<and> made w' = made w @ map (line_made key) (filter line_recorded (map outcome_line ls))
    \<and> list_all2 line_answers (concat chunks) (map outcome_line ls)"
  using assms
proof (induction chunks arbitrary: n r w)
  case Nil
  then show ?case by (intro exI [of _ "[]"]) simp
next
  case (Cons chunk chunks)
  obtain w1 a where a: "client_submit_batch client chunk w = (w1, Inr a)"
    using Cons.prems(3) by (cases "client_submit_batch client chunk w") (auto split: sum.splits)
  from batch_made [OF Cons.prems(1) _ a] Cons.prems(2) have w1: "ready w1"
    "made w1 = made w @ map (line_made key) (filter line_recorded (answered_lines a))"
    "list_all2 line_answers chunk (answered_lines a)" by simp_all
  let ?ls = "map (\<lambda>l. \<lparr>outcome_request = n, outcome_line = l\<rparr>) (answered_lines a)"
  have "send_chunks client (n + 1) chunks
     (r\<lparr>run_requests := run_requests r @ [(length chunk, answered_recorded a, answered_rejected a)],
        run_lines := run_lines r @ ?ls\<rparr>) w1 = (w', r', None)"
    using Cons.prems(3) a by simp
  from Cons.IH [OF w1(1) _ this] Cons.prems(2) obtain ls reqs where rest: "r' = r\<lparr>run_lines := run_lines r @ ?ls @ ls,
      run_requests := run_requests r @ (length chunk, answered_recorded a, answered_rejected a) # reqs\<rparr>" "ready w'"
    "made w' = made w1 @ map (line_made key) (filter line_recorded (map outcome_line ls))"
    "list_all2 line_answers (concat chunks) (map outcome_line ls)" by auto
  have "map outcome_line (?ls @ ls) = answered_lines a @ map outcome_line ls" by (simp add: comp_def)
  with rest w1 show ?case
    by (intro exI [of _ "?ls @ ls"] exI [of _ "(length chunk, answered_recorded a, answered_rejected a) # reqs"])
      (simp add: list_all2_appendI)
qed

section \<open>The exceptions\<close>

definition exception_made :: "exception_outcome \<Rightarrow> 'k \<times> decision_action" where
  "exception_made x = (key (exception_decision x), exception_action x)"

text \<open>
  What sending exceptions adds: each one tried is decided or refused, in order, and the ledger
  gains the decided ones and at most one decision for each refused with a server error.
\<close>

definition exceptions_sent ::
    "submission list \<Rightarrow> batch_run \<Rightarrow> 's \<Rightarrow> 's \<Rightarrow> batch_run \<Rightarrow> exception_outcome list \<Rightarrow> refusal list
      \<Rightarrow> ('k \<times> decision_action) list \<Rightarrow> ('k \<times> decision_action) list \<Rightarrow> bool" where
  "exceptions_sent tried r w w' r' xs rs new doubtful \<longleftrightarrow>
     r' = r\<lparr>run_exceptions := run_exceptions r @ xs, run_refused := run_refused r @ rs\<rparr>
     \<and> made w' = made w @ new \<and> new \<in> shuffles (map exception_made xs) doubtful
     \<and> length doubtful \<le> length (filter (\<lambda>x. 500 \<le> refused_status x) rs)
     \<and> map event_id tried \<in> shuffles (map exception_event xs) (map refused_event rs)"

lemma exceptions_sent_refused:
  assumes "exceptions_sent tried (r\<lparr>run_refused := run_refused r @ [x]\<rparr>) w1 w' r' xs rs new doubtful"
    and "made w1 = made w @ surplus" "length surplus \<le> 1" "refused_status x < 500 \<Longrightarrow> surplus = []"
    and "refused_event x = event_id s"
  shows "exceptions_sent (s # tried) r w w' r' xs (x # rs) (surplus @ new) (surplus @ doubtful)"
proof -
  have "surplus @ new \<in> shuffles (map exception_made xs) (surplus @ doubtful)"
    using assms(1,3) by (cases surplus) (auto simp: exceptions_sent_def intro: Cons_in_shuffles_rightI)
  moreover have "length (surplus @ doubtful) \<le> length (filter (\<lambda>x. 500 \<le> refused_status x) (x # rs))"
    using assms(1,3,4) by (cases "refused_status x < 500") (auto simp: exceptions_sent_def)
  ultimately show ?thesis
    using assms(1,2,5) by (auto simp: exceptions_sent_def intro: Cons_in_shuffles_rightI)
qed

lemma exceptions_sent_decided:
  assumes "exceptions_sent tried (r\<lparr>run_exceptions := run_exceptions r @ [x]\<rparr>) w1 w' r' xs rs new doubtful"
    and "made w1 = made w @ [exception_made x]" "exception_event x = event_id s"
  shows "exceptions_sent (s # tried) r w w' r' (x # xs) rs (exception_made x # new) doubtful"
  using assms by (auto simp: exceptions_sent_def intro: Cons_in_shuffles_leftI)

lemma send_exceptions_sent:
  assumes "ready w" "\<forall>s \<in> set ss. sendable s" "send_exceptions client back ss r w = (w', r', None)"
  shows "\<exists>xs rs new doubtful. exceptions_sent
    (filter (\<lambda>s. Some (event_id s) \<noteq> run_provoked r \<or> Some (event_id s) \<in> back) ss) r w w' r' xs rs new doubtful"
  using assms
proof (induction ss arbitrary: r w)
  case Nil
  then show ?case by (intro exI [of _ "[]"]) (simp add: exceptions_sent_def)
next
  case (Cons s ss)
  let ?provoked = "Some (event_id s) = run_provoked r"
  show ?case
  proof (cases "?provoked \<and> Some (event_id s) \<notin> back")
    case True
    then have p: "run_provoked r = Some (event_id s)" "Some (event_id s) \<notin> back" by metis+
    with Cons.prems(3) have "send_exceptions client back ss r w = (w', r', None)" by (simp add: Let_def)
    from Cons.IH [OF Cons.prems(1) _ this] Cons.prems(2) p show ?thesis by simp
  next
    case tried: False
    obtain w1 answer where submitted: "client_submit client s w = (w1, answer)" by fastforce
    show ?thesis
    proof (cases answer)
      case (Inl f)
      then obtain st code where f: "f = LedgerProblem st code"
        using Cons.prems(3) submitted tried by (cases f) (auto simp: Let_def)
      from submit_failed [OF Cons.prems(1)] submitted Inl f obtain surplus where w1: "ready w1"
        "made w1 = made w @ surplus" "length surplus \<le> 1" "st < 500 \<longrightarrow> surplus = []" by fastforce
      let ?x = "\<lparr>refused_event = event_id s, refused_status = st, refused_code = code\<rparr>"
      have "send_exceptions client back ss (r\<lparr>run_refused := run_refused r @ [?x]\<rparr>) w1 = (w', r', None)"
        using Cons.prems(3) submitted Inl f tried by (simp add: Let_def)
      from Cons.IH [OF w1(1) _ this] Cons.prems(2) obtain xs rs new doubtful where
        "exceptions_sent (filter (\<lambda>s. Some (event_id s) \<noteq> run_provoked r \<or> Some (event_id s) \<in> back) ss)
           (r\<lparr>run_refused := run_refused r @ [?x]\<rparr>) w1 w' r' xs rs new doubtful" by auto
      from exceptions_sent_refused [OF this w1(2,3), of s] w1(4) tried show ?thesis by fastforce
    next
      case (Inr receipt)
      with submit_made [OF Cons.prems(1)] Cons.prems(2) submitted have w1: "ready w1"
        "made w1 = made w @ [(key (receipt_decision receipt), receipt_action receipt)]"
        "receipt_event receipt = event_id s" by auto
      obtain w2 b where got: "client_get_bundle client (receipt_decision receipt) w1 = (w2, Inr b)"
        using Cons.prems(3) submitted Inr tried
        by (cases "client_get_bundle client (receipt_decision receipt) w1") (auto simp: Let_def split: sum.splits)
      with get_bundle_reads w1(1) have w2: "ready w2" "made w2 = made w1" by blast+
      let ?x = "exception_outcome_of receipt b ?provoked"
      have "send_exceptions client back ss (r\<lparr>run_exceptions := run_exceptions r @ [?x]\<rparr>) w2 = (w', r', None)"
        using Cons.prems(3) submitted Inr got tried by (simp add: Let_def)
      from Cons.IH [OF w2(1) _ this] Cons.prems(2) obtain xs rs new doubtful where
        "exceptions_sent (filter (\<lambda>s. Some (event_id s) \<noteq> run_provoked r \<or> Some (event_id s) \<in> back) ss)
           (r\<lparr>run_exceptions := run_exceptions r @ [?x]\<rparr>) w2 w' r' xs rs new doubtful" by auto
      from exceptions_sent_decided [OF this, of w s] w1(2,3) w2(2) tried show ?thesis
        by (fastforce simp: exception_made_def exception_outcome_of_def)
    qed
  qed
qed

end

section \<open>The scored day\<close>

lemma build_batch_submission_Inr:
  assumes "build_batch_submission uuid5 k registration row d = Inr s"
  obtains r where "matching_bypass_rule registration (batch_context d) = Inr r"
    "submission_valid (submission_json k) s" "event_id s = day_event row"
    "reasoner_id s = registered_reasoner_id registration" "ruled_by r s"
    "reasoner_context s = batch_context d" "gate_contexts s = [batch_gate_context]"
    "asserted_entity_id s = uuid5 (namespace_uuid MOCK_BATCH_ACCOUNT_NAMESPACE) (day_account row)"
    "asserted_entity_type s = namespace_entity_type MOCK_BATCH_ACCOUNT_NAMESPACE"
    "native_subject s = Some \<lparr>subject_namespace = namespace_name MOCK_BATCH_ACCOUNT_NAMESPACE,
       native_subject_id = day_account row\<rparr>"
  using assms
  by (cases "matching_bypass_rule registration (batch_context d)")
    (auto simp: build_batch_submission_def constructed_def ruled_by_def split: if_splits)

lemma score_rows_Inr:
  "score_rows_from uuid5 k seen rows = Inr scored \<Longrightarrow>
     map scored_account scored = rows \<and> distinct (map day_event rows) \<and> seen \<inter> day_event ` set rows = {}
     \<and> (\<forall>x \<in> set scored. event_id (row_submission x) = day_event (scored_account x)
          \<and> score_row k (scored_account x) = Some (row_score x)
          \<and> build_batch_submission uuid5 k MOCK_BATCH_REGISTRATION (scored_account x) (row_score x)
              = Inr (row_submission x))"
proof (induction rows arbitrary: seen scored)
  case (Cons row rows)
  from Cons.prems obtain d s rest where row: "day_event row \<notin> seen" "score_row k row = Some d"
    "build_batch_submission uuid5 k MOCK_BATCH_REGISTRATION row d = Inr s"
    "score_rows_from uuid5 k (insert (day_event row) seen) rows = Inr rest"
    "scored = \<lparr>scored_account = row, row_score = d, row_submission = s\<rparr> # rest"
    by (auto simp: rbind_Inr_iff split: if_splits option.splits elim!: map_sum_Inr_cases)
  from row(3) have "event_id s = day_event row" by (rule build_batch_submission_Inr)
  with row Cons.IH [OF row(4)] show ?case by auto
qed simp

lemma scored_distinct:
  assumes "score_rows uuid5 k rows = Inr scored"
  shows "distinct (map (event_id \<circ> row_submission) scored)"
proof -
  from score_rows_Inr assms have x: "map scored_account scored = rows" "distinct (map day_event rows)"
    "\<forall>x \<in> set scored. event_id (row_submission x) = day_event (scored_account x)"
    unfolding score_rows_def by blast+
  then have "map (event_id \<circ> row_submission) scored = map (day_event \<circ> scored_account) scored" by simp
  with x show ?thesis by (metis map_map)
qed

text \<open>The lines of a plan, and the events they answer.\<close>

lemma lines_of_plan:
  assumes "distinct (map (event_id \<circ> row_submission) scored)"
    and "p = None \<or> (\<exists>x \<in> set scored. row_is_exception x \<and> p = Some (event_id (row_submission x)))"
    and "list_all2 line_answers
      (map row_submission (filter (\<lambda>x. \<not> row_is_exception x \<or> Some (event_id (row_submission x)) = p) scored)) ls"
  shows "map line_event (filter (\<lambda>l. line_event l \<noteq> p) ls)
      = map (Some \<circ> event_id \<circ> row_submission) (filter (\<lambda>x. \<not> row_is_exception x) scored)"
    and "p \<noteq> None \<Longrightarrow> \<exists>l \<in> set ls. line_event l = p"
    and "\<forall>l \<in> set ls. line_event l = p \<longrightarrow> \<not> line_recorded l \<and> line_code l = Some (lit ''BATCH_RECORD_ONLY'')"
proof -
  let ?event = "\<lambda>x. Some (event_id (row_submission x))"
  let ?chosen = "filter (\<lambda>x. \<not> row_is_exception x \<or> ?event x = p) scored"
  have inj: "x = y" if "x \<in> set scored" "y \<in> set scored" "?event x = ?event y" for x y
    using assms(1) that by (auto simp: distinct_map inj_on_def)
  have events: "map line_event ls = map ?event ?chosen"
    using assms(3) by (auto simp: list_all2_conv_all_nth line_answers_def intro!: nth_equalityI)
  have here: "?event x \<noteq> p \<longleftrightarrow> \<not> row_is_exception x" if "x \<in> set ?chosen" for x
    using assms(2) that inj by auto
  have "map line_event (filter (\<lambda>l. line_event l \<noteq> p) ls) = filter (\<lambda>e. e \<noteq> p) (map line_event ls)"
    by (simp add: filter_map comp_def)
  also have "\<dots> = map ?event (filter (\<lambda>x. ?event x \<noteq> p) ?chosen)"
    unfolding events by (simp add: filter_map comp_def)
  also have "filter (\<lambda>x. ?event x \<noteq> p) ?chosen = filter (\<lambda>x. \<not> row_is_exception x) ?chosen"
    using here by (intro filter_cong) auto
  also have "\<dots> = filter (\<lambda>x. \<not> row_is_exception x) scored" by (auto intro: filter_cong)
  finally show "map line_event (filter (\<lambda>l. line_event l \<noteq> p) ls)
      = map (Some \<circ> event_id \<circ> row_submission) (filter (\<lambda>x. \<not> row_is_exception x) scored)"
    by (simp add: comp_def)
  show "\<exists>l \<in> set ls. line_event l = p" if "p \<noteq> None"
  proof -
    from that assms(2) obtain x where "x \<in> set ?chosen" "?event x = p" by auto
    then have "p \<in> set (map line_event ls)" unfolding events by auto
    then show ?thesis by auto
  qed
  show "\<forall>l \<in> set ls. line_event l = p \<longrightarrow> \<not> line_recorded l \<and> line_code l = Some (lit ''BATCH_RECORD_ONLY'')"
  proof (intro ballI impI)
    fix l assume l: "l \<in> set ls" "line_event l = p"
    then obtain i where i: "i < length ls" "ls ! i = l" by (auto simp: in_set_conv_nth)
    with assms(3) have "i < length ?chosen" "line_answers (row_submission (?chosen ! i)) l"
      by (auto simp: list_all2_conv_all_nth)
    moreover from this have "?event (?chosen ! i) = p" using l(2) by (simp add: line_answers_def)
    then have "row_is_exception (?chosen ! i)" using here [OF nth_mem] calculation(1) by blast
    ultimately show "\<not> line_recorded l \<and> line_code l = Some (lit ''BATCH_RECORD_ONLY'')"
      by (simp add: line_answers_def row_is_exception_def)
  qed
qed

text \<open>What a completed run sent.\<close>

lemma returned_run:
  assumes "score_rows uuid5 k rows = Inr scored"
    and "run_batch_day uuid5 k client chunk_size provoke rows w = (w', DayReturned r)"
  obtains p w1 r1 where
    "p = None \<or> (\<exists>x \<in> set scored. row_is_exception x \<and> p = Some (event_id (row_submission x)))"
    "send_chunks client 1 (in_chunks chunk_size (map row_submission
        (filter (\<lambda>x. \<not> row_is_exception x \<or> Some (event_id (row_submission x)) = p) scored)))
      \<lparr>run_rows = length scored, run_provoked = p, run_requests = [], run_lines = [], run_exceptions = [],
       run_refused = []\<rparr> w = (w1, r1, None)"
    "send_exceptions client (rerouted r1) (map row_submission (filter row_is_exception scored)) r1 w1 = (w', r, None)"
    "0 < chunk_size"
proof -
  let ?xs = "map row_submission (filter row_is_exception scored)"
  let ?p = "if provoke \<and> ?xs \<noteq> [] then Some (event_id (hd ?xs)) else None"
  have p: "?p = None \<or> (\<exists>x \<in> set scored. row_is_exception x \<and> ?p = Some (event_id (row_submission x)))"
    by (cases "filter row_is_exception scored") (auto simp: filter_eq_Cons_iff)
  let ?chunks = "in_chunks chunk_size (map row_submission
    (filter (\<lambda>x. \<not> row_is_exception x \<or> Some (event_id (row_submission x)) = ?p) scored))"
  let ?plan = "\<lparr>plan_chunks = ?chunks, plan_exceptions = ?xs, plan_provoked = ?p\<rparr>"
  let ?start = "\<lparr>run_rows = length scored, run_provoked = ?p, run_requests = [], run_lines = [],
    run_exceptions = [], run_refused = []\<rparr>"
  from assms have planned: "0 < chunk_size" "plan_day chunk_size provoke scored = Inr ?plan"
    by (auto simp: run_batch_day_def plan_day_def Let_def split: if_splits)
  with assms have "send_plan client ?plan ?start w = (w', r, None)"
    by (auto simp: run_batch_day_def split: prod.splits option.splits client_failure.splits)
  then obtain w1 r1 where "send_chunks client 1 ?chunks ?start w = (w1, r1, None)"
    "send_exceptions client (rerouted r1) ?xs r1 w1 = (w', r, None)"
    by (auto simp: send_plan_def split: prod.splits option.splits)
  from p this planned(1) show thesis by (rule that)
qed

lemma send_exceptions_keeps:
  "send_exceptions client back ss r w = (w', r', stop) \<Longrightarrow>
     run_lines r' = run_lines r \<and> run_provoked r' = run_provoked r \<and> run_rows r' = run_rows r"
proof (induction ss arbitrary: r w)
  case (Cons s ss)
  then show ?case
    by (fastforce simp: Let_def split: if_splits prod.splits sum.splits client_failure.splits)
qed simp

text \<open>The exceptions a returned run sent on its own: all of them, since the provoked line came back.\<close>

lemma returned_run_sent:
  fixes sv :: http_service
  assumes "ids_fresh sv w" "score_rows uuid5 k rows = Inr scored"
    and "\<forall>x \<in> set scored. carried sv (row_submission x) \<and> line_carried sv (row_submission x)"
    and "run_batch_day uuid5 k (http_client sv) chunk_size provoke rows w = (w', DayReturned r)"
  obtains w1 r1 new doubtful where
    "ledger_made w1 = ledger_made w @ map (line_made (id_key sv)) (filter line_recorded (map outcome_line (run_lines r)))"
    "run_rows r = length scored" "run_exceptions r1 = []" "run_refused r1 = []"
    "http_batches.exceptions_sent sv (map row_submission (filter row_is_exception scored)) r1 w1 w' r
       (run_exceptions r) (run_refused r) new doubtful"
    "map line_event (filter (\<lambda>l. line_event l \<noteq> run_provoked r) (map outcome_line (run_lines r)))
       = map (Some \<circ> event_id \<circ> row_submission) (filter (\<lambda>x. \<not> row_is_exception x) scored)"
    "\<forall>l \<in> set (map outcome_line (run_lines r)). line_event l = run_provoked r \<longrightarrow> \<not> line_recorded l"
proof -
  obtain p w1 r1 where p: "p = None \<or> (\<exists>x \<in> set scored. row_is_exception x \<and> p = Some (event_id (row_submission x)))"
    and chunks: "send_chunks (http_client sv) 1 (in_chunks chunk_size (map row_submission
        (filter (\<lambda>x. \<not> row_is_exception x \<or> Some (event_id (row_submission x)) = p) scored)))
      \<lparr>run_rows = length scored, run_provoked = p, run_requests = [], run_lines = [], run_exceptions = [],
       run_refused = []\<rparr> w = (w1, r1, None)"
    and excs: "send_exceptions (http_client sv) (rerouted r1)
      (map row_submission (filter row_is_exception scored)) r1 w1 = (w', r, None)" and "0 < chunk_size"
    by (rule returned_run [OF assms(2,4)])
  note flat = concat_in_chunks [OF \<open>0 < chunk_size\<close>]
  from http_batches.send_chunks_sent [OF assms(1) _ chunks] assms(3) obtain ls reqs where
    r1: "r1 = \<lparr>run_rows = length scored, run_provoked = p, run_requests = reqs, run_lines = ls,
      run_exceptions = [], run_refused = []\<rparr>" and w1: "ids_fresh sv w1"
      "ledger_made w1 = ledger_made w @ map (line_made (id_key sv)) (filter line_recorded (map outcome_line ls))"
    and answers: "list_all2 line_answers (map row_submission
        (filter (\<lambda>x. \<not> row_is_exception x \<or> Some (event_id (row_submission x)) = p) scored)) (map outcome_line ls)"
    unfolding flat by auto
  note lines = lines_of_plan [OF scored_distinct [OF assms(2)] p answers]
  from send_exceptions_keeps [OF excs] r1 have kept: "run_lines r = ls" "run_provoked r = p" "run_rows r = length scored"
    by simp_all
  have "p \<noteq> None \<Longrightarrow> p \<in> rerouted r1"
    using lines(2,3) r1 by (fastforce simp: rerouted_def run_rejected_def RECORD_ONLY_def)
  then have all: "filter (\<lambda>s. Some (event_id s) \<noteq> run_provoked r1 \<or> Some (event_id s) \<in> rerouted r1) ss = ss" for ss
    using r1 by (auto simp: filter_id_conv)
  from http_batches.send_exceptions_sent [OF w1(1) _ excs, unfolded all] assms(3) obtain xs rs new doubtful where
    "http_batches.exceptions_sent sv (map row_submission (filter row_is_exception scored)) r1 w1 w' r xs rs new doubtful"
    by auto
  moreover from this have "run_exceptions r = xs" "run_refused r = rs"
    by (auto simp: http_batches.exceptions_sent_def r1)
  ultimately have "http_batches.exceptions_sent sv (map row_submission (filter row_is_exception scored)) r1 w1 w' r
    (run_exceptions r) (run_refused r) new doubtful" by (simp only:)
  moreover have "run_exceptions r1 = []" "run_refused r1 = []" by (simp_all add: r1)
  moreover have "\<forall>l \<in> set (map outcome_line ls). line_event l = p \<longrightarrow> \<not> line_recorded l" using lines(3) by blast
  ultimately show thesis
    using w1(2) lines(1) by (intro that [of w1 r1 new doubtful]) (simp_all only: kept)
qed

text \<open>The rows without a decision are the lines of their own sent back, and the refusals.\<close>

lemma undecided_counted:
  assumes "run_rows r = length own + length tried" "length (filter P (run_lines r)) = length own"
    and "length tried = length (run_exceptions r) + length (run_refused r)" "\<forall>l \<in> set (run_recorded r). P l"
  shows "run_undecided r = int (length (filter P (run_rejected r))) + int (length (run_refused r))"
proof -
  let ?recorded = "\<lambda>l. line_recorded (outcome_line l)"
  have "filter ?recorded (filter P (run_lines r)) = run_recorded r"
    using assms(4) by (auto simp: run_recorded_def intro: filter_cong)
  moreover have "filter (\<lambda>l. \<not> ?recorded l) (filter P (run_lines r)) = filter P (run_rejected r)"
    by (auto simp: run_rejected_def intro: filter_cong)
  ultimately have "length (filter P (run_lines r)) = length (run_recorded r) + length (filter P (run_rejected r))"
    using sum_length_filter_compl [of ?recorded "filter P (run_lines r)"] by metis
  with assms(1-3) show ?thesis by (simp add: run_undecided_def run_decided_def)
qed


section \<open>Its submissions are taken\<close>

lemma batch_registration_valid: "registration_valid MOCK_BATCH_REGISTRATION"
  by (simp add: registration_valid_def MOCK_BATCH_REGISTRATION_def BATCH_GATE_BINDING_def RULES_GATE_def
      CURRENT_ACCOUNT_RULE_def WATCH_LIST_RULE_def DELINQUENT_HOLD_RULE_def CHARGE_OFF_RULE_def score_at_def
      NOT_FLAGGED_def MOCK_BATCH_ACCOUNT_NAMESPACE_def binding_valid_def bypass_rule_valid_def
      native_namespace_valid_def gate_set_and_rules_are_consistent_def field_is_addressable_def
      FEATURE_PREFIX_def LABEL_FIELD_def value_fits_op_def ORDERING_OPS_def MEMBERSHIP_OPS_def)

lemma batch_fields:
  "resolve_field (lit ''label_value'') (batch_context d) = Inr (SFloat (score_value d))"
  "resolve_field (lit ''feature_set.needs_review'') (batch_context d) = Inr (SBool (feature_review (score_features d)))"
  by (simp_all add: resolve_field_def LABEL_FIELD_def FEATURE_PREFIX_def remove_prefix_def
      batch_context_def as_feature_set_def Let_def)

text \<open>The band of a score: a severer action the higher it is.\<close>

definition band :: "rat \<Rightarrow> bypass_rule" where
  "band x = (if x < WATCH_THRESHOLD then CURRENT_ACCOUNT_RULE else if x < HOLD_THRESHOLD then WATCH_LIST_RULE
     else if x < CHARGE_OFF_THRESHOLD then DELINQUENT_HOLD_RULE else CHARGE_OFF_RULE)"

lemma batch_rules_hold:
  "rule_holds CURRENT_ACCOUNT_RULE (batch_context d)
     \<longleftrightarrow> score_value d < WATCH_THRESHOLD \<and> \<not> feature_review (score_features d)"
  "rule_holds WATCH_LIST_RULE (batch_context d)
     \<longleftrightarrow> WATCH_THRESHOLD \<le> score_value d \<and> score_value d < HOLD_THRESHOLD \<and> \<not> feature_review (score_features d)"
  "rule_holds DELINQUENT_HOLD_RULE (batch_context d)
     \<longleftrightarrow> HOLD_THRESHOLD \<le> score_value d \<and> score_value d < CHARGE_OFF_THRESHOLD \<and> \<not> feature_review (score_features d)"
  "rule_holds CHARGE_OFF_RULE (batch_context d)
     \<longleftrightarrow> CHARGE_OFF_THRESHOLD \<le> score_value d \<and> \<not> feature_review (score_features d)"
  by (auto simp: rule_holds_def CURRENT_ACCOUNT_RULE_def WATCH_LIST_RULE_def DELINQUENT_HOLD_RULE_def
      CHARGE_OFF_RULE_def score_at_def NOT_FLAGGED_def batch_fields compare_scalar_def scalar_equal_def simp del: list.map)

lemma batch_rule:
  "matching_bypass_rule MOCK_BATCH_REGISTRATION (batch_context d)
     = Inr (if feature_review (score_features d) then None else Some (band (score_value d)))"
  unfolding matching_bypass_rule_max [OF batch_registration_valid]
  by (auto simp: MOCK_BATCH_REGISTRATION_def batch_rules_hold band_def
      WATCH_THRESHOLD_def HOLD_THRESHOLD_def CHARGE_OFF_THRESHOLD_def)

text \<open>
  C39: The batch mock's submissions are taken. Under its own registration, and whatever gates a
  deployment mandates, every row of a scored day is a valid submission that passes intake: a
  flagged row is gated with no proposal, and any other is recorded under the rule of its score's
  band, which holds on the evidence it carries, with that rule's action.
\<close>

theorem batch_submissions_are_taken:
  assumes "score_rows uuid5 k rows = Inr scored" "x \<in> set scored"
    and "\<forall>row \<in> set rows. account_day_valid k row" "finite mandated"
  shows "\<exists>pick. validate_submission uuid5 (row_submission x) MOCK_BATCH_REGISTRATION mandated = Inr pick
    \<and> submission_valid (submission_json k) (row_submission x)
    \<and> proposed_action (row_submission x) = map_option rule_action pick
    \<and> (if needs_review (scored_account x) then pick = None \<and> row_is_exception x
       else pick = Some (band (score_value (row_score x))) \<and> mode (row_submission x) = Record
         \<and> rule_holds (band (score_value (row_score x))) (reasoner_context (row_submission x)))"
proof -
  let ?s = "row_submission x" and ?row = "scored_account x" and ?d = "row_score x"
  from score_rows_Inr [of uuid5 k "{}" rows scored] assms(1,2) have x: "?row \<in> set rows"
    "score_row k ?row = Some ?d" "build_batch_submission uuid5 k MOCK_BATCH_REGISTRATION ?row ?d = Inr ?s"
    unfolding score_rows_def by auto
  from x(2) have flag: "feature_review (score_features ?d) = needs_review ?row"
    by (auto simp: score_row_def features_of_def bind_eq_Some_conv dest!: sym [of _ ?d])
  from x(1) assms(3) have "day_account ?row \<noteq> []" by (simp add: account_day_valid_def)
  from x(3) obtain r where r: "matching_bypass_rule MOCK_BATCH_REGISTRATION (batch_context ?d) = Inr r"
    "submission_valid (submission_json k) ?s" "ruled_by r ?s" "reasoner_context ?s = batch_context ?d"
    "addressed_subject uuid5 MOCK_BATCH_REGISTRATION ?s"
    by (rule build_batch_submission_Inr)
      (use \<open>day_account ?row \<noteq> []\<close> in \<open>auto simp: addressed_subject_def MOCK_BATCH_REGISTRATION_def
        gate_ids_def BATCH_GATE_BINDING_def batch_gate_context_def\<close>)
  have "validate_submission uuid5 ?s MOCK_BATCH_REGISTRATION mandated = Inr r"
    by (rule assembled_is_taken [OF batch_registration_valid assms(4) _ _ r(3,5)])
      (use r(1,4) in \<open>simp_all add: MOCK_BATCH_REGISTRATION_def\<close>)
  moreover from r(1) have "r = (if needs_review ?row then None else Some (band (score_value ?d)))"
    by (simp add: batch_rule flag)
  moreover have "rule_holds (band (score_value ?d)) (batch_context ?d)" if "\<not> needs_review ?row"
    using that by (auto simp: band_def batch_rules_hold flag)
  ultimately show ?thesis
    using r(2-4) by (auto simp: ruled_by_def row_is_exception_def)
qed

section \<open>A day of two rows\<close>

definition ex_scoring :: score_reckoning where
  "ex_scoring =
     \<lparr>iso_text = (\<lambda>_. []), to_float = Some, round_to = (\<lambda>_. Some), submission_json = (\<lambda>_. JNull),
      exp_float = (\<lambda>_. Some 1)\<rparr>"

definition ex_day :: "ustr \<Rightarrow> bool \<Rightarrow> account_day" where
  "ex_day event flagged =
     \<lparr>day_event = event, day_as_of = 0, day_account = [97], balance = 0, credit_limit = 100,
      days_past_due = 0, returned_payments = 0, needs_review = flagged\<rparr>"

definition ex_rows :: "account_day list" where
  "ex_rows = [ex_day [101] False, ex_day [102] True]"

lemma ex_rows_valid: "\<forall>row \<in> set ex_rows. account_day_valid ex_scoring row"
  by (simp add: ex_rows_def ex_day_def account_day_valid_def day_payload_def ex_scoring_def
      storage_problem_None_iff surrogate_def)

lemma ex_assembled:
  assumes "score_value d = 1 / 2" "feature_review (score_features d) = flagged" "event \<noteq> []"
  shows "\<exists>s. build_batch_submission (\<lambda>_ _. 0) ex_scoring MOCK_BATCH_REGISTRATION (ex_day event flagged) d = Inr s"
  unfolding build_batch_submission_def batch_rule
  using assms
  by (simp add: constructed_def submission_valid_def mode_fields_are_consistent_def
      one_reasoner_and_one_context_per_gate_def storable_submission_def ex_scoring_def ex_day_def band_def
      WATCH_THRESHOLD_def HOLD_THRESHOLD_def WATCH_LIST_RULE_def MOCK_BATCH_ACCOUNT_NAMESPACE_def
      MOCK_BATCH_REGISTRATION_def native_subject_valid_def batch_context_def Let_def)

lemma ex_scored:
  obtains a b where "score_rows (\<lambda>_ _. 0) ex_scoring ex_rows = Inr [a, b]"
    "score_value (row_score a) = 1 / 2" "scored_account a = ex_day [101] False"
    "scored_account b = ex_day [102] True"
proof -
  have scores: "\<exists>d. score_row ex_scoring (ex_day event flagged) = Some d \<and> score_value d = 1 / 2
      \<and> feature_review (score_features d) = flagged" for event flagged
    by (simp add: score_row_def features_of_def int_term_def ex_scoring_def ex_day_def)
  from scores [of "[101]" False] ex_assembled [of _ False "[101]"] obtain d s where a:
    "score_row ex_scoring (ex_day [101] False) = Some d" "score_value d = 1 / 2"
    "build_batch_submission (\<lambda>_ _. 0) ex_scoring MOCK_BATCH_REGISTRATION (ex_day [101] False) d = Inr s" by blast
  from scores [of "[102]" True] ex_assembled [of _ True "[102]"] obtain d' s' where b:
    "score_row ex_scoring (ex_day [102] True) = Some d'"
    "build_batch_submission (\<lambda>_ _. 0) ex_scoring MOCK_BATCH_REGISTRATION (ex_day [102] True) d' = Inr s'" by blast
  have "day_event (ex_day e f) = e" for e f by (simp add: ex_day_def)
  with a b show thesis
    by (intro that [of "\<lparr>scored_account = ex_day [101] False, row_score = d, row_submission = s\<rparr>"
        "\<lparr>scored_account = ex_day [102] True, row_score = d', row_submission = s'\<rparr>"])
      (simp_all add: score_rows_def ex_rows_def)
qed

theorem batch_submissions_are_taken_witness:
  "\<exists>a b. score_rows (\<lambda>_ _. 0) ex_scoring ex_rows = Inr [a, b]
     \<and> validate_submission (\<lambda>_ _. 0) (row_submission a) MOCK_BATCH_REGISTRATION {RULES_GATE} = Inr (Some WATCH_LIST_RULE)
     \<and> validate_submission (\<lambda>_ _. 0) (row_submission b) MOCK_BATCH_REGISTRATION {RULES_GATE} = Inr None"
proof -
  obtain a b where ab: "score_rows (\<lambda>_ _. 0) ex_scoring ex_rows = Inr [a, b]" "score_value (row_score a) = 1 / 2"
    "scored_account a = ex_day [101] False" "scored_account b = ex_day [102] True"
    by (rule ex_scored)
  have "band (1 / 2) = WATCH_LIST_RULE"
    by (simp add: band_def WATCH_THRESHOLD_def HOLD_THRESHOLD_def)
  with batch_submissions_are_taken [OF ab(1) _ ex_rows_valid, of a "{RULES_GATE}"]
    batch_submissions_are_taken [OF ab(1) _ ex_rows_valid, of b "{RULES_GATE}"] ab
  show ?thesis by (auto simp: ex_day_def)
qed

text \<open>A ledger that refuses the key.\<close>

definition ex_refusing :: "submission \<Rightarrow> decision_bundle \<Rightarrow> http_service" where
  "ex_refusing s b =
     \<lparr>service = \<lparr>served = ex_deployment [], stored_through = (ex_wire b)\<lparr>pg_uuid := (\<lambda>_. None)\<rparr>,
        read_submission = (\<lambda>_. Some s), dump_submission = (\<lambda>_. JNull)\<rparr>,
      drawn = (\<lambda>n m. ex_readings), arrived = (\<lambda>_. 0), model_dump_json = (\<lambda>_. [97]),
      key_holder = Inl Unauthenticated, network = (\<lambda>_. Reaches), read_int = (\<lambda>_. None),
      wording = \<lparr>extra_members = (\<lambda>_. []), detail_text = (\<lambda>_. [])\<rparr>\<rparr>"

lemma ex_refusing_fresh: "ids_fresh (ex_refusing s b) (ex_ledger, 0)"
  by (auto simp: ids_fresh_def drawn_key_def id_key_def ex_refusing_def ex_ledger_def)

lemma ex_refusing_carries:
  assumes "submission_valid (\<lambda>_. JNull) s"
  shows "carried (ex_refusing s b) s \<and> line_carried (ex_refusing s b) s"
  using assms
  by (simp add: carried_def line_carried_def ex_refusing_def parse_submission_def encode_utf8_def encodable_def
      surrogate_def utf8_char_def byte_def blank_bytes_def)

lemma ex_refusing_submit:
  "client_submit (http_client (ex_refusing s b)) s' (ex_ledger, 0)
     = ((ex_ledger, 1), Inl (LedgerProblem 401 (lit ''UNAUTHENTICATED'')))"
  by (simp add: http_client_def with_content_def ex_refusing_def encode_utf8_def encodable_def surrogate_def
      utf8_char_def byte_def over_http_def authorized_def)

lemma ex_flagged:
  obtains x where "score_rows (\<lambda>_ _. 0) ex_scoring [ex_day [102] True] = Inr [x]" "row_is_exception x"
    "submission_valid (\<lambda>_. JNull) (row_submission x)" "event_id (row_submission x) = [102]"
proof -
  obtain a b where ab: "score_rows (\<lambda>_ _. 0) ex_scoring ex_rows = Inr [a, b]" "scored_account b = ex_day [102] True"
    by (rule ex_scored)
  note b = score_rows_Inr [OF ab(1) [unfolded score_rows_def]]
  obtain r where r: "matching_bypass_rule MOCK_BATCH_REGISTRATION (batch_context (row_score b)) = Inr r"
    "submission_valid (submission_json ex_scoring) (row_submission b)" "ruled_by r (row_submission b)"
    "event_id (row_submission b) = day_event (scored_account b)"
    by (rule build_batch_submission_Inr [of "\<lambda>_ _. 0" ex_scoring MOCK_BATCH_REGISTRATION "scored_account b"
        "row_score b" "row_submission b"]) (use b in auto)
  from b have "score_row ex_scoring (scored_account b) = Some (row_score b)" by simp
  then have "feature_review (score_features (row_score b))"
    using ab(2) by (auto simp: score_row_def features_of_def bind_eq_Some_conv ex_day_def dest!: sym [of _ "row_score b"])
  with r(1) have "r = None" by (simp add: batch_rule)
  have "day_event (ex_day [102] True) = [102]" by (simp add: ex_day_def)
  with b ab(2) r \<open>r = None\<close> show thesis
    by (intro that [of b]) (auto simp: score_rows_def ruled_by_def row_is_exception_def ex_scoring_def)
qed


end
