(* ===== verification/Daily_Run.thy ===== *)
theory Daily_Run
  imports Assembly
begin

text \<open>
  A reasoner that submits one row at a time: the daily mock
  (\<open>reasoners/mock_daily/src/mock_daily_reasoner\<close>: \<open>settlements.py\<close>, \<open>compute.py\<close>,
  \<open>registry.py\<close>, \<open>assembler.py\<close>, \<open>daily.py\<close>). Float arithmetic is a parameter.
\<close>

section \<open>A row and its drift\<close>

record account_settlement =
  settled_event :: ustr
  settled_as_of :: instant
  settled_account :: ustr
  target_amount :: rat
  actual_amount :: rat

text \<open>The text of a drift's arithmetic is a parameter.\<close>

record drift_reckoning = reckoning +
  drift_text :: "rat \<Rightarrow> rat \<Rightarrow> rat \<Rightarrow> ustr"

definition settlement_payload :: "drift_reckoning \<Rightarrow> account_settlement \<Rightarrow> json_obj" where
  "settlement_payload k row =
     [(lit ''event_id'', JStr (settled_event row)), (lit ''as_of'', JStr (iso_text k (settled_as_of row))),
      (lit ''account_id'', JStr (settled_account row)),
      (lit ''target_amount'', JFloat (Finite (target_amount row))),
      (lit ''actual_amount'', JFloat (Finite (actual_amount row)))]"

text \<open>The validators; the derived id, a uuid's text, is always storable.\<close>

definition settlement_valid :: "drift_reckoning \<Rightarrow> account_settlement \<Rightarrow> bool" where
  "settlement_valid k row \<longleftrightarrow>
     settled_event row \<noteq> [] \<and> settled_account row \<noteq> [] \<and> 0 < target_amount row \<and> 0 \<le> actual_amount row
     \<and> storage_problem (JObj (settlement_payload k row)) = None"

record settlement_drift =
  drift_target :: rat
  drift_actual :: rat
  drift_amount :: rat
  drift_pct :: rat
  abs_drift_pct :: rat

definition compute_drift :: "drift_reckoning \<Rightarrow> account_settlement \<Rightarrow> settlement_drift option" where
  "compute_drift k row =
     Option.bind (to_float k (actual_amount row - target_amount row)) (\<lambda>difference.
     Option.bind (to_float k (100 * difference)) (\<lambda>scaled.
     Option.bind (to_float k (scaled / target_amount row)) (\<lambda>pct.
     Option.bind (round_to k 4 pct) (\<lambda>pct.
     Option.bind (round_to k 2 difference) (\<lambda>amount.
       Some \<lparr>drift_target = target_amount row, drift_actual = actual_amount row,
             drift_amount = amount, drift_pct = pct, abs_drift_pct = \<bar>pct\<bar>\<rparr>)))))"

definition drift_features :: "settlement_drift \<Rightarrow> (ustr \<times> scalar) list" where
  "drift_features d =
     [(lit ''target_amount'', SFloat (drift_target d)), (lit ''actual_amount'', SFloat (drift_actual d)),
      (lit ''drift_amount'', SFloat (drift_amount d)), (lit ''drift_pct'', SFloat (drift_pct d)),
      (lit ''abs_drift_pct'', SFloat (abs_drift_pct d))]"

section \<open>The registration\<close>

definition RULESET_ID :: ustr where
  "RULESET_ID = lit ''mock-daily-v1''"

definition RULES_GATE_BINDING :: gate_binding where
  "RULES_GATE_BINDING = \<lparr>binding_gate_id = RULES_GATE, mandatory = True, config = []\<rparr>"

definition TOLERANCE_PCT :: rat where
  "TOLERANCE_PCT = 1"

definition MOCK_DAILY_ACCOUNT_NAMESPACE :: native_namespace where
  "MOCK_DAILY_ACCOUNT_NAMESPACE =
     \<lparr>namespace_name = lit ''mock-daily-account'',
      namespace_uuid = 0x935d6f1946e04146860aab1022ecd4e5, namespace_entity_type = lit ''account''\<rparr>"

definition WITHIN_TOLERANCE_RULE :: bypass_rule where
  "WITHIN_TOLERANCE_RULE =
     \<lparr>rule_id = lit ''within-tolerance'', rule_version = lit ''1'',
      rule_description = lit ''abs_drift_pct below 1.0: the account settled within tolerance of its target; record ALLOW (release the settlement), and the mandatory rules gate still runs'',
      rule_predicate = Compare (lit ''feature_set.abs_drift_pct'') Lt (VScalar (SFloat TOLERANCE_PCT)),
      rule_action = ALLOW\<rparr>"

definition MOCK_DAILY_REGISTRATION :: reasoner_registration where
  "MOCK_DAILY_REGISTRATION =
     \<lparr>registered_reasoner_id = lit ''mock-daily-reasoner'',
      registered_reasoner_name = lit ''Mock Daily Reasoner'', gates = [RULES_GATE_BINDING],
      bypass_rules = [WITHIN_TOLERANCE_RULE], recordable_actions = {ALLOW},
      native_namespaces = [MOCK_DAILY_ACCOUNT_NAMESPACE], novel_entity_feature = None,
      jurisdiction_conflict_groups = []\<rparr>"

section \<open>The submission\<close>

definition COMPUTE_VERSION :: ustr where
  "COMPUTE_VERSION = lit ''settlement-drift-v1''"

definition daily_context :: "drift_reckoning \<Rightarrow> settlement_drift \<Rightarrow> reasoner_context" where
  "daily_context k d =
     \<lparr>label_value = SFloat (drift_pct d), feature_set = drift_features d,
      context_reasoner_id = registered_reasoner_id MOCK_DAILY_REGISTRATION,
      context_reasoner_name = registered_reasoner_name MOCK_DAILY_REGISTRATION,
      model_version = COMPUTE_VERSION, model_artifact_sha256 = None, inference_latency_ms = None,
      label_type_of = NUMERICAL, label_name = lit ''drift_pct'',
      attribution = Some \<lparr>feature_contributions = None, feature_importance = None,
        narrative = Some (drift_text k (drift_target d) (drift_actual d) (drift_pct d))\<rparr>\<rparr>"

definition rules_gate_context :: gate_context where
  "rules_gate_context =
     \<lparr>context_gate_id = RULES_GATE, gate_config = Some [(lit ''ruleset_id'', JStr RULESET_ID)]\<rparr>"

text \<open>The account id of a row is not empty, so its entity id derives.\<close>

definition build_submission ::
    "uuid5 \<Rightarrow> drift_reckoning \<Rightarrow> reasoner_registration \<Rightarrow> account_settlement \<Rightarrow> settlement_drift
      \<Rightarrow> assembly_error + submission" where
  "build_submission uuid5 k registration row d =
     rbind (map_sum RuleRaised id (matching_bypass_rule registration (daily_context k d))) (\<lambda>rule.
       constructed k \<lparr>reasoner_id = registered_reasoner_id registration, event_id = settled_event row,
            timestamp = settled_as_of row,
            asserted_entity_id = uuid5 (namespace_uuid MOCK_DAILY_ACCOUNT_NAMESPACE) (settled_account row),
            asserted_entity_type = namespace_entity_type MOCK_DAILY_ACCOUNT_NAMESPACE,
            native_subject = Some \<lparr>subject_namespace = namespace_name MOCK_DAILY_ACCOUNT_NAMESPACE,
              native_subject_id = settled_account row\<rparr>,
            mode = (if rule = None then Gate else Record),
            proposed_action = map_option rule_action rule,
            bypass = map_option (\<lambda>r. \<lparr>cited_rule_id = rule_id r, cited_version = Some (rule_version r)\<rparr>) rule,
            reasoner_context = daily_context k d, gate_contexts = [rules_gate_context],
            raw_event = settlement_payload k row\<rparr>)"

record computed_settlement =
  settlement_of :: account_settlement
  drift_of :: settlement_drift
  computed_submission :: submission

definition is_exception :: "computed_settlement \<Rightarrow> bool" where
  "is_exception c \<longleftrightarrow> mode (computed_submission c) = Gate"

datatype day_error = SharedEventId ustr | NotFinite | NotAssembled assembly_error

text \<open>The rows in order; \<open>seen\<close> are the event ids so far.\<close>

fun compute_rows ::
    "uuid5 \<Rightarrow> drift_reckoning \<Rightarrow> ustr set \<Rightarrow> account_settlement list \<Rightarrow> day_error + computed_settlement list" where
  "compute_rows uuid5 k seen [] = Inr []"
| "compute_rows uuid5 k seen (row # rows) =
     (if settled_event row \<in> seen then Inl (SharedEventId (settled_event row))
      else (case compute_drift k row of
              None \<Rightarrow> Inl NotFinite
            | Some d \<Rightarrow>
                rbind (map_sum NotAssembled id (build_submission uuid5 k MOCK_DAILY_REGISTRATION row d)) (\<lambda>s.
                rbind (compute_rows uuid5 k (insert (settled_event row) seen) rows) (\<lambda>rest.
                  Inr (\<lparr>settlement_of = row, drift_of = d, computed_submission = s\<rparr> # rest)))))"

definition compute_day ::
    "uuid5 \<Rightarrow> drift_reckoning \<Rightarrow> account_settlement list \<Rightarrow> day_error + computed_settlement list" where
  "compute_day uuid5 k rows = compute_rows uuid5 k {} rows"

section \<open>What the ledger answered\<close>

record decision_outcome =
  outcome_event :: ustr
  outcome_decision :: ustr
  outcome_mode :: submission_mode
  outcome_proposed :: "decision_action option"
  outcome_action :: decision_action
  outcome_level_rule :: "ustr option"
  outcome_holds :: "bool option"
  outcome_gate_status :: "gate_status option"
  outcome_matched :: "json list"
  outcome_default :: "bool option"
  outcome_failure :: "verdict_failure option"
  bundle_read :: bool

definition raised :: "decision_outcome \<Rightarrow> bool" where
  "raised d \<longleftrightarrow> outcome_mode d = Record \<and> Some (outcome_action d) \<noteq> outcome_proposed d"

definition decision_outcome_of :: "decision_receipt \<Rightarrow> decision_bundle \<Rightarrow> decision_outcome" where
  "decision_outcome_of receipt b =
     \<lparr>outcome_event = receipt_event receipt, outcome_decision = receipt_decision receipt,
      outcome_mode = receipt_mode receipt, outcome_proposed = proposed_action (submission b),
      outcome_action = receipt_action receipt, outcome_level_rule = receipt_level_rule receipt,
      outcome_holds = receipt_holds receipt,
      outcome_gate_status = map_option status (bundle_gate b RULES_GATE),
      outcome_matched = rules_matched b, outcome_default = rules_default b,
      outcome_failure = rules_failure b, bundle_read = True\<rparr>"

definition receipt_outcome :: "decision_receipt \<Rightarrow> submission \<Rightarrow> decision_outcome" where
  "receipt_outcome receipt s =
     (let summary = find (\<lambda>g. summary_gate g = RULES_GATE) (receipt_gates receipt)
      in \<lparr>outcome_event = receipt_event receipt, outcome_decision = receipt_decision receipt,
          outcome_mode = receipt_mode receipt, outcome_proposed = proposed_action s,
          outcome_action = receipt_action receipt, outcome_level_rule = receipt_level_rule receipt,
          outcome_holds = receipt_holds receipt, outcome_gate_status = map_option summary_status summary,
          outcome_matched = [], outcome_default = None,
          outcome_failure = (case summary of
             None \<Rightarrow> None
           | Some g \<Rightarrow> if summary_status g = Failed then map_option RecordedAs (summary_reason g) else None),
          bundle_read = False\<rparr>)"

record day_run =
  day_rows :: nat
  decisions :: "decision_outcome list"
  refused :: "refusal list"
  in_doubt :: "ustr option"

definition decided :: "day_run \<Rightarrow> nat" where
  "decided r = length (decisions r)"

definition day_undecided :: "day_run \<Rightarrow> int" where
  "day_undecided r = int (day_rows r) - int (decided r)"

definition action_of :: "day_run \<Rightarrow> ustr \<Rightarrow> decision_action option" where
  "action_of r event = map_option outcome_action (find (\<lambda>d. outcome_event d = event) (decisions r))"

section \<open>The run\<close>

definition KEY_REFUSED :: "int set" where
  "KEY_REFUSED = {401, 403}"

text \<open>\<open>_send\<close>: the run so far, and what stopped it, if anything did.\<close>

fun send_rows ::
    "'s ledger_client \<Rightarrow> computed_settlement list \<Rightarrow> day_run \<Rightarrow> 's \<Rightarrow> 's \<times> day_run \<times> client_failure option" where
  "send_rows client [] r world = (world, r, None)"
| "send_rows client (item # items) r world =
     (let s = computed_submission item; event = event_id s
      in case client_submit client s world of
           (world', Inl (LedgerProblem st code)) \<Rightarrow>
             if st \<in> KEY_REFUSED then (world', r, Some (LedgerProblem st code))
             else if 500 \<le> st then (world', r\<lparr>in_doubt := Some event\<rparr>, Some (LedgerProblem st code))
             else send_rows client items
                    (r\<lparr>refused := refused r @ [\<lparr>refused_event = event, refused_status = st, refused_code = code\<rparr>]\<rparr>)
                    world'
         | (world', Inl NeverSent) \<Rightarrow> (world', r, Some NeverSent)
         | (world', Inl Unanswered) \<Rightarrow> (world', r\<lparr>in_doubt := Some event\<rparr>, Some Unanswered)
         | (world', Inl OtherException) \<Rightarrow> (world', r, Some OtherException)
         | (world', Inr receipt) \<Rightarrow>
             (case client_get_bundle client (receipt_decision receipt) world' of
                (world'', Inl OtherException) \<Rightarrow> (world'', r, Some OtherException)
              | (world'', Inl f) \<Rightarrow>
                  (world'', r\<lparr>decisions := decisions r @ [receipt_outcome receipt s]\<rparr>, Some f)
              | (world'', Inr b) \<Rightarrow>
                  send_rows client items
                    (r\<lparr>decisions := decisions r @ [decision_outcome_of receipt b]\<rparr>) world''))"

definition run_day ::
    "uuid5 \<Rightarrow> drift_reckoning \<Rightarrow> 's ledger_client \<Rightarrow> account_settlement list \<Rightarrow> 's \<Rightarrow> 's \<times> (day_error, day_run) day_end" where
  "run_day uuid5 k client rows world =
     (case compute_day uuid5 k rows of
        Inl e \<Rightarrow> (world, NothingSent e)
      | Inr computed \<Rightarrow>
          (case send_rows client computed
                  \<lparr>day_rows = length computed, decisions = [], refused = [], in_doubt = None\<rparr> world of
             (world', r, None) \<Rightarrow> (world', DayReturned r)
           | (world', r, Some OtherException) \<Rightarrow> (world', DayEscaped)
           | (world', r, Some f) \<Rightarrow> (world', DayRunStopped r f)))"

end
