(* ===== verification/Daily_Claims.thy ===== *)
theory Daily_Claims
  imports Daily_Run Client_Contract
begin

text \<open>
  What a day submitted row by row promises: every decision the ledger made of it is in the run,
  and its submissions are ones the ledger takes.
\<close>

section \<open>A run and the ledger\<close>

context decision_ledger begin

definition outcome_made :: "decision_outcome \<Rightarrow> 'k \<times> decision_action" where
  "outcome_made d = (key (outcome_decision d), outcome_action d)"

text \<open>
  What sending adds to a run and to the ledger: the first \<open>n\<close> rows are settled; a decision the
  run does not hold is at most one, of the row it stopped on.
\<close>

definition accounts ::
    "computed_settlement list \<Rightarrow> day_run \<Rightarrow> 's \<Rightarrow> 's \<Rightarrow> day_run \<Rightarrow> client_failure option
      \<Rightarrow> decision_outcome list \<Rightarrow> refusal list \<Rightarrow> ('k \<times> decision_action) list \<Rightarrow> nat \<Rightarrow> bool" where
  "accounts items r w w' r' stop ds rs surplus n \<longleftrightarrow>
     decisions r' = decisions r @ ds \<and> refused r' = refused r @ rs
     \<and> made w' = made w @ map outcome_made ds @ surplus \<and> length surplus \<le> 1
     \<and> (surplus \<noteq> [] \<longrightarrow> in_doubt r' \<noteq> None \<or> stop = Some OtherException)
     \<and> n \<le> length items
     \<and> map (event_id \<circ> computed_submission) (take n items) \<in> shuffles (map outcome_event ds) (map refused_event rs)
     \<and> (stop = None \<longrightarrow> n = length items \<and> in_doubt r' = in_doubt r)
     \<and> (in_doubt r' = in_doubt r
        \<or> (n < length items \<and> in_doubt r' = Some (event_id (computed_submission (items ! n)))))"

definition accounted ::
    "computed_settlement list \<Rightarrow> day_run \<Rightarrow> 's \<Rightarrow> 's \<Rightarrow> day_run \<Rightarrow> client_failure option \<Rightarrow> bool" where
  "accounted items r w w' r' stop \<longleftrightarrow> (\<exists>ds rs surplus n. accounts items r w w' r' stop ds rs surplus n)"

lemma accounted_stop:
  assumes "made w' = made w @ surplus" "length surplus \<le> 1"
    and "surplus \<noteq> [] \<Longrightarrow> doubt = Some (event_id (computed_submission item)) \<or> f = OtherException"
    and "doubt = in_doubt r \<or> doubt = Some (event_id (computed_submission item))"
  shows "accounted (item # items) r w w' (r\<lparr>in_doubt := doubt\<rparr>) (Some f)"
proof -
  have "accounts (item # items) r w w' (r\<lparr>in_doubt := doubt\<rparr>) (Some f) [] [] surplus 0"
    using assms by (auto simp: accounts_def)
  then show ?thesis unfolding accounted_def by blast
qed

lemma accounted_refused:
  assumes "accounted items (r\<lparr>refused := refused r @ [x]\<rparr>) w1 w' r' stop" "made w1 = made w"
    and "refused_event x = event_id (computed_submission item)"
  shows "accounted (item # items) r w w' r' stop"
proof -
  from assms(1) obtain ds rs surplus n where
    "accounts items (r\<lparr>refused := refused r @ [x]\<rparr>) w1 w' r' stop ds rs surplus n" unfolding accounted_def by blast
  with assms(2,3) have "accounts (item # items) r w w' r' stop ds (x # rs) surplus (Suc n)"
    by (auto simp: accounts_def intro: Cons_in_shuffles_rightI)
  then show ?thesis unfolding accounted_def by blast
qed

lemma accounted_decided:
  assumes "accounted items (r\<lparr>decisions := decisions r @ [d]\<rparr>) w1 w' r' stop"
    and "made w1 = made w @ [outcome_made d]" "outcome_event d = event_id (computed_submission item)"
  shows "accounted (item # items) r w w' r' stop"
proof -
  from assms(1) obtain ds rs surplus n where
    "accounts items (r\<lparr>decisions := decisions r @ [d]\<rparr>) w1 w' r' stop ds rs surplus n"
    unfolding accounted_def by blast
  with assms(2,3) have "accounts (item # items) r w w' r' stop (d # ds) rs surplus (Suc n)"
    by (auto simp: accounts_def intro: Cons_in_shuffles_leftI)
  then show ?thesis unfolding accounted_def by blast
qed

lemma accounted_unread:
  assumes "made w' = made w @ [outcome_made d]" "outcome_event d = event_id (computed_submission item)"
  shows "accounted (item # items) r w w' (r\<lparr>decisions := decisions r @ [d]\<rparr>) (Some f)"
proof -
  have "accounts (item # items) r w w' (r\<lparr>decisions := decisions r @ [d]\<rparr>) (Some f) [d] [] [] 1"
    using assms by (auto simp: accounts_def)
  then show ?thesis unfolding accounted_def by blast
qed

lemma accounted_none: "accounted [] r w w r None"
  by (simp add: accounted_def accounts_def)

lemma send_rows_accounted:
  assumes "ready w" "\<forall>c \<in> set items. sendable (computed_submission c)"
    and "send_rows client items r w = (w', r', stop)"
  shows "accounted items r w w' r' stop"
  using assms
proof (induction items arbitrary: r w)
  case Nil
  then show ?case by (simp add: accounted_none)
next
  case (Cons item items)
  let ?s = "computed_submission item"
  obtain w1 answer where submitted: "client_submit client ?s w = (w1, answer)" by fastforce
  show ?case
  proof (cases answer)
    case (Inl f)
    with submit_failed Cons.prems(1) submitted obtain surplus where w1: "ready w1" "made w1 = made w @ surplus"
      "length surplus \<le> 1" "surely_unmade f \<longrightarrow> surplus = []" by blast
    have stopped: "accounted (item # items) r w w1 (r\<lparr>in_doubt := doubt\<rparr>) (Some f)"
      if "surplus \<noteq> [] \<Longrightarrow> doubt = Some (event_id ?s) \<or> f = OtherException"
        "doubt = in_doubt r \<or> doubt = Some (event_id ?s)" for doubt
      by (rule accounted_stop) (use w1 that in auto)
    show ?thesis
    proof (cases "\<exists>st code. f = LedgerProblem st code \<and> st \<notin> KEY_REFUSED \<and> st < 500")
      case True
      then obtain st code where f: "f = LedgerProblem st code" "st \<notin> KEY_REFUSED" "st < 500" by blast
      let ?x = "\<lparr>refused_event = event_id ?s, refused_status = st, refused_code = code\<rparr>"
      have "send_rows client items (r\<lparr>refused := refused r @ [?x]\<rparr>) w1 = (w', r', stop)"
        using Cons.prems(3) submitted Inl f by (simp add: Let_def)
      with Cons.IH [OF w1(1)] Cons.prems(2) w1(2,4) f show ?thesis
        by (auto intro!: accounted_refused [of _ _ ?x w1])
    next
      case False
      with Cons.prems(3) submitted Inl w1(4) stopped [of "in_doubt r"] stopped [of "Some (event_id ?s)"]
      show ?thesis by (cases f) (auto simp: Let_def KEY_REFUSED_def split: if_splits)
    qed
  next
    case (Inr receipt)
    with submit_made Cons.prems(1,2) submitted have w1: "ready w1"
      "made w1 = made w @ [(key (receipt_decision receipt), receipt_action receipt)]"
      "receipt_event receipt = event_id ?s" by auto
    obtain w2 read where got: "client_get_bundle client (receipt_decision receipt) w1 = (w2, read)" by fastforce
    with get_bundle_reads w1(1) have w2: "ready w2" "made w2 = made w1" by blast+
    show ?thesis
    proof (cases read)
      case read: (Inl f)
      show ?thesis
      proof (cases "f = OtherException")
        case True
        with Cons.prems(3) submitted Inr got read w1(2) w2(2) show ?thesis
          using accounted_stop [of w2 w _ "in_doubt r" item f r items] by (auto simp: Let_def)
      next
        case False
        let ?d = "receipt_outcome receipt ?s"
        have d: "outcome_made ?d = (key (receipt_decision receipt), receipt_action receipt)"
          "outcome_event ?d = event_id ?s"
          by (simp_all add: outcome_made_def receipt_outcome_def Let_def w1(3))
        have "w' = w2" "r' = r\<lparr>decisions := decisions r @ [?d]\<rparr>" "stop = Some f"
          using False Cons.prems(3) submitted Inr got read by (cases f; auto simp: Let_def)+
        with accounted_unread [of w2 w ?d item items r f] d w1(2) w2(2) show ?thesis by simp
      qed
    next
      case read: (Inr b)
      let ?d = "decision_outcome_of receipt b"
      have "send_rows client items (r\<lparr>decisions := decisions r @ [?d]\<rparr>) w2 = (w', r', stop)"
        using Cons.prems(3) submitted Inr got read by (simp add: Let_def)
      with Cons.IH [OF w2(1)] Cons.prems(2) w1 w2 show ?thesis
        by (intro accounted_decided [of _ _ ?d w2]) (auto simp: outcome_made_def decision_outcome_of_def)
    qed
  qed
qed

end

section \<open>A day over HTTP\<close>

lemma build_submission_Inr:
  assumes "build_submission uuid5 k registration row d = Inr s"
  obtains r where "matching_bypass_rule registration (daily_context k d) = Inr r"
    "submission_valid (submission_json k) s" "event_id s = settled_event row"
    "reasoner_id s = registered_reasoner_id registration" "ruled_by r s"
    "reasoner_context s = daily_context k d" "gate_contexts s = [rules_gate_context]"
    "asserted_entity_id s = uuid5 (namespace_uuid MOCK_DAILY_ACCOUNT_NAMESPACE) (settled_account row)"
    "asserted_entity_type s = namespace_entity_type MOCK_DAILY_ACCOUNT_NAMESPACE"
    "native_subject s = Some \<lparr>subject_namespace = namespace_name MOCK_DAILY_ACCOUNT_NAMESPACE,
       native_subject_id = settled_account row\<rparr>"
  using assms
  by (cases "matching_bypass_rule registration (daily_context k d)")
    (auto simp: build_submission_def constructed_def ruled_by_def split: if_splits)

lemma compute_rows_Inr:
  "compute_rows uuid5 k seen rows = Inr computed \<Longrightarrow>
     map (event_id \<circ> computed_submission) computed = map settled_event rows
     \<and> distinct (map settled_event rows) \<and> seen \<inter> settled_event ` set rows = {}
     \<and> (\<forall>c \<in> set computed. settlement_of c \<in> set rows \<and> compute_drift k (settlement_of c) = Some (drift_of c)
          \<and> build_submission uuid5 k MOCK_DAILY_REGISTRATION (settlement_of c) (drift_of c)
              = Inr (computed_submission c))"
proof (induction rows arbitrary: seen computed)
  case (Cons row rows)
  from Cons.prems obtain d s rest where row: "settled_event row \<notin> seen" "compute_drift k row = Some d"
    "build_submission uuid5 k MOCK_DAILY_REGISTRATION row d = Inr s"
    "compute_rows uuid5 k (insert (settled_event row) seen) rows = Inr rest"
    "computed = \<lparr>settlement_of = row, drift_of = d, computed_submission = s\<rparr> # rest"
    by (auto simp: rbind_Inr_iff split: if_splits option.splits elim!: map_sum_Inr_cases)
  from row(3) have "event_id s = settled_event row" by (rule build_submission_Inr)
  with row Cons.IH [OF row(4)] show ?case by auto
qed simp

text \<open>
  C37: A day's decisions are accounted for. Whatever the network does to the requests of a day
  that returns or stops, the decisions the ledger gained are exactly those the run holds, with
  their ids and actions, in row order, and at most one more, of the row the run names as in
  doubt. The rows settled are the first ones, each decided or refused, in order, all of them
  when the run returns; and a row in doubt is the one after them.
\<close>

theorem daily_day_is_accounted:
  assumes "ids_fresh sv w" "compute_day uuid5 k rows = Inr computed"
    and "\<forall>c \<in> set computed. carried sv (computed_submission c)"
    and "run_day uuid5 k (http_client sv) rows w = (w', day)"
    and "day = DayReturned r \<or> day = DayRunStopped r f"
  shows "\<exists>doubtful n.
    ledger_made w' = ledger_made w
      @ map (\<lambda>d. (id_key sv (outcome_decision d), outcome_action d)) (decisions r) @ doubtful
    \<and> length doubtful \<le> 1 \<and> (doubtful \<noteq> [] \<longrightarrow> in_doubt r \<noteq> None)
    \<and> map settled_event (take n rows) \<in> shuffles (map outcome_event (decisions r)) (map refused_event (refused r))
    \<and> n \<le> length rows \<and> (day = DayReturned r \<longrightarrow> n = length rows \<and> in_doubt r = None)
    \<and> (\<forall>e. in_doubt r = Some e \<longrightarrow> n < length rows \<and> e = settled_event (rows ! n))"
proof -
  let ?start = "\<lparr>day_rows = length computed, decisions = [], refused = [], in_doubt = None\<rparr>"
  from compute_rows_Inr [of uuid5 k "{}" rows computed] assms(2)
  have events: "map (event_id \<circ> computed_submission) computed = map settled_event rows"
    by (simp add: compute_day_def)
  then have len: "length computed = length rows" by (metis length_map)
  obtain r' stop where sent: "send_rows (http_client sv) computed ?start w = (w', r', stop)"
    and run: "r' = r" "stop \<noteq> Some OtherException" "day = DayReturned r \<longleftrightarrow> stop = None"
    using assms(2,4,5) by (auto simp: run_day_def split: prod.splits option.splits client_failure.splits)
  from http.send_rows_accounted [OF assms(1,3) sent] obtain ds rs surplus n where
    "http.accounts sv computed ?start w w' r' stop ds rs surplus n" unfolding http.accounted_def by blast
  moreover have "map settled_event (take n rows) = map (event_id \<circ> computed_submission) (take n computed)"
    using events by (metis take_map)
  moreover have "event_id (computed_submission (computed ! n)) = settled_event (rows ! n)" if "n < length rows"
    using that len arg_cong [OF events, of "\<lambda>xs. xs ! n"] by simp
  ultimately show ?thesis
    using run len by (intro exI [of _ surplus] exI [of _ n]) (auto simp: http.accounts_def http.outcome_made_def)
qed

section \<open>Its submissions are taken\<close>

lemma daily_registration_valid: "registration_valid MOCK_DAILY_REGISTRATION"
  by (simp add: registration_valid_def MOCK_DAILY_REGISTRATION_def RULES_GATE_BINDING_def RULES_GATE_def
      WITHIN_TOLERANCE_RULE_def MOCK_DAILY_ACCOUNT_NAMESPACE_def binding_valid_def bypass_rule_valid_def
      native_namespace_valid_def gate_set_and_rules_are_consistent_def field_is_addressable_def
      FEATURE_PREFIX_def LABEL_FIELD_def value_fits_op_def ORDERING_OPS_def MEMBERSHIP_OPS_def)

lemma within_tolerance_holds:
  "rule_holds WITHIN_TOLERANCE_RULE (daily_context k d) \<longleftrightarrow> abs_drift_pct d < TOLERANCE_PCT"
proof -
  have "resolve_field (lit ''feature_set.abs_drift_pct'') (daily_context k d) = Inr (SFloat (abs_drift_pct d))"
    by (simp add: resolve_field_def LABEL_FIELD_def FEATURE_PREFIX_def remove_prefix_def
        daily_context_def drift_features_def Let_def)
  then show ?thesis
    by (simp add: rule_holds_def WITHIN_TOLERANCE_RULE_def compare_scalar_def del: list.map)
qed

lemma daily_rule:
  "matching_bypass_rule MOCK_DAILY_REGISTRATION (daily_context k d)
     = Inr (if abs_drift_pct d < TOLERANCE_PCT then Some WITHIN_TOLERANCE_RULE else None)"
  unfolding matching_bypass_rule_max [OF daily_registration_valid]
  by (simp add: MOCK_DAILY_REGISTRATION_def within_tolerance_holds)

text \<open>
  Under its own registration, and whatever gates a deployment mandates, every row of a computed
  day passes intake: recorded with ALLOW, citing a rule that holds on the evidence it carries,
  exactly when its drift is below the tolerance in size, and gated with no proposal otherwise.
\<close>

lemma computed_is_taken:
  assumes "compute_day uuid5 k rows = Inr computed" "c \<in> set computed"
    and "\<forall>row \<in> set rows. settlement_valid k row" "finite mandated"
  shows "\<exists>pick. validate_submission uuid5 (computed_submission c) MOCK_DAILY_REGISTRATION mandated = Inr pick
    \<and> submission_valid (submission_json k) (computed_submission c)
    \<and> proposed_action (computed_submission c) = map_option rule_action pick
    \<and> (if \<bar>drift_pct (drift_of c)\<bar> < TOLERANCE_PCT
       then pick = Some WITHIN_TOLERANCE_RULE \<and> mode (computed_submission c) = Record
         \<and> proposed_action (computed_submission c) = Some ALLOW
         \<and> rule_holds WITHIN_TOLERANCE_RULE (reasoner_context (computed_submission c))
       else pick = None \<and> is_exception c)"
proof -
  let ?s = "computed_submission c" and ?row = "settlement_of c" and ?d = "drift_of c"
  from compute_rows_Inr assms(1,2) have c: "?row \<in> set rows" "compute_drift k ?row = Some ?d"
    "build_submission uuid5 k MOCK_DAILY_REGISTRATION ?row ?d = Inr ?s"
    unfolding compute_day_def by blast+
  from c(2) have size: "abs_drift_pct ?d = \<bar>drift_pct ?d\<bar>"
    by (auto simp: compute_drift_def bind_eq_Some_conv dest: sym)
  from c(1) assms(3) have "settled_account ?row \<noteq> []" by (simp add: settlement_valid_def)
  from c(3) obtain r where r: "matching_bypass_rule MOCK_DAILY_REGISTRATION (daily_context k ?d) = Inr r"
    "submission_valid (submission_json k) ?s" "ruled_by r ?s" "reasoner_context ?s = daily_context k ?d"
    "addressed_subject uuid5 MOCK_DAILY_REGISTRATION ?s"
    by (rule build_submission_Inr)
      (use \<open>settled_account ?row \<noteq> []\<close> in \<open>auto simp: addressed_subject_def MOCK_DAILY_REGISTRATION_def
        gate_ids_def RULES_GATE_BINDING_def rules_gate_context_def\<close>)
  have "validate_submission uuid5 ?s MOCK_DAILY_REGISTRATION mandated = Inr r"
    by (rule assembled_is_taken [OF daily_registration_valid assms(4) _ _ r(3,5)])
      (use r(1,4) in \<open>simp_all add: MOCK_DAILY_REGISTRATION_def\<close>)
  moreover from r(1) have "r = (if \<bar>drift_pct ?d\<bar> < TOLERANCE_PCT then Some WITHIN_TOLERANCE_RULE else None)"
    by (simp add: daily_rule size)
  ultimately show ?thesis
    using r(2-4) within_tolerance_holds [of k ?d] size
    by (auto simp: ruled_by_def is_exception_def WITHIN_TOLERANCE_RULE_def)
qed

section \<open>A day of one row\<close>

definition ex_reckoning :: drift_reckoning where
  "ex_reckoning =
     \<lparr>iso_text = (\<lambda>_. []), to_float = Some, round_to = (\<lambda>_. Some),
      submission_json = (\<lambda>_. JNull), drift_text = (\<lambda>_ _ _. [])\<rparr>"

definition ex_row :: account_settlement where
  "ex_row =
     \<lparr>settled_event = [101], settled_as_of = 0, settled_account = [97], target_amount = 100, actual_amount = 100\<rparr>"

lemma ex_row_valid: "settlement_valid ex_reckoning ex_row"
  by (simp add: settlement_valid_def settlement_payload_def ex_row_def ex_reckoning_def storage_problem_None_iff
      surrogate_def)

lemma ex_computed:
  obtains c where "compute_day (\<lambda>_ _. 0) ex_reckoning [ex_row] = Inr [c]" "event_id (computed_submission c) = [101]"
    "drift_pct (drift_of c) = 0"
proof -
  obtain d where d: "compute_drift ex_reckoning ex_row = Some d" "abs_drift_pct d = 0" "drift_pct d = 0"
    by (simp add: compute_drift_def ex_reckoning_def ex_row_def)
  have picked: "matching_bypass_rule MOCK_DAILY_REGISTRATION (daily_context ex_reckoning d)
      = Inr (Some WITHIN_TOLERANCE_RULE)"
    using d(2) by (simp add: daily_rule TOLERANCE_PCT_def)
  have "\<exists>s. build_submission (\<lambda>_ _. 0) ex_reckoning MOCK_DAILY_REGISTRATION ex_row d = Inr s \<and> event_id s = [101]"
    unfolding build_submission_def picked
    by (simp add: constructed_def submission_valid_def mode_fields_are_consistent_def
        one_reasoner_and_one_context_per_gate_def storable_submission_def ex_reckoning_def ex_row_def
        WITHIN_TOLERANCE_RULE_def MOCK_DAILY_ACCOUNT_NAMESPACE_def MOCK_DAILY_REGISTRATION_def
        native_subject_valid_def daily_context_def Let_def)
  then obtain s where s: "build_submission (\<lambda>_ _. 0) ex_reckoning MOCK_DAILY_REGISTRATION ex_row d = Inr s"
    "event_id s = [101]" by blast
  show thesis
    by (rule that [of "\<lparr>settlement_of = ex_row, drift_of = d, computed_submission = s\<rparr>"])
      (simp_all add: compute_day_def d s)
qed

text \<open>A deployment that serves the mock, and a network that loses every answer.\<close>

definition ex_daily :: deployment where
  "ex_daily = (ex_deployment [(RULES_GATE, ex_gate RULES_GATE ALLOW)])\<lparr>registry_get := (\<lambda>_. Some MOCK_DAILY_REGISTRATION)\<rparr>"

definition ex_first_id :: "ustr \<Rightarrow> uuid option" where
  "ex_first_id t = (if t = [0, 0] then Some 1 else None)"

definition ex_daily_service :: "submission \<Rightarrow> decision_bundle \<Rightarrow> http_service" where
  "ex_daily_service s b =
     \<lparr>service = \<lparr>served = ex_daily, stored_through = (ex_wire b)\<lparr>pg_uuid := ex_first_id\<rparr>,
        read_submission = (\<lambda>_. Some s), dump_submission = (\<lambda>_. JNull)\<rparr>,
      drawn = (\<lambda>n m. ex_readings\<lparr>fresh_id := [n, m]\<rparr>), arrived = (\<lambda>_. 0), model_dump_json = (\<lambda>_. []),
      key_holder = Inr TRUSTED, network = (\<lambda>_. LosesAnswer), read_int = (\<lambda>_. None),
      wording = \<lparr>extra_members = (\<lambda>_. []), detail_text = (\<lambda>_. [])\<rparr>\<rparr>"

lemma ex_daily_fresh: "ids_fresh (ex_daily_service s b) (ex_ledger, 0)"
  by (auto simp: ids_fresh_def drawn_key_def id_key_def ex_daily_service_def ex_ledger_def ex_first_id_def
      ex_readings_def)

lemma ex_daily_parses: "submission_valid (\<lambda>_. JNull) s \<Longrightarrow> carried (ex_daily_service s b) s"
  by (simp add: carried_def ex_daily_service_def parse_submission_def encode_utf8_def)

lemma ex_daily_decides:
  assumes "compute_day (\<lambda>_ _. 0) ex_reckoning [ex_row] = Inr [c]" "drift_pct (drift_of c) = 0"
  obtains b where "decide_over_api (service (ex_daily_service (computed_submission c) x))
      (ex_readings\<lparr>fresh_id := [0, 0]\<rparr>) 0 (computed_submission c) = Inr b"
proof -
  let ?s = "computed_submission c"
  have taken: "validate_submission (\<lambda>_ _. 0) ?s MOCK_DAILY_REGISTRATION {} = Inr (Some WITHIN_TOLERANCE_RULE)"
    "submission_valid (\<lambda>_. JNull) ?s"
    using computed_is_taken [OF assms(1), of c "{}"] ex_row_valid assms(2)
    by (auto simp: TOLERANCE_PCT_def ex_reckoning_def)
  have "effective_gate_set MOCK_DAILY_REGISTRATION {} = [RULES_GATE_BINDING]"
    by (simp add: effective_gate_set_def MOCK_DAILY_REGISTRATION_def gate_ids_def upgrade_def)
  moreover have "deployment_mandatory [(RULES_GATE, ex_gate RULES_GATE ALLOW)] = {}"
    by (simp add: deployment_mandatory_def ex_gate_def)
  moreover have "validate_gate_config (ex_gate g x) (context_for ?s h) reasoner bound = Inr ()" for g x h reasoner bound
    by (simp add: validate_gate_config_def ex_gate_def Let_def)
  ultimately have "intake ex_daily ?s MOCK_DAILY_REGISTRATION
      = Inr (Some WITHIN_TOLERANCE_RULE, [RULES_GATE_BINDING])"
    using taken(1) by (simp add: intake_def ex_daily_def ex_deployment_def Let_def)
  moreover have "gate_map_ok (deployed_gates ex_daily)" "uncancelled ex_daily"
    "\<not> cancelled (identity_step ex_daily) ?s" "revalidates (derive ex_daily) (wire_identity ex_daily)"
    by (auto simp: gate_map_ok_def ex_daily_def ex_deployment_def ex_gate_def composed_gate_id_def
        uncancelled_def cancelled_def revalidates_def)
  ultimately obtain b where "decide ex_daily (ex_readings\<lparr>fresh_id := [0, 0]\<rparr>) ?s 0 [] None None
      DEFAULT_GATE_BUDGET_MS = Inr b"
    using decide_total [OF _ daily_registration_valid taken(2), where d = ex_daily
        and budget = DEFAULT_GATE_BUDGET_MS and t = "ex_readings\<lparr>fresh_id := [0, 0]\<rparr>"]
    by (simp add: ex_daily_def DEFAULT_GATE_BUDGET_MS_def) blast
  then show thesis by (intro that [of b]) (simp add: decide_over_api_def ex_daily_service_def)
qed

theorem daily_day_is_accounted_witness:
  "\<exists>s b w' r. run_day (\<lambda>_ _. 0) ex_reckoning (http_client (ex_daily_service s b)) [ex_row] (ex_ledger, 0)
      = (w', DayRunStopped r Unanswered)
    \<and> decisions r = [] \<and> in_doubt r = Some [101] \<and> length (ledger_made w') = 1"
proof -
  obtain c where c: "compute_day (\<lambda>_ _. 0) ex_reckoning [ex_row] = Inr [c]" "drift_pct (drift_of c) = 0"
    "event_id (computed_submission c) = [101]" by (rule ex_computed)
  let ?s = "computed_submission c" and ?t = "ex_readings\<lparr>fresh_id := [0, 0]\<rparr>"
  obtain b where b: "\<And>x. decide_over_api (service (ex_daily_service ?s x)) ?t 0 ?s = Inr b"
    by (rule ex_daily_decides [OF c(1,2)]) (simp add: decide_over_api_def ex_daily_service_def)
  let ?sv = "ex_daily_service ?s b" and ?st = "\<lparr>day_rows = 1, decisions = [], refused = [], in_doubt = None\<rparr>"
  have valid: "submission_valid (\<lambda>_. JNull) ?s"
    using computed_is_taken [OF c(1), of c "{}"] ex_row_valid by (auto simp: ex_reckoning_def)
  obtain reg subject where decided: "submission b = ?s" "identity b = Some subject" "decision_id b = [0, 0]"
    "identify (derive ex_daily) (wire_identity ex_daily) (identity_step ex_daily) (identified_at ?t) ?s reg = Inr subject"
    using b [of b] unfolding decide_over_api_def
    by (elim map_sum_Inr_cases decide_Inr) (simp add: ex_daily_service_def or_default_def)
  then have "related subject = []"
    by (auto simp: ex_daily_def ex_deployment_def identify_def consult_def passthrough_identity_def
        declared_identity_def Let_def construct_identity_def rbind_Inr_iff split: option.splits sum.splits if_splits)
  then have rows: "relationship_rows b = []" using decided(2) by (simp add: relationship_rows_def)
  have "reasoner_id ?s = lit ''mock-daily-reasoner''"
    using computed_is_taken [OF c(1), of c "{}"] ex_row_valid
    by (auto simp: validate_submission_Inr MOCK_DAILY_REGISTRATION_def)
  with decided(1) have "text_problem (reasoner_id (submission b)) = None" by (simp add: text_problem_def surrogate_def)
  with rows decided(3) obtain st where w: "write_bundle (stored_through (service ?sv)) b ex_ledger = (st, Inr ())"
    "length (bundle_rows st) = 1"
    by (simp add: ex_daily_service_def write_bundle_def check_row_def insert_bundle_def ex_wire_def ex_first_id_def
        ex_ledger_def)
  have "create_decision (service ?sv) (drawn ?sv 0 0) (arrived ?sv 0) TRUSTED (BytesBody []) ex_ledger = (st, Inr b)"
    using w(1) b [of b] valid
    by (simp add: create_decision_def bounded_def parse_submission_def ex_daily_service_def authorized_def
        require_submitter_def may_submit_for_def TRUSTED_def)
  moreover have "network ?sv 0 = LosesAnswer" "key_holder ?sv = Inr TRUSTED" "model_dump_json ?sv ?s = []"
    by (simp_all add: ex_daily_service_def)
  ultimately have "client_submit (http_client ?sv) ?s (ex_ledger, 0) = ((st, 1), Inl Unanswered)"
    by (simp add: http_client_def with_content_def encode_utf8_def over_http_def served_create_def authorized_def)
  then have run: "run_day (\<lambda>_ _. 0) ex_reckoning (http_client ?sv) [ex_row] (ex_ledger, 0)
      = ((st, 1), DayRunStopped (?st\<lparr>in_doubt := Some [101]\<rparr>) Unanswered)"
    using c by (simp add: run_day_def Let_def)
  from daily_day_is_accounted [OF ex_daily_fresh c(1) _ run] ex_daily_parses [OF valid] w(2)
  show ?thesis by (intro exI [of _ ?s] exI [of _ b] exI) (auto simp: run ledger_made_def)
qed

end
