(* ===== verification/Client_Claims.thy ===== *)
theory Client_Claims
  imports Batch_Claims Daily_Claims
begin

text \<open>The client in the ledger's process and the client over HTTP, call by call.\<close>

section \<open>Where the clients differ\<close>

text \<open>The server answers an exception of its own with a problem; in its process it is raised.\<close>

definition answered_failure :: "client_failure \<Rightarrow> client_failure" where
  "answered_failure f = (if f = OtherException then LedgerProblem 500 (lit ''INTERNAL_ERROR'') else f)"

lemma over_http_reaches:
  assumes "network sv n = Reaches" "key_holder sv = Inr p"
  shows "over_http sv path op (st, n) = apsnd (map_sum answered_failure id) (in_process (op p) (st, n))"
proof -
  obtain st' r where op: "op p n st = (st', r)" by fastforce
  have "problem_status InternalError = 500" "problem_code InternalError = ''INTERNAL_ERROR''" by simp_all
  with assms op show ?thesis
    by (cases r) (auto simp: over_http_def authorized_def in_process_def answered_failure_def split: ledger_error.splits)
qed

lemma text_as_bytes:
  assumes "encode_utf8 content = Some data"
  shows "bounded (TextBody content) limit = bounded (BytesBody data) limit"
  using assms by (simp add: bounded_def)



end
