(* ===== verification/Registration_Reads.thy ===== *)
theory Registration_Reads
  imports Registry_Correct Registration_Version Ledger_Client
begin

text \<open>
  Reading the registrations a ledger serves (\<open>app/api/registrations.py\<close>), the check both mocks
  make of their own before a run (\<open>registration_problem\<close>), and a client's key as it sends it
  (\<open>_header_key\<close> of \<open>app/client.py\<close>).
\<close>

section \<open>The registrations resource\<close>

record reasoner_view =
  view_reasoner_id :: ustr
  view_reasoner_name :: ustr
  view_version :: ustr
  view_source :: ustr
  view_registered_by :: "ustr option"
  view_registered_at :: "instant option"
  view_updated_at :: "instant option"
  view_registration :: json_obj

record snapshot_view =
  snapshot_reasoner_id :: ustr
  snapshot_view_version :: ustr
  snapshot_since :: instant
  snapshot_document :: json_obj

definition view_of :: "registered_reasoner \<Rightarrow> reasoner_view" where
  "view_of e =
     \<lparr>view_reasoner_id = entry_reasoner_id e,
      view_reasoner_name = registered_reasoner_name (registration_of e),
      view_version = entry_version e, view_source = source e, view_registered_by = registered_by e,
      view_registered_at = registered_at e, view_updated_at = updated_at e,
      view_registration = canonical_registration (registration_of e)\<rparr>"

text \<open>What a read answers instead; \<open>SnapshotUnreadable\<close> is the server's own failure.\<close>

datatype read_refusal = ReasonerNotFound ustr | RegistrationVersionNotFound ustr ustr | SnapshotUnreadable ustr

definition list_reasoners :: "registry_store \<Rightarrow> reasoner_view list" where
  "list_reasoners store = map view_of (registry_entries store)"

definition get_reasoner :: "registry_store \<Rightarrow> ustr \<Rightarrow> read_refusal + reasoner_view" where
  "get_reasoner store i =
     (case registry_entry store i of None \<Rightarrow> Inl (ReasonerNotFound i) | Some e \<Rightarrow> Inr (view_of e))"

definition get_registration_version ::
    "reloading \<Rightarrow> registry_db \<Rightarrow> ustr \<Rightarrow> ustr \<Rightarrow> read_refusal + snapshot_view" where
  "get_registration_version reload db i v =
     rbind (map_sum SnapshotUnreadable id (get_snapshot reload db i v)) (\<lambda>found.
       case found of
         None \<Rightarrow> Inl (RegistrationVersionNotFound i v)
       | Some s \<Rightarrow>
           Inr \<lparr>snapshot_reasoner_id = i, snapshot_view_version = snapshot_version s,
                snapshot_since = first_registered_at s,
                snapshot_document = canonical_registration (snapshot_registration s)\<rparr>)"

text \<open>The list holds exactly what a read of one reasoner answers, by id.\<close>

lemma list_reasoners_views:
  assumes "distinct (map fst store)"
  shows "set (list_reasoners store) = {v. \<exists>i. get_reasoner store i = Inr v}"
    and "map view_reasoner_id (list_reasoners store) = map entry_reasoner_id (registry_entries store)"
proof -
  have "set (registry_entries store) = snd ` set store" by (simp add: registry_entries_def)
  also have "\<dots> = {e. \<exists>i. map_of store i = Some e}" using assms by (force simp: map_of_eq_Some_iff)
  finally have "set (registry_entries store) = {e. \<exists>i. map_of store i = Some e}" .
  then show "set (list_reasoners store) = {v. \<exists>i. get_reasoner store i = Inr v}"
    by (auto simp: list_reasoners_def get_reasoner_def registry_entry_def split: option.splits)
qed (simp add: list_reasoners_def view_of_def comp_def)

section \<open>Whether a ledger serves a mock's own registration\<close>

text \<open>
  \<open>registration_problem\<close>: the read's answer over a client, then nothing, or the version and the
  source served instead.
\<close>

definition registration_problem ::
    "versioning \<Rightarrow> reasoner_registration \<Rightarrow> client_failure + reasoner_view
      \<Rightarrow> client_failure + (ustr \<times> ustr) option" where
  "registration_problem version registration answer =
     rbind answer (\<lambda>found.
       Inr (if view_version found = version registration then None
            else Some (view_version found, view_source found)))"

text \<open>
  A mock that finds no problem is served a registration with the version of its own.
\<close>

lemma no_problem_served:
  assumes "registration_problem version registration (Inr v) = Inr None"
    and "get_reasoner store (registered_reasoner_id registration) = Inr v"
  obtains e where "registry_entry store (registered_reasoner_id registration) = Some e"
    "entry_version e = version registration" "view_registration v = canonical_registration (registration_of e)"
  using assms
  by (auto simp: registration_problem_def get_reasoner_def view_of_def split: option.splits if_splits)

section \<open>A client's key\<close>

text \<open>\<open>_header_key\<close>: \<open>None\<close> on the left is its \<open>ValueError\<close>.\<close>

definition header_key :: "ustr option \<Rightarrow> unit + ustr option" where
  "header_key key =
     (case key of
        None \<Rightarrow> Inr None
      | Some k \<Rightarrow>
          if blank k then Inr None
          else if list_all (\<lambda>c. 0x21 \<le> c \<and> c \<le> 0x7E) (strip k) then Inr (Some (strip k)) else Inl ())"

text \<open>\<open>_headers\<close> of a request, and the key \<open>_request\<close> sends: its own, or the client's.\<close>

definition request_headers :: "ustr option \<Rightarrow> ustr option \<Rightarrow> (ustr \<times> ustr) list" where
  "request_headers key content_type =
     (case key of None \<Rightarrow> [] | Some k \<Rightarrow> if k = [] then [] else [(lit ''X-DecisionLedger-Key'', k)])
     @ (case content_type of None \<Rightarrow> [] | Some t \<Rightarrow> if t = [] then [] else [(lit ''content-type'', t)])"

definition request_key :: "ustr option \<Rightarrow> ustr option \<Rightarrow> ustr option" where
  "request_key own api_key = (case own of Some k \<Rightarrow> if k = [] then api_key else own | None \<Rightarrow> api_key)"

text \<open>A key a client takes is the one the ledger reads from its configuration, where it is stripped too.\<close>

lemma header_key_authenticates:
  assumes "header_key (Some k) = Inr (Some sent)"
    and "make_key_ring sha256 reasoner_keys operator_key = Inr ring"
    and "(r, ks) \<in> set reasoner_keys" "strip k \<in> set ks"
  shows "authenticate sha256 ring (request_key None (Some sent)) = Inr (for_reasoner r)"
proof -
  have sent: "sent = strip k" "\<not> blank k" using assms(1) by (auto simp: header_key_def split: if_splits)
  have "(strip k, for_reasoner r) \<in> set (configured_keys reasoner_keys operator_key)"
    using assms(3,4) by (auto simp: configured_keys_principals)
  with add_keys_Inr [OF assms(2) [unfolded make_key_ring_def]]
  have "Option.bind (key_digest sha256 (strip k)) ring = Some (for_reasoner r)" by auto
  then show ?thesis
    using sent by (simp add: request_key_def authenticate_def ring_principal_def)
qed

end
