(* ===== verification/Spec2Isabelle.thy ===== *)
theory Spec2Isabelle
  imports Core_Claims Deployment_Claims Journal_Claims Audit_Claims Rules_Claims Resolution_Claims Api_Claims
    Policy_Prompt Policy_Claims Policy_Admission Policy_Escrow_Claims Reference_Claims
    Client_Claims Registration_Reads
begin

text \<open>
  A verification of DecisionLedger.

  \<^bold>\<open>The program.\<close> DecisionLedger governs decisions. A reasoner submits what it proposes to do
  (\<open>core/submission.py\<close>) under a registration (\<open>core/observation/registration.py\<close>) that names the
  gates its decisions go through and the bypass rules under which it may proceed without them. The ledger
  validates the submission, records who it is about (\<open>app/identity/\<close>), invokes the gates
  (\<open>app/gates.py\<close>; the rules gate under \<open>gates/rules/\<close> and the RAG policy gate under
  \<open>gates/policy_rag/\<close> are plugins), enforces the most restrictive action
  (\<open>app/enforcement/resolver.py\<close>), and stores one bundle per decision in an append-only store
  (\<open>app/audit/store.py\<close>), from which it can be looked up, replayed, verified against escrowed
  evidence (\<open>app/audit/artifacts.py\<close>), listed on an entity's timeline and resolved by a person or a
  deadline (\<open>core/resolution/\<close>, \<open>app/audit/resolution_journal.py\<close>), all through the API
  (\<open>app/api/\<close>) behind keys (\<open>app/auth.py\<close>).

  \<^bold>\<open>The vocabulary.\<close> A Python string is the list of its code points (\<open>ustr\<close>), lone surrogates
  included; a float is a rational, or one of the three other values where the code can meet them;
  JSON keeps the order of keys (\<open>Prelude\<close>, \<open>Python_Text\<close>, \<open>Json_Text\<close>). A raise is a value:
  \<open>Inl\<close> of an error datatype that has a constructor per exception of the source, combined with
  \<open>rbind\<close> and \<open>rmap\<close>. State is passed explicitly; what several requests share, and whatever a
  concurrent run may interleave, is a step relation closed under its steps. The locales \<open>kept\<close>
  and \<open>advancing\<close> of \<open>Prelude\<close> are the shared interface of such relations (an invariant every
  step keeps, an order every step moves along); \<open>write_once\<close> is that of a table whose rows are written
  once; \<open>conjunction_combinator\<close>, \<open>evidence_escrow\<close>, \<open>edge_source\<close> and \<open>self_delimiting\<close> are those of the
  combinator, of the escrow the gates use, of the edges a timeline follows and of encodings;
  \<open>decision_ledger\<close> and \<open>batch_ledger\<close> are what a client may rely on of the ledger. Each is
  interpreted on the model's own definitions, in the theory of the component that provides it.

  \<^bold>\<open>The decision core.\<close>
  \<^item> \<open>Actions\<close> (\<open>core/actions.py\<close>, \<open>core/gate/combinator.py\<close>), \<open>Predicate_Language\<close>
    (\<open>core/gate/predicate.py\<close>, with a denotational semantics), \<open>Storable\<close> (\<open>storage_problem\<close> and the
    escaping of messages), \<open>Gate_Contract\<close> (verdict, output, input), \<open>Identity\<close> and
    \<open>Identity_Journal\<close> (\<open>core/identity.py\<close>), \<open>Registration\<close>, \<open>Submission\<close>, \<open>Bundle\<close> (\<open>core/bundle.py\<close>,
    \<open>app/audit/bundle.py\<close>): the data with its validators.
  \<^item> \<open>Enforcement\<close> (\<open>app/enforcement/resolver.py\<close>), with \<open>Enforcement_Spec\<close>, the specification it
    refines, and \<open>Enforcement_Claims\<close>: tiers, maximum, monotonicity, floors, order of gates.
  \<^item> \<open>Identity_Service\<close> (\<open>app/identity/\<close>), \<open>Gates\<close> (\<open>app/gates.py\<close>, \<open>core/gate_request.py\<close>) and \<open>Submit\<close>
    (\<open>app/submit.py\<close>), composed as \<open>decide\<close>; \<open>Submit_Correct\<close> and \<open>Submit_Claims\<close>: accepted submissions
    are decided, each gate leaves one record, gates fail closed; \<open>Replay\<close>: the bundle replays.
  \<^item> \<open>Core_Claims\<close> and \<open>Deployment_Claims\<close>: predicates, bypass evidence, intake and what a deployment
    that started is known to have.

  \<^bold>\<open>The ledger's state.\<close>
  \<^item> \<open>Registry\<close> (\<open>app/reasoner_registry.py\<close>, \<open>app/audit/registrations.py\<close>) with \<open>Registry_Correct\<close>,
    \<open>Registry_Restart\<close>, \<open>Registry_Claims\<close>; \<open>Registration_Version\<close>: the version addresses the content.
  \<^item> \<open>Audit_Store\<close> (\<open>app/audit/store.py\<close>, \<open>app/audit/entity_journal.py\<close>), \<open>Linked_Entities\<close>,
    \<open>Escrow\<close>; \<open>Audit_Correct\<close>, \<open>Audit_Claims\<close>, \<open>Journal_Claims\<close>: append-only, read back, replay,
    projection and walk.
  \<^item> \<open>Resolution\<close> and \<open>Resolution_Claims\<close>: attempts, the realized action, and what overlapping
    requests can and cannot do. A request is a machine that advances by one statement.
  \<^item> \<open>Auth\<close>, \<open>Api_Problems\<close>, \<open>Decisions_Api\<close>, \<open>Api_Claims\<close>: keys, the operations behind the
    routes, batches, tenants.

  \<^bold>\<open>The gates.\<close>
  \<^item> \<open>Rules_Gate\<close> and \<open>Rules_Claims\<close> (\<open>gates/rules/src/rules_gate/\<close>).
  \<^item> The RAG policy gate (\<open>gates/policy_rag/src/policy_rag_gate/\<close>): \<open>Policy_Corpus\<close> (corpora and the
    contract of a provider), \<open>Policy_Retrieval\<close> and \<open>Policy_Precedence\<close> (evidence in order),
    \<open>Policy_Render\<close> and \<open>Policy_Prompt\<close> (prompts), \<open>Prompt_Registry\<close> (templates, profiles, assets),
    \<open>Policy_Gate\<close> (building, admission, evaluation), \<open>Policy_Escrow\<close> (escrow and verification), with
    \<open>Policy_Claims\<close>, \<open>Policy_Admission\<close>, \<open>Policy_Escrow_Claims\<close> and the deployment of \<open>Policy_Examples\<close>.
  \<^item> Its reference provider: \<open>Corpus_Chunks\<close> and \<open>Corpus_Loader\<close> (\<open>corpus_loader.py\<close>),
    \<open>Reference_Provider\<close> (\<open>retriever.py\<close>, \<open>providers/reference.py\<close>); \<open>Fusion_Claims\<close>, and \<open>Reference_Claims\<close>,
    which joins loading, retrieval, the gate's contract and its escrow.

  \<^bold>\<open>The callers.\<close>
  \<^item> \<open>Ledger_Client\<close> (\<open>app/client.py\<close>, with the problem documents of \<open>core/exceptions.py\<close>): submitting, batches
    and reading bundles, in the ledger's process and over a network that may lose a request or its
    answer. \<open>Client_Contract\<close> states what a caller may rely on as locales and proves them of the ledger
    over HTTP; \<open>Client_Claims\<close>: both clients answer alike. \<open>Registration_Reads\<close>: reading registrations,
    the check a mock makes of its own, and a client's key.
  \<^item> \<open>Assembly\<close>: how a reasoner turns its evidence into a submission the ledger takes. \<open>Daily_Run\<close> and
    \<open>Batch_Run\<close> are the two reasoners whose logic is their own (\<open>reasoners/mock_daily\<close>,
    \<open>reasoners/mock_batch\<close>): rows, computation, registration, plan and run, every way a run stops
    included; \<open>Daily_Claims\<close> and \<open>Batch_Claims\<close>: what a run holds is what the ledger gained.

  \<^bold>\<open>Parameters, and what is assumed of them.\<close> SHA-256 is any function (\<open>digest\<close>); a property that
  needs its values to be 64 hexadecimal digits, or distinct for distinct bytes, says so. \<open>repr\<close> of a
  float is any function whose texts JSON reads back (\<open>float_texts\<close>). A gate is what one call of it
  ended in; a provider, a resolver, a language model client and a search engine are functions that
  may fail, and whatever they answer is checked as the code checks it. pydantic and YAML reading, uuid
  and jsonb spelling and the wording of messages are parameters; so is the network, call by call. A float operation rounds by a
  parameter, assumed monotone where order matters. Floats have no negative zero. Clocks, generated ids
  and durations are inputs.

  \<^bold>\<open>Bounds and fuel.\<close> No definition has fuel: every loop of the source recurses on its data, or has a
  termination proof (in \<open>Linked_Entities\<close> the measure counts the ids not yet seen). Limits of the
  source (128 and 256 characters, 50 passages, pages of a timeline, bytes of a body) are constants of
  the model with the source's values. \<open>executemany\<close> inserts its rows one by one and keeps what it wrote
  before a failure, as the driver does outside a transaction.

  \<^bold>\<open>Not modelled.\<close> The FastAPI plumbing (routing, dependencies, \<open>app/main.py\<close>), which is input and
  output; of \<open>app/client.py\<close> the calls a run does not make (the other reads, resolve, register), which
  forward to operations modelled here, and its timeouts; settings and
  the discovery of plugins by entry points; opening and closing connections; the SQL of schemas, whose
  constraints are the invariants and checks of the tables; \<open>recent_recorded\<close>, whose query leaves the
  order of ties open; a store that fails between the two writes of a corpus load; the clients of
  language models (\<open>core/llm/\<close>, \<open>policy_rag_gate/llm/\<close>); monitoring; the evaluation harnesses
  (\<open>eval/\<close>, \<open>core/eval/\<close>, \<open>policy_rag_gate/eval/\<close>); the MCP integration, an adapter that calls the HTTP API;
  the reports and command lines of the two mocks; and the other reasoners (\<open>account_takeover\<close>, \<open>example\<close>,
  \<open>mock_stream\<close>, \<open>mock_text\<close>), example programs around a trained model or a language model.
\<close>

end
